(* ===== verification/Prelude.thy ===== *)
theory Prelude
  imports Main "HOL-Library.Word" "HOL-Library.Char_ord" "HOL-Library.List_Lexorder" "HOL-Library.Multiset"
begin

text \<open>
  The vocabulary every component shares: Go's error values, the three ways a Go call can
  end (a value, an error, a panic), calls that thread a state, and the functions of the
  packages \<open>strings\<close>, \<open>strconv\<close> and \<open>bytes\<close> that the program uses.
  Go strings are byte sequences, here \<open>string\<close>; raw network and file data is a list of
  \<open>8 word\<close>.  The collection \<open>io_simps\<close> unfolds the sequencing of calls, and
  \<open>str_simps\<close> the string functions.
\<close>

named_theorems io_simps
named_theorems str_simps

type_synonym byte = "8 word"
type_synonym bytes = "8 word list"

section \<open>Errors, results and calls\<close>

text \<open>
  Errors are compared by identity in the source (\<open>err == redis.Nil\<close>,
  \<open>errors.Is(err, ErrRestart)\<close>), so the sentinels are constructors of their own;
  \<open>Wrapped\<close> is \<open>fmt.Errorf\<close> with \<open>%w\<close>, \<open>Joined\<close> is \<open>errors.Join\<close>, and \<open>Ext\<close> is any
  error of code outside the repository.
\<close>

datatype go_error =
    EOF
  | UnexpectedEOF
  | RedisNil
  | NotExist
  | ErrCancelled
  | ErrNoAuthorization
  | ErrTimeout
  | ErrRestart
  | TypeMismatch
  | Msg string
  | Ext string
  | Wrapped string go_error
  | TransportError int
  | ClientError string go_error
  | APIError int string
  | PruneError string go_error
  | RPCErr int string string
  | Joined "go_error list"

text \<open>\<open>errors.Is\<close>: the error itself, what it wraps, or one of the joined errors.\<close>

fun errors_is :: "go_error \<Rightarrow> go_error \<Rightarrow> bool" where
  "errors_is (Wrapped m e) t = (Wrapped m e = t \<or> errors_is e t)"
| "errors_is (Joined es) t = (Joined es = t \<or> (\<exists>e \<in> set es. errors_is e t))"
| "errors_is e t = (e = t)"

datatype 'a res = Ok 'a | Err go_error | Panic string


fun res_bind :: "'a res \<Rightarrow> ('a \<Rightarrow> 'b res) \<Rightarrow> 'b res" where
  "res_bind (Ok x) f = f x"
| "res_bind (Err e) f = Err e"
| "res_bind (Panic m) f = Panic m"

fun is_ok :: "'a res \<Rightarrow> bool" where
  "is_ok (Ok _) = True"
| "is_ok _ = False"

text \<open>
  A call that may change the state \<open>'w\<close>.  \<open>io_bind\<close> is the sequence
  \<open>x, err := m(); if err != nil { return err }\<close>: an error or a panic ends the
  caller, and the effects of the failed call stay.
\<close>

type_synonym ('w, 'a) io = "'w \<Rightarrow> 'a res \<times> 'w"

definition io_ret :: "'a \<Rightarrow> ('w, 'a) io" where
  "io_ret x w = (Ok x, w)"

definition io_err :: "go_error \<Rightarrow> ('w, 'a) io" where
  "io_err e w = (Err e, w)"

definition io_panic :: "string \<Rightarrow> ('w, 'a) io" where
  "io_panic m w = (Panic m, w)"

definition io_lift :: "'a res \<Rightarrow> ('w, 'a) io" where
  "io_lift r w = (r, w)"

definition io_bind :: "('w, 'a) io \<Rightarrow> ('a \<Rightarrow> ('w, 'b) io) \<Rightarrow> ('w, 'b) io" where
  "io_bind m f w =
     (case m w of (Ok x, w') \<Rightarrow> f x w' | (Err e, w') \<Rightarrow> (Err e, w') | (Panic p, w') \<Rightarrow> (Panic p, w'))"

text \<open>\<open>io_try m\<close> hands the error to the caller instead of ending it; a panic still ends it.\<close>

definition io_try :: "('w, 'a) io \<Rightarrow> ('w, 'a res) io" where
  "io_try m w = (case m w of (Panic p, w') \<Rightarrow> (Panic p, w') | (r, w') \<Rightarrow> (Ok r, w'))"

text \<open>\<open>fmt.Errorf\<close> around the error of a call.\<close>

definition wrap_error :: "string \<Rightarrow> ('w, 'a) io \<Rightarrow> ('w, 'a) io" where
  "wrap_error m f w = (case f w of (Err e, w1) \<Rightarrow> (Err (Wrapped m e), w1) | x \<Rightarrow> x)"

lemma io_run [io_simps]:
  "io_ret x w = (Ok x, w)" "io_err e w = (Err e, w)" "io_panic p w = (Panic p, w)"
  "io_lift r w = (r, w)"
  by (simp_all add: io_ret_def io_err_def io_panic_def io_lift_def)

lemma io_bind_simps [io_simps]:
  "m w = (Ok x, w') \<Longrightarrow> io_bind m f w = f x w'"
  "m w = (Err e, w') \<Longrightarrow> io_bind m f w = (Err e, w')"
  "m w = (Panic p, w') \<Longrightarrow> io_bind m f w = (Panic p, w')"
  by (simp_all add: io_bind_def)

lemma io_try_simps [io_simps]:
  "m w = (Ok x, w') \<Longrightarrow> io_try m w = (Ok (Ok x), w')"
  "m w = (Err e, w') \<Longrightarrow> io_try m w = (Ok (Err e), w')"
  "m w = (Panic p, w') \<Longrightarrow> io_try m w = (Panic p, w')"
  by (simp_all add: io_try_def)

lemma io_bind_OkE:
  assumes "io_bind m f w = (Ok y, w')"
  obtains x w1 where "m w = (Ok x, w1)" "f x w1 = (Ok y, w')"
  using assms by (auto simp: io_bind_def split: prod.splits res.splits)

lemma io_bind_assoc: "io_bind (io_bind m f) g = io_bind m (\<lambda>x. io_bind (f x) g)"
  by (rule ext) (simp add: io_bind_def split: prod.splits res.splits)

lemma io_bind_ret [simp]: "io_bind (io_ret x) f = f x"
  by (rule ext) (simp add: io_bind_def io_ret_def)

lemma io_bind_err [simp]: "io_bind (io_err e) f = io_err e"
  by (rule ext) (simp add: io_bind_def io_err_def)

text \<open>
  A call that leaves the observation \<open>I\<close> of the state unchanged, however it ends.  The
  collection \<open>keeps_intros\<close> derives it along the structure of the call.
\<close>

named_theorems keeps_intros

definition keeps :: "('w \<Rightarrow> 'c) \<Rightarrow> ('w, 'a) io \<Rightarrow> bool" where
  "keeps I m = (\<forall>w. I (snd (m w)) = I w)"

lemma keepsD: "keeps I m \<Longrightarrow> m w = (x, w') \<Longrightarrow> I w' = I w"
  by (metis keeps_def snd_conv)

lemma keeps_pure [keeps_intros]:
  "keeps I (io_ret x)" "keeps I (io_err e)" "keeps I (io_panic p)" "keeps I (io_lift r)"
  by (simp_all add: keeps_def io_run)

lemma keeps_bind [keeps_intros]:
  assumes "keeps I m" "\<And>x. keeps I (f x)"
  shows "keeps I (io_bind m f)"
  using assms by (auto simp: keeps_def io_bind_def split: prod.split res.split) (metis snd_conv)+

lemma keeps_try [keeps_intros]: "keeps I m \<Longrightarrow> keeps I (io_try m)"
  by (auto simp: keeps_def io_try_def split: prod.split res.split) (metis snd_conv)+

lemma keeps_if [keeps_intros]: "keeps I m \<Longrightarrow> keeps I n \<Longrightarrow> keeps I (if b then m else n)"
  by simp

text \<open>A call that may not return: \<open>None\<close> when it does not.\<close>

type_synonym ('w, 'a) run = "'w \<Rightarrow> ('a res \<times> 'w) option"

definition run_io :: "('w, 'a) io \<Rightarrow> ('w, 'a) run" where
  "run_io m w = Some (m w)"

definition run_bind :: "('w, 'a) run \<Rightarrow> ('a \<Rightarrow> ('w, 'b) run) \<Rightarrow> ('w, 'b) run" where
  "run_bind m f w =
     (case m w of
        None \<Rightarrow> None
      | Some (Ok x, w') \<Rightarrow> f x w'
      | Some (Err e, w') \<Rightarrow> Some (Err e, w')
      | Some (Panic p, w') \<Rightarrow> Some (Panic p, w'))"

text \<open>\<open>run_try m\<close> hands the error to the caller.\<close>

definition run_try :: "('w, 'a) run \<Rightarrow> ('w, 'a res) run" where
  "run_try m w = map_option (\<lambda>(r, w'). (case r of Panic p \<Rightarrow> Panic p | _ \<Rightarrow> Ok r, w')) (m w)"

lemma run_simps [io_simps]:
  "run_io m w = Some (m w)"
  "m' w = None \<Longrightarrow> run_bind m' f w = None"
  "m' w = Some (Ok x, w') \<Longrightarrow> run_bind m' f w = f x w'"
  "m' w = Some (Err e, w') \<Longrightarrow> run_bind m' f w = Some (Err e, w')"
  "m' w = Some (Panic p, w') \<Longrightarrow> run_bind m' f w = Some (Panic p, w')"
  by (simp_all add: run_io_def run_bind_def)

section \<open>Strings\<close>

definition has_prefix :: "'a list \<Rightarrow> 'a list \<Rightarrow> bool" where
  "has_prefix p s = (take (length p) s = p)"

definition has_suffix :: "'a list \<Rightarrow> 'a list \<Rightarrow> bool" where
  "has_suffix x s = (length x \<le> length s \<and> drop (length s - length x) s = x)"

definition trim_prefix :: "'a list \<Rightarrow> 'a list \<Rightarrow> 'a list" where
  "trim_prefix p s = (if has_prefix p s then drop (length p) s else s)"

definition trim_suffix :: "'a list \<Rightarrow> 'a list \<Rightarrow> 'a list" where
  "trim_suffix x s = (if has_suffix x s then take (length s - length x) s else s)"

text \<open>\<open>strings.Index\<close>: where the pattern first occurs.\<close>

fun str_index :: "'a list \<Rightarrow> 'a list \<Rightarrow> nat option" where
  "str_index p [] = (if p = [] then Some 0 else None)"
| "str_index p (c # s) =
     (if has_prefix p (c # s) then Some 0 else map_option Suc (str_index p s))"

definition str_contains :: "'a list \<Rightarrow> 'a list \<Rightarrow> bool" where
  "str_contains s p = (str_index p s \<noteq> None)"

text \<open>\<open>strings.ContainsAny\<close>, \<open>strings.ContainsRune\<close> and \<open>slices.Contains\<close>.\<close>

definition contains_any :: "string \<Rightarrow> string \<Rightarrow> bool" where
  "contains_any s cs = list_ex (\<lambda>c. c \<in> set cs) s"

definition slices_contains :: "'a list \<Rightarrow> 'a \<Rightarrow> bool" where
  "slices_contains xs x = (x \<in> set xs)"

text \<open>\<open>strings.Split\<close> and \<open>strings.SplitN\<close> with limit 2, for a separator that is not empty.\<close>

lemma str_index_bound: "str_index p s = Some i \<Longrightarrow> i + length p \<le> length s"
proof (induction s arbitrary: i)
  case Nil
  then show ?case by (simp split: if_splits)
next
  case (Cons c s)
  show ?case
  proof (cases "has_prefix p (c # s)")
    case True
    then have "length (take (length p) (c # s)) = length p" by (simp add: has_prefix_def)
    with True Cons.prems show ?thesis by (simp split: if_splits)
  next
    case False
    with Cons.prems obtain j where "str_index p s = Some j" "i = Suc j" by auto
    with Cons.IH show ?thesis by simp
  qed
qed

function str_split :: "'a list \<Rightarrow> 'a list \<Rightarrow> 'a list list" where
  "str_split sep s =
     (if sep = [] then [s]
      else case str_index sep s of
        None \<Rightarrow> [s]
      | Some i \<Rightarrow> take i s # str_split sep (drop (i + length sep) s))"
  by pat_completeness auto
termination
proof (relation "measure (\<lambda>(sep, s). length s)")
  show "wf (measure (\<lambda>(sep, s). length s))" by simp
next
  fix sep s :: "'a list" and i
  assume "sep \<noteq> []" and "str_index sep s = Some i"
  then have "0 < length sep" "i + length sep \<le> length s" by (simp_all add: str_index_bound)
  then have "length s - (i + length sep) < length s" by linarith
  then show "((sep, drop (i + length sep) s), sep, s) \<in> measure (\<lambda>(sep, s). length s)"
    by simp
qed

declare str_split.simps [simp del]

definition splitn2 :: "'a list \<Rightarrow> 'a list \<Rightarrow> 'a list list" where
  "splitn2 sep s =
     (case str_index sep s of
        None \<Rightarrow> [s] | Some i \<Rightarrow> [take i s, drop (i + length sep) s])"

text \<open>\<open>strings.ReplaceAll\<close> of a one-byte pattern, and \<open>strings.Replace(s, old, new, 1)\<close>.\<close>

definition replace_all :: "char \<Rightarrow> string \<Rightarrow> string \<Rightarrow> string" where
  "replace_all c r s = concat (map (\<lambda>x. if x = c then r else [x]) s)"

definition replace_first :: "string \<Rightarrow> string \<Rightarrow> string \<Rightarrow> string" where
  "replace_first old new s =
     (case str_index old s of
        None \<Rightarrow> s | Some i \<Rightarrow> take i s @ new @ drop (i + length old) s)"

text \<open>\<open>strings.Trim\<close> with a cut set, and \<open>bytes.TrimSpace\<close> on ASCII.\<close>

definition trim_set :: "'a list \<Rightarrow> 'a list \<Rightarrow> 'a list" where
  "trim_set cs s =
     rev (dropWhile (\<lambda>c. c \<in> set cs) (rev (dropWhile (\<lambda>c. c \<in> set cs) s)))"

definition ascii_space :: string where
  "ascii_space = [CHR 0x09, CHR 0x0A, CHR 0x0B, CHR 0x0C, CHR 0x0D, CHR 0x20]"

definition trim_space :: "string \<Rightarrow> string" where
  "trim_space = trim_set ascii_space"

text \<open>\<open>bytes.Fields\<close> on ASCII: the maximal runs of non-space bytes.\<close>

fun fields_acc :: "string \<Rightarrow> string \<Rightarrow> string list" where
  "fields_acc acc [] = (if acc = [] then [] else [rev acc])"
| "fields_acc acc (c # s) =
     (if c \<in> set ascii_space
      then (if acc = [] then fields_acc [] s else rev acc # fields_acc [] s)
      else fields_acc (c # acc) s)"

definition str_fields :: "string \<Rightarrow> string list" where
  "str_fields s = fields_acc [] s"

text \<open>ASCII lower case, for \<open>strings.EqualFold\<close> and the field names of \<open>encoding/json\<close>.\<close>

definition lower_char :: "char \<Rightarrow> char" where
  "lower_char c =
     (let n = of_char c :: nat in if 65 \<le> n \<and> n \<le> 90 then char_of (n + 32) else c)"

definition equal_fold :: "string \<Rightarrow> string \<Rightarrow> bool" where
  "equal_fold s t = (map lower_char s = map lower_char t)"

lemma equal_fold_refl [simp]: "equal_fold s s"
  by (simp add: equal_fold_def)

section \<open>Numbers as text\<close>

definition is_digit :: "char \<Rightarrow> bool" where
  "is_digit c = (let n = of_char c :: nat in 48 \<le> n \<and> n \<le> 57)"

definition digit_val :: "char \<Rightarrow> nat" where
  "digit_val c = of_char c - 48"

definition digits_val :: "string \<Rightarrow> nat" where
  "digits_val s = foldl (\<lambda>n c. 10 * n + digit_val c) 0 s"

definition int64_min :: int where "int64_min = - (2 ^ 63)"
definition int64_max :: int where "int64_max = 2 ^ 63 - 1"

text \<open>\<open>strconv.Atoi\<close>: an optional sign, at least one digit, the value in the range of int.\<close>

definition go_atoi :: "string \<Rightarrow> int res" where
  "go_atoi s =
     (let neg = has_prefix ''-'' s;
          ds = (if has_prefix ''-'' s \<or> has_prefix ''+'' s then tl s else s);
          v = (if neg then - int (digits_val ds) else int (digits_val ds))
      in if ds = [] \<or> \<not> list_all is_digit ds then Err (Ext ''invalid syntax'')
         else if v < int64_min \<or> int64_max < v then Err (Ext ''value out of range'')
         else Ok v)"

text \<open>Durations are nanoseconds.\<close>

definition second :: int where "second = 1000000000"
definition minute :: int where "minute = 60 * 1000000000"

text \<open>\<open>strconv.ParseUint(s, 10, 64)\<close>.\<close>

definition go_parse_uint :: "string \<Rightarrow> nat res" where
  "go_parse_uint s =
     (if s = [] \<or> \<not> list_all is_digit s then Err (Ext ''invalid syntax'')
      else if 2 ^ 64 \<le> digits_val s then Err (Ext ''value out of range'')
      else Ok (digits_val s))"

text \<open>\<open>%d\<close>: the decimal digits of a number, most significant first.\<close>

fun nat_digits :: "nat \<Rightarrow> string" where
  "nat_digits n =
     (if n < 10 then [char_of (48 + n)] else nat_digits (n div 10) @ [char_of (48 + n mod 10)])"

declare nat_digits.simps [simp del]

definition fmt_d :: "int \<Rightarrow> string" where
  "fmt_d i = (if i < 0 then ''-'' @ nat_digits (nat (- i)) else nat_digits (nat i))"

section \<open>Bytes\<close>

definition byte_of_char :: "char \<Rightarrow> byte" where
  "byte_of_char c = word_of_nat (of_char c)"

definition char_of_byte :: "byte \<Rightarrow> char" where
  "char_of_byte b = char_of (unat b)"

definition string_of_bytes :: "bytes \<Rightarrow> string" where
  "string_of_bytes bs = map char_of_byte bs"

definition bytes_of_string :: "string \<Rightarrow> bytes" where
  "bytes_of_string s = map byte_of_char s"

text \<open>\<open>encoding/binary\<close>: the value of a big-endian and of a little-endian byte sequence.\<close>

definition be_val :: "bytes \<Rightarrow> nat" where
  "be_val bs = foldl (\<lambda>n b. 256 * n + unat b) 0 bs"

definition le_val :: "bytes \<Rightarrow> nat" where
  "le_val bs = be_val (rev bs)"

fun be_bytes :: "nat \<Rightarrow> nat \<Rightarrow> bytes" where
  "be_bytes 0 n = []"
| "be_bytes (Suc k) n = be_bytes k (n div 256) @ [word_of_nat (n mod 256)]"

definition le_bytes :: "nat \<Rightarrow> nat \<Rightarrow> bytes" where
  "le_bytes k n = rev (be_bytes k n)"

text \<open>The signed reading of a k-bit value: Go's conversion from uintK to intK.\<close>

definition to_signed :: "nat \<Rightarrow> nat \<Rightarrow> int" where
  "to_signed k n = (if n < 2 ^ (k - 1) then int n else int n - 2 ^ k)"

definition in_width :: "nat \<Rightarrow> int \<Rightarrow> bool" where
  "in_width k i = (- (2 ^ (k - 1)) \<le> i \<and> i < 2 ^ (k - 1))"

lemma to_signed_mod:
  assumes "in_width k i" "0 < k"
  shows "to_signed k (nat (i mod 2 ^ k)) = i"
proof -
  obtain m where k: "k = Suc m" using assms(2) by (cases k) auto
  show ?thesis
  proof (cases "0 \<le> i")
    case True
    with assms(1) have "i mod 2 ^ k = i" "nat i < 2 ^ m"
      by (simp_all add: in_width_def k nat_less_iff)
    with True show ?thesis by (simp add: to_signed_def k)
  next
    case False
    with assms(1) have b: "2 ^ m \<le> i + 2 ^ k" "i + 2 ^ k < 2 ^ k"
      by (simp_all add: in_width_def k)
    have "(0 :: int) < 2 ^ m" by simp
    with b have nn: "0 \<le> i + 2 ^ k" by linarith
    have "i mod 2 ^ k = (i + 2 ^ k) mod 2 ^ k" by simp
    also have "\<dots> = i + 2 ^ k" using nn b by (intro mod_pos_pos_trivial) auto
    finally have m: "i mod 2 ^ k = i + 2 ^ k" .
    have "\<not> nat (i + 2 ^ k) < 2 ^ m" using b nn by (simp add: nat_less_iff)
    with m nn show ?thesis unfolding to_signed_def by (simp add: k)
  qed
qed

lemma be_val_snoc: "be_val (bs @ [b]) = 256 * be_val bs + unat b"
  by (simp add: be_val_def)

lemma be_val_bound: "be_val bs < 256 ^ length bs"
proof (induction bs rule: rev_induct)
  case Nil
  then show ?case by (simp add: be_val_def)
next
  case (snoc b bs)
  have "unat b < 256" using unsigned_less [of b] by simp
  with snoc show ?case by (simp add: be_val_snoc)
qed

lemma length_be_bytes [simp]: "length (be_bytes k n) = k"
  by (induction k arbitrary: n) simp_all

lemma be_val_be_bytes: "n < 256 ^ k \<Longrightarrow> be_val (be_bytes k n) = n"
proof (induction k arbitrary: n)
  case 0
  then show ?case by (simp add: be_val_def)
next
  case (Suc k)
  then have "n div 256 < 256 ^ k" by (simp add: less_mult_imp_div_less mult.commute)
  moreover have "unat (word_of_nat (n mod 256) :: byte) = n mod 256"
    by (simp add: unat_of_nat)
  ultimately show ?case using Suc.IH by (simp add: be_val_snoc)
qed

lemma be_bytes_be_val [simp]: "be_bytes (length bs) (be_val bs) = bs"
proof (induction bs rule: rev_induct)
  case (snoc b bs)
  have "unat b < 256" using unsigned_less [of b] by simp
  with snoc show ?case by (simp add: be_val_snoc)
qed simp

lemma to_signed_mod_inverse:
  assumes "n < 2 ^ k" "0 < k"
  shows "nat (to_signed k n mod 2 ^ k) = n"
proof -
  have "int n mod 2 ^ k = int n" using assms(1) by (metis mod_less of_nat_mod of_nat_numeral of_nat_power)
  then show ?thesis by (simp add: to_signed_def)
qed

lemma length_le_bytes [simp]: "length (le_bytes k n) = k"
  by (simp add: le_bytes_def)

lemma le_val_le_bytes: "n < 256 ^ k \<Longrightarrow> le_val (le_bytes k n) = n"
  by (simp add: le_val_def le_bytes_def be_val_be_bytes)

lemma char_byte_inverse [simp]: "char_of_byte (byte_of_char c) = c"
proof -
  have "of_char c < (256 :: nat)" by (metis of_char_mod_256 mod_less_divisor zero_less_numeral)
  then have "unat (word_of_nat (of_char c) :: byte) = of_char c"
    by (simp add: unat_of_nat)
  then show ?thesis by (simp add: char_of_byte_def byte_of_char_def)
qed

lemma string_bytes_inverse [simp]: "string_of_bytes (bytes_of_string s) = s"
  by (simp add: string_of_bytes_def bytes_of_string_def comp_def)

section \<open>Lemmas on strings\<close>

lemma has_prefix_append [simp, str_simps]: "has_prefix p (p @ s)"
  by (simp add: has_prefix_def)

lemma has_prefixE: "has_prefix p s \<Longrightarrow> (\<And>t. s = p @ t \<Longrightarrow> P) \<Longrightarrow> P"
  by (metis append_take_drop_id has_prefix_def)

lemma has_suffix_append [simp, str_simps]: "has_suffix x (s @ x)"
  by (simp add: has_suffix_def)

lemma has_suffixE: "has_suffix x s \<Longrightarrow> (\<And>t. s = t @ x \<Longrightarrow> P) \<Longrightarrow> P"
  by (metis append_take_drop_id has_suffix_def)

lemma trim_prefix_append [simp, str_simps]: "trim_prefix p (p @ s) = s"
  by (simp add: trim_prefix_def)

lemma trim_suffix_append [simp, str_simps]: "trim_suffix x (s @ x) = s"
  by (simp add: trim_suffix_def)

lemma str_index_char: "c \<notin> set s \<Longrightarrow> str_index [c] (s @ c # t) = Some (length s)"
  by (induction s) (auto simp: has_prefix_def)

lemma str_index_char_None: "str_index [c] s = None \<longleftrightarrow> c \<notin> set s"
  by (induction s) (auto simp: has_prefix_def)

lemma str_index_char_Some:
  "str_index [c] s = Some i \<Longrightarrow> s = take i s @ c # drop (Suc i) s \<and> c \<notin> set (take i s)"
proof (induction s arbitrary: i)
  case Nil
  then show ?case by simp
next
  case (Cons x s)
  show ?case
  proof (cases "x = c")
    case True
    with Cons.prems show ?thesis by (simp add: has_prefix_def)
  next
    case False
    with Cons.prems obtain j where "str_index [c] s = Some j" "i = Suc j"
      by (auto simp: has_prefix_def)
    with Cons.IH [of j] False show ?thesis by auto
  qed
qed

lemma str_split_cut: "c \<notin> set x \<Longrightarrow> str_split [c] (x @ c # r) = x # str_split [c] r"
  by (subst str_split.simps) (simp add: str_index_char)

lemma str_split_Nil: "str_split [c] [] = [[]]"
  by (subst str_split.simps) simp

lemma str_split_one: "c \<notin> set x \<Longrightarrow> str_split [c] x = [x]"
  by (subst str_split.simps) (simp add: str_index_char_None [THEN iffD2])

lemma str_split_append: "str_split [c] (x @ c # r) = str_split [c] x @ str_split [c] r"
proof (induction "length x" arbitrary: x rule: less_induct)
  case less
  show ?case
  proof (cases "c \<in> set x")
    case True
    then obtain y z where x: "x = y @ c # z" "c \<notin> set y" by (meson split_list_first)
    then show ?thesis using less [of z] by (simp add: str_split_cut)
  next
    case False
    then show ?thesis by (simp add: str_split_cut str_split_one)
  qed
qed

lemma replace_all_no_old: "c \<notin> set r \<Longrightarrow> c \<notin> set (replace_all c r s)"
  by (auto simp: replace_all_def)

lemma set_replace_all: "set (replace_all c r s) \<subseteq> set s \<union> set r"
  by (auto simp: replace_all_def split: if_splits)

lemma nat_digits_digits: "list_all is_digit (nat_digits n)"
proof (induction n rule: nat_digits.induct)
  case (1 n)
  have d: "is_digit (char_of (48 + m))" if "m < 10" for m :: nat
    using that by (simp add: is_digit_def)
  show ?case
  proof (cases "n < 10")
    case True
    then show ?thesis by (simp add: nat_digits.simps d)
  next
    case False
    then have "list_all is_digit (nat_digits (n div 10))" by (rule "1.IH")
    moreover have "is_digit (char_of (48 + n mod 10))" by (rule d) simp
    ultimately show ?thesis using False by (simp add: nat_digits.simps [of n])
  qed
qed

lemma nat_digits_not_Nil [simp]: "nat_digits n \<noteq> []"
  by (simp add: nat_digits.simps)

lemma digits_val_nat_digits: "digits_val (nat_digits n) = n"
proof (induction n rule: nat_digits.induct)
  case (1 n)
  have d: "digit_val (char_of (48 + m)) = m" if "m < 10" for m :: nat
    using that by (simp add: digit_val_def)
  have snoc: "digits_val (s @ [c]) = 10 * digits_val s + digit_val c" for s c
    by (simp add: digits_val_def)
  show ?case
  proof (cases "n < 10")
    case True
    then show ?thesis by (simp add: nat_digits.simps digits_val_def d)
  next
    case False
    then have "digits_val (nat_digits (n div 10)) = n div 10" by (rule "1.IH")
    with False show ?thesis by (simp add: nat_digits.simps [of n] snoc d)
  qed
qed

section \<open>Maps of lists, sorting and iteration order\<close>

text \<open>
  \<open>m[k] = append(m[k], x)\<close> on a map held as an association list.  The order of the list
  is that of the first occurrences; code that ranges over the map does so in an order
  the runtime chooses, which a model takes as a parameter \<open>ord\<close> with \<open>any_order ord\<close>.
\<close>

fun group_add :: "'k \<Rightarrow> 'v \<Rightarrow> ('k \<times> 'v list) list \<Rightarrow> ('k \<times> 'v list) list" where
  "group_add k v [] = [(k, [v])]"
| "group_add k v ((k', vs) # m) =
     (if k = k' then (k', vs @ [v]) # m else (k', vs) # group_add k v m)"

definition group_all :: "('k \<times> 'v) list \<Rightarrow> ('k \<times> 'v list) list" where
  "group_all kvs = foldl (\<lambda>m kv. group_add (fst kv) (snd kv) m) [] kvs"

definition group_get :: "('k \<times> 'v list) list \<Rightarrow> 'k \<Rightarrow> 'v list" where
  "group_get m k = (case map_of m k of None \<Rightarrow> [] | Some vs \<Rightarrow> vs)"

lemma group_get_add: "group_get (group_add k v m) k' = group_get m k' @ (if k' = k then [v] else [])"
  by (induction k v m rule: group_add.induct) (auto simp: group_get_def)

lemma keys_group_add:
  "set (map fst (group_add k v m)) = insert k (set (map fst m))"
  "distinct (map fst m) \<Longrightarrow> distinct (map fst (group_add k v m))"
  by (induction k v m rule: group_add.induct) auto

lemma group_all_snoc: "group_all (kvs @ [kv]) = group_add (fst kv) (snd kv) (group_all kvs)"
  by (simp add: group_all_def)

lemma group_get_all: "group_get (group_all kvs) k = map snd (filter (\<lambda>kv. fst kv = k) kvs)"
  by (induction kvs rule: rev_induct) (auto simp: group_all_snoc group_get_add, simp add: group_all_def group_get_def)

lemma keys_group_all:
  "set (map fst (group_all kvs)) = set (map fst kvs)" "distinct (map fst (group_all kvs))"
proof (induction kvs rule: rev_induct)
  case (snoc kv kvs)
  { case 1
    show ?case using snoc(1) by (simp only: group_all_snoc keys_group_add) simp
  next
    case 2
    show ?case using snoc(2) by (simp only: group_all_snoc keys_group_add)
  }
qed (simp_all add: group_all_def)

text \<open>
  \<open>sort.Slice\<close> promises a permutation in which no later element is less than an
  earlier one; the order of equal elements is left open, so the sorting function is a parameter.
\<close>

definition sorts_by :: "('a \<Rightarrow> int) \<Rightarrow> ('a list \<Rightarrow> 'a list) \<Rightarrow> bool" where
  "sorts_by f srt =
     (\<forall>xs. mset (srt xs) = mset xs \<and> sorted_wrt (\<lambda>a b. f b \<le> f a) (srt xs))"

definition any_order :: "('a list \<Rightarrow> 'a list) \<Rightarrow> bool" where
  "any_order ord = (\<forall>xs. mset (ord xs) = mset xs)"

lemma sorts_by_sort_key: "sorts_by f (sort_key (\<lambda>x. - f x))"
  unfolding sorts_by_def
proof (intro allI conjI)
  fix xs :: "'a list"
  have "sorted (map (\<lambda>x. - f x) (sort_key (\<lambda>x. - f x) xs))" by simp
  then show "sorted_wrt (\<lambda>a b. f b \<le> f a) (sort_key (\<lambda>x. - f x) xs)" by (simp add: sorted_map)
qed simp

lemma sorts_byD:
  "sorts_by f srt \<Longrightarrow> mset (srt xs) = mset xs"
  "sorts_by f srt \<Longrightarrow> set (srt xs) = set xs"
  "sorts_by f srt \<Longrightarrow> length (srt xs) = length xs"
  "sorts_by f srt \<Longrightarrow> sorted_wrt (\<lambda>a b. f b \<le> f a) (srt xs)"
  by (simp_all add: sorts_by_def) (metis mset_eq_setD, metis mset_eq_length)

lemma any_orderD: "any_order ord \<Longrightarrow> set (ord xs) = set xs" "any_order ord \<Longrightarrow> mset (ord xs) = mset xs"
  by (simp_all add: any_order_def) (metis mset_eq_setD)

section \<open>Maps of strings\<close>

text \<open>
  A \<open>map[string]string\<close> is a list of its entries, one for each key: \<open>m[k] = v\<close>, \<open>delete(m, k)\<close>
  and \<open>m[k]\<close>, which is the empty string for a missing key.
\<close>

definition map_put :: "string \<Rightarrow> string \<Rightarrow> (string \<times> string) list \<Rightarrow> (string \<times> string) list" where
  "map_put k v m = filter (\<lambda>x. fst x \<noteq> k) m @ [(k, v)]"

definition map_del :: "string \<Rightarrow> (string \<times> string) list \<Rightarrow> (string \<times> string) list" where
  "map_del k m = filter (\<lambda>x. fst x \<noteq> k) m"

definition map_lookup :: "(string \<times> string) list \<Rightarrow> string \<Rightarrow> string" where
  "map_lookup m k = (case map_of m k of None \<Rightarrow> [] | Some v \<Rightarrow> v)"

definition wf_map :: "(string \<times> string) list \<Rightarrow> bool" where
  "wf_map m = distinct (map fst m)"

lemma map_of_filter_key: "map_of (filter (\<lambda>x. fst x \<noteq> k) m) = (map_of m)(k := None)"
  by (induction m) (auto simp: fun_eq_iff)

lemma distinct_filter_key: "distinct (map fst m) \<Longrightarrow> distinct (map fst (filter (\<lambda>x. fst x \<noteq> k) m))"
  by (induction m) auto

lemma map_put_facts [simp]:
  "map_of (map_put k v m) = (map_of m)(k \<mapsto> v)" "wf_map m \<Longrightarrow> wf_map (map_put k v m)"
  "map_of (map_del k m) = (map_of m)(k := None)" "wf_map m \<Longrightarrow> wf_map (map_del k m)"
  using distinct_filter_key [of m k]
  by (auto simp: map_put_def map_del_def map_of_filter_key map_add_def wf_map_def fun_eq_iff split: option.split)

lemma distinct_fst_sort: "distinct (map fst m) \<Longrightarrow> distinct (map fst (sort_key fst m))"
proof -
  assume "distinct (map fst m)"
  then have "distinct (sort (map fst m))" by simp
  moreover have "map fst (sort_key fst m) = sort (map fst m)"
    by (rule properties_for_sort [symmetric]) simp_all
  ultimately show ?thesis by simp
qed

lemma map_of_sort:
  assumes "distinct (map fst m)"
  shows "map_of (sort_key fst m) = map_of m"
  using assms distinct_fst_sort [OF assms] by (intro map_of_inject_set [THEN iffD2]) simp_all

section \<open>Integers of 64 bits\<close>

definition wrap64 :: "int \<Rightarrow> int" where
  "wrap64 i = (i + 2 ^ 63) mod 2 ^ 64 - 2 ^ 63"

lemma wrap64_id: "int64_min \<le> i \<Longrightarrow> i \<le> int64_max \<Longrightarrow> wrap64 i = i"
  by (simp add: wrap64_def int64_min_def int64_max_def)

end
