(* ===== verification/ByteSource.thy ===== *)
theory ByteSource
  imports Prelude
begin

text \<open>
  Reading bytes.  \<open>byte_source\<close> is what a parser relies on when it calls
  \<open>io.ReadFull\<close>: while the source still holds as many bytes as asked for, the call
  returns exactly the next ones.  The buffered reader of \<open>common/mc/nbt/decoder.go\<close> is
  the first instance; the connection reader of \<open>common/mc/protocol/protocol.go\<close> is
  another, for reads of one byte (theory Protocol).
\<close>

section \<open>A buffered reader\<close>

text \<open>
  A \<open>bufio.Reader\<close>: the bytes that are still to come and the error that follows
  them (\<open>io.EOF\<close>, or the error of the underlying reader).
\<close>

record byte_in =
  bi_rest :: bytes
  bi_end :: go_error

text \<open>
  \<open>io.ReadFull(dec.r, buf)\<close> for a buffer of \<open>n\<close> bytes: a short read that ends with
  \<open>io.EOF\<close> is \<open>io.ErrUnexpectedEOF\<close>, and nothing at all is the error as it is.
\<close>

definition read_full :: "nat \<Rightarrow> (byte_in, bytes) io" where
  "read_full n s =
     (if n \<le> length (bi_rest s) then (Ok (take n (bi_rest s)), s\<lparr>bi_rest := drop n (bi_rest s)\<rparr>)
      else if bi_rest s = [] then (Err (bi_end s), s)
      else (Err (if bi_end s = EOF then UnexpectedEOF else bi_end s), s\<lparr>bi_rest := []\<rparr>))"

text \<open>\<open>ReadByte\<close>.\<close>

definition read_byte :: "(byte_in, byte) io" where
  "read_byte s =
     (case bi_rest s of
        [] \<Rightarrow> (Err (bi_end s), s)
      | b # bs \<Rightarrow> (Ok b, s\<lparr>bi_rest := bs\<rparr>))"

lemma read_full_ok [simp]:
  "length bs = n \<Longrightarrow> read_full n \<lparr>bi_rest = bs @ rest, bi_end = e\<rparr> = (Ok bs, \<lparr>bi_rest = rest, bi_end = e\<rparr>)"
  by (simp add: read_full_def)

lemma read_byte_ok [simp]:
  "read_byte \<lparr>bi_rest = b # rest, bi_end = e\<rparr> = (Ok b, \<lparr>bi_rest = rest, bi_end = e\<rparr>)"
  by (simp add: read_byte_def)

lemma read_full_OkD:
  "read_full n s = (Ok bs, s') \<Longrightarrow>
     n \<le> length (bi_rest s) \<and> length bs = n \<and> bi_rest s = bs @ bi_rest s' \<and> bi_end s' = bi_end s
     \<and> length (bi_rest s') = length (bi_rest s) - n"
  by (auto simp: read_full_def split: if_splits)

lemma read_byte_OkD:
  "read_byte s = (Ok b, s') \<Longrightarrow> bi_rest s = b # bi_rest s' \<and> bi_end s' = bi_end s"
  by (auto simp: read_byte_def split: list.splits)

lemma read_full_no_panic: "read_full n s \<noteq> (Panic m, s')"
  by (auto simp: read_full_def)

lemma read_byte_no_panic: "read_byte s \<noteq> (Panic m, s')"
  by (auto simp: read_byte_def split: list.splits)

lemma read_full_length: "length (bi_rest (snd (read_full n s))) \<le> length (bi_rest s)"
  by (simp add: read_full_def)

lemma read_byte_length: "length (bi_rest (snd (read_byte s))) \<le> length (bi_rest s)"
  by (simp add: read_byte_def split: list.splits)

section \<open>The contract of a byte source\<close>

text \<open>
  \<open>content\<close> is the bytes a source will still deliver, \<open>good\<close> the states in which it
  keeps the contract, and \<open>chunk\<close> the largest read it is promised for.
\<close>

locale byte_source =
  fixes rd :: "nat \<Rightarrow> ('r, bytes) io"
    and content :: "'r \<Rightarrow> bytes"
    and good :: "'r \<Rightarrow> bool"
    and chunk :: nat
  assumes rd_next:
      "\<lbrakk>good r; n \<le> chunk; n \<le> length (content r)\<rbrakk>
        \<Longrightarrow> \<exists>r'. rd n r = (Ok (take n (content r)), r') \<and> content r' = drop n (content r) \<and> good r'"
begin

lemma rd_append:
  assumes "good r" "content r = bs @ rest" "length bs = n" "n \<le> chunk"
  obtains r' where "rd n r = (Ok bs, r')" "content r' = rest" "good r'"
proof -
  from assms have "n \<le> length (content r)" by simp
  with rd_next [of r n] assms
  obtain r' where r: "rd n r = (Ok (take n (content r)), r')"
      "content r' = drop n (content r)" "good r'" by blast
  show thesis
  proof (rule that)
    show "rd n r = (Ok bs, r')" using r(1) assms by simp
    show "content r' = rest" using r(2) assms by simp
    show "good r'" by (rule r(3))
  qed
qed

lemma rd_one:
  assumes "good r" "content r = b # rest" "0 < chunk"
  obtains r' where "rd 1 r = (Ok [b], r')" "content r' = rest" "good r'"
  using assms by (auto intro: rd_append [where bs = "[b]" and n = 1])

end

text \<open>The buffered reader keeps the contract for every read, at every state.\<close>

interpretation bufio: byte_source read_full bi_rest "\<lambda>_. True" n for n
  by unfold_locales (simp add: read_full_def)

end
