(* ===== verification/Nbt.thy ===== *)
theory Nbt
  imports ByteSource
begin

text \<open>
  \<open>src/backend/common/mc/nbt/decoder.go\<close>: the decoder of Minecraft's NBT format.  The
  destination of a Go \<open>reflect.Value\<close> is a type with the value it holds; the readers
  update it in place, so every reader returns the destination with the error, and the
  input that is left.  Struct fields are exported, as \<open>reflect\<close> demands of a field it
  sets.
\<close>

section \<open>Destinations\<close>

text \<open>
  The Go types a destination can have: the signed integers \<open>int8\<close> to \<open>int64\<close> by their width, \<open>int\<close>, the byte
  \<open>uint8\<close>, floats, strings, slices, structs with their fields (name, \<open>nbt\<close> tag,
  type), and any other kind.
\<close>

datatype nbt_ty =
    TInt nat
  | TGoInt
  | TUint8
  | TFloat nat
  | TString
  | TSlice nbt_ty
  | TStruct "(string \<times> string \<times> nbt_ty) list"
  | TOther

text \<open>A float is the IEEE bits that were read, before they are rounded to the field's width.\<close>

datatype nbt_val =
    VInt int
  | VSingle nat
  | VDouble nat
  | VStr string
  | VSlice "nbt_val list"
  | VStruct "nbt_val list"
  | VOther

fun zero_of :: "nbt_ty \<Rightarrow> nbt_val" where
  "zero_of (TInt w) = VInt 0"
| "zero_of TGoInt = VInt 0"
| "zero_of TUint8 = VInt 0"
| "zero_of (TFloat w) = VDouble 0"
| "zero_of TString = VStr []"
| "zero_of (TSlice t) = VSlice []"
| "zero_of (TStruct fs) = VStruct (map (\<lambda>(n, g, t). zero_of t) fs)"
| "zero_of TOther = VOther"

text \<open>A \<open>*reflect.Value\<close>: \<open>None\<close> is the nil pointer of a value that is skipped.\<close>

type_synonym nbt_dest = "(nbt_ty \<times> nbt_val) option"

text \<open>
  What a reader leaves: the error (if any), the destination, and the input.  \<open>None\<close>
  instead of it means that the fuel ran out.
\<close>

type_synonym nbt_out = "unit res \<times> nbt_dest \<times> byte_in"

text \<open>
  \<open>getStructFields\<close>: a field is known by its tag, or by its name when it has none; of
  two fields with the same name the later one wins.
\<close>

definition field_key :: "string \<times> string \<times> nbt_ty \<Rightarrow> string" where
  "field_key f = (if fst (snd f) = [] then fst f else fst (snd f))"

fun struct_fields_from :: "nat \<Rightarrow> (string \<times> string \<times> nbt_ty) list \<Rightarrow> string \<Rightarrow> nat option" where
  "struct_fields_from i [] = Map.empty"
| "struct_fields_from i (f # fs) =
     (\<lambda>n. case struct_fields_from (Suc i) fs n of
        Some j \<Rightarrow> Some j | None \<Rightarrow> if n = field_key f then Some i else None)"

definition getStructFields :: "nbt_ty \<Rightarrow> string \<Rightarrow> nat option" where
  "getStructFields t = (case t of TStruct fs \<Rightarrow> struct_fields_from 0 fs | _ \<Rightarrow> Map.empty)"

text \<open>\<open>v.Field(idx)\<close> as a destination, and the struct after that field was written.\<close>

definition field_dest :: "nbt_ty \<times> nbt_val \<Rightarrow> nat \<Rightarrow> nbt_dest" where
  "field_dest d i =
     (case d of (TStruct fs, VStruct vs) \<Rightarrow>
        if i < length fs \<and> i < length vs then Some (snd (snd (fs ! i)), vs ! i) else None
      | _ \<Rightarrow> None)"

definition field_update :: "nbt_ty \<times> nbt_val \<Rightarrow> nat \<Rightarrow> nbt_dest \<Rightarrow> nbt_ty \<times> nbt_val" where
  "field_update d i x =
     (case (d, x) of ((t, VStruct vs), Some (_, v)) \<Rightarrow> (t, VStruct (vs[i := v])) | _ \<Rightarrow> d)"

text \<open>Setting a value: the kind is checked first, and an absent destination takes anything.\<close>

definition put :: "(nbt_ty \<Rightarrow> nbt_val option) \<Rightarrow> nbt_dest \<Rightarrow> unit res \<times> nbt_dest" where
  "put f d =
     (case d of
        None \<Rightarrow> (Ok (), None)
      | Some (t, v) \<Rightarrow>
          (case f t of None \<Rightarrow> (Err TypeMismatch, Some (t, v)) | Some v' \<Rightarrow> (Ok (), Some (t, v'))))"

text \<open>\<open>CanInt\<close> with \<open>SetInt\<close>, which truncates to the width; \<open>CanFloat\<close>; the slices.\<close>

definition wrap_int :: "nat \<Rightarrow> int \<Rightarrow> int" where
  "wrap_int w i = to_signed w (nat (i mod 2 ^ w))"

definition as_int :: "int \<Rightarrow> nbt_ty \<Rightarrow> nbt_val option" where
  "as_int i t = (case t of TInt w \<Rightarrow> Some (VInt (wrap_int w i)) | TGoInt \<Rightarrow> Some (VInt (wrap_int 64 i)) | _ \<Rightarrow> None)"

definition as_float :: "nbt_val \<Rightarrow> nbt_ty \<Rightarrow> nbt_val option" where
  "as_float x t = (case t of TFloat w \<Rightarrow> Some x | _ \<Rightarrow> None)"

definition as_string :: "string \<Rightarrow> nbt_ty \<Rightarrow> nbt_val option" where
  "as_string s t = (if t = TString then Some (VStr s) else None)"

definition as_slice :: "nbt_ty \<Rightarrow> int list \<Rightarrow> nbt_ty \<Rightarrow> nbt_val option" where
  "as_slice e xs t = (if t = TSlice e then Some (VSlice (map VInt xs)) else None)"

section \<open>Readers of one value\<close>

text \<open>A reader of a fixed number of bytes: a short input leaves the destination alone.\<close>

definition read_fixed :: "nat \<Rightarrow> (bytes \<Rightarrow> nbt_ty \<Rightarrow> nbt_val option) \<Rightarrow> nbt_dest \<Rightarrow> byte_in \<Rightarrow> nbt_out" where
  "read_fixed n f d s =
     (case read_full n s of
        (Ok bs, s') \<Rightarrow> (case put (f bs) d of (r, d') \<Rightarrow> (r, d', s'))
      | (Err e, s') \<Rightarrow> (Err e, d, s')
      | (Panic p, s') \<Rightarrow> (Panic p, d, s'))"

definition readByte :: "nbt_dest \<Rightarrow> byte_in \<Rightarrow> nbt_out" where
  "readByte d s =
     (case read_byte s of
        (Ok b, s') \<Rightarrow> (case put (as_int (to_signed 8 (unat b))) d of (r, d') \<Rightarrow> (r, d', s'))
      | (Err e, s') \<Rightarrow> (Err e, d, s')
      | (Panic p, s') \<Rightarrow> (Panic p, d, s'))"

definition readShort :: "nbt_dest \<Rightarrow> byte_in \<Rightarrow> nbt_out" where
  "readShort = read_fixed 2 (\<lambda>bs. as_int (to_signed 16 (be_val bs)))"

definition readInt :: "nbt_dest \<Rightarrow> byte_in \<Rightarrow> nbt_out" where
  "readInt = read_fixed 4 (\<lambda>bs. as_int (to_signed 32 (be_val bs)))"

definition readLong :: "nbt_dest \<Rightarrow> byte_in \<Rightarrow> nbt_out" where
  "readLong = read_fixed 8 (\<lambda>bs. as_int (to_signed 64 (be_val bs)))"

definition readFloat :: "nbt_dest \<Rightarrow> byte_in \<Rightarrow> nbt_out" where
  "readFloat = read_fixed 4 (\<lambda>bs. as_float (VSingle (be_val bs)))"

definition readDouble :: "nbt_dest \<Rightarrow> byte_in \<Rightarrow> nbt_out" where
  "readDouble = read_fixed 8 (\<lambda>bs. as_float (VDouble (be_val bs)))"

text \<open>
  The loop of the array readers: \<open>n\<close> elements of \<open>k\<close> bytes; \<open>conv\<close> is the
  conversion of one element.
\<close>

fun read_elems :: "nat \<Rightarrow> (bytes \<Rightarrow> int) \<Rightarrow> nat \<Rightarrow> (byte_in, int list) io" where
  "read_elems k conv n s =
     (if n = 0 then (Ok [], s)
      else case read_full k s of
        (Ok bs, s') \<Rightarrow>
          (case read_elems k conv (n - 1) s' of
             (Ok xs, s'') \<Rightarrow> (Ok (conv bs # xs), s'')
           | (Err e, s'') \<Rightarrow> (Err e, s'')
           | (Panic p, s'') \<Rightarrow> (Panic p, s''))
      | (Err e, s') \<Rightarrow> (Err e, s')
      | (Panic p, s') \<Rightarrow> (Panic p, s'))"

declare read_elems.simps [simp del]

definition read_array :: "nat \<Rightarrow> (bytes \<Rightarrow> int) \<Rightarrow> nbt_ty \<Rightarrow> nbt_dest \<Rightarrow> byte_in \<Rightarrow> nbt_out" where
  "read_array k conv e d s =
     (case io_bind (read_full 4) (\<lambda>lb. read_elems k conv (be_val lb)) s of
        (Ok xs, s') \<Rightarrow> (case put (as_slice e xs) d of (r, d') \<Rightarrow> (r, d', s'))
      | (Err x, s') \<Rightarrow> (Err x, d, s')
      | (Panic p, s') \<Rightarrow> (Panic p, d, s'))"

definition readByteArray :: "nbt_dest \<Rightarrow> byte_in \<Rightarrow> nbt_out" where
  "readByteArray = read_array 1 (\<lambda>bs. int (be_val bs)) TUint8"

definition readIntArray :: "nbt_dest \<Rightarrow> byte_in \<Rightarrow> nbt_out" where
  "readIntArray = read_array 4 (\<lambda>bs. to_signed 32 (be_val bs)) (TInt 32)"

definition readLongArray :: "nbt_dest \<Rightarrow> byte_in \<Rightarrow> nbt_out" where
  "readLongArray = read_array 8 (\<lambda>bs. to_signed 64 (be_val bs)) (TInt 64)"

text \<open>\<open>readName\<close> and \<open>readString\<close>: two bytes of length, then the bytes.\<close>

definition readName :: "(byte_in, string) io" where
  "readName =
     io_bind (read_full 2) (\<lambda>lb.
     io_bind (read_full (be_val lb)) (\<lambda>bs.
     io_ret (string_of_bytes bs)))"

definition readString :: "nbt_dest \<Rightarrow> byte_in \<Rightarrow> nbt_out" where
  "readString d s =
     (case readName s of
        (Ok x, s') \<Rightarrow> (case put (as_string x) d of (r, d') \<Rightarrow> (r, d', s'))
      | (Err e, s') \<Rightarrow> (Err e, d, s')
      | (Panic p, s') \<Rightarrow> (Panic p, d, s'))"

section \<open>Lists and compounds\<close>

datatype nbt_reader =
    RByte | RShort | RInt | RLong | RFloat | RDouble
  | RByteArray | RString | RList | RCompound | RIntArray | RLongArray

definition getTypeReader :: "byte \<Rightarrow> nbt_reader res" where
  "getTypeReader ty =
     (if ty = 0 then Err (Msg ''invalid TAG_End'')
      else if ty = 1 then Ok RByte
      else if ty = 2 then Ok RShort
      else if ty = 3 then Ok RInt
      else if ty = 4 then Ok RLong
      else if ty = 5 then Ok RFloat
      else if ty = 6 then Ok RDouble
      else if ty = 7 then Ok RByteArray
      else if ty = 8 then Ok RString
      else if ty = 9 then Ok RList
      else if ty = 10 then Ok RCompound
      else if ty = 11 then Ok RIntArray
      else if ty = 12 then Ok RLongArray
      else Err (Msg (''invalid tag type: '' @ fmt_d (int (unat ty)))))"

text \<open>
  \<open>readList\<close> and \<open>readCompound\<close> call back the reader of the element's or field's type,
  \<open>typeReader(v, level)\<close>; here it is their first argument.  \<open>readListItems\<close> is the loop
  of \<open>readList\<close> (\<open>et\<close> is the element type, \<open>None\<close> when the list is skipped).
\<close>

type_synonym type_reader = "nbt_reader \<Rightarrow> nbt_dest \<Rightarrow> int \<Rightarrow> byte_in \<Rightarrow> nbt_out option"

fun readListItems ::
  "type_reader \<Rightarrow> nbt_reader \<Rightarrow> nbt_ty option \<Rightarrow> nat \<Rightarrow> int \<Rightarrow> byte_in \<Rightarrow> (nbt_val list res \<times> byte_in) option"
where
  "readListItems rv rdr et n lvl s =
     (if n = 0 then Some (Ok [], s)
      else case rv rdr (map_option (\<lambda>t. (t, zero_of t)) et) lvl s of
        None \<Rightarrow> None
      | Some (Err e, _, s1) \<Rightarrow> Some (Err e, s1)
      | Some (Panic p, _, s1) \<Rightarrow> Some (Panic p, s1)
      | Some (Ok _, d1, s1) \<Rightarrow>
          (case readListItems rv rdr et (n - 1) lvl s1 of
             None \<Rightarrow> None
           | Some (r, s2) \<Rightarrow>
               Some (map_res (\<lambda>vs. (case d1 of None \<Rightarrow> vs | Some tv \<Rightarrow> snd tv # vs)) r, s2)))"

declare readListItems.simps [simp del]

definition readListInto :: "type_reader \<Rightarrow> nbt_reader \<Rightarrow> nbt_dest \<Rightarrow> nat \<Rightarrow> int \<Rightarrow> byte_in \<Rightarrow> nbt_out option" where
  "readListInto rv rdr d n lvl s =
     (case d of
        None \<Rightarrow>
          (case readListItems rv rdr None n lvl s of
             None \<Rightarrow> None
           | Some (r, s') \<Rightarrow> Some (map_res (\<lambda>_. ()) r, None, s'))
      | Some (TSlice et, v) \<Rightarrow>
          (case readListItems rv rdr (Some et) n lvl s of
             None \<Rightarrow> None
           | Some (r, s') \<Rightarrow>
               Some (map_res (\<lambda>_. ()) r,
                     Some (TSlice et, case r of Ok vs \<Rightarrow> VSlice vs | _ \<Rightarrow> v), s'))
      | Some _ \<Rightarrow> Some (Err TypeMismatch, d, s))"

definition readList :: "type_reader \<Rightarrow> nbt_dest \<Rightarrow> int \<Rightarrow> byte_in \<Rightarrow> nbt_out option" where
  "readList rv d lvl s =
     (case io_bind read_byte (\<lambda>ty. io_bind (read_full 4) (\<lambda>lb. io_ret (ty, be_val lb))) s of
        (Err e, s') \<Rightarrow> Some (Err e, d, s')
      | (Panic p, s') \<Rightarrow> Some (Panic p, d, s')
      | (Ok (ty, n), s') \<Rightarrow>
          if n = 0 then Some (Ok (), d, s')
          else case getTypeReader ty of
            Err e \<Rightarrow> Some (Err e, d, s')
          | Panic p \<Rightarrow> Some (Panic p, d, s')
          | Ok rdr \<Rightarrow> readListInto rv rdr d n lvl s')"

text \<open>
  One round of the loop of \<open>readCompound\<close> up to the call of the field's reader: the end
  of the compound, or the name and the reader of the next field.
\<close>

definition readFieldHead :: "(byte_in, (string \<times> nbt_reader) option) io" where
  "readFieldHead =
     io_bind read_byte (\<lambda>ty.
       if ty = 0 then io_ret None
       else io_bind readName (\<lambda>name. io_bind (io_lift (getTypeReader ty)) (\<lambda>rdr. io_ret (Some (name, rdr)))))"

text \<open>The destination of a field, and the compound once the field's reader has written to it.\<close>

definition lookup_field :: "nbt_dest \<Rightarrow> string \<Rightarrow> nat option" where
  "lookup_field d name = (case d of None \<Rightarrow> None | Some tv \<Rightarrow> getStructFields (fst tv) name)"

definition sub_dest :: "nbt_dest \<Rightarrow> string \<Rightarrow> nbt_dest" where
  "sub_dest d name =
     (case (d, lookup_field d name) of (Some tv, Some k) \<Rightarrow> field_dest tv k | _ \<Rightarrow> None)"

definition put_back :: "nbt_dest \<Rightarrow> string \<Rightarrow> nbt_dest \<Rightarrow> nbt_dest" where
  "put_back d name x =
     (case (d, lookup_field d name) of (Some tv, Some k) \<Rightarrow> Some (field_update tv k x) | _ \<Rightarrow> d)"

text \<open>The loop; every round reads at least one byte, so a fuel above the input's length is enough.\<close>

primrec readCompoundFields :: "nat \<Rightarrow> type_reader \<Rightarrow> nbt_dest \<Rightarrow> int \<Rightarrow> byte_in \<Rightarrow> nbt_out option" where
  "readCompoundFields 0 rv d lvl s = None"
| "readCompoundFields (Suc f) rv d lvl s =
     (case readFieldHead s of
        (Err e, s1) \<Rightarrow> Some (Err e, d, s1)
      | (Panic p, s1) \<Rightarrow> Some (Panic p, d, s1)
      | (Ok None, s1) \<Rightarrow> Some (Ok (), d, s1)
      | (Ok (Some (name, rdr)), s1) \<Rightarrow>
          (case rv rdr (sub_dest d name) (lvl + 1) s1 of
             None \<Rightarrow> None
           | Some (r, x, s2) \<Rightarrow>
               if r = Ok () then readCompoundFields f rv (put_back d name x) lvl s2
               else Some (r, put_back d name x, s2)))"

definition readCompound :: "int \<Rightarrow> type_reader \<Rightarrow> nbt_dest \<Rightarrow> int \<Rightarrow> byte_in \<Rightarrow> nbt_out option" where
  "readCompound lim rv d lvl s =
     (if 0 < lim \<and> lim \<le> lvl then Some (Err (Msg ''level limit exceeded''), d, s)
      else case d of
        None \<Rightarrow> readCompoundFields (Suc (length (bi_rest s))) rv d lvl s
      | Some (TStruct fs, v) \<Rightarrow> readCompoundFields (Suc (length (bi_rest s))) rv d lvl s
      | Some _ \<Rightarrow> Some (Err (Msg ''TagCompound can only unmarshaled into a struct''), d, s))"

text \<open>The dispatch on the reader; the fuel bounds the nesting of lists and compounds.\<close>

primrec readValue :: "nat \<Rightarrow> int \<Rightarrow> type_reader" where
  "readValue 0 lim rdr d lvl s = None"
| "readValue (Suc f) lim rdr d lvl s =
     (case rdr of
        RByte \<Rightarrow> Some (readByte d s)
      | RShort \<Rightarrow> Some (readShort d s)
      | RInt \<Rightarrow> Some (readInt d s)
      | RLong \<Rightarrow> Some (readLong d s)
      | RFloat \<Rightarrow> Some (readFloat d s)
      | RDouble \<Rightarrow> Some (readDouble d s)
      | RByteArray \<Rightarrow> Some (readByteArray d s)
      | RString \<Rightarrow> Some (readString d s)
      | RList \<Rightarrow> readList (readValue f lim) d lvl s
      | RCompound \<Rightarrow> readCompound lim (readValue f lim) d lvl s
      | RIntArray \<Rightarrow> Some (readIntArray d s)
      | RLongArray \<Rightarrow> Some (readLongArray d s))"

text \<open>
  \<open>decode\<close> disposes of the top tag's name and ignores an error in it.  \<open>Decode\<close> also
  rejects an argument that is not a non-nil pointer (\<open>None\<close> here).
\<close>

definition nbt_fuel :: "byte_in \<Rightarrow> nat" where
  "nbt_fuel s = length (bi_rest s) + 1"

definition decode_top :: "int \<Rightarrow> nbt_ty \<times> nbt_val \<Rightarrow> int \<Rightarrow> byte_in \<Rightarrow> nbt_out option" where
  "decode_top lim tv lvl s =
     (case read_byte s of
        (Err e, s1) \<Rightarrow> Some (Err e, Some tv, s1)
      | (Panic p, s1) \<Rightarrow> Some (Panic p, Some tv, s1)
      | (Ok ty, s1) \<Rightarrow>
         (let s2 = snd (readName s1)
          in case getTypeReader ty of
            Err e \<Rightarrow> Some (Err e, Some tv, s2)
          | Panic p \<Rightarrow> Some (Panic p, Some tv, s2)
          | Ok rdr \<Rightarrow> readValue (nbt_fuel s2) lim rdr (Some tv) lvl s2))"

definition nbt_Decode :: "int \<Rightarrow> nbt_dest \<Rightarrow> byte_in \<Rightarrow> nbt_out option" where
  "nbt_Decode lim v s =
     (case v of
        None \<Rightarrow> Some (Err (Msg ''v must be a pointer and not be nil''), None, s)
      | Some tv \<Rightarrow> decode_top lim tv 0 s)"

section \<open>Every round reads a byte\<close>


lemmas leaf_defs =
  readByte_def readShort_def readInt_def readLong_def readFloat_def readDouble_def
  readByteArray_def readIntArray_def readLongArray_def readString_def

text \<open>A reader that leaves no more input than it found, and less when it succeeds.\<close>

definition consumes :: "nbt_out \<Rightarrow> byte_in \<Rightarrow> bool" where
  "consumes x s = (case x of (r, d, s') \<Rightarrow>
     length (bi_rest s') \<le> length (bi_rest s) \<and>
     (r = Ok () \<longrightarrow> length (bi_rest s') < length (bi_rest s)))"

definition shrinks :: "type_reader \<Rightarrow> bool" where
  "shrinks rv = (\<forall>rdr d lvl s x. rv rdr d lvl s = Some x \<longrightarrow> consumes x s)"

definition total_below :: "nat \<Rightarrow> type_reader \<Rightarrow> bool" where
  "total_below m rv = (\<forall>rdr d lvl s. length (bi_rest s) < m \<longrightarrow> rv rdr d lvl s \<noteq> None)"

lemma shrinksD:
  "shrinks rv \<Longrightarrow> rv rdr d lvl s = Some (r, d', s') \<Longrightarrow> length (bi_rest s') \<le> length (bi_rest s)"
  "shrinks rv \<Longrightarrow> rv rdr d lvl s = Some (Ok u, d', s') \<Longrightarrow> length (bi_rest s') < length (bi_rest s)"
  by (fastforce simp: shrinks_def consumes_def)+

lemma consumes_read_fixed: "0 < n \<Longrightarrow> consumes (read_fixed n f d s) s"
  by (auto simp: read_fixed_def read_full_def consumes_def split: prod.splits res.splits if_splits)

lemma read_elems_length: "length (bi_rest (snd (read_elems k conv n s))) \<le> length (bi_rest s)"
proof (induction n arbitrary: s)
  case 0
  then show ?case by (simp add: read_elems.simps)
next
  case (Suc n)
  show ?case
  proof (cases "read_full k s")
    case (Pair r s')
    then have l: "length (bi_rest s') \<le> length (bi_rest s)" using read_full_length [of k s] by simp
    show ?thesis
    proof (cases r)
      case (Ok bs)
      have "length (bi_rest (snd (read_elems k conv n s'))) \<le> length (bi_rest s)"
        using Suc.IH [of s'] l by simp
      with Ok Pair show ?thesis
        by (auto simp: read_elems.simps [of k conv "Suc n"] split: prod.splits res.splits)
    qed (use Pair l in \<open>simp_all add: read_elems.simps [of k conv "Suc n"]\<close>)
  qed
qed

lemma consumes_read_array: "consumes (read_array k conv e d s) s"
proof (cases "read_full 4 s")
  case (Pair r s')
  then have l: "length (bi_rest s') \<le> length (bi_rest s)" using read_full_length [of 4 s] by simp
  show ?thesis
  proof (cases r)
    case (Ok bs)
    with Pair have "length (bi_rest s') < length (bi_rest s)"
      by (auto simp: read_full_def split: if_splits)
    moreover have "length (bi_rest (snd (read_elems k conv (be_val bs) s'))) \<le> length (bi_rest s')"
      by (rule read_elems_length)
    ultimately show ?thesis using Pair Ok
      by (auto simp: read_array_def io_bind_def consumes_def split: prod.splits res.splits)
  qed (use Pair l in \<open>auto simp: read_array_def io_bind_def consumes_def\<close>)
qed

lemma readName_length:
  "readName s = (r, s') \<Longrightarrow> length (bi_rest s') \<le> length (bi_rest s)"
  "readName s = (Ok n, s') \<Longrightarrow> length (bi_rest s') < length (bi_rest s)"
  by (auto simp: readName_def io_bind_def io_ret_def read_full_def split: prod.splits res.splits if_splits)

lemma consumes_readString: "consumes (readString d s) s"
  by (auto simp: readString_def consumes_def split: prod.splits res.splits dest: readName_length)

lemma consumes_readByte: "consumes (readByte d s) s"
  by (auto simp: readByte_def read_byte_def consumes_def split: prod.splits res.splits list.splits)


lemma readListItems_length:
  assumes "shrinks rv" "readListItems rv rdr et n lvl s = Some (r, s')"
  shows "length (bi_rest s') \<le> length (bi_rest s)"
  using assms(2)
proof (induction n arbitrary: s r s')
  case 0
  then show ?case by (simp add: readListItems.simps)
next
  case (Suc n)
  then show ?case
    using shrinksD(1) [OF assms(1)]
    by (fastforce simp: readListItems.simps [of rv rdr et "Suc n"] split: option.splits prod.splits res.splits)
qed

lemma readListInto_length:
  "shrinks rv \<Longrightarrow> readListInto rv rdr d n lvl s = Some (r, d', s') \<Longrightarrow> length (bi_rest s') \<le> length (bi_rest s)"
  by (auto simp: readListInto_def split: option.splits prod.splits nbt_ty.splits dest: readListItems_length)

lemma list_head_length:
  "io_bind read_byte (\<lambda>ty. io_bind (read_full 4) (\<lambda>lb. io_ret (ty, be_val lb))) s = (r, s')
    \<Longrightarrow> length (bi_rest s') \<le> length (bi_rest s)
      \<and> (is_ok r \<longrightarrow> length (bi_rest s') < length (bi_rest s))"
  by (auto simp: io_bind_def io_ret_def read_byte_def read_full_def split: list.splits if_splits prod.splits)

lemma consumes_readList: "shrinks rv \<Longrightarrow> readList rv d lvl s = Some x \<Longrightarrow> consumes x s"
  unfolding readList_def
  by (auto simp: consumes_def split: prod.splits res.splits if_splits
      dest!: readListInto_length list_head_length)

lemma readFieldHead_length:
  assumes "readFieldHead s = (r, s')"
  shows "length (bi_rest s') \<le> length (bi_rest s)" "is_ok r \<Longrightarrow> length (bi_rest s') < length (bi_rest s)"
proof -
  have "length (bi_rest s') \<le> length (bi_rest s) \<and> (is_ok r \<longrightarrow> length (bi_rest s') < length (bi_rest s))"
  proof (cases "read_byte s")
    case (Pair b s1)
    then have b: "length (bi_rest s1) \<le> length (bi_rest s)"
        "is_ok b \<longrightarrow> length (bi_rest s1) < length (bi_rest s)"
      by (auto simp: read_byte_def split: list.splits)
    show ?thesis
    proof (cases "readName s1")
      case (Pair n s2)
      then have "length (bi_rest s2) \<le> length (bi_rest s1)" by (rule readName_length)
      with b Pair \<open>read_byte s = (b, s1)\<close> assms show ?thesis
        by (auto simp: readFieldHead_def io_bind_def io_ret_def io_lift_def
            split: prod.splits res.splits if_splits)
    qed
  qed
  then show "length (bi_rest s') \<le> length (bi_rest s)" "is_ok r \<Longrightarrow> length (bi_rest s') < length (bi_rest s)"
    by simp_all
qed

lemma consumes_readCompoundFields:
  assumes "shrinks rv"
  shows "readCompoundFields f rv d lvl s = Some x \<Longrightarrow> consumes x s"
proof (induction f arbitrary: d s x)
  case 0
  then show ?case by simp
next
  case (Suc f)
  obtain h s1 where h: "readFieldHead s = (h, s1)" by (cases "readFieldHead s")
  note l = readFieldHead_length [OF h]
  show ?case
  proof (cases "\<exists>name rdr. h = Ok (Some (name, rdr))")
    case False
    with Suc.prems h l show ?thesis
      by (auto simp: consumes_def split: res.splits option.splits)
  next
    case True
    then obtain name rdr where hk: "h = Ok (Some (name, rdr))" by blast
    with l have s1: "length (bi_rest s1) < length (bi_rest s)" by simp
    from Suc.prems h hk obtain r y s2 where rv: "rv rdr (sub_dest d name) (lvl + 1) s1 = Some (r, y, s2)"
      by (auto split: option.splits)
    then have s2: "length (bi_rest s2) \<le> length (bi_rest s1)" by (rule shrinksD(1) [OF assms])
    show ?thesis
    proof (cases "r = Ok ()")
      case True
      with Suc.prems h hk rv have "consumes x s2" by (intro Suc.IH) simp
      with s1 s2 show ?thesis by (auto simp: consumes_def)
    next
      case False
      with Suc.prems h hk rv s1 s2 show ?thesis by (auto simp: consumes_def)
    qed
  qed
qed

lemma consumes_readCompound: "shrinks rv \<Longrightarrow> readCompound lim rv d lvl s = Some x \<Longrightarrow> consumes x s"
  by (auto simp: readCompound_def consumes_def simp del: readCompoundFields.simps
      split: option.splits if_splits nbt_ty.splits
      dest!: consumes_readCompoundFields)

lemma shrinks_readValue: "shrinks (readValue f lim)"
proof (induction f)
  case 0
  then show ?case by (simp add: shrinks_def)
next
  case (Suc f)
  show ?case unfolding shrinks_def
  proof (intro allI impI)
    fix rdr d lvl s x
    assume a: "readValue (Suc f) lim rdr d lvl s = Some x"
    show "consumes x s"
    proof (cases rdr)
      case RList
      with a Suc show ?thesis by (auto intro: consumes_readList)
    next
      case RCompound
      with a Suc show ?thesis by (auto intro: consumes_readCompound)
    qed (use a in \<open>auto simp: readShort_def readInt_def readLong_def readFloat_def readDouble_def
          readByteArray_def readIntArray_def readLongArray_def
          intro: consumes_readByte consumes_readString consumes_read_array consumes_read_fixed\<close>)
  qed
qed

section \<open>The fuel is enough\<close>

lemma readListItems_total:
  assumes "shrinks rv" "total_below m rv" "length (bi_rest s) < m"
  shows "readListItems rv rdr et n lvl s \<noteq> None"
  using assms(3)
proof (induction n arbitrary: s)
  case 0
  then show ?case by (simp add: readListItems.simps)
next
  case (Suc n)
  from assms(2) Suc.prems obtain r d' s' where
    rv: "rv rdr (map_option (\<lambda>t. (t, zero_of t)) et) lvl s = Some (r, d', s')"
    by (fastforce simp: total_below_def)
  then have "length (bi_rest s') < m" using shrinksD(1) [OF assms(1) rv] Suc.prems by simp
  with Suc.IH [of s'] rv show ?case
    by (auto simp: readListItems.simps [of rv rdr et "Suc n"] split: res.splits)
qed

lemma readList_total:
  assumes "shrinks rv" "total_below m rv" "length (bi_rest s) < Suc m"
  shows "readList rv d lvl s \<noteq> None"
proof -
  obtain r s' where h: "io_bind read_byte (\<lambda>ty. io_bind (read_full 4) (\<lambda>lb. io_ret (ty, be_val lb))) s = (r, s')"
    by (metis surj_pair)
  show ?thesis
  proof (cases r)
    case (Ok tn)
    with list_head_length [OF h] assms(3) have "length (bi_rest s') < m" by simp
    then have "readListItems rv rdr et n lvl s' \<noteq> None" for rdr et n
      by (rule readListItems_total [OF assms(1,2)])
    then have "readListInto rv rdr d n lvl s' \<noteq> None" for rdr n
      by (simp add: readListInto_def split: option.split nbt_ty.split) (metis not_None_eq prod.exhaust)
    with h Ok show ?thesis by (auto simp: readList_def split: prod.splits res.splits)
  qed (use h in \<open>simp_all add: readList_def\<close>)
qed

lemma readCompoundFields_total:
  assumes "shrinks rv" "total_below m rv"
  shows "length (bi_rest s) < Suc m \<Longrightarrow> length (bi_rest s) < f \<Longrightarrow> readCompoundFields f rv d lvl s \<noteq> None"
proof (induction f arbitrary: d s)
  case 0
  then show ?case by simp
next
  case (Suc f)
  obtain h s1 where h: "readFieldHead s = (h, s1)" by (cases "readFieldHead s")
  note l = readFieldHead_length [OF h]
  show ?case
  proof (cases "\<exists>name rdr. h = Ok (Some (name, rdr))")
    case False
    with h show ?thesis by (auto split: res.splits option.splits)
  next
    case True
    then obtain name rdr where hk: "h = Ok (Some (name, rdr))" by blast
    with l Suc.prems have s1: "length (bi_rest s1) < length (bi_rest s)" "length (bi_rest s1) < m" by auto
    with assms(2) have "rv rdr (sub_dest d name) (lvl + 1) s1 \<noteq> None" by (simp add: total_below_def)
    then obtain r x s2 where rv: "rv rdr (sub_dest d name) (lvl + 1) s1 = Some (r, x, s2)" by auto
    with shrinksD(1) [OF assms(1) rv] s1 Suc.prems
    have "readCompoundFields f rv (put_back d name x) lvl s2 \<noteq> None" by (intro Suc.IH) auto
    with h hk rv show ?thesis by auto
  qed
qed

lemma readCompound_total:
  assumes "shrinks rv" "total_below m rv" "length (bi_rest s) < Suc m"
  shows "readCompound lim rv d lvl s \<noteq> None"
  using readCompoundFields_total [OF assms, of "Suc (length (bi_rest s))"]
  by (auto simp: readCompound_def simp del: readCompoundFields.simps split: option.splits nbt_ty.splits)

lemma total_readValue: "total_below f (readValue f lim)"
proof (induction f)
  case 0
  then show ?case by (simp add: total_below_def)
next
  case (Suc f)
  show ?case unfolding total_below_def
  proof (intro allI impI)
    fix rdr d lvl and s :: byte_in
    assume l: "length (bi_rest s) < Suc f"
    show "readValue (Suc f) lim rdr d lvl s \<noteq> None"
      using readList_total [OF shrinks_readValue Suc l] readCompound_total [OF shrinks_readValue Suc l]
      by (cases rdr) simp_all
  qed
qed

text \<open>
  Decoding always returns.  On every input, whatever lengths its headers
  claim, every destination and every depth limit, \<open>Decode\<close> ends with an error or a value.
\<close>

lemma nbt_Decode_terminates: "\<exists>r d s'. nbt_Decode lim v s = Some (r, d, s')"
proof (cases v)
  case None
  then show ?thesis by (simp add: nbt_Decode_def)
next
  case (Some tv)
  have "readValue (nbt_fuel s2) lim rdr (Some tv) 0 s2 \<noteq> None" for s2 rdr
    using total_readValue [of "nbt_fuel s2" lim] by (simp add: total_below_def nbt_fuel_def)
  then have "decode_top lim tv 0 s \<noteq> None"
    by (auto simp: decode_top_def Let_def split: prod.splits res.splits)
  with Some show ?thesis by (auto simp: nbt_Decode_def)
qed

end
