(* ===== verification/NbtSpec.thy ===== *)
theory NbtSpec
  imports Nbt
begin

text \<open>
  What the NBT decoder promises: NBT documents as trees, their encoding, and the
  meaning of decoding as a function on trees.  The decoder of theory Nbt refines it,
  and the depth limit is stated on trees.
\<close>

section \<open>Documents\<close>

datatype nbt =
    NByte int
  | NShort int
  | NInt int
  | NLong int
  | NFloat nat
  | NDouble nat
  | NByteArray "nat list"
  | NString string
  | NList nbt_reader "nbt list"
  | NCompound "(string \<times> nbt) list"
  | NIntArray "int list"
  | NLongArray "int list"

fun reader_of :: "nbt \<Rightarrow> nbt_reader" where
  "reader_of (NByte i) = RByte"
| "reader_of (NShort i) = RShort"
| "reader_of (NInt i) = RInt"
| "reader_of (NLong i) = RLong"
| "reader_of (NFloat b) = RFloat"
| "reader_of (NDouble b) = RDouble"
| "reader_of (NByteArray xs) = RByteArray"
| "reader_of (NString x) = RString"
| "reader_of (NList r xs) = RList"
| "reader_of (NCompound fs) = RCompound"
| "reader_of (NIntArray xs) = RIntArray"
| "reader_of (NLongArray xs) = RLongArray"

fun tag_of :: "nbt_reader \<Rightarrow> byte" where
  "tag_of RByte = 1" | "tag_of RShort = 2" | "tag_of RInt = 3" | "tag_of RLong = 4"
| "tag_of RFloat = 5" | "tag_of RDouble = 6" | "tag_of RByteArray = 7" | "tag_of RString = 8"
| "tag_of RList = 9" | "tag_of RCompound = 10" | "tag_of RIntArray = 11" | "tag_of RLongArray = 12"

definition int_bytes :: "nat \<Rightarrow> int \<Rightarrow> bytes" where
  "int_bytes k i = be_bytes k (nat (i mod 256 ^ k))"

definition str_bytes :: "string \<Rightarrow> bytes" where
  "str_bytes s = be_bytes 2 (length s) @ bytes_of_string s"

fun nbt_enc :: "nbt \<Rightarrow> bytes" where
  "nbt_enc (NByte i) = int_bytes 1 i"
| "nbt_enc (NShort i) = int_bytes 2 i"
| "nbt_enc (NInt i) = int_bytes 4 i"
| "nbt_enc (NLong i) = int_bytes 8 i"
| "nbt_enc (NFloat b) = be_bytes 4 b"
| "nbt_enc (NDouble b) = be_bytes 8 b"
| "nbt_enc (NByteArray xs) = be_bytes 4 (length xs) @ concat (map (be_bytes 1) xs)"
| "nbt_enc (NString s) = str_bytes s"
| "nbt_enc (NList r xs) = tag_of r # be_bytes 4 (length xs) @ concat (map nbt_enc xs)"
| "nbt_enc (NCompound fs) =
     concat (map (\<lambda>(n, t). tag_of (reader_of t) # str_bytes n @ nbt_enc t) fs) @ [0]"
| "nbt_enc (NIntArray xs) = be_bytes 4 (length xs) @ concat (map (int_bytes 4) xs)"
| "nbt_enc (NLongArray xs) = be_bytes 4 (length xs) @ concat (map (int_bytes 8) xs)"


text \<open>Documents whose numbers and lengths fit their fields.\<close>

fun nbt_wf :: "nbt \<Rightarrow> bool" where
  "nbt_wf (NByte i) = in_width 8 i"
| "nbt_wf (NShort i) = in_width 16 i"
| "nbt_wf (NInt i) = in_width 32 i"
| "nbt_wf (NLong i) = in_width 64 i"
| "nbt_wf (NFloat b) = (b < 2 ^ 32)"
| "nbt_wf (NDouble b) = (b < 2 ^ 64)"
| "nbt_wf (NByteArray xs) = (length xs < 2 ^ 32 \<and> list_all (\<lambda>x. x < 256) xs)"
| "nbt_wf (NString s) = (length s < 2 ^ 16)"
| "nbt_wf (NList r xs) =
     (length xs < 2 ^ 32 \<and> list_all (\<lambda>t. reader_of t = r) xs \<and> list_all nbt_wf xs)"
| "nbt_wf (NCompound fs) = list_all (\<lambda>(n, t). length n < 2 ^ 16 \<and> nbt_wf t) fs"
| "nbt_wf (NIntArray xs) = (length xs < 2 ^ 32 \<and> list_all (in_width 32) xs)"
| "nbt_wf (NLongArray xs) = (length xs < 2 ^ 32 \<and> list_all (in_width 64) xs)"

section \<open>The meaning of decoding\<close>

text \<open>Storing a document into a destination, without bytes, fuel or input.\<close>

fun nbt_fill :: "int \<Rightarrow> int \<Rightarrow> nbt \<Rightarrow> nbt_dest \<Rightarrow> unit res \<times> nbt_dest"
and fill_items :: "int \<Rightarrow> int \<Rightarrow> nbt_ty option \<Rightarrow> nbt list \<Rightarrow> nbt_val list res"
and fill_fields :: "int \<Rightarrow> int \<Rightarrow> (string \<times> nbt) list \<Rightarrow> nbt_dest \<Rightarrow> unit res \<times> nbt_dest"
where
  "nbt_fill lim lvl (NByte i) d = put (as_int i) d"
| "nbt_fill lim lvl (NShort i) d = put (as_int i) d"
| "nbt_fill lim lvl (NInt i) d = put (as_int i) d"
| "nbt_fill lim lvl (NLong i) d = put (as_int i) d"
| "nbt_fill lim lvl (NFloat b) d = put (as_float (VSingle b)) d"
| "nbt_fill lim lvl (NDouble b) d = put (as_float (VDouble b)) d"
| "nbt_fill lim lvl (NByteArray xs) d = put (as_slice TUint8 (map int xs)) d"
| "nbt_fill lim lvl (NString s) d = put (as_string s) d"
| "nbt_fill lim lvl (NList r xs) d =
     (if xs = [] then (Ok (), d)
      else case d of
        None \<Rightarrow> (map_res (\<lambda>_. ()) (fill_items lim lvl None xs), None)
      | Some (TSlice et, v) \<Rightarrow>
          (let r = fill_items lim lvl (Some et) xs
           in (map_res (\<lambda>_. ()) r, Some (TSlice et, case r of Ok vs \<Rightarrow> VSlice vs | _ \<Rightarrow> v)))
      | Some _ \<Rightarrow> (Err TypeMismatch, d))"
| "nbt_fill lim lvl (NCompound fs) d =
     (if 0 < lim \<and> lim \<le> lvl then (Err (Msg ''level limit exceeded''), d)
      else case d of
        None \<Rightarrow> fill_fields lim lvl fs d
      | Some (TStruct ts, v) \<Rightarrow> fill_fields lim lvl fs d
      | Some _ \<Rightarrow> (Err (Msg ''TagCompound can only unmarshaled into a struct''), d))"
| "nbt_fill lim lvl (NIntArray xs) d = put (as_slice (TInt 32) xs) d"
| "nbt_fill lim lvl (NLongArray xs) d = put (as_slice (TInt 64) xs) d"
| "fill_items lim lvl et [] = Ok []"
| "fill_items lim lvl et (t # ts) =
     (case nbt_fill lim lvl t (map_option (\<lambda>e. (e, zero_of e)) et) of
        (Ok _, d1) \<Rightarrow>
          map_res (\<lambda>vs. (case d1 of None \<Rightarrow> vs | Some tv \<Rightarrow> snd tv # vs)) (fill_items lim lvl et ts)
      | (Err e, _) \<Rightarrow> Err e
      | (Panic p, _) \<Rightarrow> Panic p)"
| "fill_fields lim lvl [] d = (Ok (), d)"
| "fill_fields lim lvl ((n, t) # fs) d =
     (case nbt_fill lim (lvl + 1) t (sub_dest d n) of
        (r, x) \<Rightarrow> if r = Ok () then fill_fields lim lvl fs (put_back d n x) else (r, put_back d n x))"

section \<open>The decoder refines it\<close>

lemma mod_nat_less: "nat (i mod 256 ^ k) < (256 :: nat) ^ k"
  by (simp add: nat_less_iff)

lemma be_val_int_bytes:
  assumes "in_width (8 * k) i" "0 < k"
  shows "to_signed (8 * k) (be_val (int_bytes k i)) = i"
proof -
  have "(256 :: int) ^ k = 2 ^ (8 * k)" by (simp add: power_mult)
  then have "be_val (int_bytes k i) = nat (i mod 2 ^ (8 * k))"
    unfolding int_bytes_def by (subst be_val_be_bytes [OF mod_nat_less]) simp
  with assms show ?thesis by (simp add: to_signed_mod)
qed

lemma length_int_bytes [simp]: "length (int_bytes k i) = k"
  by (simp add: int_bytes_def)

lemma length_str_bytes [simp]: "length (str_bytes s) = length s + 2"
  by (simp add: str_bytes_def bytes_of_string_def)

lemmas leaf_decode =
  be_val_int_bytes [of 1, simplified] be_val_int_bytes [of 2, simplified]
  be_val_int_bytes [of 4, simplified] be_val_int_bytes [of 8, simplified]
  be_val_be_bytes

abbreviation input :: "bytes \<Rightarrow> go_error \<Rightarrow> byte_in" where
  "input bs e \<equiv> \<lparr>bi_rest = bs, bi_end = e\<rparr>"

lemma getTypeReader_tag [simp]: "getTypeReader (tag_of r) = Ok r"
  by (cases r) (simp_all add: getTypeReader_def)

lemma tag_of_not_0 [simp]: "tag_of r \<noteq> 0"
  by (cases r) simp_all

lemma readName_str_bytes [simp]:
  "length n < 2 ^ 16 \<Longrightarrow> readName (input (str_bytes n @ rest) e) = (Ok n, input rest e)"
  by (simp add: readName_def str_bytes_def io_bind_def io_ret_def be_val_be_bytes bytes_of_string_def)
    (simp add: bytes_of_string_def [symmetric])

lemma read_elems_enc:
  assumes "\<And>x. x \<in> set xs \<Longrightarrow> length (f x) = k \<and> conv (f x) = g x"
  shows "read_elems k conv (length xs) (input (concat (map f xs) @ rest) e) = (Ok (map g xs), input rest e)"
  using assms by (induction xs) (simp_all add: read_elems.simps)

lemma read_array_enc:
  assumes "\<And>x. x \<in> set xs \<Longrightarrow> length (f x) = k \<and> conv (f x) = g x" "length xs < 2 ^ 32"
  shows "read_array k conv et d (input (be_bytes 4 (length xs) @ concat (map f xs) @ rest) e) =
    (case put (as_slice et (map g xs)) d of (r, d') \<Rightarrow> (r, d', input rest e))"
  using assms by (simp add: read_array_def io_bind_def be_val_be_bytes read_elems_enc)

text \<open>A reader that agrees with the meaning of one document.\<close>

definition refines :: "type_reader \<Rightarrow> int \<Rightarrow> nbt \<Rightarrow> bool" where
  "refines rv lim t =
     (\<forall>lvl d rest e. \<exists>r d' s'. rv (reader_of t) d lvl (input (nbt_enc t @ rest) e) = Some (r, d', s')
        \<and> nbt_fill lim lvl t d = (r, d') \<and> (r = Ok () \<longrightarrow> s' = input rest e))"

lemma refinesD:
  assumes "refines rv lim t"
  obtains r d' s' where
    "rv (reader_of t) d lvl (input (nbt_enc t @ rest) e) = Some (r, d', s')"
    "nbt_fill lim lvl t d = (r, d')" "r = Ok () \<Longrightarrow> s' = input rest e"
  using assms unfolding refines_def by blast

lemma readListItems_refines:
  assumes "\<And>t. t \<in> set ts \<Longrightarrow> refines rv lim t \<and> reader_of t = rdr"
  shows "\<exists>r s'. readListItems rv rdr et (length ts) lvl (input (concat (map nbt_enc ts) @ rest) e) = Some (r, s')
      \<and> fill_items lim lvl et ts = r \<and> (is_ok r \<longrightarrow> s' = input rest e)"
  using assms
proof (induction ts)
  case Nil
  then show ?case by (simp add: readListItems.simps)
next
  case (Cons t ts)
  from Cons.prems have t: "refines rv lim t" "reader_of t = rdr" by simp_all
  from Cons.IH Cons.prems obtain r s' where
    IH: "readListItems rv rdr et (length ts) lvl (input (concat (map nbt_enc ts) @ rest) e) = Some (r, s')"
      "fill_items lim lvl et ts = r" "is_ok r \<longrightarrow> s' = input rest e" by auto
  obtain r1 d1 s1 where
    rv: "rv rdr (map_option (\<lambda>t. (t, zero_of t)) et) lvl
          (input (nbt_enc t @ concat (map nbt_enc ts) @ rest) e) = Some (r1, d1, s1)"
      "nbt_fill lim lvl t (map_option (\<lambda>t. (t, zero_of t)) et) = (r1, d1)"
      "r1 = Ok () \<Longrightarrow> s1 = input (concat (map nbt_enc ts) @ rest) e"
    using refinesD [OF t(1)] t(2) by blast
  show ?case
  proof (cases r1)
    case (Ok u)
    with rv IH show ?thesis
      by (cases r) (simp_all add: readListItems.simps [of rv rdr et "Suc (length ts)"])
  qed (use rv in \<open>simp_all add: readListItems.simps [of rv rdr et "Suc (length ts)"]\<close>)
qed

lemma readFieldHead_enc:
  "length n < 2 ^ 16 \<Longrightarrow>
   readFieldHead (input (tag_of r # str_bytes n @ rest) e) = (Ok (Some (n, r)), input rest e)"
  by (simp add: readFieldHead_def io_bind_def io_lift_def io_ret_def)

lemma readFieldHead_end: "readFieldHead (input (0 # rest) e) = (Ok None, input rest e)"
  by (simp add: readFieldHead_def io_bind_def io_ret_def)

definition fields_enc :: "(string \<times> nbt) list \<Rightarrow> bytes" where
  "fields_enc fs = concat (map (\<lambda>(n, t). tag_of (reader_of t) # str_bytes n @ nbt_enc t) fs)"

lemma fields_enc_simps [simp]:
  "fields_enc [] = []"
  "fields_enc ((n, t) # fs) = tag_of (reader_of t) # str_bytes n @ nbt_enc t @ fields_enc fs"
  by (simp_all add: fields_enc_def)

lemma length_fields_enc: "length fs \<le> length (fields_enc fs)"
  by (induction fs) auto

lemma readCompoundFields_refines:
  assumes "\<And>n t. (n, t) \<in> set fs \<Longrightarrow> refines rv lim t \<and> length n < 2 ^ 16" "length fs < f"
  shows "\<exists>r d' s'. readCompoundFields f rv d lvl (input (fields_enc fs @ 0 # rest) e) = Some (r, d', s')
      \<and> fill_fields lim lvl fs d = (r, d') \<and> (r = Ok () \<longrightarrow> s' = input rest e)"
  using assms
proof (induction fs arbitrary: f d)
  case Nil
  then show ?case by (cases f) (simp_all add: readFieldHead_end)
next
  case (Cons nt fs)
  obtain n t where nt: "nt = (n, t)" by (cases nt)
  obtain g where g: "f = Suc g" "length fs < g" using Cons.prems by (cases f) auto
  from Cons.prems(1) [of n t] nt have t: "refines rv lim t" "length n < 2 ^ 16" by simp_all
  let ?rest = "fields_enc fs @ 0 # rest"
  obtain r1 x s1 where rv:
    "rv (reader_of t) (sub_dest d n) (lvl + 1) (input (nbt_enc t @ ?rest) e) = Some (r1, x, s1)"
    "nbt_fill lim (lvl + 1) t (sub_dest d n) = (r1, x)" "r1 = Ok () \<Longrightarrow> s1 = input ?rest e"
    using refinesD [OF t(1)] by blast
  have IH: "\<exists>r d' s'. readCompoundFields g rv (put_back d n x) lvl (input ?rest e) = Some (r, d', s')
      \<and> fill_fields lim lvl fs (put_back d n x) = (r, d') \<and> (r = Ok () \<longrightarrow> s' = input rest e)"
    using Cons.prems g by (intro Cons.IH) auto
  show ?case
  proof (cases "r1 = Ok ()")
    case True
    with rv IH show ?thesis by (simp add: nt g readFieldHead_enc [OF t(2)])
  next
    case False
    with rv show ?thesis by (simp add: nt g readFieldHead_enc [OF t(2)])
  qed
qed

lemma nbt_enc_compound: "nbt_enc (NCompound fs) = fields_enc fs @ [0]"
  by (simp add: fields_enc_def)

text \<open>How deep lists and compounds are nested: the fuel a document needs.\<close>

fun nest :: "nbt \<Rightarrow> nat" where
  "nest (NList r xs) = Suc (Max (insert 0 (nest ` set xs)))"
| "nest (NCompound fs) = Suc (Max (insert 0 ((\<lambda>(n, t). nest t) ` set fs)))"
| "nest _ = 0"

lemma nest_list: "t \<in> set xs \<Longrightarrow> nest t < nest (NList r xs)"
  by (simp add: le_imp_less_Suc)

lemma nest_compound: "(n, t) \<in> set fs \<Longrightarrow> nest t < nest (NCompound fs)"
proof -
  assume "(n, t) \<in> set fs"
  then have "nest t \<in> (\<lambda>(n, t). nest t) ` set fs" by force
  then show ?thesis by (simp add: le_imp_less_Suc)
qed

lemma length_concat_ge: "x \<in> set xs \<Longrightarrow> length (f x) \<le> length (concat (map f xs))"
  by (induction xs) auto

lemma nest_le_enc: "nest t \<le> length (nbt_enc t)"
proof (induction t rule: nest.induct)
  case (1 r xs)
  have "nest x \<le> length (concat (map nbt_enc xs))" if "x \<in> set xs" for x
    using 1 [OF that] length_concat_ge [OF that, of nbt_enc] by simp
  then have "Max (insert 0 (nest ` set xs)) \<le> length (concat (map nbt_enc xs))" by (intro Max.boundedI) auto
  then show ?case by (simp add: trans_le_add2)
next
  case (2 fs)
  let ?f = "\<lambda>(n, t). tag_of (reader_of t) # str_bytes n @ nbt_enc t"
  have "nest t \<le> length (concat (map ?f fs))" if "(n, t) \<in> set fs" for n t
    using 2 [OF that] length_concat_ge [OF that, of ?f] by simp
  then have "Max (insert 0 ((\<lambda>(n, t). nest t) ` set fs)) \<le> length (concat (map ?f fs))"
    by (intro Max.boundedI) auto
  then show ?case by simp
qed simp_all

lemma readList_refines:
  assumes "\<And>t. t \<in> set xs \<Longrightarrow> refines rv lim t \<and> reader_of t = rdr" "length xs < 2 ^ 32"
  shows "\<exists>r d' s'. readList rv d lvl (input (nbt_enc (NList rdr xs) @ rest) e) = Some (r, d', s')
    \<and> nbt_fill lim lvl (NList rdr xs) d = (r, d') \<and> (r = Ok () \<longrightarrow> s' = input rest e)"
proof (cases "xs = []")
  case True
  then show ?thesis by (simp add: readList_def io_bind_def io_ret_def be_val_be_bytes)
next
  case False
  have hd: "readList rv d lvl (input (nbt_enc (NList rdr xs) @ rest) e) =
      readListInto rv rdr d (length xs) lvl (input (concat (map nbt_enc xs) @ rest) e)"
    using False assms(2) by (simp add: readList_def io_bind_def io_ret_def be_val_be_bytes)
  show ?thesis
  proof (cases "\<exists>et v. d = Some (TSlice et, v)")
    case True
    then obtain et v where d: "d = Some (TSlice et, v)" by blast
    obtain r s' where i: "readListItems rv rdr (Some et) (length xs) lvl (input (concat (map nbt_enc xs) @ rest) e) = Some (r, s')"
      "fill_items lim lvl (Some et) xs = r" "is_ok r \<longrightarrow> s' = input rest e"
      using readListItems_refines [OF assms(1), of xs] by blast
    then show ?thesis unfolding hd using False d
      by (cases r) (simp_all add: readListInto_def)
  next
    case nos: False
    show ?thesis
    proof (cases d)
      case None
      obtain r s' where i: "readListItems rv rdr None (length xs) lvl (input (concat (map nbt_enc xs) @ rest) e) = Some (r, s')"
        "fill_items lim lvl None xs = r" "is_ok r \<longrightarrow> s' = input rest e"
        using readListItems_refines [OF assms(1), of xs] by blast
      then show ?thesis unfolding hd using False None by (cases r) (simp_all add: readListInto_def)
    next
      case (Some tv)
      with nos show ?thesis unfolding hd using False
        by (cases tv; cases "fst tv") (simp_all add: readListInto_def)
    qed
  qed
qed

lemma readCompound_refines:
  assumes "\<And>n t. (n, t) \<in> set fs \<Longrightarrow> refines rv lim t \<and> length n < 2 ^ 16"
  shows "\<exists>r d' s'. readCompound lim rv d lvl (input (nbt_enc (NCompound fs) @ rest) e) = Some (r, d', s')
    \<and> nbt_fill lim lvl (NCompound fs) d = (r, d') \<and> (r = Ok () \<longrightarrow> s' = input rest e)"
proof -
  have "length fs < Suc (length (fields_enc fs @ 0 # rest))" using length_fields_enc [of fs] by simp
  note fields = readCompoundFields_refines [OF assms this]
  show ?thesis unfolding nbt_enc_compound
    using fields [of d lvl rest e] by (auto simp: readCompound_def simp del: readCompoundFields.simps
        split: option.split nbt_ty.split)
qed

text \<open>The leaves: a fixed number of bytes, an array, a string.\<close>

lemma read_fixed_enc:
  "length bs = n \<Longrightarrow> f bs = g \<Longrightarrow>
   read_fixed n f d (input (bs @ rest) e) = (case put g d of (r, d') \<Rightarrow> (r, d', input rest e))"
  by (simp add: read_fixed_def)

lemma readByte_enc:
  assumes "in_width 8 i"
  shows "readByte d (input (int_bytes 1 i @ rest) e) = (case put (as_int i) d of (r, d') \<Rightarrow> (r, d', input rest e))"
proof -
  obtain b where b: "int_bytes 1 i = [b]" by (simp add: int_bytes_def)
  have "to_signed 8 (be_val (int_bytes 1 i)) = i" using leaf_decode(1) assms by simp
  with b have "to_signed 8 (unat b) = i" by (simp add: be_val_def)
  with b show ?thesis by (simp add: readByte_def)
qed

lemma readString_enc:
  "length x < 2 ^ 16 \<Longrightarrow> readString d (input (str_bytes x @ rest) e) =
    (case put (as_string x) d of (r, d') \<Rightarrow> (r, d', input rest e))"
  by (simp add: readString_def)

lemma refines_leaf:
  assumes "nbt_wf t" "nest t = 0"
  shows "refines (readValue (Suc f) lim) lim t"
proof -
  have "readValue (Suc f) lim (reader_of t) d lvl (input (nbt_enc t @ rest) e) =
      (case nbt_fill lim lvl t d of (r, d') \<Rightarrow> Some (r, d', input rest e))" for d lvl rest e
  proof (cases t)
    case (NByte i)
    with assms(1) show ?thesis using readByte_enc [of i] by (simp split: prod.split)
  next
    case (NByteArray xs)
    have one: "be_val [word_of_nat x] = x" if "x < 256" for x
      using be_val_be_bytes [of x 1] that by simp
    from NByteArray assms(1) show ?thesis
      using read_array_enc [of xs "be_bytes 1" 1 "\<lambda>bs. int (be_val bs)" int TUint8 d rest e]
      by (simp add: readByteArray_def list_all_iff one split: prod.split)
  next
    case (NIntArray xs)
    with assms(1) show ?thesis
      using read_array_enc [of xs "int_bytes 4" 4 "\<lambda>bs. to_signed 32 (be_val bs)" id "TInt 32" d rest e]
      by (simp add: readIntArray_def list_all_iff leaf_decode split: prod.split)
  next
    case (NLongArray xs)
    with assms(1) show ?thesis
      using read_array_enc [of xs "int_bytes 8" 8 "\<lambda>bs. to_signed 64 (be_val bs)" id "TInt 64" d rest e]
      by (simp add: readLongArray_def list_all_iff leaf_decode split: prod.split)
  next
    case (NString x)
    with assms(1) show ?thesis by (simp add: readString_enc split: prod.split)
  qed (use assms in \<open>simp_all add: readShort_def readInt_def readLong_def readFloat_def readDouble_def
      read_fixed_enc leaf_decode split: prod.split\<close>)
  then show ?thesis unfolding refines_def by (metis (no_types, lifting) case_prod_conv surj_pair)
qed

lemma refines_readValue: "nbt_wf t \<Longrightarrow> nest t < f \<Longrightarrow> refines (readValue f lim) lim t"
proof (induction t arbitrary: f rule: nest.induct)
  case (1 r xs)
  from 1 obtain g where g: "f = Suc g" by (cases f) auto
  have "refines (readValue g lim) lim t \<and> reader_of t = r" if "t \<in> set xs" for t
    using 1 that nest_list [OF that, of r] g by (auto simp: list_all_iff)
  from readList_refines [OF this] 1 g show ?case by (simp add: refines_def)
next
  case (2 fs)
  from 2 obtain g where g: "f = Suc g" by (cases f) auto
  have "refines (readValue g lim) lim t \<and> length n < 2 ^ 16" if "(n, t) \<in> set fs" for n t
    using 2 that nest_compound [OF that] g by (fastforce simp: list_all_iff)
  from readCompound_refines [OF this] g show ?case by (simp add: refines_def)
qed (auto simp only: gr0_conv_Suc nest.simps intro!: refines_leaf)

section \<open>The properties of Decode\<close>

text \<open>A document with its top tag.\<close>

definition nbt_document :: "string \<Rightarrow> nbt \<Rightarrow> bytes" where
  "nbt_document n t = tag_of (reader_of t) # str_bytes n @ nbt_enc t"

text \<open>
  Property C23: decoding is faithful to the document.  On the encoding of any well-formed
  document, with anything after it, \<open>Decode\<close> returns the error and leaves the
  destination that the meaning \<open>nbt_fill\<close> of the document gives, whatever the type of the
  destination; when it succeeds it has read exactly the document.
\<close>

theorem nbt_Decode_refines_fill:
  assumes "nbt_wf t" and "length n < 2 ^ 16"
  shows "\<exists>r d s'. nbt_Decode lim (Some tv) (input (nbt_document n t @ rest) e) = Some (r, d, s')
    \<and> nbt_fill lim 0 t (Some tv) = (r, d) \<and> (r = Ok () \<longrightarrow> s' = input rest e)"
proof -
  let ?s = "input (nbt_enc t @ rest) e"
  have "nest t < nbt_fuel ?s" using nest_le_enc [of t] by (simp add: nbt_fuel_def)
  then have "refines (readValue (nbt_fuel ?s) lim) lim t" by (rule refines_readValue [OF assms(1)])
  then obtain r d s' where
    "readValue (nbt_fuel ?s) lim (reader_of t) (Some tv) 0 ?s = Some (r, d, s')"
    "nbt_fill lim 0 t (Some tv) = (r, d)" "r = Ok () \<Longrightarrow> s' = input rest e"
    by (rule refinesD [where lvl = 0 and d = "Some tv"]) blast
  with assms(2) show ?thesis
    by (simp add: nbt_Decode_def decode_top_def nbt_document_def)
qed

definition sample_nbt :: nbt where
  "sample_nbt = NCompound [(''Data'', NCompound [(''Name'', NString ''1.20''), (''x'', NList RInt [NInt (-5), NInt 7])])]"

definition sample_ty :: nbt_ty where
  "sample_ty = TStruct [(''Data'', [], TStruct [(''V'', ''Name'', TString), (''X'', ''x'', TSlice (TInt 32))])]"

lemma nbt_Decode_refines_fill_witness:
  "\<exists>r d s'. nbt_Decode 0 (Some (sample_ty, zero_of sample_ty))
       (input (nbt_document [] sample_nbt @ [1]) EOF) = Some (r, d, s')
    \<and> nbt_fill 0 0 sample_nbt (Some (sample_ty, zero_of sample_ty)) = (r, d)
    \<and> (r = Ok () \<longrightarrow> s' = input [1] EOF)"
  by (rule nbt_Decode_refines_fill) (simp_all add: sample_nbt_def in_width_def)

text \<open>How many compounds enclose each other; lists between them do not count.\<close>

fun comp_depth :: "nbt \<Rightarrow> nat" where
  "comp_depth (NList r xs) = Max (insert 0 (comp_depth ` set xs))"
| "comp_depth (NCompound fs) = Suc (Max (insert 0 ((\<lambda>(n, t). comp_depth t) ` set fs)))"
| "comp_depth _ = 0"

lemma fill_items_None:
  "fill_items lim lvl None ts = Ok vs \<Longrightarrow> t \<in> set ts \<Longrightarrow> fst (nbt_fill lim lvl t None) = Ok ()"
  "(\<And>t. t \<in> set ts \<Longrightarrow> fst (nbt_fill lim lvl t None) = Ok ()) \<Longrightarrow> is_ok (fill_items lim lvl None ts)"
proof (induction ts arbitrary: vs)
  case (Cons x ts)
  { case 1
    with Cons.IH(1) show ?case
      by (cases "fill_items lim lvl None ts") (auto split: prod.splits res.splits)
  next
    case 2
    with Cons.IH(2) have "is_ok (fill_items lim lvl None ts)" "fst (nbt_fill lim lvl x None) = Ok ()"
      by simp_all
    then show ?case by (cases "fill_items lim lvl None ts") (auto split: prod.splits res.splits)
  }
qed simp_all

lemma fill_fields_None:
  "fst (fill_fields lim lvl fs None) = Ok () \<longleftrightarrow>
     (\<forall>(n, t) \<in> set fs. fst (nbt_fill lim (lvl + 1) t None) = Ok ())"
proof (induction fs)
  case (Cons a fs)
  then show ?case
    by (cases a) (auto simp: sub_dest_def put_back_def lookup_field_def split: prod.splits)
qed simp

lemma fill_None: "snd (nbt_fill lim lvl t None) = None"
proof -
  have "snd (fill_fields lim lvl fs None) = None" for fs
    by (induction fs) (auto simp: put_back_def split: prod.splits)
  then show ?thesis by (cases t) (simp_all add: put_def)
qed

lemma Max_insert0_le: "finite A \<Longrightarrow> Max (insert 0 A) \<le> (k :: nat) \<longleftrightarrow> (\<forall>a \<in> A. a \<le> k)"
  by (auto simp: Max_le_iff)

lemma map_res_Ok: "map_res f r = Ok y \<longleftrightarrow> (\<exists>x. r = Ok x \<and> y = f x)"
  by (cases r) auto

lemma is_ok_iff: "is_ok r \<longleftrightarrow> (\<exists>x. r = Ok x)"
  by (cases r) auto

lemma skip_depth:
  assumes "0 \<le> lvl" "lvl \<le> lim" "0 < lim"
  shows "fst (nbt_fill lim lvl t None) = Ok () \<longleftrightarrow> lvl + int (comp_depth t) \<le> lim"
  using assms
proof (induction t arbitrary: lvl rule: comp_depth.induct)
  case (1 r xs)
  have "fst (nbt_fill lim lvl (NList r xs) None) = Ok () \<longleftrightarrow>
      (\<forall>t \<in> set xs. fst (nbt_fill lim lvl t None) = Ok ())"
    using fill_items_None [where lim = lim and lvl = lvl and ts = xs] by (auto simp: map_res_Ok is_ok_iff)
  also have "\<dots> \<longleftrightarrow> (\<forall>t \<in> set xs. comp_depth t \<le> nat (lim - lvl))"
    using 1 by (auto simp: nat_le_iff le_nat_iff)
  also have "\<dots> \<longleftrightarrow> comp_depth (NList r xs) \<le> nat (lim - lvl)" by (simp add: Max_insert0_le)
  also have "\<dots> \<longleftrightarrow> lvl + int (comp_depth (NList r xs)) \<le> lim" using 1 by linarith
  finally show ?case .
next
  case (2 fs)
  show ?case
  proof (cases "lvl = lim")
    case True
    with 2 show ?thesis by simp
  next
    case False
    with 2 have l: "0 \<le> lvl + 1" "lvl + 1 \<le> lim" by simp_all
    have "fst (nbt_fill lim lvl (NCompound fs) None) = Ok () \<longleftrightarrow>
        (\<forall>(n, t) \<in> set fs. fst (nbt_fill lim (lvl + 1) t None) = Ok ())"
      using l by (simp add: fill_fields_None)
    also have "\<dots> \<longleftrightarrow> (\<forall>(n, t) \<in> set fs. comp_depth t \<le> nat (lim - lvl) - 1)"
    proof (intro ball_cong refl)
      fix x assume x: "x \<in> set fs"
      obtain n t where nt: "x = (n, t)" by (cases x)
      have "fst (nbt_fill lim (lvl + 1) t None) = Ok () \<longleftrightarrow> (lvl + 1) + int (comp_depth t) \<le> lim"
        using 2 x nt l by blast
      then show "(case x of (n, t) \<Rightarrow> fst (nbt_fill lim (lvl + 1) t None) = Ok ())
          = (case x of (n, t) \<Rightarrow> comp_depth t \<le> nat (lim - lvl) - 1)" using nt l by auto
    qed
    also have "\<dots> \<longleftrightarrow> Max (insert 0 ((\<lambda>(n, t). comp_depth t) ` set fs)) \<le> nat (lim - lvl) - 1"
      by (subst Max_insert0_le) auto
    also have "\<dots> \<longleftrightarrow> lvl + int (comp_depth (NCompound fs)) \<le> lim"
    proof -
      have "m \<le> nat (lim - lvl) - 1 \<longleftrightarrow> lvl + int (Suc m) \<le> lim" for m using l by linarith
      then show ?thesis by (simp only: comp_depth.simps)
    qed
    finally show ?thesis .
  qed
qed (use assms in \<open>simp_all add: put_def\<close>)

text \<open>
  Property C40: the depth limit counts compounds.  A field the destination does not have is
  skipped (destination \<open>None\<close>); with a limit, skipping a well-formed document that stands
  inside \<open>lvl\<close> compounds succeeds exactly when the compounds nested in it stay within the
  limit.  Lists between the compounds are not counted.
\<close>

theorem skip_within_depth_limit:
  assumes "nbt_wf t" and "0 \<le> lvl" and "lvl \<le> lim" and "0 < lim"
  shows "(\<exists>s'. readValue (Suc (length (nbt_enc t))) lim (reader_of t) None lvl (input (nbt_enc t) e)
            = Some (Ok (), None, s'))
    \<longleftrightarrow> lvl + int (comp_depth t) \<le> lim"
proof -
  have "refines (readValue (Suc (length (nbt_enc t))) lim) lim t"
    by (rule refines_readValue [OF assms(1)]) (simp add: nest_le_enc le_imp_less_Suc)
  then obtain r d s' where rv:
    "readValue (Suc (length (nbt_enc t))) lim (reader_of t) None lvl (input (nbt_enc t @ []) e) = Some (r, d, s')"
    "nbt_fill lim lvl t None = (r, d)"
    by (rule refinesD) blast
  have "snd (nbt_fill lim lvl t None) = None" by (rule fill_None)
  with rv skip_depth [OF assms(2-4), of t] show ?thesis by auto
qed

lemma skip_within_depth_limit_witness:
  "(\<exists>s'. readValue (Suc (length (nbt_enc sample_nbt))) 1 (reader_of sample_nbt) None 0 (input (nbt_enc sample_nbt) EOF)
        = Some (Ok (), None, s'))
    \<longleftrightarrow> 0 + int (comp_depth sample_nbt) \<le> 1"
  by (rule skip_within_depth_limit) (simp_all add: sample_nbt_def in_width_def)

end
