(* ===== verification/GoTime.thy ===== *)
theory GoTime
  imports Prelude
begin

text \<open>
  \<open>time.Parse(time.RFC3339, s)\<close> and \<open>path.Join\<close>, as the clients of the cloud and of the
  object store use them.  A time is the number of nanoseconds since 1970.  The parser has the
  leniencies of the library: an hour of one digit, a comma before the fraction, which the
  layout does not mention.
\<close>

section \<open>Times\<close>

definition take_num :: "nat \<Rightarrow> string \<Rightarrow> (nat \<times> string) option" where
  "take_num n s =
     (if length s < n \<or> \<not> list_all is_digit (take n s) then None
      else Some (digits_val (take n s), drop n s))"

definition take_hour :: "string \<Rightarrow> (nat \<times> string) option" where
  "take_hour s = (case take_num 2 s of Some r \<Rightarrow> Some r | None \<Rightarrow> take_num 1 s)"

definition take_lit :: "char \<Rightarrow> string \<Rightarrow> string option" where
  "take_lit c s = (case s of [] \<Rightarrow> None | x # r \<Rightarrow> if x = c then Some r else None)"

text \<open>The fraction, in nanoseconds: nine digits count, the others are skipped.\<close>

definition take_fraction :: "string \<Rightarrow> int \<times> string" where
  "take_fraction s =
     (case s of
        c # d # r \<Rightarrow>
          if c \<in> set ''.,'' \<and> is_digit d then
            let ds = takeWhile is_digit (d # r); used = take 9 ds in
            (int (digits_val used) * 10 ^ (9 - length used), dropWhile is_digit (d # r))
          else (0, s)
      | _ \<Rightarrow> (0, s))"

text \<open>The zone: its offset in seconds; nothing may follow it.\<close>

definition parse_zone :: "string \<Rightarrow> int option" where
  "parse_zone s =
     (if s = ''Z'' then Some 0
      else if length s \<noteq> 6 \<or> s ! 3 \<noteq> CHR '':'' \<or> s ! 0 \<notin> set ''+-'' then None
      else case (take_num 2 (drop 1 s), take_num 2 (drop 4 s)) of
        (Some (h, _), Some (m, _)) \<Rightarrow>
          if 24 < h \<or> 60 < m then None
          else Some ((if s ! 0 = CHR ''-'' then -1 else 1) * (int h * 60 + int m) * 60)
      | _ \<Rightarrow> None)"

definition leap_year :: "int \<Rightarrow> bool" where
  "leap_year y = (y mod 4 = 0 \<and> (y mod 100 \<noteq> 0 \<or> y mod 400 = 0))"

definition days_in_months :: "int \<Rightarrow> nat list" where
  "days_in_months y = [31, if leap_year y then 29 else 28, 31, 30, 31, 30, 31, 31, 30, 31, 30, 31]"

definition days_before :: "int \<Rightarrow> nat \<Rightarrow> nat \<Rightarrow> int" where
  "days_before y m d =
     365 * (y - 1) + (y - 1) div 4 - (y - 1) div 100 + (y - 1) div 400 - 719162
     + int (sum_list (take (m - 1) (days_in_months y))) + int d - 1"

definition parse_rfc3339_opt :: "string \<Rightarrow> int option" where
  "parse_rfc3339_opt s =
     Option.bind (take_num 4 s) (\<lambda>(y, s). Option.bind (take_lit (CHR ''-'') s) (\<lambda>s.
     Option.bind (take_num 2 s) (\<lambda>(mo, s). Option.bind (take_lit (CHR ''-'') s) (\<lambda>s.
     Option.bind (take_num 2 s) (\<lambda>(d, s). Option.bind (take_lit (CHR ''T'') s) (\<lambda>s.
     Option.bind (take_hour s) (\<lambda>(h, s). Option.bind (take_lit (CHR '':'') s) (\<lambda>s.
     Option.bind (take_num 2 s) (\<lambda>(mi, s). Option.bind (take_lit (CHR '':'') s) (\<lambda>s.
     Option.bind (take_num 2 s) (\<lambda>(se, s).
     let (ns, s) = take_fraction s in
     Option.bind (parse_zone s) (\<lambda>off.
     if mo < 1 \<or> 12 < mo \<or> d < 1 \<or> days_in_months (int y) ! (mo - 1) < d \<or> 23 < h \<or> 59 < mi \<or> 59 < se
     then None
     else Some ((((days_before (int y) mo d * 24 + int h) * 60 + int mi) * 60 + int se - off) * 1000000000 + ns)
     ))))))))))))"

definition parse_rfc3339 :: "string \<Rightarrow> int res" where
  "parse_rfc3339 s =
     (case parse_rfc3339_opt s of None \<Rightarrow> Err (Ext ''parsing time'') | Some t \<Rightarrow> Ok t)"

text \<open>The zero value of \<open>time.Time\<close>: the first of January of the year 1.\<close>

definition zero_time :: int where
  "zero_time = days_before 1 1 1 * 86400 * 1000000000"

lemma parse_rfc3339_examples:
  "parse_rfc3339 ''2024-03-01T03:04:05Z'' = Ok (1709262245 * 1000000000)"
  "parse_rfc3339 ''2024-03-01T12:04:05.25+09:00'' = Ok (1709262245 * 1000000000 + 250000000)"
  "is_ok (parse_rfc3339 ''2023-02-29T00:00:00Z'') = False"
  "zero_time = - 62135596800 * 1000000000"
  by (simp_all add: parse_rfc3339_def parse_rfc3339_opt_def take_num_def take_hour_def take_lit_def
      take_fraction_def parse_zone_def days_before_def days_in_months_def leap_year_def zero_time_def
      digits_val_def digit_val_def is_digit_def)

section \<open>Paths\<close>

text \<open>\<open>path.Clean\<close>: segments are kept on a stack, last first.\<close>

definition clean_push :: "bool \<Rightarrow> string list \<Rightarrow> string \<Rightarrow> string list" where
  "clean_push rooted st seg =
     (if seg = [] \<or> seg = ''.'' then st
      else if seg = ''..'' then
        (case st of
           [] \<Rightarrow> if rooted then [] else [seg]
         | x # r \<Rightarrow> if x = ''..'' then seg # st else r)
      else seg # st)"

fun slash_join :: "string list \<Rightarrow> string" where
  "slash_join [] = []"
| "slash_join [x] = x"
| "slash_join (x # y # r) = x @ ''/'' @ slash_join (y # r)"

definition path_Clean :: "string \<Rightarrow> string" where
  "path_Clean s =
     (let rooted = has_prefix ''/'' s;
          out = (if rooted then ''/'' else []) @ slash_join (rev (foldl (clean_push rooted) [] (str_split ''/'' s)))
      in if out = [] then ''.'' else out)"

definition path_Join :: "string list \<Rightarrow> string" where
  "path_Join es =
     (let ne = filter (\<lambda>e. e \<noteq> []) es in if ne = [] then [] else path_Clean (slash_join ne))"

lemma path_Join_examples:
  "path_Join [''/v3'', ''auth/tokens''] = ''/v3/auth/tokens''"
  "path_Join ['''', ''volumes''] = ''volumes''"
  "path_Join [''/a/b/'', ''../c/./d''] = ''/a/c/d''"
  by code_simp+

end
