(* ===== verification/Json.thy ===== *)
theory Json
  imports Prelude
begin

text \<open>
  \<open>encoding/json\<close> as the program uses it: JSON values, decoding into a Go value that
  already exists (a \<open>null\<close> leaves it alone, unknown members are ignored, member names match
  without regard to case, a value of another kind is an error), encoding with \<open>omitempty\<close>,
  and the text of an encoded value.  Text that does not parse is the value \<open>JBad\<close>.
\<close>

section \<open>Values\<close>

datatype json =
    JNull
  | JBool bool
  | JInt int
  | JNum string
  | JStr string
  | JArr "json list"
  | JObj "(string \<times> json) list"
  | JBad

type_synonym 'a dec = "'a \<Rightarrow> json \<Rightarrow> 'a res"

definition json_mismatch :: "'a res" where
  "json_mismatch = Err TypeMismatch"

definition json_syntax :: "'a res" where
  "json_syntax = Err (Ext ''invalid JSON'')"

section \<open>Decoding\<close>

definition dec_str :: "string dec" where
  "dec_str old j =
     (case j of JStr s \<Rightarrow> Ok s | JNull \<Rightarrow> Ok old | JBad \<Rightarrow> json_syntax | _ \<Rightarrow> json_mismatch)"

definition dec_int :: "int dec" where
  "dec_int old j =
     (case j of
        JInt i \<Rightarrow> if int64_min \<le> i \<and> i \<le> int64_max then Ok i else json_mismatch
      | JNull \<Rightarrow> Ok old | JBad \<Rightarrow> json_syntax | _ \<Rightarrow> json_mismatch)"

definition dec_uint :: "int dec" where
  "dec_uint old j =
     (case j of
        JInt i \<Rightarrow> if 0 \<le> i \<and> i < 2 ^ 64 then Ok i else json_mismatch
      | JNull \<Rightarrow> Ok old | JBad \<Rightarrow> json_syntax | _ \<Rightarrow> json_mismatch)"

definition dec_bool :: "bool dec" where
  "dec_bool old j =
     (case j of JBool b \<Rightarrow> Ok b | JNull \<Rightarrow> Ok old | JBad \<Rightarrow> json_syntax | _ \<Rightarrow> json_mismatch)"

text \<open>A pointer: \<open>null\<close> is nil, anything else goes into what it points to.\<close>

definition dec_ptr :: "'a \<Rightarrow> 'a dec \<Rightarrow> 'a option dec" where
  "dec_ptr zero d old j =
     (case j of
        JNull \<Rightarrow> Ok None
      | _ \<Rightarrow> map_res Some (d (case old of None \<Rightarrow> zero | Some x \<Rightarrow> x) j))"

text \<open>A slice: the elements replace the old ones.\<close>

fun dec_all :: "'a \<Rightarrow> 'a dec \<Rightarrow> json list \<Rightarrow> 'a list res" where
  "dec_all zero d [] = Ok []"
| "dec_all zero d (j # js) = res_bind (d zero j) (\<lambda>x. map_res (\<lambda>xs. x # xs) (dec_all zero d js))"

definition dec_list :: "'a \<Rightarrow> 'a dec \<Rightarrow> 'a list dec" where
  "dec_list zero d old j =
     (case j of
        JNull \<Rightarrow> Ok [] | JArr js \<Rightarrow> dec_all zero d js | JBad \<Rightarrow> json_syntax | _ \<Rightarrow> json_mismatch)"

text \<open>A map with string values: the members are added to the map.\<close>

fun dec_members :: "(string \<times> string) list \<Rightarrow> (string \<times> json) list \<Rightarrow> (string \<times> string) list res" where
  "dec_members m [] = Ok m"
| "dec_members m ((k, j) # kjs) =
     res_bind (dec_str [] j) (\<lambda>v. dec_members (filter (\<lambda>x. fst x \<noteq> k) m @ [(k, v)]) kjs)"

definition dec_map :: "(string \<times> string) list dec" where
  "dec_map old j =
     (case j of
        JNull \<Rightarrow> Ok [] | JObj kjs \<Rightarrow> dec_members old kjs | JBad \<Rightarrow> json_syntax | _ \<Rightarrow> json_mismatch)"

text \<open>
  A struct: the fields with their JSON names.  \<open>field\<close> makes one from its getter and
  setter; \<open>find_field\<close> prefers the exact name over one that differs in case.
\<close>

type_synonym 'a fields = "(string \<times> 'a dec) list"

definition field :: "string \<Rightarrow> 'f dec \<Rightarrow> ('a \<Rightarrow> 'f) \<Rightarrow> ('f \<Rightarrow> 'a \<Rightarrow> 'a) \<Rightarrow> string \<times> 'a dec" where
  "field name d gt st = (name, \<lambda>r j. map_res (\<lambda>v. st v r) (d (gt r) j))"

definition find_field :: "'a fields \<Rightarrow> string \<Rightarrow> 'a dec option" where
  "find_field fs k =
     (case map_of fs k of
        Some d \<Rightarrow> Some d
      | None \<Rightarrow> map_option snd (find (\<lambda>f. equal_fold (fst f) k) fs))"

fun dec_obj :: "'a fields \<Rightarrow> 'a \<Rightarrow> (string \<times> json) list \<Rightarrow> 'a res" where
  "dec_obj fs r [] = Ok r"
| "dec_obj fs r ((k, j) # kjs) =
     (case find_field fs k of
        None \<Rightarrow> dec_obj fs r kjs
      | Some d \<Rightarrow> res_bind (d r j) (\<lambda>r'. dec_obj fs r' kjs))"

definition dec_struct :: "'a fields \<Rightarrow> 'a dec" where
  "dec_struct fs old j =
     (case j of
        JNull \<Rightarrow> Ok old | JObj kjs \<Rightarrow> dec_obj fs old kjs | JBad \<Rightarrow> json_syntax | _ \<Rightarrow> json_mismatch)"

section \<open>Encoding\<close>

definition enc_ptr :: "('a \<Rightarrow> json) \<Rightarrow> 'a option \<Rightarrow> json" where
  "enc_ptr e x = (case x of None \<Rightarrow> JNull | Some y \<Rightarrow> e y)"

text \<open>A pointer field with \<open>omitempty\<close>: no member when it is nil.\<close>

definition omit_nil :: "string \<Rightarrow> ('a \<Rightarrow> json) \<Rightarrow> 'a option \<Rightarrow> (string \<times> json) list" where
  "omit_nil name e x = (case x of None \<Rightarrow> [] | Some y \<Rightarrow> [(name, e y)])"

definition omit_empty :: "string \<Rightarrow> ('a \<Rightarrow> json) \<Rightarrow> 'a list \<Rightarrow> (string \<times> json) list" where
  "omit_empty name e xs = (if xs = [] then [] else [(name, JArr (map e xs))])"

definition enc_map :: "(string \<times> string) list \<Rightarrow> json" where
  "enc_map m = JObj (map (\<lambda>(k, v). (k, JStr v)) m)"

section \<open>Text\<close>

text \<open>
  \<open>json.Marshal\<close> writes a string in quotes, escaping quotes, backslashes, control characters
  and the characters \<open><\<close>, \<open>>\<close> and \<open>&\<close>, and the separators U+2028 and U+2029, which are three bytes
  each.  Strings are UTF-8.
\<close>

definition hex_char :: "nat \<Rightarrow> char" where
  "hex_char n = (if n < 10 then char_of (48 + n) else char_of (87 + n))"

definition json_escape :: "char \<Rightarrow> string" where
  "json_escape c =
     (let n = of_char c :: nat in
      if c = CHR 0x22 then [CHR 0x5C, CHR 0x22]
      else if c = CHR 0x5C then [CHR 0x5C, CHR 0x5C]
      else if n = 8 then [CHR 0x5C, CHR 0x62]
      else if n = 9 then [CHR 0x5C, CHR 0x74]
      else if n = 10 then [CHR 0x5C, CHR 0x6E]
      else if n = 12 then [CHR 0x5C, CHR 0x66]
      else if n = 13 then [CHR 0x5C, CHR 0x72]
      else if n < 32 \<or> c \<in> set ''<>&''
        then [CHR 0x5C, CHR 0x75, CHR 0x30, CHR 0x30, hex_char (n div 16), hex_char (n mod 16)]
      else [c])"

definition line_separator :: "string \<Rightarrow> char option" where
  "line_separator s =
     (if take 3 s = [CHR 0xE2, CHR 0x80, CHR 0xA8] then Some (CHR ''8'')
      else if take 3 s = [CHR 0xE2, CHR 0x80, CHR 0xA9] then Some (CHR ''9'') else None)"

function json_escapes :: "string \<Rightarrow> string" where
  "json_escapes [] = []"
| "json_escapes (c # s) =
     (case line_separator (c # s) of
        Some x \<Rightarrow> [CHR 0x5C, CHR ''u'', CHR ''2'', CHR ''0'', CHR ''2'', x] @ json_escapes (drop 2 s)
      | None \<Rightarrow> json_escape c @ json_escapes s)"
  by pat_completeness auto
termination
  by (relation "measure length") auto

lemma line_separator_other [simp]: "c \<noteq> CHR 0xE2 \<Longrightarrow> line_separator (c # s) = None"
  by (simp add: line_separator_def)

definition json_quote :: "string \<Rightarrow> string" where
  "json_quote s = CHR 0x22 # json_escapes s @ [CHR 0x22]"

fun json_join :: "string list \<Rightarrow> string" where
  "json_join [] = []"
| "json_join [x] = x"
| "json_join (x # y # xs) = x @ '','' @ json_join (y # xs)"

fun json_text :: "json \<Rightarrow> string" where
  "json_text JNull = ''null''"
| "json_text (JBool b) = (if b then ''true'' else ''false'')"
| "json_text (JInt i) = fmt_d i"
| "json_text (JNum s) = s"
| "json_text (JStr s) = json_quote s"
| "json_text (JArr js) = ''['' @ json_join (map json_text js) @ '']''"
| "json_text (JObj kjs) =
     ''{'' @ json_join (map (\<lambda>(k, j). json_quote k @ '':'' @ json_text j) kjs) @ ''}''"
| "json_text JBad = []"

section \<open>Lemmas\<close>

named_theorems json_simps

lemma dec_leaf [json_simps]:
  "dec_str old (JStr s) = Ok s" "dec_bool oldb (JBool b) = Ok b"
  "dec_str old JNull = Ok old" "dec_bool oldb JNull = Ok oldb" "dec_int oldi JNull = Ok oldi"
  by (simp_all add: dec_str_def dec_bool_def dec_int_def)

lemma dec_int_range [json_simps]:
  "int64_min \<le> i \<Longrightarrow> i \<le> int64_max \<Longrightarrow> dec_int old (JInt i) = Ok i"
  by (simp add: dec_int_def)

lemma dec_uint_range [json_simps]: "0 \<le> i \<Longrightarrow> i < 2 ^ 64 \<Longrightarrow> dec_uint old (JInt i) = Ok i"
  by (simp add: dec_uint_def)

text \<open>A decoder that inverts an encoder from every old value.\<close>

definition inverts :: "('a \<Rightarrow> bool) \<Rightarrow> 'a dec \<Rightarrow> ('a \<Rightarrow> json) \<Rightarrow> bool" where
  "inverts P d e = (\<forall>old x. P x \<longrightarrow> d old (e x) = Ok x)"

lemma invertsD: "inverts P d e \<Longrightarrow> P x \<Longrightarrow> d old (e x) = Ok x"
  by (simp add: inverts_def)

lemma dec_all_inverts:
  "inverts P d e \<Longrightarrow> list_all P xs \<Longrightarrow> dec_all zero d (map e xs) = Ok xs"
  by (induction xs) (simp_all add: inverts_def)

lemma dec_list_inverts: "inverts P d e \<Longrightarrow> inverts (list_all P) (dec_list zero d) (\<lambda>xs. JArr (map e xs))"
  by (simp add: inverts_def [of "list_all P"] dec_list_def dec_all_inverts)

lemma dec_ptr_eq:
  "dec_ptr zero d old j =
    (if j = JNull then Ok None else map_res Some (d (case old of None \<Rightarrow> zero | Some x \<Rightarrow> x) j))"
  by (cases j) (simp_all add: dec_ptr_def)

lemma dec_ptr_inverts:
  assumes "inverts P d e" "\<And>x. e x \<noteq> JNull"
  shows "inverts (pred_option P) (dec_ptr zero d) (enc_ptr e)"
  using assms unfolding inverts_def
  by (auto simp: enc_ptr_def dec_ptr_eq split: option.split)

lemma dec_ptr_enc [json_simps]:
  assumes "inverts P d e" "P x" "e x \<noteq> JNull"
  shows "dec_ptr zero d old (e x) = Ok (Some x)"
  using invertsD [OF assms(1,2)] assms(3) by (simp add: dec_ptr_eq)

lemma dec_members_enc:
  "distinct (map fst (m @ kvs)) \<Longrightarrow> dec_members m (map (\<lambda>(k, v). (k, JStr v)) kvs) = Ok (m @ kvs)"
proof (induction kvs arbitrary: m)
  case (Cons kv kvs)
  obtain k v where kv: "kv = (k, v)" by (cases kv)
  with Cons.prems have "filter (\<lambda>x. fst x \<noteq> k) m = m" by (auto intro!: filter_True)
  moreover have "dec_members (m @ [(k, v)]) (map (\<lambda>(k, v). (k, JStr v)) kvs) = Ok (m @ kv # kvs)"
    using Cons.IH [of "m @ [(k, v)]"] Cons.prems kv by simp
  ultimately show ?case by (simp add: kv dec_str_def)
qed simp

lemma find_field_exact [json_simps]: "map_of fs k = Some d \<Longrightarrow> find_field fs k = Some d"
  by (simp add: find_field_def)

lemma inverts_str: "inverts (\<lambda>_. True) dec_str JStr"
  by (simp add: inverts_def dec_str_def)

lemma dec_list_str [json_simps]: "dec_list [] dec_str old (JArr (map JStr xs)) = Ok xs"
  using dec_list_inverts [OF inverts_str] by (auto simp: inverts_def list_all_iff)

lemma dec_map_enc [json_simps]: "distinct (map fst m) \<Longrightarrow> dec_map [] (enc_map m) = Ok m"
  using dec_members_enc [of "[]" m] by (simp add: dec_map_def enc_map_def)

lemma dec_obj_append: "dec_obj fs r (xs @ ys) = res_bind (dec_obj fs r xs) (\<lambda>r'. dec_obj fs r' ys)"
proof (induction xs arbitrary: r)
  case (Cons a xs)
  obtain k j where a: "a = (k, j)" by (cases a)
  show ?case
  proof (cases "find_field fs k")
    case (Some d)
    then show ?thesis using Cons.IH a by (cases "d r j") simp_all
  qed (simp add: Cons.IH a)
qed simp

text \<open>One optional field: whether it is in the text or not, the field has its value afterwards.\<close>

definition omit_inverts :: "'a \<Rightarrow> 'a dec \<Rightarrow> ('a \<Rightarrow> json) \<Rightarrow> 'a option \<Rightarrow> bool" where
  "omit_inverts z d e x = (case x of None \<Rightarrow> True | Some y \<Rightarrow> d z (e y) = Ok y \<and> e y \<noteq> JNull)"

lemma dec_omit:
  assumes "find_field fs k = Some (\<lambda>r j. map_res (\<lambda>v. st v r) (dec_ptr z d (gt r) j))"
    and "gt r = None" and "st None r = r" and "omit_inverts z d e x"
    and "dec_obj fs (st x r) rest = y"
  shows "dec_obj fs r (omit_nil k e x @ rest) = y"
  using assms by (cases x) (simp_all add: omit_nil_def omit_inverts_def dec_ptr_eq)

lemma dec_omit_last:
  assumes "dec_obj fs r (omit_nil k e x @ []) = y"
  shows "dec_obj fs r (omit_nil k e x) = y"
  using assms by simp

lemma omit_inverts_leaf [json_simps]:
  "omit_inverts [] dec_str JStr s" "omit_inverts False dec_bool JBool b"
  "pred_option (\<lambda>i. int64_min \<le> i \<and> i \<le> int64_max) i \<Longrightarrow> omit_inverts 0 dec_int JInt i"
  "pred_option (\<lambda>m. distinct (map fst m)) m \<Longrightarrow> omit_inverts [] dec_map enc_map m"
  by (auto simp: omit_inverts_def json_simps split: option.split) (simp add: enc_map_def)

lemma json_escape_not_Nil: "json_escape c \<noteq> []"
  by (simp add: json_escape_def Let_def)

lemma json_quote_length: "length s + 2 \<le> length (json_quote s)"
proof -
  have "length s \<le> length (json_escapes s)"
  proof (induction s rule: json_escapes.induct)
    case (2 c s)
    have "1 \<le> length (json_escape c)" using json_escape_not_Nil [of c] by (cases "json_escape c") auto
    with 2 show ?case by (cases "line_separator (c # s)") fastforce+
  qed simp
  then show ?thesis by (simp add: json_quote_def)
qed

lemma json_quote_neq: "json_quote s \<noteq> s"
  using json_quote_length [of s] by auto

section \<open>Decoding does not panic\<close>

named_theorems total_intros

definition total_dec :: "'a dec \<Rightarrow> bool" where
  "total_dec d = (\<forall>old j p. d old j \<noteq> Panic p)"

lemma map_res_not_Panic [simp]: "map_res f r = Panic p \<longleftrightarrow> r = Panic p"
  by (cases r) simp_all

lemma total_dec_leaf [total_intros]: "total_dec dec_str" "total_dec dec_int" "total_dec dec_uint" "total_dec dec_bool"
  by (simp_all add: total_dec_def dec_str_def dec_int_def dec_uint_def dec_bool_def json_syntax_def json_mismatch_def split: json.split)

lemma total_dec_list [total_intros]:
  assumes "total_dec d"
  shows "total_dec (dec_list zero d)"
proof -
  have "dec_all zero d js \<noteq> Panic p" for js p
  proof (induction js)
    case (Cons j js)
    then show ?case using assms by (cases "d zero j") (auto simp: total_dec_def)
  qed simp
  then show ?thesis
    by (simp add: total_dec_def dec_list_def json_syntax_def json_mismatch_def split: json.split)
qed

lemma total_dec_struct [total_intros]:
  assumes "\<And>d. d \<in> snd ` set fs \<Longrightarrow> total_dec d"
  shows "total_dec (dec_struct fs)"
proof -
  have d: "total_dec d" if "find_field fs k = Some d" for k d
  proof -
    have "d \<in> snd ` set fs"
      using that unfolding find_field_def
      by (auto simp: find_Some_iff split: option.splits dest!: map_of_SomeD)
        (metis image_eqI nth_mem snd_conv, force)
    then show ?thesis by (rule assms)
  qed
  have "dec_obj fs r kjs \<noteq> Panic p" for r kjs p
  proof (induction kjs arbitrary: r)
    case (Cons a kjs)
    obtain k j where a: "a = (k, j)" by (cases a)
    show ?case
    proof (cases "find_field fs k")
      case (Some e)
      with d [OF this] Cons.IH a show ?thesis by (cases "e r j") (auto simp: total_dec_def)
    qed (simp add: a Cons.IH)
  qed simp
  then show ?thesis
    by (simp add: total_dec_def dec_struct_def json_syntax_def json_mismatch_def split: json.split)
qed

lemma total_dec_field [total_intros]: "total_dec d \<Longrightarrow> total_dec (snd (field n d gt st))"
  by (simp add: total_dec_def field_def)

end
