(* ===== verification/Conoha.thy ===== *)
theory Conoha
  imports GoTime Json
begin

text \<open>
  \<open>src/backend/ctrlplane/common/conoha\<close>: the client of the cloud's API.  Its state is the
  access token and when it expires; \<open>http.Client.Do\<close>, the clock and \<open>url.Parse\<close> are fields
  of the client.  A request carries its method, the parsed base and the joined path, the
  body and the token header.
\<close>

section \<open>Requests\<close>

record http_req =
  rq_Method :: string
  rq_Base :: string
  rq_Path :: string
  rq_Body :: "json option"
  rq_Token :: "string option"

record http_resp =
  rs_Status :: int
  rs_Subject :: string
  rs_Body :: json

record conoha_identity =
  ci_User :: string
  ci_Password :: string
  ci_TenantID :: string

record conoha_endpoints =
  ce_Identity :: string
  ce_Compute :: string
  ce_Image :: string
  ce_Volume :: string

record conoha_token =
  ct_token :: string
  ct_expiresAt :: int

record 'w conoha_client =
  cc_identity :: conoha_identity
  cc_endpoints :: conoha_endpoints
  cc_Do :: "http_req \<Rightarrow> ('w, http_resp) io"
  cc_Now :: "'w \<Rightarrow> int"
  cc_Parse :: "string \<Rightarrow> (string \<times> string) res"

type_synonym 'w conoha = "conoha_token \<times> 'w"

definition NewClient :: conoha_token where
  "NewClient = \<lparr>ct_token = [], ct_expiresAt = zero_time\<rparr>"

definition newRequest ::
  "'w conoha_client \<Rightarrow> string \<Rightarrow> string \<Rightarrow> string \<Rightarrow> string \<Rightarrow> json option \<Rightarrow> http_req res" where
  "newRequest C method baseURL relPath token data =
     res_bind (cc_Parse C baseURL) (\<lambda>(base, path).
       Ok \<lparr>rq_Method = method, rq_Base = base, rq_Path = path_Join [path, relPath], rq_Body = data,
           rq_Token = (if token = [] then None else Some token)\<rparr>)"

text \<open>\<open>ErrorFrom\<close>: the error the API describes, or the error of decoding the description.\<close>

definition dec_APIError :: "(int \<times> string) dec" where
  "dec_APIError = dec_struct
     [field ''code'' dec_int fst (\<lambda>v e. (v, snd e)), field ''error'' dec_str snd (\<lambda>v e. (fst e, v))]"

definition ErrorFrom :: "http_resp \<Rightarrow> go_error" where
  "ErrorFrom resp =
     (case dec_APIError (0, []) (rs_Body resp) of Ok (c, m) \<Rightarrow> APIError c m | Err e \<Rightarrow> e | Panic p \<Rightarrow> Msg p)"

text \<open>\<open>if err != nil { return ClientError{Op: op, Err: err} }\<close>\<close>

definition op_err :: "string \<Rightarrow> ('w, 'a) io \<Rightarrow> ('w, 'a) io" where
  "op_err op m w = (case m w of (Err e, w') \<Rightarrow> (Err (ClientError op e), w') | r \<Rightarrow> r)"

definition http_Do :: "'w conoha_client \<Rightarrow> http_req \<Rightarrow> ('w conoha, http_resp) io" where
  "http_Do C req = (\<lambda>(t, w). case cc_Do C req w of (r, w') \<Rightarrow> (r, (t, w')))"

section \<open>Tokens\<close>

definition token_body :: "conoha_identity \<Rightarrow> json" where
  "token_body i = JObj [(''auth'', JObj
     [(''identity'', JObj
        [(''methods'', JArr [JStr ''password'']),
         (''password'', JObj [(''user'', JObj [(''name'', JStr (ci_User i)), (''password'', JStr (ci_Password i))])])]),
      (''scope'', JObj [(''project'', JObj [(''id'', JStr (ci_TenantID i))])])])]"

definition dec_token_expiry :: "string dec" where
  "dec_token_expiry = dec_struct
     [(''token'', dec_struct [field ''expires_at'' dec_str (\<lambda>s. s) (\<lambda>v s. v)])]"

definition conoha_CreateToken :: "'w conoha_client \<Rightarrow> ('w conoha, conoha_token) io" where
  "conoha_CreateToken C =
     io_bind (op_err ''CreateToken'' (io_lift (newRequest C ''POST'' (ce_Identity (cc_endpoints C)) ''auth/tokens'' []
        (Some (token_body (cc_identity C)))))) (\<lambda>req.
     io_bind (http_Do C req) (\<lambda>resp.
     if rs_Status resp \<noteq> 201 then io_err (ClientError ''CreateToken'' (ErrorFrom resp))
     else
       io_bind (op_err ''CreateToken'' (io_lift (dec_token_expiry [] (rs_Body resp)))) (\<lambda>expires.
       io_bind (op_err ''CreateToken'' (io_lift (parse_rfc3339 expires))) (\<lambda>expiresAt.
       io_ret \<lparr>ct_token = rs_Subject resp, ct_expiresAt = expiresAt\<rparr>))))"

text \<open>A token that expires within a minute is replaced before it is used.\<close>

definition updateToken :: "'w conoha_client \<Rightarrow> ('w conoha, unit) io" where
  "updateToken C s =
     (if ct_expiresAt (fst s) - 60 * 1000000000 > cc_Now C (snd s) then (Ok (), s)
      else io_bind (conoha_CreateToken C) (\<lambda>tok (t, w). (Ok (), (tok, w))) s)"

text \<open>
  The common part of the operations after the token is current: the request, the call and
  the check of the status.
\<close>

definition api_call ::
  "'w conoha_client \<Rightarrow> string \<Rightarrow> string \<Rightarrow> string \<Rightarrow> string \<Rightarrow> json option \<Rightarrow> int \<Rightarrow> ('w conoha, http_resp) io" where
  "api_call C op method baseURL relPath data expected s =
     io_bind (op_err op (io_lift (newRequest C method baseURL relPath (ct_token (fst s)) data))) (\<lambda>req.
     io_bind (op_err op (http_Do C req)) (\<lambda>resp.
     if rs_Status resp \<noteq> expected then io_err (ClientError op (ErrorFrom resp)) else io_ret resp)) s"

definition api_result :: "string \<Rightarrow> 'a res \<Rightarrow> ('w, 'a) io" where
  "api_result op r = op_err op (io_lift r)"

section \<open>Servers\<close>

record flavor =
  fl_ID :: string
  fl_Name :: string
  fl_RAM :: int
  fl_Disk :: int
  fl_VCPUs :: int
  fl_RXTXFactor :: int
  fl_Disabled :: bool
  fl_Public :: bool

definition zero_flavor :: flavor where
  "zero_flavor = \<lparr>fl_ID = [], fl_Name = [], fl_RAM = 0, fl_Disk = 0, fl_VCPUs = 0, fl_RXTXFactor = 0,
     fl_Disabled = False, fl_Public = False\<rparr>"

definition dec_flavor :: "flavor dec" where
  "dec_flavor = dec_struct
     [field ''id'' dec_str fl_ID (\<lambda>v f. f\<lparr>fl_ID := v\<rparr>), field ''name'' dec_str fl_Name (\<lambda>v f. f\<lparr>fl_Name := v\<rparr>),
      field ''ram'' dec_int fl_RAM (\<lambda>v f. f\<lparr>fl_RAM := v\<rparr>), field ''disk'' dec_int fl_Disk (\<lambda>v f. f\<lparr>fl_Disk := v\<rparr>),
      field ''vcpus'' dec_int fl_VCPUs (\<lambda>v f. f\<lparr>fl_VCPUs := v\<rparr>),
      field ''rxtx_factor'' dec_int fl_RXTXFactor (\<lambda>v f. f\<lparr>fl_RXTXFactor := v\<rparr>),
      field ''OS-FLV-DISABLED:disabled'' dec_bool fl_Disabled (\<lambda>v f. f\<lparr>fl_Disabled := v\<rparr>),
      field ''os-flavor-access:is_public'' dec_bool fl_Public (\<lambda>v f. f\<lparr>fl_Public := v\<rparr>)]"

definition dec_flavors :: "flavor list dec" where
  "dec_flavors = dec_struct [(''flavors'', dec_list zero_flavor dec_flavor)]"

fun convertToAvailableFlavorList :: "flavor list \<Rightarrow> flavor list" where
  "convertToAvailableFlavorList [] = []"
| "convertToAvailableFlavorList (f # fs) =
     (if \<not> has_prefix ''g2l-t-'' (fl_Name f) then convertToAvailableFlavorList fs
      else f # convertToAvailableFlavorList fs)"

definition ListFlavorDetails :: "'w conoha_client \<Rightarrow> ('w conoha, flavor list) io" where
  "ListFlavorDetails C =
     io_bind (op_err ''ListFlavorDetails'' (updateToken C)) (\<lambda>_.
     io_bind (api_call C ''ListFlavorDetails'' ''GET'' (ce_Compute (cc_endpoints C)) ''flavors/detail'' None 200) (\<lambda>resp.
     io_bind (api_result ''ListFlavorDetails'' (dec_flavors [] (rs_Body resp))) (\<lambda>flavors.
     io_ret (convertToAvailableFlavorList flavors))))"

record create_server_input =
  cs_FlavorID :: string
  cs_RootVolumeID :: string
  cs_NameTag :: string
  cs_UserData :: string

text \<open>\<open>base64.RawStdEncoding\<close>: three bytes give four characters, no padding at the end.\<close>

definition base64_alphabet :: string where
  "base64_alphabet = ''ABCDEFGHIJKLMNOPQRSTUVWXYZabcdefghijklmnopqrstuvwxyz0123456789+/''"

definition b64 :: "nat \<Rightarrow> char" where
  "b64 n = base64_alphabet ! (n mod 64)"

fun base64_raw :: "string \<Rightarrow> string" where
  "base64_raw (a # b # c # r) =
     (let n = (of_char a * 256 + of_char b) * 256 + of_char c in
      [b64 (n div 262144), b64 (n div 4096), b64 (n div 64), b64 n]) @ base64_raw r"
| "base64_raw [a, b] =
     (let n = (of_char a * 256 + of_char b) * 256 in [b64 (n div 262144), b64 (n div 4096), b64 (n div 64)])"
| "base64_raw [a] = (let n = of_char a * 65536 in [b64 (n div 262144), b64 (n div 4096)])"
| "base64_raw [] = []"

definition create_server_body :: "create_server_input \<Rightarrow> json" where
  "create_server_body i = JObj [(''server'', JObj
     [(''flavorRef'', JStr (cs_FlavorID i)), (''user_data'', JStr (base64_raw (cs_UserData i))),
      (''metadata'', JObj [(''instance_name_tag'', JStr (cs_NameTag i))]), (''security_groups'', JNull),
      (''block_device_mapping_v2'', JArr [JObj [(''uuid'', JStr (cs_RootVolumeID i))]])])]"

definition dec_server_id :: "string dec" where
  "dec_server_id = dec_struct
     [(''server'', dec_struct [field ''id'' dec_str (\<lambda>s. s) (\<lambda>v s. v)])]"

text \<open>\<open>CreateServer\<close> hands on the error of the token as it is.\<close>

definition CreateServer :: "'w conoha_client \<Rightarrow> create_server_input \<Rightarrow> ('w conoha, string) io" where
  "CreateServer C i =
     io_bind (updateToken C) (\<lambda>_.
     io_bind (api_call C ''CreateServer'' ''POST'' (ce_Compute (cc_endpoints C)) ''servers'' (Some (create_server_body i)) 202) (\<lambda>resp.
     api_result ''CreateServer'' (dec_server_id [] (rs_Body resp))))"

record server_addr =
  sa_Addr :: string
  sa_Version :: int

record server_detail =
  sd_ID :: string
  sd_Name :: string
  sd_Status :: string
  sd_Addresses :: "(string \<times> server_addr list) list"
  sd_NameTag :: string
  sd_Volumes :: "string list"

definition zero_server_detail :: server_detail where
  "zero_server_detail = \<lparr>sd_ID = [], sd_Name = [], sd_Status = [], sd_Addresses = [], sd_NameTag = [], sd_Volumes = []\<rparr>"

definition dec_server_addr :: "server_addr dec" where
  "dec_server_addr = dec_struct
     [field ''addr'' dec_str sa_Addr (\<lambda>v a. a\<lparr>sa_Addr := v\<rparr>),
      field ''version'' dec_int sa_Version (\<lambda>v a. a\<lparr>sa_Version := v\<rparr>)]"

fun dec_addr_members ::
  "(string \<times> server_addr list) list \<Rightarrow> (string \<times> json) list \<Rightarrow> (string \<times> server_addr list) list res" where
  "dec_addr_members m [] = Ok m"
| "dec_addr_members m ((k, j) # kjs) =
     res_bind (dec_list \<lparr>sa_Addr = [], sa_Version = 0\<rparr> dec_server_addr [] j) (\<lambda>v.
       dec_addr_members (filter (\<lambda>x. fst x \<noteq> k) m @ [(k, v)]) kjs)"

definition dec_addresses :: "(string \<times> server_addr list) list dec" where
  "dec_addresses old j =
     (case j of
        JNull \<Rightarrow> Ok [] | JObj kjs \<Rightarrow> dec_addr_members old kjs | JBad \<Rightarrow> json_syntax | _ \<Rightarrow> json_mismatch)"

definition dec_server_detail :: "server_detail dec" where
  "dec_server_detail = dec_struct
     [field ''id'' dec_str sd_ID (\<lambda>v d. d\<lparr>sd_ID := v\<rparr>), field ''name'' dec_str sd_Name (\<lambda>v d. d\<lparr>sd_Name := v\<rparr>),
      field ''status'' dec_str sd_Status (\<lambda>v d. d\<lparr>sd_Status := v\<rparr>),
      field ''addresses'' dec_addresses sd_Addresses (\<lambda>v d. d\<lparr>sd_Addresses := v\<rparr>),
      (''metadata'', dec_struct [field ''instance_name_tag'' dec_str sd_NameTag (\<lambda>v d. d\<lparr>sd_NameTag := v\<rparr>)]),
      field ''os-extended-volumes:volumes_attached''
        (dec_list [] (dec_struct [field ''id'' dec_str (\<lambda>s. s) (\<lambda>v s. v)])) sd_Volumes (\<lambda>v d. d\<lparr>sd_Volumes := v\<rparr>)]"

definition GetServerDetail :: "'w conoha_client \<Rightarrow> string \<Rightarrow> ('w conoha, server_detail) io" where
  "GetServerDetail C serverID =
     io_bind (op_err ''GetServerDetail'' (updateToken C)) (\<lambda>_.
     io_bind (api_call C ''GetServerDetail'' ''GET'' (ce_Compute (cc_endpoints C)) (''servers/'' @ serverID) None 200) (\<lambda>resp.
     api_result ''GetServerDetail''
       (dec_struct [(''server'', dec_server_detail)] zero_server_detail (rs_Body resp))))"

definition ListServerDetails :: "'w conoha_client \<Rightarrow> ('w conoha, server_detail list) io" where
  "ListServerDetails C =
     io_bind (op_err ''ListServerDetails'' (updateToken C)) (\<lambda>_.
     io_bind (api_call C ''ListServerDetails'' ''GET'' (ce_Compute (cc_endpoints C)) ''servers/detail'' None 200) (\<lambda>resp.
     api_result ''ListServerDetails''
       (dec_struct [(''servers'', dec_list zero_server_detail dec_server_detail)] [] (rs_Body resp))))"

definition StopServer :: "'w conoha_client \<Rightarrow> string \<Rightarrow> ('w conoha, unit) io" where
  "StopServer C serverID =
     io_bind (op_err ''StopServer'' (updateToken C)) (\<lambda>_.
     io_bind (api_call C ''StopServer'' ''POST'' (ce_Compute (cc_endpoints C)) (''servers/'' @ serverID @ ''/action'')
        (Some (JObj [(''os-stop'', JNull)])) 202) (\<lambda>_. io_ret ()))"

definition DeleteServer :: "'w conoha_client \<Rightarrow> string \<Rightarrow> ('w conoha, unit) io" where
  "DeleteServer C serverID =
     io_bind (op_err ''DeleteServer'' (updateToken C)) (\<lambda>_.
     io_bind (api_call C ''DeleteServer'' ''DELETE'' (ce_Compute (cc_endpoints C)) (''servers/'' @ serverID) None 204) (\<lambda>_.
     io_ret ()))"

section \<open>Images\<close>

record image =
  im_ID :: string
  im_Status :: string
  im_Name :: string

definition zero_image :: image where
  "zero_image = \<lparr>im_ID = [], im_Status = [], im_Name = []\<rparr>"

definition dec_image :: "image dec" where
  "dec_image = dec_struct
     [field ''id'' dec_str im_ID (\<lambda>v i. i\<lparr>im_ID := v\<rparr>), field ''status'' dec_str im_Status (\<lambda>v i. i\<lparr>im_Status := v\<rparr>),
      field ''name'' dec_str im_Name (\<lambda>v i. i\<lparr>im_Name := v\<rparr>)]"

text \<open>\<open>ListImages\<close> hands on a transport error as it is.\<close>

definition ListImages :: "'w conoha_client \<Rightarrow> ('w conoha, image list) io" where
  "ListImages C =
     io_bind (op_err ''ListImages'' (updateToken C)) (\<lambda>_ s.
     io_bind (op_err ''ListImages'' (io_lift (newRequest C ''GET'' (ce_Image (cc_endpoints C)) ''v2/images'' (ct_token (fst s)) None))) (\<lambda>req.
     io_bind (http_Do C req) (\<lambda>resp.
     if rs_Status resp \<noteq> 200 then io_err (ClientError ''ListImages'' (ErrorFrom resp))
     else api_result ''ListImages'' (dec_struct [(''images'', dec_list zero_image dec_image)] [] (rs_Body resp)))) s)"

definition DeleteImage :: "'w conoha_client \<Rightarrow> string \<Rightarrow> ('w conoha, unit) io" where
  "DeleteImage C imageID =
     io_bind (op_err ''DeleteImage'' (updateToken C)) (\<lambda>_.
     io_bind (api_call C ''DeleteImage'' ''DELETE'' (ce_Image (cc_endpoints C)) (''v2/images/'' @ imageID) None 204) (\<lambda>_.
     io_ret ()))"

section \<open>Volumes\<close>

record volume =
  vo_ID :: string
  vo_Name :: string

record boot_volume =
  bv_ID :: string
  bv_Name :: string
  bv_Status :: string

definition zero_volume :: volume where
  "zero_volume = \<lparr>vo_ID = [], vo_Name = []\<rparr>"

definition dec_volume :: "volume dec" where
  "dec_volume = dec_struct
     [field ''id'' dec_str vo_ID (\<lambda>v x. x\<lparr>vo_ID := v\<rparr>), field ''name'' dec_str vo_Name (\<lambda>v x. x\<lparr>vo_Name := v\<rparr>)]"

definition dec_boot_volume :: "boot_volume dec" where
  "dec_boot_volume = dec_struct [(''volume'', dec_struct
     [field ''id'' dec_str bv_ID (\<lambda>v x. x\<lparr>bv_ID := v\<rparr>), field ''name'' dec_str bv_Name (\<lambda>v x. x\<lparr>bv_Name := v\<rparr>),
      field ''status'' dec_str bv_Status (\<lambda>v x. x\<lparr>bv_Status := v\<rparr>)])]"

definition CreateBootVolume :: "'w conoha_client \<Rightarrow> string \<Rightarrow> string \<Rightarrow> ('w conoha, boot_volume) io" where
  "CreateBootVolume C name imageID =
     io_bind (op_err ''CreateBootVolume'' (updateToken C)) (\<lambda>_.
     io_bind (api_call C ''CreateBootVolume'' ''POST'' (ce_Volume (cc_endpoints C)) ''volumes''
        (Some (JObj [(''volume'', JObj [(''size'', JInt 100), (''name'', JStr name), (''volume_type'', JStr ''c3j1-ds02-boot''),
           (''imageRef'', JStr imageID)])])) 202) (\<lambda>resp.
     api_result ''CreateBootVolume'' (dec_boot_volume \<lparr>bv_ID = [], bv_Name = [], bv_Status = []\<rparr> (rs_Body resp))))"

definition ListVolumes :: "'w conoha_client \<Rightarrow> ('w conoha, volume list) io" where
  "ListVolumes C =
     io_bind (op_err ''ListVolumes'' (updateToken C)) (\<lambda>_.
     io_bind (api_call C ''ListVolumes'' ''GET'' (ce_Volume (cc_endpoints C)) ''volumes'' None 200) (\<lambda>resp.
     api_result ''ListVolumes'' (dec_struct [(''volumes'', dec_list zero_volume dec_volume)] [] (rs_Body resp))))"

definition RenameVolume :: "'w conoha_client \<Rightarrow> string \<Rightarrow> string \<Rightarrow> ('w conoha, unit) io" where
  "RenameVolume C volumeID name =
     io_bind (op_err ''RenameVolume'' (updateToken C)) (\<lambda>_.
     io_bind (api_call C ''RenameVolume'' ''PUT'' (ce_Volume (cc_endpoints C)) (''volumes/'' @ volumeID)
        (Some (JObj [(''volume'', JObj [(''name'', JStr name)])])) 200) (\<lambda>_. io_ret ()))"

definition SaveVolumeImage :: "'w conoha_client \<Rightarrow> string \<Rightarrow> string \<Rightarrow> ('w conoha, unit) io" where
  "SaveVolumeImage C volumeID imageName =
     io_bind (op_err ''SaveVolumeImage'' (updateToken C)) (\<lambda>_.
     io_bind (api_call C ''SaveVolumeImage'' ''POST'' (ce_Volume (cc_endpoints C)) (''volumes/'' @ volumeID @ ''/action'')
        (Some (JObj [(''os-volume_upload_image'', JObj [(''image_name'', JStr imageName)])])) 202) (\<lambda>_. io_ret ()))"

section \<open>Tokens are fresh\<close>

lemma op_err_cases:
  "m w = (Ok x, w') \<Longrightarrow> op_err op m w = (Ok x, w')"
  "m w = (Err e, w') \<Longrightarrow> op_err op m w = (Err (ClientError op e), w')"
  "m w = (Panic p, w') \<Longrightarrow> op_err op m w = (Panic p, w')"
  by (simp_all add: op_err_def)

lemma op_err_OkD: "op_err op m w = (Ok x, w') \<Longrightarrow> m w = (Ok x, w')"
  by (auto simp: op_err_def split: prod.splits res.splits)

lemma keeps_op_err [keeps_intros]: "keeps I m \<Longrightarrow> keeps I (op_err op m)"
  by (auto simp: keeps_def op_err_def split: prod.split res.split) (metis snd_conv)+

lemma CreateToken_Ok:
  assumes "conoha_CreateToken C (t, w) = (Ok tok, (t', w'))"
  shows "\<exists>req resp. cc_Do C req w = (Ok resp, w') \<and> rq_Method req = ''POST'' \<and> rq_Token req = None
    \<and> rs_Status resp = 201 \<and> ct_token tok = rs_Subject resp
    \<and> res_bind (dec_token_expiry [] (rs_Body resp)) parse_rfc3339 = Ok (ct_expiresAt tok)"
  using assms unfolding conoha_CreateToken_def
  by (auto elim!: io_bind_OkE dest!: op_err_OkD simp: io_run newRequest_def http_Do_def
      split: prod.splits if_splits elim!: res_bind.elims)
    (rule exI, rule exI, rule conjI, assumption, simp)

lemma updateToken_cases:
  assumes "updateToken C (t, w) = (Ok (), (t', w'))"
  shows "t' = t \<and> w' = w \<and> cc_Now C w < ct_expiresAt t - 60 * 1000000000
    \<or> conoha_CreateToken C (t, w) = (Ok t', (t, w'))"
proof -
  have keep: "fst (snd (conoha_CreateToken C s)) = fst s" for s
  proof -
    have "keeps fst (conoha_CreateToken C)"
      unfolding conoha_CreateToken_def
      by (intro keeps_intros) (auto simp: keeps_def http_Do_def split: prod.split)
    then show ?thesis by (cases s) (simp add: keeps_def)
  qed
  obtain r t1 w1 where c: "conoha_CreateToken C (t, w) = (r, (t1, w1))" by (metis prod_cases3)
  with keep [of "(t, w)"] have "t1 = t" by simp
  with c assms show ?thesis
    by (cases r) (auto simp: updateToken_def io_simps split: if_splits)
qed

text \<open>
  The access token is current.  When \<open>updateToken\<close> succeeds, either the client
  keeps a token that is good for more than a minute, without any request, or it has the
  token and the expiry of a response with status 201 to the password request.  As long as
  that token is good for more than a minute, the next call does nothing.
\<close>

lemma updateToken_fresh:
  assumes "updateToken C (t, w) = (Ok (), (t', w'))"
  shows "((t' = t \<and> w' = w \<and> cc_Now C w + 60 * 1000000000 < ct_expiresAt t)
    \<or> (\<exists>req resp. cc_Do C req w = (Ok resp, w') \<and> rq_Method req = ''POST'' \<and> rq_Token req = None
        \<and> rs_Status resp = 201 \<and> ct_token t' = rs_Subject resp
        \<and> res_bind (dec_token_expiry [] (rs_Body resp)) parse_rfc3339 = Ok (ct_expiresAt t')))
    \<and> (\<forall>w''. cc_Now C w'' + 60 * 1000000000 < ct_expiresAt t' \<longrightarrow> updateToken C (t', w'') = (Ok (), (t', w'')))"
  using updateToken_cases [OF assms] CreateToken_Ok [of C t w t' t w'] by (auto simp: updateToken_def)

text \<open>A cloud that answers every request with one response.\<close>

definition demo_cloud :: "http_resp \<Rightarrow> unit conoha_client" where
  "demo_cloud resp = \<lparr>cc_identity = \<lparr>ci_User = ''u'', ci_Password = ''p'', ci_TenantID = ''t''\<rparr>,
     cc_endpoints = \<lparr>ce_Identity = ''https://identity/v3'', ce_Compute = ''https://compute/v2'', ce_Image = ''https://image'',
       ce_Volume = ''https://volume''\<rparr>,
     cc_Do = (\<lambda>req w. (Ok resp, w)), cc_Now = (\<lambda>w. 0), cc_Parse = (\<lambda>s. Ok (s, ''/''))\<rparr>"

definition demo_token :: http_resp where
  "demo_token = \<lparr>rs_Status = 201, rs_Subject = ''secret'',
     rs_Body = JObj [(''token'', JObj [(''expires_at'', JStr ''2024-03-01T03:04:05Z'')])]\<rparr>"

lemma demo_token_update:
  "updateToken (demo_cloud demo_token) (NewClient, ()) =
     (Ok (), (\<lparr>ct_token = ''secret'', ct_expiresAt = 1709262245 * 1000000000\<rparr>, ()))"
  by (simp add: updateToken_def NewClient_def parse_rfc3339_examples demo_cloud_def conoha_CreateToken_def newRequest_def
      io_bind_def io_lift_def io_ret_def op_err_def http_Do_def demo_token_def dec_token_expiry_def dec_struct_def
      find_field_def field_def dec_str_def)

end
