(* ===== verification/World.thy ===== *)
theory World
  imports Prelude
begin

text \<open>
  \<open>src/backend/common/s3wrap/s3wrap.go\<close> and \<open>src/backend/ctrlplane/common/world/world.go\<close>: the
  object store client and the service that lists, deletes and prunes world backups.  The
  AWS client is a parameter, a record of its calls; \<open>s3_honest\<close> is what its documentation
  promises about listing and deleting.
\<close>

section \<open>The object store client\<close>

record s3obj =
  so_Key :: string
  so_Time :: int

text \<open>\<open>time.Time\<close> is nanoseconds since the epoch; \<open>Unix\<close> and \<open>UnixMilli\<close> round down.\<close>

definition unix_sec :: "int \<Rightarrow> int" where "unix_sec t = t div 1000000000"
definition unix_milli :: "int \<Rightarrow> int" where "unix_milli t = t div 1000000"

text \<open>
  The calls of the AWS client.  A page of a listing has its objects and the continuation
  token of the next page; \<open>s3_List\<close> takes the bucket, the prefix and the token.  A response to a
  bulk deletion lists the keys that were not deleted, each with the code of its error.
\<close>

record 'w s3api =
  s3_List :: "string \<Rightarrow> string option \<Rightarrow> string option \<Rightarrow> ('w, s3obj list \<times> string option) io"
  s3_DeleteMany :: "string \<Rightarrow> string list \<Rightarrow> ('w, (string \<times> string) list) io"
  s3_DeleteOne :: "string \<Rightarrow> string \<Rightarrow> ('w, unit) io"
  s3_Get :: "string \<Rightarrow> string \<Rightarrow> ('w, int option \<times> bytes) io"
  s3_Put :: "string \<Rightarrow> string \<Rightarrow> bytes \<Rightarrow> ('w, unit) io"
  s3_PresignGet :: "string \<Rightarrow> string \<Rightarrow> int \<Rightarrow> ('w, string) io"
  s3_PresignPut :: "string \<Rightarrow> string \<Rightarrow> int \<Rightarrow> ('w, string) io"

text \<open>The loop over the pages of \<open>ListObjects\<close>; it ends when the store says so.\<close>

definition keep_obj :: "s3obj \<Rightarrow> bool" where
  "keep_obj o' = (\<not> has_suffix ''/'' (so_Key o'))"

partial_function (option) list_pages ::
  "'w s3api \<Rightarrow> string \<Rightarrow> string option \<Rightarrow> string option \<Rightarrow> s3obj list \<Rightarrow> 'w \<Rightarrow> (s3obj list res \<times> 'w) option"
where
  "list_pages api bucket prefix token acc w =
     (case s3_List api bucket prefix token w of
        (Err e, w') \<Rightarrow> Some (Err e, w')
      | (Panic p, w') \<Rightarrow> Some (Panic p, w')
      | (Ok (objs, next), w') \<Rightarrow>
          (case next of
             None \<Rightarrow> Some (Ok (acc @ filter keep_obj objs), w')
           | Some t \<Rightarrow> list_pages api bucket prefix (Some t) (acc @ filter keep_obj objs) w'))"

definition ListObjects ::
  "'w s3api \<Rightarrow> string \<Rightarrow> string option \<Rightarrow> 'w \<Rightarrow> (s3obj list res \<times> 'w) option" where
  "ListObjects api bucket prefix = list_pages api bucket prefix None []"

text \<open>\<open>errors.As\<close> with \<open>smithy.APIError\<close>: the code of the API error an error wraps.\<close>

fun api_error_code :: "go_error \<Rightarrow> string option" where
  "api_error_code (APIError status code) = Some code"
| "api_error_code (Wrapped m e) = api_error_code e"
| "api_error_code e = None"

text \<open>\<open>errors.Join\<close>: nil when there is no error.\<close>

definition errors_Join :: "go_error list \<Rightarrow> unit res" where
  "errors_Join es = (if es = [] then Ok () else Err (Joined es))"

fun delete_each :: "'w s3api \<Rightarrow> string \<Rightarrow> string list \<Rightarrow> ('w, go_error list) io" where
  "delete_each api bucket [] w = (Ok [], w)"
| "delete_each api bucket (k # ks) w =
     (case s3_DeleteOne api bucket k w of
        (Panic p, w1) \<Rightarrow> (Panic p, w1)
      | (r, w1) \<Rightarrow>
          (case delete_each api bucket ks w1 of
             (Ok es, w2) \<Rightarrow> (Ok ((case r of Err e \<Rightarrow> [e] | _ \<Rightarrow> []) @ es), w2)
           | (x, w2) \<Rightarrow> (x, w2)))"

text \<open>\<open>DeleteObjects\<close> does not look into the response: the errors of single keys are dropped.\<close>

definition DeleteObjects :: "'w s3api \<Rightarrow> string \<Rightarrow> string list \<Rightarrow> ('w, unit) io" where
  "DeleteObjects api bucket keys w =
     (case s3_DeleteMany api bucket keys w of
        (Ok errors, w1) \<Rightarrow> (Ok (), w1)
      | (Panic p, w1) \<Rightarrow> (Panic p, w1)
      | (Err e, w1) \<Rightarrow>
          if api_error_code e = Some ''NotImplemented''
          then (case delete_each api bucket keys w1 of
                  (Ok es, w2) \<Rightarrow> (errors_Join es, w2)
                | (Err e', w2) \<Rightarrow> (Err e', w2)
                | (Panic p, w2) \<Rightarrow> (Panic p, w2))
          else (Err e, w1))"

definition nil_panic :: string where
  "nil_panic = ''invalid memory address or nil pointer dereference''"

text \<open>\<open>GetObject\<close> dereferences the content length.\<close>

definition s3_GetObject :: "'w s3api \<Rightarrow> string \<Rightarrow> string \<Rightarrow> ('w, int \<times> bytes) io" where
  "s3_GetObject api bucket key =
     io_bind (s3_Get api bucket key) (\<lambda>(len, body).
       case len of None \<Rightarrow> io_panic nil_panic | Some n \<Rightarrow> io_ret (n, body))"

definition s3_PutObject :: "'w s3api \<Rightarrow> string \<Rightarrow> string \<Rightarrow> bytes \<Rightarrow> ('w, unit) io" where
  "s3_PutObject api bucket key body = io_bind (s3_Put api bucket key body) (\<lambda>_. io_ret ())"

definition s3_GetPresignedGetURL :: "'w s3api \<Rightarrow> string \<Rightarrow> string \<Rightarrow> int \<Rightarrow> ('w, string) io" where
  "s3_GetPresignedGetURL api bucket key expires =
     io_bind (s3_PresignGet api bucket key expires) (\<lambda>url. io_ret url)"

definition s3_GetPresignedPutURL :: "'w s3api \<Rightarrow> string \<Rightarrow> string \<Rightarrow> int \<Rightarrow> ('w, string) io" where
  "s3_GetPresignedPutURL api bucket key expires =
     io_bind (s3_PresignPut api bucket key expires) (\<lambda>url. io_ret url)"

section \<open>The world service\<close>

record 'w world_service =
  ws_s3 :: "'w s3api"
  ws_bucket :: string

record world_gen =
  wg_Gen :: string
  wg_ID :: string
  wg_Timestamp :: int

record world =
  wd_WorldName :: string
  wd_Generations :: "world_gen list"

definition trim_backup_ext :: "string \<Rightarrow> string" where
  "trim_backup_ext name =
     (if has_suffix ''.tar.zst'' name then trim_suffix ''.tar.zst'' name
      else if has_suffix ''.tar.xz'' name then trim_suffix ''.tar.xz'' name
      else trim_suffix ''.zip'' name)"

definition extractWorldInfoFromKey :: "string \<Rightarrow> (string \<times> string) res" where
  "extractWorldInfoFromKey key =
     (case str_index ''/'' key of
        None \<Rightarrow> Err (Msg (''invalid backup key: '' @ key))
      | Some i \<Rightarrow> Ok (take i key, trim_backup_ext (drop (i + 1) key)))"

text \<open>The loop that files every object under its world; the first bad key ends it.\<close>

fun file_objects ::
  "s3obj list \<Rightarrow> (string \<times> world_gen list) list \<Rightarrow> (string \<times> world_gen list) list res" where
  "file_objects [] m = Ok m"
| "file_objects (x # xs) m =
     (case extractWorldInfoFromKey (so_Key x) of
        Ok (world, gen) \<Rightarrow>
          file_objects xs (group_add world
            \<lparr>wg_Gen = gen, wg_ID = so_Key x, wg_Timestamp = unix_milli (so_Time x)\<rparr> m)
      | Err e \<Rightarrow> Err e
      | Panic p \<Rightarrow> Panic p)"

definition worlds_of :: "(world_gen list \<Rightarrow> world_gen list) \<Rightarrow> s3obj list \<Rightarrow> world list res" where
  "worlds_of srt objs =
     map_res (\<lambda>m. map (\<lambda>k. \<lparr>wd_WorldName = k, wd_Generations = srt (group_get m k)\<rparr>) (sort (map fst m)))
       (file_objects objs [])"

definition GetWorlds ::
  "(world_gen list \<Rightarrow> world_gen list) \<Rightarrow> 'w world_service \<Rightarrow> 'w \<Rightarrow> (world list res \<times> 'w) option" where
  "GetWorlds srt ws w =
     map_option (\<lambda>(r, w'). (res_bind r (worlds_of srt), w')) (ListObjects (ws_s3 ws) (ws_bucket ws) None w)"

definition DeleteWorld :: "'w world_service \<Rightarrow> string \<Rightarrow> ('w, unit) io" where
  "DeleteWorld ws i = DeleteObjects (ws_s3 ws) (ws_bucket ws) [i]"

definition latest_of :: "(s3obj list \<Rightarrow> s3obj list) \<Rightarrow> string \<Rightarrow> s3obj list \<Rightarrow> string res" where
  "latest_of srt world objs =
     (if objs = [] then Err (Msg (''world not found: '' @ world)) else Ok (so_Key (hd (srt objs))))"

definition GetLatestWorldKey ::
  "(s3obj list \<Rightarrow> s3obj list) \<Rightarrow> 'w world_service \<Rightarrow> string \<Rightarrow> 'w \<Rightarrow> (string res \<times> 'w) option" where
  "GetLatestWorldKey srt ws world w =
     map_option (\<lambda>(r, w'). (res_bind r (latest_of srt world), w'))
       (ListObjects (ws_s3 ws) (ws_bucket ws) (Some (world @ ''/'')) w)"

definition GetPresignedGetURLWithLifetime :: "'w world_service \<Rightarrow> string \<Rightarrow> int \<Rightarrow> ('w, string) io" where
  "GetPresignedGetURLWithLifetime ws i dur = s3_GetPresignedGetURL (ws_s3 ws) (ws_bucket ws) i dur"

definition GetPresignedGetURL :: "'w world_service \<Rightarrow> string \<Rightarrow> ('w, string) io" where
  "GetPresignedGetURL ws i = GetPresignedGetURLWithLifetime ws i (5 * minute)"

definition GetPresignedPutURLWithLifetime :: "'w world_service \<Rightarrow> string \<Rightarrow> int \<Rightarrow> ('w, string) io" where
  "GetPresignedPutURLWithLifetime ws i dur = s3_GetPresignedPutURL (ws_s3 ws) (ws_bucket ws) i dur"

definition GetPresignedPutURL :: "'w world_service \<Rightarrow> string \<Rightarrow> ('w, string) io" where
  "GetPresignedPutURL ws i = GetPresignedPutURLWithLifetime ws i (5 * minute)"

section \<open>Pruning\<close>

definition prefix_of :: "string \<Rightarrow> string option" where
  "prefix_of key = (case splitn2 ''/'' key of [p, _] \<Rightarrow> Some p | _ \<Rightarrow> None)"

definition groupByPrefix :: "s3obj list \<Rightarrow> (string \<times> s3obj list) list" where
  "groupByPrefix objs =
     group_all (concat (map (\<lambda>x. case prefix_of (so_Key x) of None \<Rightarrow> [] | Some p \<Rightarrow> [(p, x)]) objs))"

text \<open>\<open>objs[preserveCount:]\<close> panics for a negative count.\<close>

definition pruneSlice ::
  "(s3obj list \<Rightarrow> s3obj list) \<Rightarrow> 'w world_service \<Rightarrow> s3obj list \<Rightarrow> int \<Rightarrow> ('w, unit) io" where
  "pruneSlice srt ws objs preserveCount =
     (if int (length objs) \<le> preserveCount then io_ret ()
      else if preserveCount < 0 then io_panic ''slice bounds out of range''
      else DeleteObjects (ws_s3 ws) (ws_bucket ws) (map so_Key (drop (nat preserveCount) (srt objs))))"

fun prune_groups ::
  "(s3obj list \<Rightarrow> s3obj list) \<Rightarrow> 'w world_service \<Rightarrow> int \<Rightarrow> (string \<times> s3obj list) list \<Rightarrow> ('w, go_error list) io"
where
  "prune_groups srt ws n [] w = (Ok [], w)"
| "prune_groups srt ws n ((p, objs) # gs) w =
     (case pruneSlice srt ws objs n w of
        (Panic m, w1) \<Rightarrow> (Panic m, w1)
      | (r, w1) \<Rightarrow>
          (case prune_groups srt ws n gs w1 of
             (Ok es, w2) \<Rightarrow> (Ok ((case r of Err e \<Rightarrow> [PruneError p e] | _ \<Rightarrow> []) @ es), w2)
           | (x, w2) \<Rightarrow> (x, w2)))"

text \<open>\<open>Prune\<close> ranges over the map of groups, in the order \<open>ord\<close>.\<close>

definition prune_listed ::
  "(s3obj list \<Rightarrow> s3obj list) \<Rightarrow> ((string \<times> s3obj list) list \<Rightarrow> (string \<times> s3obj list) list) \<Rightarrow>
   'w world_service \<Rightarrow> int \<Rightarrow> s3obj list res \<Rightarrow> ('w, unit) io" where
  "prune_listed srt ord ws n listed =
     io_bind (io_lift listed) (\<lambda>objs.
     io_bind (prune_groups srt ws n (ord (groupByPrefix objs))) (\<lambda>es.
     io_lift (errors_Join es)))"

definition Prune ::
  "(s3obj list \<Rightarrow> s3obj list) \<Rightarrow> ((string \<times> s3obj list) list \<Rightarrow> (string \<times> s3obj list) list) \<Rightarrow>
   'w world_service \<Rightarrow> int \<Rightarrow> 'w \<Rightarrow> (unit res \<times> 'w) option" where
  "Prune srt ord ws preserveCount w =
     map_option (\<lambda>(r, w'). prune_listed srt ord ws preserveCount r w')
       (ListObjects (ws_s3 ws) (ws_bucket ws) None w)"

section \<open>What the object store promises\<close>

text \<open>A chain of pages, from a token to the last page, with all its objects.\<close>

inductive s3_pages ::
  "'w s3api \<Rightarrow> string \<Rightarrow> string option \<Rightarrow> string option \<Rightarrow> 'w \<Rightarrow> s3obj list \<Rightarrow> 'w \<Rightarrow> bool"
  for api bucket prefix where
  last_page: "s3_List api bucket prefix tok w = (Ok (objs, None), w') \<Longrightarrow> s3_pages api bucket prefix tok w objs w'"
| more_pages: "\<lbrakk>s3_List api bucket prefix tok w = (Ok (objs, Some t), w1);
      s3_pages api bucket prefix (Some t) w1 objs' w'\<rbrakk>
    \<Longrightarrow> s3_pages api bucket prefix tok w (objs @ objs') w'"

definition prefix_match :: "string option \<Rightarrow> s3obj \<Rightarrow> bool" where
  "prefix_match prefix x = (case prefix of None \<Rightarrow> True | Some p \<Rightarrow> has_prefix p (so_Key x))"

text \<open>A chain of pages that ends with an error.\<close>

inductive s3_broken ::
  "'w s3api \<Rightarrow> string \<Rightarrow> string option \<Rightarrow> string option \<Rightarrow> 'w \<Rightarrow> go_error \<Rightarrow> 'w \<Rightarrow> bool"
  for api bucket prefix where
  broken_page: "s3_List api bucket prefix tok w = (Err e, w') \<Longrightarrow> s3_broken api bucket prefix tok w e w'"
| broken_later: "\<lbrakk>s3_List api bucket prefix tok w = (Ok (objs, Some t), w1); s3_broken api bucket prefix (Some t) w1 e w'\<rbrakk>
    \<Longrightarrow> s3_broken api bucket prefix tok w e w'"

text \<open>
  \<open>view\<close> is the bucket's objects.  What the documentation says of the calls:
  a listing is a finite chain of pages with the objects under the prefix, or fails on the way;
  a bulk deletion takes 1 to 1000 keys, and when it answers, the keys the response does not name with an
  error are deleted; a request with more keys is refused as a whole; when any other deletion fails, as
  when the connection is lost, its keys may or may not be deleted.
\<close>

definition s3_lists :: "'w s3api \<Rightarrow> string \<Rightarrow> ('w \<Rightarrow> s3obj list) \<Rightarrow> bool" where
  "s3_lists api bucket view = (\<forall>w prefix. \<exists>w'.
     s3_pages api bucket prefix None w (filter (prefix_match prefix) (view w)) w' \<and> view w' = view w)"

definition without :: "string set \<Rightarrow> s3obj list \<Rightarrow> s3obj list" where
  "without ks objs = filter (\<lambda>x. so_Key x \<notin> ks) objs"

definition s3_bulk :: "'w s3api \<Rightarrow> string \<Rightarrow> ('w \<Rightarrow> s3obj list) \<Rightarrow> string list \<Rightarrow> 'w \<Rightarrow> bool" where
  "s3_bulk api bucket view keys w = (\<exists>r w' del. s3_DeleteMany api bucket keys w = (r, w') \<and> (\<forall>m. r \<noteq> Panic m)
     \<and> del \<subseteq> set keys \<and> view w' = without del (view w)
     \<and> (\<forall>errors. r = Ok errors \<longrightarrow> 0 < length keys \<and> length keys \<le> 1000 \<and> del = set keys - fst ` set errors)
     \<and> (1000 < length keys \<longrightarrow> del = {}))"

definition s3_single :: "'w s3api \<Rightarrow> string \<Rightarrow> ('w \<Rightarrow> s3obj list) \<Rightarrow> string \<Rightarrow> 'w \<Rightarrow> bool" where
  "s3_single api bucket view k w = (\<exists>r w' del. s3_DeleteOne api bucket k w = (r, w') \<and> (\<forall>m. r \<noteq> Panic m)
     \<and> del \<subseteq> {k} \<and> view w' = without del (view w) \<and> (r = Ok () \<longrightarrow> del = {k}))"

definition s3_honest :: "'w s3api \<Rightarrow> string \<Rightarrow> ('w \<Rightarrow> s3obj list) \<Rightarrow> bool" where
  "s3_honest api bucket view =
     ((\<forall>w prefix. \<exists>w'. view w' = view w
        \<and> (s3_pages api bucket prefix None w (filter (prefix_match prefix) (view w)) w' \<or> (\<exists>e. s3_broken api bucket prefix None w e w')))
    \<and> (\<forall>w keys. s3_bulk api bucket view keys w) \<and> (\<forall>w k. s3_single api bucket view k w))"

lemma s3_bulkE:
  assumes "s3_honest api bucket view"
  obtains r w' del where "s3_DeleteMany api bucket keys w = (r, w')" "\<forall>m. r \<noteq> Panic m"
    "del \<subseteq> set keys" "view w' = without del (view w)"
    "\<forall>errors. r = Ok errors \<longrightarrow> 0 < length keys \<and> length keys \<le> 1000 \<and> del = set keys - fst ` set errors"
    "1000 < length keys \<longrightarrow> del = {}"
proof -
  have "s3_bulk api bucket view keys w" using assms by (simp add: s3_honest_def)
  then show thesis unfolding s3_bulk_def by (elim exE conjE) (rule that)
qed

lemma s3_singleE:
  assumes "s3_honest api bucket view"
  obtains r w' del where "s3_DeleteOne api bucket k w = (r, w')" "\<forall>m. r \<noteq> Panic m"
    "del \<subseteq> {k}" "view w' = without del (view w)" "r = Ok () \<longrightarrow> del = {k}"
proof -
  have "s3_single api bucket view k w" using assms by (simp add: s3_honest_def)
  then show thesis unfolding s3_single_def by (elim exE conjE) (rule that)
qed

text \<open>
  A store that lets the service do what it asks for: no call fails, and a bulk deletion that is not too large
  names no errors, or is not implemented by the provider.
\<close>

definition s3_willing :: "'w s3api \<Rightarrow> string \<Rightarrow> ('w \<Rightarrow> s3obj list) \<Rightarrow> bool" where
  "s3_willing api bucket view =
     (s3_lists api bucket view
    \<and> (\<forall>w keys. keys \<noteq> [] \<and> length keys \<le> 1000 \<longrightarrow>
        fst (s3_DeleteMany api bucket keys w) = Ok []
        \<or> (\<exists>e. fst (s3_DeleteMany api bucket keys w) = Err e \<and> api_error_code e = Some ''NotImplemented''))
    \<and> (\<forall>w k. fst (s3_DeleteOne api bucket k w) = Ok ()))"

lemma list_pages_chain:
  "s3_pages api bucket prefix tok w objs w' \<Longrightarrow>
     list_pages api bucket prefix tok acc w = Some (Ok (acc @ filter keep_obj objs), w')"
proof (induction arbitrary: acc rule: s3_pages.induct)
  case (last_page tok w objs w')
  then show ?case by (simp add: list_pages.simps)
next
  case (more_pages tok w objs t w1 objs' w')
  then show ?case by (subst list_pages.simps) simp
qed

lemma list_pages_broken:
  "s3_broken api bucket prefix tok w e w' \<Longrightarrow> list_pages api bucket prefix tok acc w = Some (Err e, w')"
proof (induction arbitrary: acc rule: s3_broken.induct)
  case (broken_page tok w e w')
  then show ?case by (simp add: list_pages.simps)
next
  case (broken_later tok w objs t w1 e w')
  then show ?case by (subst list_pages.simps) simp
qed

lemma ListObjects_lists:
  assumes "s3_lists api bucket view"
  obtains w' where "ListObjects api bucket prefix w =
      Some (Ok (filter keep_obj (filter (prefix_match prefix) (view w))), w')" "view w' = view w"
proof -
  from assms obtain w' where
    "s3_pages api bucket prefix None w (filter (prefix_match prefix) (view w)) w'" "view w' = view w"
    unfolding s3_lists_def by blast
  then show thesis by (intro that [of w']) (simp_all add: ListObjects_def list_pages_chain)
qed

lemma ListObjects_honest:
  assumes "s3_honest api bucket view"
  obtains r w' where "ListObjects api bucket prefix w = Some (r, w')" "view w' = view w"
    "r = Ok (filter keep_obj (filter (prefix_match prefix) (view w))) \<or> (\<exists>e. r = Err e)"
proof -
  from assms obtain w' where v: "view w' = view w"
    and l: "s3_pages api bucket prefix None w (filter (prefix_match prefix) (view w)) w' \<or> (\<exists>e. s3_broken api bucket prefix None w e w')"
    unfolding s3_honest_def by blast
  from l show thesis
  proof (elim disjE exE)
    assume "s3_pages api bucket prefix None w (filter (prefix_match prefix) (view w)) w'"
    then show thesis using v that by (simp add: ListObjects_def list_pages_chain)
  next
    fix e assume "s3_broken api bucket prefix None w e w'"
    then show thesis using v that by (simp add: ListObjects_def list_pages_broken)
  qed
qed

lemma without_simps: "without {} objs = objs" "without b (without a objs) = without (a \<union> b) objs"
  by (auto simp: without_def conj_commute intro: filter_cong)

lemma delete_each_honest:
  assumes "s3_honest api bucket view"
  shows "\<exists>es w' del. delete_each api bucket keys w = (Ok es, w') \<and> del \<subseteq> set keys \<and> view w' = without del (view w)
    \<and> (s3_willing api bucket view \<longrightarrow> es = [] \<and> del = set keys)"
proof (induction keys arbitrary: w)
  case Nil
  then show ?case by (auto simp: without_simps(1) intro: exI [of _ "{}"])
next
  case (Cons k ks)
  obtain r w1 del where 1: "s3_DeleteOne api bucket k w = (r, w1)" "\<forall>m. r \<noteq> Panic m"
      "del \<subseteq> {k}" "view w1 = without del (view w)" "r = Ok () \<longrightarrow> del = {k}"
    by (rule s3_singleE [OF assms])
  obtain es w2 del' where 2: "delete_each api bucket ks w1 = (Ok es, w2)" "del' \<subseteq> set ks" "view w2 = without del' (view w1)"
      "s3_willing api bucket view \<longrightarrow> es = [] \<and> del' = set ks"
    using Cons.IH [of w1] by blast
  have w: "s3_willing api bucket view \<Longrightarrow> r = Ok ()" using 1(1) unfolding s3_willing_def by (metis fst_conv)
  have "delete_each api bucket (k # ks) w = (Ok ((case r of Err e \<Rightarrow> [e] | _ \<Rightarrow> []) @ es), w2)"
    using 1(1,2) 2(1) by (cases r) simp_all
  moreover have "view w2 = without (del \<union> del') (view w)" using 1(4) 2(3) by (simp add: without_simps)
  moreover have "del \<union> del' \<subseteq> set (k # ks)" using 1(3) 2(2) by auto
  moreover have "s3_willing api bucket view \<longrightarrow>
      (case r of Err e \<Rightarrow> [e] | _ \<Rightarrow> []) @ es = [] \<and> del \<union> del' = set (k # ks)"
    using w 1(5) 2(4) by auto
  ultimately show ?case by blast
qed

lemma DeleteObjects_honest:
  assumes "s3_honest api bucket view" and "keys \<noteq> []"
  obtains r w' del where "DeleteObjects api bucket keys w = (r, w')" "\<forall>m. r \<noteq> Panic m"
    "del \<subseteq> set keys" "view w' = without del (view w)"
    "s3_willing api bucket view \<and> length keys \<le> 1000 \<longrightarrow> r = Ok () \<and> del = set keys"
proof -
  obtain r w1 del where d: "s3_DeleteMany api bucket keys w = (r, w1)" "\<forall>m. r \<noteq> Panic m"
    "del \<subseteq> set keys" "view w1 = without del (view w)"
    "\<forall>errors. r = Ok errors \<longrightarrow> 0 < length keys \<and> length keys \<le> 1000 \<and> del = set keys - fst ` set errors"
    by (rule s3_bulkE [OF assms(1)])
  have w: "r = Ok [] \<or> (\<exists>e. r = Err e \<and> api_error_code e = Some ''NotImplemented'')"
    if "s3_willing api bucket view" "length keys \<le> 1000"
    using that assms(2) d(1) unfolding s3_willing_def by (metis fst_conv)
  show thesis
  proof (cases r)
    case (Ok errors)
    show thesis
    proof (rule that [of "Ok ()" w1 del])
      show "DeleteObjects api bucket keys w = (Ok (), w1)" using d(1) Ok by (simp add: DeleteObjects_def)
      show "s3_willing api bucket view \<and> length keys \<le> 1000 \<longrightarrow> Ok () = Ok () \<and> del = set keys"
        using w d(5) Ok by auto
    qed (use d(3,4) in simp_all)
  next
    case (Err e)
    show thesis
    proof (cases "api_error_code e = Some ''NotImplemented''")
      case True
      obtain es w2 del' where e: "delete_each api bucket keys w1 = (Ok es, w2)" "del' \<subseteq> set keys" "view w2 = without del' (view w1)"
        "s3_willing api bucket view \<longrightarrow> es = [] \<and> del' = set keys"
        using delete_each_honest [OF assms(1), of keys w1] by blast
      show thesis
      proof (rule that [of "errors_Join es" w2 "del \<union> del'"])
        show "DeleteObjects api bucket keys w = (errors_Join es, w2)"
          using d(1) e(1) True Err by (simp add: DeleteObjects_def)
        show "view w2 = without (del \<union> del') (view w)" using d(4) e(3) by (simp add: without_simps)
        show "s3_willing api bucket view \<and> length keys \<le> 1000 \<longrightarrow> errors_Join es = Ok () \<and> del \<union> del' = set keys"
          using d(3) e(4) by (auto simp: errors_Join_def)
      qed (use d(3) e(2) in \<open>simp_all add: errors_Join_def\<close>)
    next
      case False
      show thesis
      proof (rule that [of "Err e" w1 del])
        show "DeleteObjects api bucket keys w = (Err e, w1)" using d(1) False Err by (simp add: DeleteObjects_def)
        show "s3_willing api bucket view \<and> length keys \<le> 1000 \<longrightarrow> Err e = Ok () \<and> del = set keys"
          using w False Err by auto
      qed (use d(3,4) in simp_all)
    qed
  qed (use d(2) in simp)
qed

text \<open>A key that the store refuses to delete is reported as deleted.\<close>

lemma delete_errors_dropped:
  "s3_DeleteMany api bucket keys w = (Ok errors, w') \<Longrightarrow> DeleteObjects api bucket keys w = (Ok (), w')"
  by (simp add: DeleteObjects_def)

section \<open>Keys\<close>

text \<open>
  The key of a backup is read back.  For a world name without a slash, the key
  \<open><world>/<name>.tar.zst\<close> that the control plane hands out is split into the world and
  the generation's name.
\<close>

lemma extractWorldInfo_roundtrip:
  assumes "CHR ''/'' \<notin> set world"
  shows "extractWorldInfoFromKey (world @ ''/'' @ name @ ''.tar.zst'') = Ok (world, name)"
  using str_index_char [OF assms] by (simp add: extractWorldInfoFromKey_def trim_backup_ext_def)

section \<open>The newest backup\<close>

text \<open>
  The newest backup of a world is found.  Against a store that keeps its
  promises, \<open>GetLatestWorldKey\<close> returns the key of an object under \<open><world>/\<close> such that
  no other listed one is newer (in whole seconds), or \<open>world not found\<close> when there is none.
\<close>

lemma GetLatestWorldKey_newest:
  assumes "s3_lists (ws_s3 ws) (ws_bucket ws) view"
    and "sorts_by (\<lambda>x. unix_sec (so_Time x)) srt"
  shows "\<exists>r w'. GetLatestWorldKey srt ws world w = Some (r, w') \<and> view w' = view w \<and>
    (let backups = filter keep_obj (filter (\<lambda>x. has_prefix (world @ ''/'') (so_Key x)) (view w)) in
       if backups = [] then r = Err (Msg (''world not found: '' @ world))
       else \<exists>x \<in> set backups. r = Ok (so_Key x) \<and>
              (\<forall>y \<in> set backups. unix_sec (so_Time y) \<le> unix_sec (so_Time x)))"
proof -
  let ?p = "Some (world @ ''/'')"
  let ?b = "filter keep_obj (filter (prefix_match ?p) (view w))"
  obtain w' where l: "ListObjects (ws_s3 ws) (ws_bucket ws) ?p w = Some (Ok ?b, w')" "view w' = view w"
    using ListObjects_lists [OF assms(1)] .
  have pm: "prefix_match ?p = (\<lambda>x. has_prefix (world @ ''/'') (so_Key x))" by (simp add: prefix_match_def fun_eq_iff)
  have newest: "hd (srt ?b) \<in> set ?b \<and> (\<forall>y \<in> set ?b. unix_sec (so_Time y) \<le> unix_sec (so_Time (hd (srt ?b))))"
    if "?b \<noteq> []"
  proof -
    have "set (srt ?b) = set ?b" "length (srt ?b) = length ?b" using sorts_byD [OF assms(2)] by blast+
    with that obtain z zs where z: "srt ?b = z # zs" by (cases "srt ?b") auto
    have "sorted_wrt (\<lambda>a b. unix_sec (so_Time b) \<le> unix_sec (so_Time a)) (z # zs)"
      using sorts_byD(4) [OF assms(2), of ?b] z by simp
    with z \<open>set (srt ?b) = set ?b\<close> show ?thesis by (metis list.sel(1) list.set_intros(1) order_refl set_ConsD sorted_wrt.simps(2))
  qed
  show ?thesis
  proof (cases "?b = []")
    case True
    with l show ?thesis by (simp add: GetLatestWorldKey_def latest_of_def pm Let_def)
  next
    case False
    with l newest show ?thesis by (auto simp add: GetLatestWorldKey_def latest_of_def pm Let_def)
  qed
qed

text \<open>A store that keeps its objects in a list and has no bulk deletion.\<close>

definition mem_s3 :: "s3obj list s3api" where
  "mem_s3 = \<lparr>s3_List = (\<lambda>b p t w. (Ok (filter (prefix_match p) w, None), w)),
     s3_DeleteMany = (\<lambda>b ks w. (Err (Wrapped ''operation error'' (APIError 501 ''NotImplemented'')), w)),
     s3_DeleteOne = (\<lambda>b k w. (Ok (), filter (\<lambda>x. so_Key x \<noteq> k) w)),
     s3_Get = (\<lambda>b k w. (Ok (Some 0, []), w)), s3_Put = (\<lambda>b k d w. (Ok (), w)),
     s3_PresignGet = (\<lambda>b k d w. (Ok k, w)), s3_PresignPut = (\<lambda>b k d w. (Ok k, w))\<rparr>"

lemma mem_s3_calls:
  "s3_List mem_s3 b p t w = (Ok (filter (prefix_match p) w, None), w)"
  "s3_DeleteMany mem_s3 b ks w = (Err (Wrapped ''operation error'' (APIError 501 ''NotImplemented'')), w)"
  "s3_DeleteOne mem_s3 b k w = (Ok (), without {k} w)"
  by (simp_all add: mem_s3_def without_def)

lemma mem_s3_lists: "s3_pages mem_s3 b p None w (filter (prefix_match p) w) w"
  by (rule last_page) (rule mem_s3_calls)

lemma mem_s3_bulk: "s3_bulk mem_s3 b (\<lambda>w. w) keys w"
proof -
  have "w = without {} w" by (simp add: without_simps)
  then show ?thesis unfolding s3_bulk_def mem_s3_calls by (metis empty_subsetI res.distinct(1,5))
qed

lemma mem_s3_single: "s3_single mem_s3 b (\<lambda>w. w) k w"
  unfolding s3_single_def mem_s3_calls by (metis order_refl res.distinct(3))

lemma mem_s3_honest: "s3_honest mem_s3 b (\<lambda>w. w)" "s3_willing mem_s3 b (\<lambda>w. w)"
proof -
  show "s3_honest mem_s3 b (\<lambda>w. w)"
    unfolding s3_honest_def using mem_s3_lists mem_s3_bulk mem_s3_single by blast
  have "s3_lists mem_s3 b (\<lambda>w. w)" unfolding s3_lists_def using mem_s3_lists by blast
  then show "s3_willing mem_s3 b (\<lambda>w. w)" by (simp add: s3_willing_def mem_s3_calls)
qed

definition demo_objs :: "s3obj list" where
  "demo_objs = [\<lparr>so_Key = ''a/1.zip'', so_Time = 5000000000\<rparr>, \<lparr>so_Key = ''a/2.zip'', so_Time = 9000000000\<rparr>,
     \<lparr>so_Key = ''a/3.zip'', so_Time = 7000000000\<rparr>, \<lparr>so_Key = ''b/1.zip'', so_Time = 1000000000\<rparr>]"

section \<open>Pruning keeps the newest\<close>

lemma groupByPrefix_get:
  "group_get (groupByPrefix objs) p = filter (\<lambda>x. prefix_of (so_Key x) = Some p) objs"
  unfolding groupByPrefix_def group_get_all
  by (induction objs) (auto split: option.splits)

lemma groupByPrefix_mem:
  assumes "(p, g) \<in> set (groupByPrefix objs)"
  shows "g = filter (\<lambda>x. prefix_of (so_Key x) = Some p) objs"
proof -
  have "distinct (map fst (groupByPrefix objs))" unfolding groupByPrefix_def by (rule keys_group_all)
  with assms have "group_get (groupByPrefix objs) p = g" by (simp add: group_get_def map_of_is_SomeI)
  then show ?thesis by (simp add: groupByPrefix_get)
qed

lemma groupByPrefix_keys:
  "p \<in> set (map fst (groupByPrefix objs)) \<longleftrightarrow> (\<exists>x \<in> set objs. prefix_of (so_Key x) = Some p)"
proof -
  have "set (map fst (groupByPrefix objs)) =
      set (map fst (concat (map (\<lambda>x. case prefix_of (so_Key x) of None \<Rightarrow> [] | Some p \<Rightarrow> [(p, x)]) objs)))"
    unfolding groupByPrefix_def by (rule keys_group_all)
  then show ?thesis by (auto split: option.splits) (force intro: rev_bexI)
qed

text \<open>The keys that pruning a list of groups asks the store to delete.\<close>

definition pruned_keys :: "(s3obj list \<Rightarrow> s3obj list) \<Rightarrow> nat \<Rightarrow> (string \<times> s3obj list) list \<Rightarrow> string set" where
  "pruned_keys srt n gs = (\<Union>(p, g) \<in> set gs. so_Key ` set (drop n (srt g)))"

lemma pruneSlice_honest:
  assumes "s3_honest (ws_s3 ws) (ws_bucket ws) view" "sorts_by f srt"
  obtains r w' del where "pruneSlice srt ws g (int n) w = (r, w')" "\<forall>m. r \<noteq> Panic m"
    "del \<subseteq> so_Key ` set (drop n (srt g))" "view w' = without del (view w)"
    "s3_willing (ws_s3 ws) (ws_bucket ws) view \<and> length g \<le> n + 1000 \<longrightarrow> r = Ok () \<and> del = so_Key ` set (drop n (srt g))"
proof (cases "length g \<le> n")
  case True
  then show thesis using that [of "Ok ()" w "{}"] sorts_byD(3) [OF assms(2), of g]
    by (simp add: pruneSlice_def io_simps without_simps)
next
  case False
  let ?ks = "map so_Key (drop n (srt g))"
  have len: "length ?ks = length g - n" using sorts_byD(3) [OF assms(2), of g] by simp
  then have "?ks \<noteq> []" using False by (metis diff_is_0_eq list.size(3))
  obtain r w' del where d: "DeleteObjects (ws_s3 ws) (ws_bucket ws) ?ks w = (r, w')" "\<forall>m. r \<noteq> Panic m"
    "del \<subseteq> set ?ks" "view w' = without del (view w)"
    "s3_willing (ws_s3 ws) (ws_bucket ws) view \<and> length ?ks \<le> 1000 \<longrightarrow> r = Ok () \<and> del = set ?ks"
    using DeleteObjects_honest [OF assms(1) \<open>?ks \<noteq> []\<close>] .
  have "pruneSlice srt ws g (int n) w = (r, w')" using d(1) False by (simp add: pruneSlice_def)
  then show thesis using d(2-5) len by (intro that [of r w' del]) auto
qed

lemma prune_groups_honest:
  assumes "s3_honest (ws_s3 ws) (ws_bucket ws) view" "sorts_by f srt"
  shows "\<exists>es w' del. prune_groups srt ws (int n) gs w = (Ok es, w') \<and> del \<subseteq> pruned_keys srt n gs
    \<and> view w' = without del (view w)
    \<and> (s3_willing (ws_s3 ws) (ws_bucket ws) view \<and> (\<forall>(p, g) \<in> set gs. length g \<le> n + 1000)
        \<longrightarrow> es = [] \<and> del = pruned_keys srt n gs)"
proof (induction gs arbitrary: w)
  case Nil
  have "view w = without {} (view w)" by (simp add: without_simps)
  then show ?case unfolding pruned_keys_def by (intro exI [of _ "[]"] exI [of _ w] exI [of _ "{}"]) simp
next
  case (Cons a gs)
  obtain p g where a: "a = (p, g)" by (cases a)
  obtain r w1 del where 1: "pruneSlice srt ws g (int n) w = (r, w1)" "\<forall>m. r \<noteq> Panic m"
    "del \<subseteq> so_Key ` set (drop n (srt g))" "view w1 = without del (view w)"
    "s3_willing (ws_s3 ws) (ws_bucket ws) view \<and> length g \<le> n + 1000 \<longrightarrow> r = Ok () \<and> del = so_Key ` set (drop n (srt g))"
    using pruneSlice_honest [OF assms] .
  obtain es w2 del' where 2: "prune_groups srt ws (int n) gs w1 = (Ok es, w2)" "del' \<subseteq> pruned_keys srt n gs"
    "view w2 = without del' (view w1)"
    "s3_willing (ws_s3 ws) (ws_bucket ws) view \<and> (\<forall>(p, g) \<in> set gs. length g \<le> n + 1000)
        \<longrightarrow> es = [] \<and> del' = pruned_keys srt n gs"
    using Cons.IH [of w1] by blast
  have k: "pruned_keys srt n (a # gs) = so_Key ` set (drop n (srt g)) \<union> pruned_keys srt n gs"
    by (simp add: pruned_keys_def a)
  show ?case
  proof (intro exI conjI)
    show "prune_groups srt ws (int n) (a # gs) w = (Ok ((case r of Err e \<Rightarrow> [PruneError p e] | _ \<Rightarrow> []) @ es), w2)"
      using 1(1,2) 2(1) by (cases r) (simp_all add: a)
    show "del \<union> del' \<subseteq> pruned_keys srt n (a # gs)" unfolding k using 1(3) 2(2) by blast
    show "view w2 = without (del \<union> del') (view w)" using 1(4) 2(3) by (simp add: without_simps)
    show "s3_willing (ws_s3 ws) (ws_bucket ws) view \<and> (\<forall>(p, g) \<in> set (a # gs). length g \<le> n + 1000) \<longrightarrow>
        (case r of Err e \<Rightarrow> [PruneError p e] | _ \<Rightarrow> []) @ es = [] \<and> del \<union> del' = pruned_keys srt n (a # gs)"
      unfolding k using 1(5) 2(4) by (simp add: a)
  qed
qed

text \<open>
  A world with too many backups is not pruned at all: the request with more than 1000 keys is refused, and
  nothing tries it in parts.
\<close>

lemma too_many_backups_stay:
  assumes "s3_honest (ws_s3 ws) (ws_bucket ws) view" "sorts_by f srt"
    and "\<And>keys w. api_error_code (case fst (s3_DeleteMany (ws_s3 ws) (ws_bucket ws) keys w) of Err e \<Rightarrow> e | _ \<Rightarrow> EOF) \<noteq> Some ''NotImplemented''"
    and "n + 1000 < length g"
  shows "\<exists>e w'. pruneSlice srt ws g (int n) w = (Err e, w') \<and> view w' = view w"
proof -
  let ?ks = "map so_Key (drop n (srt g))"
  have len: "1000 < length ?ks" using sorts_byD(3) [OF assms(2), of g] assms(4) by simp
  obtain r w' del where d: "s3_DeleteMany (ws_s3 ws) (ws_bucket ws) ?ks w = (r, w')" "\<forall>m. r \<noteq> Panic m"
    "del \<subseteq> set ?ks" "view w' = without del (view w)"
    "\<forall>errors. r = Ok errors \<longrightarrow> 0 < length ?ks \<and> length ?ks \<le> 1000 \<and> del = set ?ks - fst ` set errors"
    "1000 < length ?ks \<longrightarrow> del = {}"
    by (rule s3_bulkE [OF assms(1)])
  obtain e where e: "r = Err e" using d(2,5) len by (cases r) auto
  have "api_error_code e \<noteq> Some ''NotImplemented''" using assms(3) [of ?ks w] d(1) e by simp
  then have "DeleteObjects (ws_s3 ws) (ws_bucket ws) ?ks w = (Err e, w')" using d(1) e by (simp add: DeleteObjects_def)
  moreover have "view w' = view w" using d(4,6) len by (simp add: without_simps)
  ultimately show ?thesis using assms(4) by (simp add: pruneSlice_def)
qed

definition backups_of :: "string \<Rightarrow> s3obj list \<Rightarrow> s3obj list" where
  "backups_of p objs = filter (\<lambda>x. keep_obj x \<and> prefix_of (so_Key x) = Some p) objs"

text \<open>What is left of one group when all is deleted: the first \<open>n\<close> of the sorted group.\<close>

lemma drop_filter_keys:
  assumes "mset ys = mset g" "distinct (map so_Key g)"
  shows "mset (filter (\<lambda>x. so_Key x \<notin> so_Key ` set (drop n ys)) g) = mset (take n ys)"
proof -
  have dist: "distinct (map so_Key ys)" using assms by (metis distinct_map mset_eq_imp_distinct_iff mset_eq_setD)
  have split: "ys = take n ys @ drop n ys" by simp
  have disj: "so_Key ` set (take n ys) \<inter> so_Key ` set (drop n ys) = {}"
    using dist by (metis split distinct_append map_append set_map)
  have "filter (\<lambda>x. so_Key x \<notin> so_Key ` set (drop n ys)) ys
      = filter (\<lambda>x. so_Key x \<notin> so_Key ` set (drop n ys)) (take n ys) @
        filter (\<lambda>x. so_Key x \<notin> so_Key ` set (drop n ys)) (drop n ys)"
    by (metis split filter_append)
  also have "\<dots> = take n ys" using disj by (auto simp: filter_id_conv filter_empty_conv)
  finally have "filter (\<lambda>x. so_Key x \<notin> so_Key ` set (drop n ys)) ys = take n ys" .
  with assms(1) show ?thesis by (metis mset_filter)
qed

text \<open>Of the backups of a world, those asked to be deleted are the ones after the first \<open>n\<close>.\<close>

lemma pruned_key_iff:
  assumes "sorts_by f srt" "any_order ord" "x \<in> set (backups_of p objs)"
  shows "so_Key x \<in> pruned_keys srt n (ord (groupByPrefix (filter keep_obj objs)))
    \<longleftrightarrow> so_Key x \<in> so_Key ` set (drop n (srt (backups_of p objs)))"
proof
  let ?gs = "groupByPrefix (filter keep_obj objs)"
  let ?G = "backups_of p objs"
  have G: "?G = filter (\<lambda>x. prefix_of (so_Key x) = Some p) (filter keep_obj objs)"
    by (simp add: backups_of_def conj_commute)
  show "so_Key x \<in> so_Key ` set (drop n (srt ?G))" if "so_Key x \<in> pruned_keys srt n (ord ?gs)"
  proof -
    from that obtain q g y where g: "(q, g) \<in> set ?gs" "y \<in> set (drop n (srt g))" "so_Key x = so_Key y"
      using any_orderD(1) [OF assms(2)] by (auto simp: pruned_keys_def)
    have y: "y \<in> set g" using g(2) sorts_byD(2) [OF assms(1), of g] by (metis in_set_dropD)
    note q = groupByPrefix_mem [OF g(1)]
    from y q g(3) assms(3) have "q = p" by (simp add: backups_of_def)
    with q G g show "so_Key x \<in> so_Key ` set (drop n (srt ?G))" by auto
  qed
  assume a: "so_Key x \<in> so_Key ` set (drop n (srt ?G))"
  have "\<exists>x \<in> set (filter keep_obj objs). prefix_of (so_Key x) = Some p" using assms(3) by (auto simp: backups_of_def)
  then have "p \<in> set (map fst ?gs)" by (simp only: groupByPrefix_keys)
  then obtain g where g: "(p, g) \<in> set ?gs" by auto
  with groupByPrefix_mem [OF g] G have "(p, ?G) \<in> set ?gs" by simp
  then have "(p, ?G) \<in> set (ord ?gs)" using any_orderD(1) [OF assms(2)] by blast
  with a show "so_Key x \<in> pruned_keys srt n (ord ?gs)" unfolding pruned_keys_def by blast
qed

lemma backups_pruned:
  assumes "sorts_by f srt" "any_order ord" "distinct (map so_Key objs)"
    and "del \<subseteq> pruned_keys srt n (ord (groupByPrefix (filter keep_obj objs)))"
  shows "mset (take n (srt (backups_of p objs))) \<subseteq># mset (backups_of p (without del objs))"
    and "del = pruned_keys srt n (ord (groupByPrefix (filter keep_obj objs))) \<Longrightarrow>
      mset (backups_of p (without del objs)) = mset (take n (srt (backups_of p objs)))"
proof -
  let ?G = "backups_of p objs" and ?drop = "so_Key ` set (drop n (srt (backups_of p objs)))"
  note D = pruned_key_iff [OF assms(1,2), of _ p objs n]
  have new: "backups_of p (without del objs) = filter (\<lambda>x. so_Key x \<notin> del) ?G"
    by (simp add: backups_of_def without_def conj_ac)
  have "distinct (map so_Key ?G)" using assms(3) by (simp add: backups_of_def distinct_map_filter)
  then have t: "mset (filter (\<lambda>x. so_Key x \<notin> ?drop) ?G) = mset (take n (srt ?G))"
    by (rule drop_filter_keys [OF sorts_byD(1) [OF assms(1)]])
  show "mset (take n (srt ?G)) \<subseteq># mset (backups_of p (without del objs))"
    unfolding new t [symmetric] mset_filter using D assms(4) by (intro filter_mset_mono_strong) auto
  assume "del = pruned_keys srt n (ord (groupByPrefix (filter keep_obj objs)))"
  then have "filter (\<lambda>x. so_Key x \<notin> del) ?G = filter (\<lambda>x. so_Key x \<notin> ?drop) ?G"
    using D by (intro filter_cong) auto
  then show "mset (backups_of p (without del objs)) = mset (take n (srt ?G))" unfolding new using t by simp
qed

lemma not_after_count:
  assumes "sorts_by f srt" and "mset (take n (srt old)) \<subseteq># mset new" and "y \<in> set (drop n (srt old))"
  shows "n \<le> length (filter (\<lambda>x. f y \<le> f x) new)"
proof -
  let ?P = "\<lambda>x. f y \<le> f x"
  have "sorted_wrt (\<lambda>a b. f b \<le> f a) (take n (srt old) @ drop n (srt old))"
    using sorts_byD(4) [OF assms(1), of old] by simp
  then have "\<forall>x \<in> set (take n (srt old)). ?P x" using assms(3) unfolding sorted_wrt_append by blast
  then have "filter ?P (take n (srt old)) = take n (srt old)" by simp
  moreover have "length (take n (srt old)) = n" using assms(3) by (cases "n \<le> length (srt old)") simp_all
  moreover have "size (filter_mset ?P (mset (take n (srt old)))) \<le> size (filter_mset ?P (mset new))"
    by (intro size_mset_mono multiset_filter_mono assms(2))
  ultimately show ?thesis by (metis mset_filter size_mset)
qed

text \<open>
  Property C1: pruning keeps the newest backups.  Whatever the object store does within its documentation -
  a listing or a request that fails, keys it refuses to delete, the limit of 1000 keys, a provider
  without bulk deletion - \<open>Prune\<close> returns, a backup is deleted only if \<open>preserveCount\<close> others of its world
  that are not older remain, and objects outside any world and folder placeholders stay.  When
  the store does what it is asked for, and no world has more than 1000 backups to delete, \<open>Prune\<close> succeeds
  and leaves exactly \<open>preserveCount\<close> of each world's backups (all of them when there are fewer).
\<close>

theorem Prune_keeps_newest:
  assumes "s3_honest (ws_s3 ws) (ws_bucket ws) view"
    and "sorts_by (\<lambda>x. unix_sec (so_Time x)) srt" and "any_order ord"
    and "distinct (map so_Key (view w))"
  shows "\<exists>r w'. Prune srt ord ws (int n) w = Some (r, w') \<and> (\<forall>m. r \<noteq> Panic m)
    \<and> (\<forall>p. let old = backups_of p (view w); new = backups_of p (view w') in
          set new \<subseteq> set old
          \<and> (\<forall>y \<in> set old - set new. n \<le> length (filter (\<lambda>x. unix_sec (so_Time y) \<le> unix_sec (so_Time x)) new)))
    \<and> filter (\<lambda>x. \<not> keep_obj x \<or> prefix_of (so_Key x) = None) (view w')
      = filter (\<lambda>x. \<not> keep_obj x \<or> prefix_of (so_Key x) = None) (view w)
    \<and> (s3_willing (ws_s3 ws) (ws_bucket ws) view \<and> (\<forall>p. length (backups_of p (view w)) \<le> n + 1000)
        \<longrightarrow> r = Ok () \<and> (\<forall>p. length (backups_of p (view w')) = min n (length (backups_of p (view w)))))"
proof -
  have pm: "filter (prefix_match None) objs = objs" for objs by (simp add: prefix_match_def)
  let ?gs = "groupByPrefix (filter keep_obj (view w))"
  obtain r1 w1 where l: "ListObjects (ws_s3 ws) (ws_bucket ws) None w = Some (r1, w1)" "view w1 = view w"
      "r1 = Ok (filter keep_obj (view w)) \<or> (\<exists>e. r1 = Err e)"
    using ListObjects_honest [OF assms(1), of None w] unfolding pm .
  have willing: "r1 = Ok (filter keep_obj (view w))" if "s3_willing (ws_s3 ws) (ws_bucket ws) view"
    using that l(1) ListObjects_lists [of "ws_s3 ws" "ws_bucket ws" view None w] unfolding s3_willing_def pm by force
  obtain es w2 del where g: "prune_groups srt ws (int n) (ord ?gs) w1 = (Ok es, w2)" "del \<subseteq> pruned_keys srt n (ord ?gs)"
    "view w2 = without del (view w)"
    "s3_willing (ws_s3 ws) (ws_bucket ws) view \<and> (\<forall>(p, g) \<in> set (ord ?gs). length g \<le> n + 1000)
        \<longrightarrow> es = [] \<and> del = pruned_keys srt n (ord ?gs)"
    using prune_groups_honest [OF assms(1,2), of n "ord ?gs" w1] unfolding l(2) by blast
  define r w' d where "r = (case r1 of Ok objs \<Rightarrow> errors_Join es | Err e \<Rightarrow> Err e | Panic m \<Rightarrow> Panic m)"
    and "w' = (case r1 of Ok objs \<Rightarrow> w2 | _ \<Rightarrow> w1)" and "d = (case r1 of Ok objs \<Rightarrow> del | _ \<Rightarrow> {})"
  have P: "Prune srt ord ws (int n) w = Some (r, w')" "\<forall>m. r \<noteq> Panic m"
    using l(1,3) g(1) by (auto simp: Prune_def prune_listed_def io_simps r_def w'_def errors_Join_def split: if_splits)
  have v: "view w' = without d (view w)" "d \<subseteq> pruned_keys srt n (ord ?gs)"
    using l(2,3) g(2,3) by (auto simp: w'_def d_def without_simps)
  note kept = backups_pruned(1) [OF assms(2,3,4) v(2)]
  have safe: "set (backups_of p (view w')) \<subseteq> set (backups_of p (view w))" for p
    unfolding v(1) by (auto simp: backups_of_def without_def)
  have newer: "n \<le> length (filter (\<lambda>x. unix_sec (so_Time y) \<le> unix_sec (so_Time x)) (backups_of p (view w')))"
    if y: "y \<in> set (backups_of p (view w)) - set (backups_of p (view w'))" for p y
  proof -
    have "so_Key y \<in> d" using y unfolding v(1) by (auto simp: backups_of_def without_def)
    then obtain z where z: "z \<in> set (drop n (srt (backups_of p (view w))))" "so_Key y = so_Key z"
      using pruned_key_iff [OF assms(2,3), of y p "view w" n] y v(2) by auto
    have "z \<in> set (view w)" using z(1) sorts_byD(2) [OF assms(2)] by (metis backups_of_def filter_is_subset in_set_dropD subsetD)
    then have "y = z" using y z(2) assms(4) by (auto simp: backups_of_def distinct_map dest: inj_onD)
    then show ?thesis using not_after_count [OF assms(2) kept [folded v(1)]] z(1) by blast
  qed
  have "so_Key x \<notin> pruned_keys srt n (ord ?gs)"
    if x: "x \<in> set (view w)" "\<not> keep_obj x \<or> prefix_of (so_Key x) = None" for x
  proof
    assume "so_Key x \<in> pruned_keys srt n (ord ?gs)"
    then obtain q h y where h: "(q, h) \<in> set ?gs" "y \<in> set (drop n (srt h))" "so_Key x = so_Key y"
      using any_orderD(1) [OF assms(3)] by (auto simp: pruned_keys_def)
    have "y \<in> set h" using h(2) sorts_byD(2) [OF assms(2), of h] by (metis in_set_dropD)
    with groupByPrefix_mem [OF h(1)] h(3) x(2) show False by (auto simp: keep_obj_def)
  qed
  then have other: "filter (\<lambda>x. \<not> keep_obj x \<or> prefix_of (so_Key x) = None) (view w')
      = filter (\<lambda>x. \<not> keep_obj x \<or> prefix_of (so_Key x) = None) (view w)"
    unfolding v(1) without_def filter_filter using v(2) by (intro filter_cong) auto
  have all: "r = Ok () \<and> (\<forall>p. length (backups_of p (view w')) = min n (length (backups_of p (view w))))"
    if a: "s3_willing (ws_s3 ws) (ws_bucket ws) view" "\<forall>p. length (backups_of p (view w)) \<le> n + 1000"
  proof -
    have "length h \<le> n + 1000" if "(q, h) \<in> set (ord ?gs)" for q h
      using groupByPrefix_mem [of q h "filter keep_obj (view w)"] that any_orderD(1) [OF assms(3)] a(2) [rule_format, of q]
      by (simp add: backups_of_def conj_commute)
    then have e: "es = []" "del = pruned_keys srt n (ord ?gs)" using g(4) a(1) by auto
    have r1: "r1 = Ok (filter keep_obj (view w))" by (rule willing [OF a(1)])
    then have "d = pruned_keys srt n (ord ?gs)" by (simp add: d_def e(2))
    from backups_pruned(2) [OF assms(2,3,4) v(2) this]
    have "length (backups_of p (view w')) = length (take n (srt (backups_of p (view w))))" for p
      unfolding v(1) by (metis mset_eq_length)
    then show ?thesis using sorts_byD(3) [OF assms(2)] by (simp add: r_def r1 e(1) errors_Join_def min.commute)
  qed
  show ?thesis using P safe newer other all by (intro exI [of _ r] exI [of _ w']) (simp add: Let_def)
qed

lemma Prune_keeps_newest_witness:
  "\<exists>w'. Prune (sort_key (\<lambda>x. - unix_sec (so_Time x))) rev \<lparr>ws_s3 = mem_s3, ws_bucket = ''w''\<rparr> (int 2) demo_objs
      = Some (Ok (), w')
    \<and> (\<forall>p. let old = backups_of p demo_objs; new = backups_of p w' in
          length new = min 2 (length old) \<and> set new \<subseteq> set old
          \<and> (\<forall>y \<in> set old - set new. 2 \<le> length (filter (\<lambda>x. unix_sec (so_Time y) \<le> unix_sec (so_Time x)) new)))"
proof -
  have few: "\<forall>p. length (backups_of p demo_objs) \<le> 2 + 1000"
    using length_filter_le [of _ demo_objs] by (auto simp: backups_of_def demo_objs_def intro: le_trans)
  show ?thesis
    using Prune_keeps_newest [of "\<lparr>ws_s3 = mem_s3, ws_bucket = ''w''\<rparr>" "\<lambda>w. w" "sort_key (\<lambda>x. - unix_sec (so_Time x))" rev demo_objs 2]
      mem_s3_honest [of "''w''"] few
    by (simp add: sorts_by_sort_key any_order_def) (simp add: demo_objs_def Let_def; blast)
qed

section \<open>The list of worlds\<close>

lemma file_objects_groups:
  "file_objects xs m = Ok m' \<Longrightarrow>
     (\<forall>x \<in> set xs. \<exists>wd g. extractWorldInfoFromKey (so_Key x) = Ok (wd, g)) \<and>
     m' = foldl (\<lambda>m kv. group_add (fst kv) (snd kv) m) m
       (map (\<lambda>x. (fst (case extractWorldInfoFromKey (so_Key x) of Ok wg \<Rightarrow> wg | _ \<Rightarrow> ([], [])),
                  \<lparr>wg_Gen = snd (case extractWorldInfoFromKey (so_Key x) of Ok wg \<Rightarrow> wg | _ \<Rightarrow> ([], [])),
                   wg_ID = so_Key x, wg_Timestamp = unix_milli (so_Time x)\<rparr>)) xs)"
  by (induction xs arbitrary: m) (auto split: res.splits prod.splits)

text \<open>
  The listed worlds.  When \<open>GetWorlds\<close> succeeds on the listed objects, the worlds
  are in strictly ascending order of their names, no world is empty, every world's
  generations run from the newest to the oldest, and a key is listed under a world
  exactly when an object with this key belongs to that world.
\<close>

lemma worlds_of_listing:
  assumes "sorts_by wg_Timestamp srt" and "worlds_of srt objs = Ok ws"
  shows "sorted_wrt (<) (map wd_WorldName ws)
    \<and> (\<forall>d \<in> set ws. wd_Generations d \<noteq> []
         \<and> sorted_wrt (\<lambda>a b. wg_Timestamp b \<le> wg_Timestamp a) (wd_Generations d))
    \<and> (\<forall>name key. (\<exists>d \<in> set ws. wd_WorldName d = name \<and> key \<in> wg_ID ` set (wd_Generations d))
         \<longleftrightarrow> (\<exists>x \<in> set objs. so_Key x = key \<and> (\<exists>g. extractWorldInfoFromKey key = Ok (name, g))))"
proof -
  define kvs where "kvs = map (\<lambda>x. (fst (case extractWorldInfoFromKey (so_Key x) of Ok wg \<Rightarrow> wg | _ \<Rightarrow> ([], [])),
      \<lparr>wg_Gen = snd (case extractWorldInfoFromKey (so_Key x) of Ok wg \<Rightarrow> wg | _ \<Rightarrow> ([], [])),
       wg_ID = so_Key x, wg_Timestamp = unix_milli (so_Time x)\<rparr>)) objs"
  from assms(2) obtain m where f: "file_objects objs [] = Ok m"
    and ws: "ws = map (\<lambda>k. \<lparr>wd_WorldName = k, wd_Generations = srt (group_get m k)\<rparr>) (sort (map fst m))"
    by (auto simp: worlds_of_def res.map_comp split: res.splits) (cases "file_objects objs []", auto)
  note fo = file_objects_groups [OF f]
  then have m: "m = group_all kvs" by (simp add: group_all_def kvs_def)
  have keys: "set (map fst m) = set (map fst kvs)" "distinct (map fst m)" unfolding m by (rule keys_group_all)+
  have get: "group_get m k = map snd (filter (\<lambda>kv. fst kv = k) kvs)" for k unfolding m by (rule group_get_all)
  have names: "map wd_WorldName ws = sort (map fst m)" by (simp add: ws comp_def)
  have "sorted_wrt (<) (map wd_WorldName ws)"
    unfolding names strict_sorted_iff using keys(2) by simp
  moreover have "wd_Generations d \<noteq> []
      \<and> sorted_wrt (\<lambda>a b. wg_Timestamp b \<le> wg_Timestamp a) (wd_Generations d)" if "d \<in> set ws" for d
  proof -
    from that obtain k where k: "k \<in> set (sort (map fst m))"
        "d = \<lparr>wd_WorldName = k, wd_Generations = srt (group_get m k)\<rparr>"
      unfolding ws by (metis (no_types, lifting) imageE list.set_map)
    then have k: "k \<in> set (map fst m)" "wd_Generations d = srt (group_get m k)" by simp_all
    with keys(1) have "group_get m k \<noteq> []" unfolding get by (auto simp: filter_empty_conv)
    with k sorts_byD(3,4) [OF assms(1)] show ?thesis by (metis length_0_conv)
  qed
  moreover have "(\<exists>d \<in> set ws. wd_WorldName d = name \<and> key \<in> wg_ID ` set (wd_Generations d))
      \<longleftrightarrow> (\<exists>x \<in> set objs. so_Key x = key \<and> (\<exists>g. extractWorldInfoFromKey key = Ok (name, g)))" for name key
  proof -
    have "(\<exists>d \<in> set ws. wd_WorldName d = name \<and> key \<in> wg_ID ` set (wd_Generations d))
        \<longleftrightarrow> name \<in> set (map fst kvs) \<and> key \<in> wg_ID ` set (group_get m name)"
      unfolding ws keys(1) [symmetric] using sorts_byD(2) [OF assms(1)] by auto
    also have "\<dots> \<longleftrightarrow> (\<exists>kv \<in> set kvs. fst kv = name \<and> wg_ID (snd kv) = key)"
      unfolding get by force
    also have "\<dots> \<longleftrightarrow> (\<exists>x \<in> set objs. so_Key x = key \<and> (\<exists>g. extractWorldInfoFromKey key = Ok (name, g)))"
      unfolding kvs_def set_map bex_simps(7)
    proof (intro bex_cong refl)
      fix x
      assume "x \<in> set objs"
      with fo obtain wd g where "extractWorldInfoFromKey (so_Key x) = Ok (wd, g)" by blast
      then show "(fst (fst (case extractWorldInfoFromKey (so_Key x) of Ok wg \<Rightarrow> wg | _ \<Rightarrow> ([], [])),
            \<lparr>wg_Gen = snd (case extractWorldInfoFromKey (so_Key x) of Ok wg \<Rightarrow> wg | _ \<Rightarrow> ([], [])),
             wg_ID = so_Key x, wg_Timestamp = unix_milli (so_Time x)\<rparr>) = name
          \<and> wg_ID (snd (fst (case extractWorldInfoFromKey (so_Key x) of Ok wg \<Rightarrow> wg | _ \<Rightarrow> ([], [])),
            \<lparr>wg_Gen = snd (case extractWorldInfoFromKey (so_Key x) of Ok wg \<Rightarrow> wg | _ \<Rightarrow> ([], [])),
             wg_ID = so_Key x, wg_Timestamp = unix_milli (so_Time x)\<rparr>)) = key)
        = (so_Key x = key \<and> (\<exists>g. extractWorldInfoFromKey key = Ok (name, g)))"
        by auto
    qed
    finally show ?thesis .
  qed
  ultimately show ?thesis by blast
qed

end
