(* ===== verification/Cron.thy ===== *)
theory Cron
  imports Conoha World
begin

text \<open>
  \<open>src/backend/ctrlplane/common/cron/cron.go\<close>: the jobs that save the storage as an image, make
  a storage from the image, and prune old worlds.  The scheduler itself is a library.
\<close>

section \<open>The jobs\<close>

record 'w cron_service =
  cr_conoha :: "'w conoha_client"
  cr_nameTag :: string

definition delete_old_image :: "'w cron_service \<Rightarrow> image list \<Rightarrow> ('w conoha, unit) io" where
  "delete_old_image S images =
     (case find (\<lambda>i. im_Name i = cr_nameTag S) images of
        None \<Rightarrow> io_ret () | Some i \<Rightarrow> DeleteImage (cr_conoha S) (im_ID i))"

definition runSaveStorageJob :: "'w cron_service \<Rightarrow> ('w conoha, unit) io" where
  "runSaveStorageJob S =
     io_bind (ListImages (cr_conoha S)) (\<lambda>images.
     io_bind (delete_old_image S images) (\<lambda>_.
     io_bind (ListVolumes (cr_conoha S)) (\<lambda>volumes.
     case find (\<lambda>v. vo_Name v = cr_nameTag S) volumes of
       None \<Rightarrow> io_err (Msg ''volume not found'')
     | Some v \<Rightarrow> SaveVolumeImage (cr_conoha S) (vo_ID v) (cr_nameTag S))))"

definition runCreateStorageJob :: "'w cron_service \<Rightarrow> ('w conoha, unit) io" where
  "runCreateStorageJob S =
     io_bind (ListVolumes (cr_conoha S)) (\<lambda>volumes.
     if list_ex (\<lambda>v. vo_Name v = cr_nameTag S) volumes then io_ret ()
     else
       io_bind (ListImages (cr_conoha S)) (\<lambda>images.
       case find (\<lambda>i. im_Name i = cr_nameTag S) images of
         None \<Rightarrow> io_err (Msg ''image not found'')
       | Some i \<Rightarrow>
           if im_Status i \<noteq> ''active'' then io_err (Msg ''image is not active'')
           else io_bind (CreateBootVolume (cr_conoha S) (cr_nameTag S) (im_ID i)) (\<lambda>_. io_ret ())))"

definition runPruneWorldsJob ::
  "(s3obj list \<Rightarrow> s3obj list) \<Rightarrow> ((string \<times> s3obj list) list \<Rightarrow> (string \<times> s3obj list) list) \<Rightarrow>
   'w world_service \<Rightarrow> 'w \<Rightarrow> (unit res \<times> 'w) option" where
  "runPruneWorldsJob srt ord ws = Prune srt ord ws 3"

text \<open>The jobs by when they run: minute, hour, day, month and day of the week, in UTC.\<close>

datatype cron_job = SaveStorageJob | CreateStorageJob | PruneWorldsJob

definition cron_entries :: "(string \<times> cron_job) list" where
  "cron_entries =
     [(''30 14 * * 0'', SaveStorageJob), (''45 * * * *'', CreateStorageJob), (''0 19 * * *'', PruneWorldsJob)]"

text \<open>\<open>withDelay\<close>: a random delay below ten minutes; the error is logged.\<close>

definition withDelay :: "(int \<Rightarrow> 'w \<Rightarrow> 'w) \<Rightarrow> nat \<Rightarrow> ('w, unit) io \<Rightarrow> ('w, unit) io" where
  "withDelay sleep raw fn w =
     io_bind (io_try fn) (\<lambda>_. io_ret ()) (sleep (int (raw mod 10) * minute) w)"

section \<open>What the jobs do\<close>

text \<open>
  The storage job does not overwrite.  When a job that creates the storage
  succeeds, either a volume with the name was there and nothing was asked of the cloud
  but the list of volumes, or there was none, an image with the name was active, and the
  new volume was created from that image.
\<close>

lemma create_storage_guarded:
  assumes "runCreateStorageJob S s = (Ok (), s')"
  shows "\<exists>vols s1. ListVolumes (cr_conoha S) s = (Ok vols, s1) \<and>
    ((cr_nameTag S \<in> vo_Name ` set vols \<and> s' = s1)
     \<or> (cr_nameTag S \<notin> vo_Name ` set vols \<and> (\<exists>images s2 i v. ListImages (cr_conoha S) s1 = (Ok images, s2)
          \<and> i \<in> set images \<and> im_Name i = cr_nameTag S \<and> im_Status i = ''active''
          \<and> CreateBootVolume (cr_conoha S) (cr_nameTag S) (im_ID i) s2 = (Ok v, s'))))"
proof -
  from assms obtain vols s1 where v: "ListVolumes (cr_conoha S) s = (Ok vols, s1)"
    unfolding runCreateStorageJob_def by (rule io_bind_OkE)
  show ?thesis
  proof (cases "list_ex (\<lambda>v. vo_Name v = cr_nameTag S) vols")
    case True
    with assms v have "s' = s1" by (simp add: runCreateStorageJob_def io_simps)
    with True v show ?thesis by (force simp: list_ex_iff)
  next
    case False
    with assms v obtain images s2 where i: "ListImages (cr_conoha S) s1 = (Ok images, s2)"
      "(case find (\<lambda>i. im_Name i = cr_nameTag S) images of
         None \<Rightarrow> io_err (Msg ''image not found'')
       | Some i \<Rightarrow>
           if im_Status i \<noteq> ''active'' then io_err (Msg ''image is not active'')
           else io_bind (CreateBootVolume (cr_conoha S) (cr_nameTag S) (im_ID i)) (\<lambda>_. io_ret ())) s2 = (Ok (), s')"
      by (auto simp: runCreateStorageJob_def io_simps elim!: io_bind_OkE)
    obtain x where x: "find (\<lambda>i. im_Name i = cr_nameTag S) images = Some x"
      using i(2) by (cases "find (\<lambda>i. im_Name i = cr_nameTag S) images") (simp_all add: io_run)
    then have "x \<in> set images" "im_Name x = cr_nameTag S" by (auto simp: find_Some_iff)
    moreover have "im_Status x = ''active''" "\<exists>v. CreateBootVolume (cr_conoha S) (cr_nameTag S) (im_ID x) s2 = (Ok v, s')"
      using i(2) x by (auto simp: io_run elim!: io_bind_OkE split: if_splits)
    moreover have "cr_nameTag S \<notin> vo_Name ` set vols" using False by (auto simp: list_ex_iff)
    ultimately show ?thesis using v i(1) by blast
  qed
qed

text \<open>
  The save job can lose the image.  The old image is deleted before the volume
  is looked up: when the volume with the name is missing - it is renamed while a runner uses
  it - the job fails, and it ends in the state the successful deletion left.
\<close>

lemma save_job_loses_image:
  assumes "ListImages (cr_conoha S) s = (Ok images, s1)"
    and "find (\<lambda>i. im_Name i = cr_nameTag S) images = Some i"
    and "DeleteImage (cr_conoha S) (im_ID i) s1 = (Ok (), s2)"
    and "ListVolumes (cr_conoha S) s2 = (Ok vols, s3)" and "cr_nameTag S \<notin> vo_Name ` set vols"
  shows "runSaveStorageJob S s = (Err (Msg ''volume not found''), s3)"
proof -
  have "vo_Name v \<noteq> cr_nameTag S" if "v \<in> set vols" for v
    using assms(5) imageI [OF that, of vo_Name] by auto
  then have "find (\<lambda>v. vo_Name v = cr_nameTag S) vols = None" by (simp add: find_None_iff)
  with assms(1-4) show ?thesis by (simp add: runSaveStorageJob_def delete_old_image_def io_simps)
qed

text \<open>A cloud that has the image and no volume: the image is gone after the job.\<close>

definition demo_images_Do :: "http_req \<Rightarrow> (bool, http_resp) io" where
  "demo_images_Do req has =
     (if rq_Method req = ''DELETE'' then (Ok \<lparr>rs_Status = 204, rs_Subject = [], rs_Body = JObj []\<rparr>, False)
      else if rq_Method req = ''POST'' then
        (Ok \<lparr>rs_Status = 202, rs_Subject = [], rs_Body = JObj [(''volume'', JObj [(''id'', JStr ''vol'')])]\<rparr>, has)
      else (Ok \<lparr>rs_Status = 200, rs_Subject = [], rs_Body = JObj
        [(''images'', JArr (if has then [JObj [(''id'', JStr ''img''), (''status'', JStr ''active''), (''name'', JStr ''mc'')]] else [])),
         (''volumes'', JArr [])]\<rparr>, has))"

definition demo_cron :: "bool cron_service" where
  "demo_cron = \<lparr>cr_conoha = \<lparr>cc_identity = cc_identity (demo_cloud demo_token),
      cc_endpoints = cc_endpoints (demo_cloud demo_token), cc_Do = demo_images_Do, cc_Now = (\<lambda>w. 0),
      cc_Parse = (\<lambda>s. Ok (s, []))\<rparr>, cr_nameTag = ''mc''\<rparr>"

definition demo_cron_state :: "bool \<Rightarrow> bool conoha" where
  "demo_cron_state has = (\<lparr>ct_token = ''secret'', ct_expiresAt = 1709262245 * 1000000000\<rparr>, has)"

lemma demo_cron_calls:
  "ListImages (cr_conoha demo_cron) (demo_cron_state True)
     = (Ok [\<lparr>im_ID = ''img'', im_Status = ''active'', im_Name = ''mc''\<rparr>], demo_cron_state True)"
  "DeleteImage (cr_conoha demo_cron) ''img'' (demo_cron_state True) = (Ok (), demo_cron_state False)"
  "ListVolumes (cr_conoha demo_cron) (demo_cron_state has) = (Ok [], demo_cron_state has)"
  "CreateBootVolume (cr_conoha demo_cron) n ''img'' (demo_cron_state has)
     = (Ok \<lparr>bv_ID = ''vol'', bv_Name = [], bv_Status = []\<rparr>, demo_cron_state has)"
  by (simp_all add: ListImages_def DeleteImage_def ListVolumes_def CreateBootVolume_def updateToken_def api_call_def api_result_def
      newRequest_def http_Do_def op_err_def io_bind_def io_lift_def io_ret_def demo_cron_def demo_cron_state_def demo_images_Do_def
      dec_struct_def dec_list_def dec_image_def zero_image_def dec_boot_volume_def find_field_def field_def dec_str_def
      equal_fold_def lower_char_def)

end
