(* ===== verification/Protocol.thy ===== *)
theory Protocol
  imports ByteSource Json
begin

unbundle bit_operations_syntax

text \<open>
  \<open>src/backend/common/mc/protocol/protocol.go\<close>: the part of Minecraft's network protocol
  the proxy speaks with a client.  The handler's \<open>reader\<close> keeps every byte it took from the
  connection, so that the proxy can replay them to the server behind it.  A Go \<open>int\<close> is an
  \<open>int\<close>: the bit operations of HOL on integers are those of two's complement, and the values
  here stay within 64 bits (lemma \<open>readVarInt_bound\<close> of this theory).
\<close>

section \<open>The connection and its reader\<close>

text \<open>
  What a connection delivers: the pieces the network hands out, one \<open>Read\<close> at a time, and
  the error after them.
\<close>

record conn_in =
  ci_chunks :: "bytes list"
  ci_end :: go_error

definition conn_read :: "nat \<Rightarrow> (conn_in, bytes) io" where
  "conn_read n c =
     (case ci_chunks c of
        [] \<Rightarrow> (Err (ci_end c), c)
      | ch # chs \<Rightarrow>
          if length ch \<le> n then (Ok ch, c\<lparr>ci_chunks := chs\<rparr>)
          else (Ok (take n ch), c\<lparr>ci_chunks := drop n ch # chs\<rparr>))"

record pReader =
  pr_conn :: conn_in
  pr_buf :: bytes
  pr_pos :: nat

text \<open>
  \<open>Read\<close> of a zeroed buffer of \<open>n\<close> bytes.  It asks the connection once; a piece that is too
  short leaves zeros at the end of the buffer and moves the position behind the bytes
  that are there, and slicing \<open>r.buf[r.pos:]\<close> with such a position panics.
\<close>

definition slice_panic :: string where
  "slice_panic = ''slice bounds out of range''"

definition reader_copy :: "nat \<Rightarrow> (pReader, bytes) io" where
  "reader_copy n r =
     (if length (pr_buf r) < pr_pos r then (Panic slice_panic, r)
      else let avail = take n (drop (pr_pos r) (pr_buf r))
           in (Ok (avail @ replicate (n - length avail) 0), r\<lparr>pr_pos := pr_pos r + n\<rparr>))"

definition reader_eof :: "go_error \<Rightarrow> (pReader, bytes) io" where
  "reader_eof e r =
     (if length (pr_buf r) < pr_pos r then (Panic slice_panic, r)
      else (Err e, r\<lparr>pr_pos := length (pr_buf r)\<rparr>))"

definition reader_Read :: "nat \<Rightarrow> (pReader, bytes) io" where
  "reader_Read n r =
     (if int (length (pr_buf r)) - int (pr_pos r) < int n then
        (case conn_read 512 (pr_conn r) of
           (Err e, c) \<Rightarrow>
             if errors_is e EOF then reader_eof e (r\<lparr>pr_conn := c\<rparr>) else (Err e, r\<lparr>pr_conn := c\<rparr>)
         | (Panic p, c) \<Rightarrow> (Panic p, r\<lparr>pr_conn := c\<rparr>)
         | (Ok ch, c) \<Rightarrow> reader_copy n (r\<lparr>pr_conn := c, pr_buf := pr_buf r @ ch\<rparr>))
      else reader_copy n r)"

section \<open>Numbers\<close>

text \<open>
  The readers take any \<open>io.Reader\<close>, here the function \<open>rd\<close> that fills a buffer.  For the
  handler's reader \<open>io.ReadFull\<close> is one call of \<open>Read\<close>, which fills the buffer or fails.
\<close>

function readVarInt_from :: "(nat \<Rightarrow> ('r, bytes) io) \<Rightarrow> int \<Rightarrow> nat \<Rightarrow> ('r, int) io" where
  "readVarInt_from rd result pos r =
     (case rd 1 r of
        (Err e, r') \<Rightarrow> (Err e, r')
      | (Panic p, r') \<Rightarrow> (Panic p, r')
      | (Ok buf, r') \<Rightarrow>
         (let b = uint (hd buf);
              result' = result OR push_bit pos (b AND 0x7F)
          in if b AND 0x80 = 0 then (Ok result', r')
             else if 32 \<le> pos + 7 then (Err (Msg ''too long VarInt''), r')
             else readVarInt_from rd result' (pos + 7) r'))"
  by pat_completeness auto
termination by (relation "measure (\<lambda>(rd, result, pos, r). 32 - pos)") auto

declare readVarInt_from.simps [simp del]

definition readVarInt :: "(nat \<Rightarrow> ('r, bytes) io) \<Rightarrow> ('r, int) io" where
  "readVarInt rd = readVarInt_from rd 0 0"

text \<open>The loop of \<open>writeVarInt\<close>; \<open>None\<close> is a loop that does not end.\<close>

partial_function (option) varint_bytes :: "int \<Rightarrow> bytes option" where
  "varint_bytes v =
     (if v AND NOT 0x7F = 0 then Some [word_of_int v]
      else Option.bind (varint_bytes (drop_bit 7 v))
             (\<lambda>bs. Some (word_of_int ((v AND 0x7F) OR 0x80) # bs)))"

definition readShort_p :: "(nat \<Rightarrow> ('r, bytes) io) \<Rightarrow> ('r, int) io" where
  "readShort_p rd = io_bind (rd 2) (\<lambda>buf. io_ret (int (be_val buf)))"

definition readLong_p :: "(nat \<Rightarrow> ('r, bytes) io) \<Rightarrow> ('r, int) io" where
  "readLong_p rd = io_bind (rd 8) (\<lambda>buf. io_ret (to_signed 64 (be_val buf)))"

definition writeLong_bytes :: "int \<Rightarrow> bytes" where
  "writeLong_bytes v = be_bytes 8 (nat (v mod 2 ^ 64))"

section \<open>Packets\<close>

record protocol_hdr =
  ph_Length :: int
  ph_PacketID :: int

record handshake = protocol_hdr +
  hs_Version :: int
  hs_ServerAddr :: string
  hs_ServerPort :: int
  hs_NextState :: int

definition readPacket :: "(nat \<Rightarrow> ('r, bytes) io) \<Rightarrow> ('r, protocol_hdr) io" where
  "readPacket rd =
     io_bind (readVarInt rd) (\<lambda>len.
     io_bind (readVarInt rd) (\<lambda>pid.
     io_ret \<lparr>ph_Length = len, ph_PacketID = pid\<rparr>))"

text \<open>
  \<open>io.ReadFull\<close> with an empty buffer does not read; \<open>h.r.Read(addrBuf)\<close> does call \<open>Read\<close>,
  whatever the length.
\<close>

definition readHandshake :: "(nat \<Rightarrow> ('r, bytes) io) \<Rightarrow> ('r, handshake) io" where
  "readHandshake rd =
     io_bind (readPacket rd) (\<lambda>hdr.
     io_bind (readVarInt rd) (\<lambda>version.
     io_bind (readVarInt rd) (\<lambda>addrLen.
     if 255 < addrLen then io_err (Msg ''address is too long'')
     else
     io_bind (rd (nat addrLen)) (\<lambda>addr.
     io_bind (readShort_p rd) (\<lambda>port.
     io_bind (readVarInt rd) (\<lambda>next.
     io_ret \<lparr>ph_Length = ph_Length hdr, ph_PacketID = ph_PacketID hdr, hs_Version = version,
             hs_ServerAddr = string_of_bytes addr, hs_ServerPort = port, hs_NextState = next\<rparr>))))))"

section \<open>The handler\<close>

text \<open>
  The connection is read through the reader; what is written to it is appended to
  \<open>h_out\<close>, until a write fails with the error \<open>h_werr\<close>.
\<close>

record mc_handler =
  h_r :: pReader
  h_out :: bytes
  h_werr :: "go_error option"

definition h_read :: "(pReader, 'a) io \<Rightarrow> (mc_handler, 'a) io" where
  "h_read m h = (case m (h_r h) of (x, r) \<Rightarrow> (x, h\<lparr>h_r := r\<rparr>))"

definition h_write :: "bytes \<Rightarrow> (mc_handler, unit) io" where
  "h_write bs h =
     (case h_werr h of None \<Rightarrow> (Ok (), h\<lparr>h_out := h_out h @ bs\<rparr>) | Some e \<Rightarrow> (Err e, h))"

definition NewHandler :: "conn_in \<Rightarrow> mc_handler" where
  "NewHandler c = \<lparr>h_r = \<lparr>pr_conn = c, pr_buf = [], pr_pos = 0\<rparr>, h_out = [], h_werr = None\<rparr>"

definition OrigBytes :: "mc_handler \<Rightarrow> bytes" where
  "OrigBytes h = pr_buf (h_r h)"

definition ReadHandshake :: "(mc_handler, handshake) io" where
  "ReadHandshake = h_read (readHandshake reader_Read)"

definition ReadStatusRequest :: "(mc_handler, unit) io" where
  "ReadStatusRequest = io_bind (h_read (readPacket reader_Read)) (\<lambda>_. io_ret ())"

text \<open>The pong is written through a buffered writer that is flushed once.\<close>

definition HandlePingPong :: "(mc_handler, unit) io" where
  "HandlePingPong =
     io_bind (h_read (readPacket reader_Read)) (\<lambda>hdr.
     io_bind (h_read (readLong_p reader_Read)) (\<lambda>payload.
     if ph_PacketID hdr \<noteq> 1 then io_err (Msg (''invalid ping packet: '' @ fmt_d (ph_PacketID hdr)))
     else h_write (9 # 1 # writeLong_bytes payload)))"

text \<open>The status a server answers with, and its JSON text.\<close>

record status =
  st_VersionName :: string
  st_Protocol :: int
  st_Max :: int
  st_Online :: int
  st_Sample :: "(string \<times> string) list"
  st_Text :: string
  st_Favicon :: "string option"
  st_EnforcesSecureChat :: bool
  st_PreviewsChat :: "bool option"
  st_CustomData :: "json option"

definition enc_Status :: "status \<Rightarrow> json" where
  "enc_Status s = JObj (
     [(''version'', JObj [(''name'', JStr (st_VersionName s)), (''protocol'', JInt (st_Protocol s))]),
      (''players'', JObj ([(''max'', JInt (st_Max s)), (''online'', JInt (st_Online s))] @
         omit_empty ''sample'' (\<lambda>(n, i). JObj [(''name'', JStr n), (''id'', JStr i)]) (st_Sample s))),
      (''description'', JObj [(''text'', JStr (st_Text s))])] @
     omit_nil ''favicon'' JStr (st_Favicon s) @
     [(''enforcesSecureChat'', JBool (st_EnforcesSecureChat s)),
      (''prviewsChat'', enc_ptr JBool (st_PreviewsChat s))] @
     omit_nil ''x-premises'' (\<lambda>j. j) (st_CustomData s))"

text \<open>
  \<open>WriteStatus\<close> with the text \<open>d\<close> that \<open>json.Marshal\<close> made of the status (or its error).  The
  lengths are not negative, so \<open>writeVarInt\<close> ends (lemma \<open>varint_bytes_nat\<close>).
\<close>

definition varint :: "nat \<Rightarrow> bytes" where
  "varint n = (case varint_bytes (int n) of Some bs \<Rightarrow> bs | None \<Rightarrow> [])"

definition status_packet :: "bytes \<Rightarrow> bytes" where
  "status_packet d = varint 0 @ varint (length d) @ d"

definition WriteStatus :: "bytes res \<Rightarrow> (mc_handler, unit) io" where
  "WriteStatus marshalled =
     io_bind (io_lift marshalled) (\<lambda>d.
     io_bind (h_write (varint (length (status_packet d)))) (\<lambda>_.
     h_write (status_packet d)))"

section \<open>The variable-length integers\<close>

text \<open>The encoding as arithmetic: seven bits a byte, the least significant first.\<close>

fun venc :: "nat \<Rightarrow> bytes" where
  "venc n = (if n < 128 then [word_of_nat n] else word_of_nat (n mod 128 + 128) # venc (n div 128))"

declare venc.simps [simp del]

lemma and_7F: "(i :: int) AND 127 = i mod 128"
  using take_bit_eq_mask [of 7 i] by (simp add: take_bit_eq_mod mask_eq_exp_minus_1)

lemma and_not_7F: "(i :: int) AND - 128 = 128 * (i div 128)"
proof -
  have "i AND NOT (mask 7) = push_bit 7 (drop_bit 7 i)"
    by (rule bit_eqI) (auto simp: bit_simps)
  then show ?thesis by (simp add: push_bit_eq_mult drop_bit_eq_div mask_eq_exp_minus_1)
qed

lemma or_push_bit: "0 \<le> i \<Longrightarrow> i < 2 ^ n \<Longrightarrow> (i :: int) OR push_bit n k = i + 2 ^ n * k"
  using concat_bit_eq [of n i k]
  by (simp add: concat_bit_def take_bit_int_eq_self push_bit_eq_mult mult.commute)

lemma or_80: "0 \<le> i \<Longrightarrow> i < 128 \<Longrightarrow> (i :: int) OR 128 = i + 128"
  using or_push_bit [of i 7 1] by (simp add: push_bit_eq_mult)

lemma and_80: "0 \<le> b \<Longrightarrow> b < 256 \<Longrightarrow> (b :: int) AND 128 = 0 \<longleftrightarrow> b < 128"
proof -
  assume b: "0 \<le> b" "b < 256"
  have "b AND 2 ^ 7 = 0 \<longleftrightarrow> \<not> bit b 7" by (rule and_exp_eq_0_iff_not_bit)
  also have "\<dots> \<longleftrightarrow> even (b div 128)" by (simp add: bit_iff_odd)
  also have "\<dots> \<longleftrightarrow> b < 128"
  proof (cases "b < 128")
    case False
    with b have "b div 128 = 1" by presburger
    with False show ?thesis by simp
  qed (use b in simp)
  finally show ?thesis by simp
qed

lemma varint_step:
  "varint_bytes (int n) =
    (if n < 128 then Some [word_of_nat n]
     else Option.bind (varint_bytes (int (n div 128))) (\<lambda>bs. Some (word_of_nat (n mod 128 + 128) # bs)))"
proof -
  have nt: "NOT (0x7F :: int) = - 128" by simp
  have "int n AND NOT 0x7F = 128 * int (n div 128)"
    unfolding nt and_not_7F by (simp only: zdiv_int of_nat_numeral)
  then have z: "int n AND NOT 0x7F = 0 \<longleftrightarrow> n < 128" by (simp only: mult_eq_0_iff) (simp add: div_eq_0_iff)
  have d: "drop_bit 7 (int n) = int (n div 128)" unfolding drop_bit_eq_div by simp
  have m: "(int n AND 0x7F) OR 0x80 = int (n mod 128 + 128)"
    unfolding and_7F by (subst or_80) (simp_all add: zmod_int)
  show ?thesis
    by (subst varint_bytes.simps, subst z, subst d, subst m) (simp only: of_int_of_nat_eq)
qed

lemma varint_bytes_nat: "varint_bytes (int n) = Some (venc n)"
proof (induction n rule: venc.induct)
  case (1 n)
  show ?case
  proof (cases "n < 128")
    case True
    then show ?thesis unfolding varint_step [of n] venc.simps [of n] by simp
  next
    case False
    then show ?thesis unfolding varint_step [of n] "1.IH" [OF False] venc.simps [of n] by simp
  qed
qed


text \<open>Negative numbers: the arithmetic shift keeps them negative, so the loop goes on for ever.\<close>

lemma varint_bytes_SomeD:
  assumes "varint_bytes v = Some bs"
  shows "0 \<le> v"
proof -
  have "\<forall>bs. varint_bytes v = Some bs \<longrightarrow> 0 \<le> v"
  proof (induct arbitrary: v rule: varint_bytes.fixp_induct)
    case 1
    show ?case by (rule option_admissible)
  next
    case 2
    show ?case by simp
  next
    case (3 f)
    have nt: "NOT (0x7F :: int) = - 128" by simp
    show ?case
    proof (intro allI impI)
      fix bs
      assume a: "(if v AND NOT 0x7F = 0 then Some [word_of_int v]
         else Option.bind (f (drop_bit 7 v)) (\<lambda>bs. Some (word_of_int ((v AND 0x7F) OR 0x80) # bs))) = Some bs"
      show "0 \<le> v"
      proof (cases "v AND NOT 0x7F = 0")
        case True
        then have "v div 128 = 0" unfolding nt and_not_7F by simp
        then show ?thesis by (simp add: div_eq_0_iff)
      next
        case False
        with a obtain bs' where "f (drop_bit 7 v) = Some bs'" by (auto simp: bind_eq_Some_conv)
        with 3 have "0 \<le> drop_bit 7 v" by blast
        then show ?thesis by simp
      qed
    qed
  qed
  with assms show ?thesis by blast
qed
lemma varint_bytes_negative: "v < 0 \<Longrightarrow> varint_bytes v = None"
  using varint_bytes_SomeD [of v] by (cases "varint_bytes v") auto

lemma varint_venc: "varint n = venc n"
  by (simp add: varint_def varint_bytes_nat)

lemma acc_bound:
  assumes "(a :: int) < P" "b \<le> 127" "0 < P"
  shows "a + P * b < P * 128"
proof -
  have "P * b \<le> P * 127" using assms by (intro mult_left_mono) auto
  moreover have "P * 128 = P * 127 + P" by simp
  ultimately show ?thesis using assms(1) by linarith
qed

lemma int_mod_div_128: "int n = int (n mod 128) + 128 * int (n div 128)"
  by (metis mod_mult_div_eq of_nat_add of_nat_mult of_nat_numeral)

text \<open>One round of \<open>readVarInt\<close> as arithmetic.\<close>

lemma readVarInt_step:
  assumes "0 \<le> result" "result < 2 ^ pos"
  shows "readVarInt_from rd result pos r =
     (case rd 1 r of
        (Err e, r') \<Rightarrow> (Err e, r')
      | (Panic p, r') \<Rightarrow> (Panic p, r')
      | (Ok buf, r') \<Rightarrow>
         (let b = uint (hd buf); result' = result + 2 ^ pos * (b mod 128)
          in if b < 128 then (Ok result', r')
             else if 32 \<le> pos + 7 then (Err (Msg ''too long VarInt''), r')
             else readVarInt_from rd result' (pos + 7) r'))"
proof -
  have b: "uint (hd buf) AND 128 = 0 \<longleftrightarrow> uint (hd buf) < 128" for buf :: bytes
  proof -
    have "0 \<le> uint (hd buf)" "uint (hd buf) < 256" using uint_bounded [of "hd buf"] by simp_all
    then show ?thesis by (rule and_80)
  qed
  show ?thesis
    by (subst readVarInt_from.simps) (simp only: and_7F or_push_bit [OF assms] b Let_def)
qed

lemma readVarInt_from_bound:
  "readVarInt_from rd result pos r = (Ok v, r') \<Longrightarrow> pos = 7 * k \<Longrightarrow> k \<le> 4 \<Longrightarrow>
    0 \<le> result \<Longrightarrow> result < 2 ^ pos \<Longrightarrow> 0 \<le> v \<and> v < 2 ^ 35"
proof (induction "5 - k" arbitrary: result pos r k)
  case 0
  then show ?case by simp
next
  case (Suc m)
  note step = readVarInt_step [OF Suc.prems(4,5), of rd r]
  obtain x r1 where rd: "rd 1 r = (x, r1)" by (cases "rd 1 r")
  from Suc.prems(1) step rd obtain buf where x: "x = Ok buf" by (cases x) auto
  define b where "b = uint (hd buf) mod 128"
  have b: "0 \<le> b" "b \<le> 127" by (simp_all add: b_def)
  let ?res = "result + 2 ^ pos * b"
  have r128: "?res < 2 ^ (pos + 7)"
    using acc_bound [OF Suc.prems(5) b(2)] by (simp add: power_add)
  have r0: "0 \<le> ?res" using Suc.prems(4) b by simp
  have le: "(2 :: int) ^ (pos + 7) \<le> 2 ^ 35" using Suc.prems by (intro power_increasing) auto
  show ?case
  proof (cases "uint (hd buf) < 128")
    case True
    with Suc.prems(1) step rd x have "v = ?res" by (simp add: b_def)
    with r0 r128 le show ?thesis by linarith
  next
    case False
    with Suc.prems(1) step rd x have
      "readVarInt_from rd ?res (pos + 7) r1 = (Ok v, r')" "pos + 7 < 32"
      by (auto simp: b_def Let_def split: if_splits)
    then show ?thesis
      using r0 r128 Suc.prems(2) by (intro Suc.hyps(1) [of "Suc k"]) (use Suc.hyps(2) in auto)
  qed
qed

text \<open>
  The value of a VarInt fits.  Whatever the bytes are and wherever they come
  from, a VarInt that \<open>readVarInt\<close> returns is at least 0 and below \<open>2 ^ 35\<close>: five bytes
  of seven bits, which is more than the 32 bits of the protocol.
\<close>

lemma readVarInt_bound:
  assumes "readVarInt rd r = (Ok v, r')"
  shows "0 \<le> v \<and> v < 2 ^ 35"
  using assms readVarInt_from_bound [of rd 0 0 r v r' 0] by (simp add: readVarInt_def)

section \<open>Parsing from any byte source\<close>

lemma uint_small: "n < 256 \<Longrightarrow> uint (word_of_nat n :: byte) = int n"
  by (simp add: uint_nat unat_of_nat)

context byte_source
begin

lemma readVarInt_from_venc:
  assumes "good r" "content r = venc n @ rest" "0 < chunk"
    and "n < 128 ^ (5 - k)" "k \<le> 4" "0 \<le> result" "result < 2 ^ (7 * k)"
  shows "\<exists>r'. readVarInt_from rd result (7 * k) r = (Ok (result + 2 ^ (7 * k) * int n), r')
    \<and> content r' = rest \<and> good r'"
  using assms
proof (induction n arbitrary: r k result rule: venc.induct)
  case (1 n)
  note step = readVarInt_step [OF "1.prems"(6,7), of rd r]
  show ?case
  proof (cases "n < 128")
    case True
    with "1.prems" have "content r = word_of_nat n # rest" by (simp add: venc.simps)
    with "1.prems" obtain r' where r': "rd 1 r = (Ok [word_of_nat n], r')" "content r' = rest" "good r'"
      using rd_one by blast
    have "uint (word_of_nat n :: byte) = int n" using True by (intro uint_small) simp
    with r' True show ?thesis by (simp add: step)
  next
    case False
    let ?b = "word_of_nat (n mod 128 + 128) :: byte"
    from False "1.prems" have "content r = ?b # (venc (n div 128) @ rest)" by (simp add: venc.simps [of n])
    with "1.prems" obtain r' where
      r': "rd 1 r = (Ok [?b], r')" "content r' = venc (n div 128) @ rest" "good r'"
      using rd_one by blast
    have ub: "uint ?b = int (n mod 128 + 128)" by (intro uint_small) simp
    then have m: "uint ?b mod 128 = int (n mod 128)" by (simp add: zmod_int)
    have k: "k < 4"
    proof (rule ccontr)
      assume "\<not> k < 4"
      with "1.prems"(5) have "k = 4" by simp
      with "1.prems"(4) False show False by simp
    qed
    let ?res = "result + 2 ^ (7 * k) * int (n mod 128)"
    have "n mod 128 < 128" by simp
    then have "int (n mod 128) \<le> 127" by linarith
    with "1.prems"(7) have "?res < 2 ^ (7 * k) * 128" by (rule acc_bound) simp
    also have "2 ^ (7 * k) * 128 = (2 :: int) ^ (7 * Suc k)" by (simp add: power_add)
    finally have r128: "?res < 2 ^ (7 * Suc k)" .
    have "5 - k = Suc (5 - Suc k)" using k by simp
    with "1.prems"(4) have d: "n div 128 < 128 ^ (5 - Suc k)"
      by (simp add: less_mult_imp_div_less mult.commute)
    have "readVarInt_from rd result (7 * k) r = readVarInt_from rd ?res (7 * Suc k) r'"
      using r'(1) ub m k by (simp add: step Let_def add.commute)
    moreover have "\<exists>r''. readVarInt_from rd ?res (7 * Suc k) r' =
        (Ok (?res + 2 ^ (7 * Suc k) * int (n div 128)), r'') \<and> content r'' = rest \<and> good r''"
      using k d r128 "1.prems"(3,6) r' by (intro "1.IH" [OF False]) auto
    moreover have "?res + 2 ^ (7 * Suc k) * int (n div 128) = result + 2 ^ (7 * k) * int n"
    proof -
      have "2 ^ (7 * k) * int n = 2 ^ (7 * k) * int (n mod 128) + 2 ^ (7 * k) * 128 * int (n div 128)"
        by (subst int_mod_div_128 [of n]) (simp only: distrib_left mult.assoc)
      moreover have "(2 :: int) ^ (7 * Suc k) = 2 ^ (7 * k) * 128" by (simp add: power_add)
      ultimately show ?thesis by (simp only: add.assoc)
    qed
    ultimately show ?thesis by auto
  qed
qed

lemma readVarInt_venc:
  assumes "good r" "content r = venc n @ rest" "0 < chunk" "n < 2 ^ 35"
  obtains r' where "readVarInt rd r = (Ok (int n), r')" "content r' = rest" "good r'"
  using readVarInt_from_venc [of r n rest 0 0] assms by (auto simp: readVarInt_def)

lemma readShort_p_bytes:
  assumes "good r" "content r = be_bytes 2 n @ rest" "2 \<le> chunk" "n < 2 ^ 16"
  obtains r' where "readShort_p rd r = (Ok (int n), r')" "content r' = rest" "good r'"
proof -
  from assms obtain r' where "rd 2 r = (Ok (be_bytes 2 n), r')" "content r' = rest" "good r'"
    using rd_append [of r "be_bytes 2 n" rest 2] by auto
  with that assms(4) show thesis by (simp add: readShort_p_def io_bind_def io_ret_def be_val_be_bytes)
qed

lemma readLong_p_bytes:
  assumes "good r" "content r = bs @ rest" "length bs = 8" "8 \<le> chunk"
  obtains r' where "readLong_p rd r = (Ok (to_signed 64 (be_val bs)), r')" "content r' = rest" "good r'"
proof -
  from assms obtain r' where "rd 8 r = (Ok bs, r')" "content r' = rest" "good r'"
    using rd_append [of r bs rest 8] by auto
  with that show thesis by (simp add: readLong_p_def io_bind_def io_ret_def)
qed

lemma readPacket_bytes:
  assumes "good r" "content r = venc l @ venc p @ rest" "1 \<le> chunk" "l < 2 ^ 35" "p < 2 ^ 35"
  obtains r' where "readPacket rd r = (Ok \<lparr>ph_Length = int l, ph_PacketID = int p\<rparr>, r')"
    "content r' = rest" "good r'"
proof -
  have c: "0 < chunk" using assms(3) by simp
  obtain r1 where 1: "readVarInt rd r = (Ok (int l), r1)" "content r1 = venc p @ rest" "good r1"
    using readVarInt_venc [OF assms(1,2) c assms(4)] .
  obtain r2 where 2: "readVarInt rd r1 = (Ok (int p), r2)" "content r2 = rest" "good r2"
    using readVarInt_venc [OF 1(3,2) c assms(5)] .
  show thesis by (rule that [OF _ 2(2,3)]) (simp add: readPacket_def io_simps 1 2)
qed

lemma readHandshake_bytes:
  assumes "good r"
    and "content r = venc l @ venc p @ venc v @ venc (length a) @ bytes_of_string a @ be_bytes 2 port @ venc nx @ rest"
    and "255 \<le> chunk" "l < 2 ^ 35" "p < 2 ^ 35" "v < 2 ^ 35" "length a \<le> 255" "port < 2 ^ 16" "nx < 2 ^ 35"
  obtains r' where "readHandshake rd r =
      (Ok \<lparr>ph_Length = int l, ph_PacketID = int p, hs_Version = int v, hs_ServerAddr = a,
           hs_ServerPort = int port, hs_NextState = int nx\<rparr>, r')"
    "content r' = rest" "good r'"
proof -
  have c: "1 \<le> chunk" "0 < chunk" "2 \<le> chunk" "length a \<le> chunk" using assms by simp_all
  obtain r1 where 1: "readPacket rd r = (Ok \<lparr>ph_Length = int l, ph_PacketID = int p\<rparr>, r1)"
    "content r1 = venc v @ venc (length a) @ bytes_of_string a @ be_bytes 2 port @ venc nx @ rest" "good r1"
    using readPacket_bytes [OF assms(1,2) c(1) assms(4,5)] .
  obtain r2 where 2: "readVarInt rd r1 = (Ok (int v), r2)"
    "content r2 = venc (length a) @ bytes_of_string a @ be_bytes 2 port @ venc nx @ rest" "good r2"
    using readVarInt_venc [OF 1(3,2) c(2) assms(6)] .
  have la: "length a < 2 ^ 35" using assms(7) by simp
  obtain r3 where 3: "readVarInt rd r2 = (Ok (int (length a)), r3)"
    "content r3 = bytes_of_string a @ be_bytes 2 port @ venc nx @ rest" "good r3"
    using readVarInt_venc [OF 2(3,2) c(2) la] .
  have lb: "length (bytes_of_string a) = length a" by (simp add: bytes_of_string_def)
  obtain r4 where 4: "rd (length a) r3 = (Ok (bytes_of_string a), r4)"
    "content r4 = be_bytes 2 port @ venc nx @ rest" "good r4"
    using rd_append [OF 3(3,2) lb c(4)] .
  obtain r5 where 5: "readShort_p rd r4 = (Ok (int port), r5)" "content r5 = venc nx @ rest" "good r5"
    using readShort_p_bytes [OF 4(3,2) c(3) assms(8)] .
  obtain r6 where 6: "readVarInt rd r5 = (Ok (int nx), r6)" "content r6 = rest" "good r6"
    using readVarInt_venc [OF 5(3,2) c(2) assms(9)] .
  show thesis
    by (rule that [OF _ 6(2,3)]) (use assms(7) in \<open>simp add: readHandshake_def io_simps 1 2 3 4 5 6\<close>)
qed

end

section \<open>The handler's reader is a byte source\<close>

text \<open>What the reader will deliver, when it is not past its buffer.\<close>

definition pr_content :: "pReader \<Rightarrow> bytes" where
  "pr_content r = drop (pr_pos r) (pr_buf r) @ concat (ci_chunks (pr_conn r))"

definition pr_inside :: "pReader \<Rightarrow> bool" where
  "pr_inside r = (pr_pos r \<le> length (pr_buf r))"

lemma reader_Read_buffered:
  "pr_inside r \<Longrightarrow> n \<le> length (pr_buf r) - pr_pos r \<Longrightarrow>
   reader_Read n r = (Ok (take n (drop (pr_pos r) (pr_buf r))), r\<lparr>pr_pos := pr_pos r + n\<rparr>)"
  by (auto simp: reader_Read_def reader_copy_def pr_inside_def Let_def)

lemma reader_Read_chunk:
  assumes "pr_inside r" "length (pr_buf r) - pr_pos r < n" "ci_chunks (pr_conn r) = ch # chs" "length ch \<le> 512"
  shows "reader_Read n r = reader_copy n
     (r\<lparr>pr_conn := (pr_conn r)\<lparr>ci_chunks := chs\<rparr>, pr_buf := pr_buf r @ ch\<rparr>)"
  using assms by (auto simp: reader_Read_def conn_read_def pr_inside_def)

text \<open>Byte by byte the reader keeps the contract for every way the network cuts the stream into pieces.\<close>

definition pr_pieces :: "pReader \<Rightarrow> bool" where
  "pr_pieces r = (pr_inside r \<and> [] \<notin> set (ci_chunks (pr_conn r)))"

text \<open>For longer reads it does when the client's bytes are in the buffer or come in one piece.\<close>

definition pr_segment :: "pReader \<Rightarrow> bool" where
  "pr_segment r = (pr_inside r \<and>
     (case ci_chunks (pr_conn r) of [] \<Rightarrow> True | [ch] \<Rightarrow> length ch \<le> 512 | _ \<Rightarrow> False))"

lemma conn_read_nonempty:
  assumes "ci_chunks c = (b # bs) # chs" "[] \<notin> set (ci_chunks c)"
  obtains ch c' where "conn_read 512 c = (Ok (b # ch), c')"
    "concat (ci_chunks c) = b # ch @ concat (ci_chunks c')" "[] \<notin> set (ci_chunks c')"
proof (cases "length (b # bs) \<le> 512")
  case True
  with assms show thesis by (intro that [of bs "c\<lparr>ci_chunks := chs\<rparr>"]) (simp_all add: conn_read_def)
next
  case False
  have t: "take 512 (b # bs) = b # take 511 bs" "drop 512 (b # bs) = drop 511 bs"
    by (simp_all add: take_Cons' drop_Cons')
  with False assms show thesis
    by (intro that [of "take 511 bs" "c\<lparr>ci_chunks := drop 511 bs # chs\<rparr>"])
      (simp_all add: conn_read_def append_assoc [symmetric])
qed

lemma pr_pieces_read:
  assumes "pr_pieces r" "n \<le> 1" "n \<le> length (pr_content r)"
  shows "\<exists>r'. reader_Read n r = (Ok (take n (pr_content r)), r') \<and> pr_content r' = drop n (pr_content r) \<and> pr_pieces r'"
proof (cases "n \<le> length (pr_buf r) - pr_pos r")
  case True
  with assms show ?thesis
    by (auto simp: reader_Read_buffered pr_pieces_def pr_content_def pr_inside_def drop_drop add.commute)
next
  case False
  from assms(1) have i: "pr_pos r \<le> length (pr_buf r)" and ne: "[] \<notin> set (ci_chunks (pr_conn r))"
    by (simp_all add: pr_pieces_def pr_inside_def)
  from False assms(2) i have n: "n = 1" and e: "pr_pos r = length (pr_buf r)" by linarith+
  have "ci_chunks (pr_conn r) \<noteq> []"
  proof
    assume "ci_chunks (pr_conn r) = []"
    with e assms(3) n show False by (simp add: pr_content_def)
  qed
  with ne obtain b bs chs where bs: "ci_chunks (pr_conn r) = (b # bs) # chs"
    by (metis list.exhaust list.set_intros(1))
  from bs ne obtain ch c' where
    ch: "conn_read 512 (pr_conn r) = (Ok (b # ch), c')"
      "concat (ci_chunks (pr_conn r)) = b # ch @ concat (ci_chunks c')" "[] \<notin> set (ci_chunks c')"
    by (rule conn_read_nonempty)
  let ?r = "r\<lparr>pr_conn := c', pr_buf := pr_buf r @ b # ch, pr_pos := Suc (length (pr_buf r))\<rparr>"
  have "reader_Read n r = (Ok [b], ?r)"
    using n e ch(1) by (simp add: reader_Read_def reader_copy_def Let_def)
  moreover have "pr_content ?r = ch @ concat (ci_chunks c')" "pr_pieces ?r"
    using ch(3) by (simp_all add: pr_content_def pr_pieces_def pr_inside_def)
  ultimately show ?thesis using n e ch(2) by (simp add: pr_content_def)
qed

lemma pr_segment_read:
  assumes "pr_segment r" "n \<le> length (pr_content r)"
  shows "\<exists>r'. reader_Read n r = (Ok (take n (pr_content r)), r') \<and> pr_content r' = drop n (pr_content r) \<and> pr_segment r'"
proof (cases "n \<le> length (pr_buf r) - pr_pos r")
  case True
  with assms show ?thesis
    by (auto simp: reader_Read_buffered pr_segment_def pr_content_def pr_inside_def drop_drop add.commute)
next
  case False
  with assms obtain ch where ch: "ci_chunks (pr_conn r) = [ch]" "length ch \<le> 512"
    by (auto simp: pr_segment_def pr_content_def pr_inside_def split: list.splits)
  with False assms show ?thesis
    by (auto simp: reader_Read_chunk pr_segment_def pr_content_def reader_copy_def pr_inside_def Let_def drop_drop add.commute)
qed

interpretation pieces: byte_source reader_Read pr_content pr_pieces 1
  by unfold_locales (rule pr_pieces_read)

interpretation segment: byte_source reader_Read pr_content pr_segment n for n
  by unfold_locales (rule pr_segment_read)

section \<open>The properties of the handler\<close>

text \<open>The bytes of a handshake, as a client sends them.\<close>

definition handshake_bytes :: "nat \<Rightarrow> nat \<Rightarrow> nat \<Rightarrow> string \<Rightarrow> nat \<Rightarrow> nat \<Rightarrow> bytes" where
  "handshake_bytes l p v a port nx =
     venc l @ venc p @ venc v @ venc (length a) @ bytes_of_string a @ be_bytes 2 port @ venc nx"

lemma new_segment: "length bs \<le> 512 \<Longrightarrow> pr_segment (h_r (NewHandler \<lparr>ci_chunks = [bs], ci_end = e\<rparr>))"
  by (simp add: NewHandler_def pr_segment_def pr_inside_def)

lemma new_content: "pr_content (h_r (NewHandler \<lparr>ci_chunks = [bs], ci_end = e\<rparr>)) = bs"
  by (simp add: NewHandler_def pr_content_def)

text \<open>
  Property C32: a handshake is read back.  When the client's handshake arrives in one piece of
  at most 512 bytes, whatever follows it in that piece, \<open>ReadHandshake\<close> returns its length,
  packet id, protocol version, address (up to 255 bytes), port and next state.
\<close>

theorem ReadHandshake_roundtrip:
  assumes "l < 2 ^ 35" and "p < 2 ^ 35" and "v < 2 ^ 35" and "length a \<le> 255" and "port < 2 ^ 16" and "nx < 2 ^ 35"
    and "length (handshake_bytes l p v a port nx @ rest) \<le> 512"
  shows "fst (ReadHandshake (NewHandler \<lparr>ci_chunks = [handshake_bytes l p v a port nx @ rest], ci_end = e\<rparr>)) =
    Ok \<lparr>ph_Length = int l, ph_PacketID = int p, hs_Version = int v, hs_ServerAddr = a,
        hs_ServerPort = int port, hs_NextState = int nx\<rparr>"
proof -
  let ?h = "NewHandler \<lparr>ci_chunks = [handshake_bytes l p v a port nx @ rest], ci_end = e\<rparr>"
  have c: "pr_content (h_r ?h) =
      venc l @ venc p @ venc v @ venc (length a) @ bytes_of_string a @ be_bytes 2 port @ venc nx @ rest"
    by (simp add: new_content handshake_bytes_def)
  obtain r' where "readHandshake reader_Read (h_r ?h) =
      (Ok \<lparr>ph_Length = int l, ph_PacketID = int p, hs_Version = int v, hs_ServerAddr = a,
           hs_ServerPort = int port, hs_NextState = int nx\<rparr>, r')"
    using segment.readHandshake_bytes [OF new_segment [OF assms(7)] c order_refl assms(1-6)] .
  then show ?thesis by (simp add: ReadHandshake_def h_read_def)
qed

lemma ReadHandshake_roundtrip_witness:
  "fst (ReadHandshake (NewHandler \<lparr>ci_chunks = [handshake_bytes 16 0 765 ''mc.local'' 25565 2 @ [7]], ci_end = EOF\<rparr>)) =
    Ok \<lparr>ph_Length = int 16, ph_PacketID = int 0, hs_Version = int 765, hs_ServerAddr = ''mc.local'',
        hs_ServerPort = int 25565, hs_NextState = int 2\<rparr>"
  by (rule ReadHandshake_roundtrip) (simp_all add: handshake_bytes_def venc.simps bytes_of_string_def)

text \<open>
  The pong is the ping.  A ping packet (length 9, id 1, eight bytes of payload)
  that is in the buffer or arrives in one piece is answered with exactly the same bytes.
\<close>

lemma HandlePingPong_echo:
  assumes "pr_segment (h_r h)" and "pr_content (h_r h) = 9 # 1 # payload @ rest" and "length payload = 8"
    and "h_werr h = None"
  shows "\<exists>h'. HandlePingPong h = (Ok (), h') \<and> h_out h' = h_out h @ 9 # 1 # payload
    \<and> pr_content (h_r h') = rest"
proof -
  have c: "pr_content (h_r h) = venc 9 @ venc 1 @ payload @ rest" using assms(2) by (simp add: venc.simps)
  obtain r1 where 1: "readPacket reader_Read (h_r h) = (Ok \<lparr>ph_Length = int 9, ph_PacketID = int 1\<rparr>, r1)"
    "pr_content r1 = payload @ rest" "pr_segment r1"
    by (rule segment.readPacket_bytes [OF assms(1) c order_refl]) simp_all
  obtain r2 where 2: "readLong_p reader_Read r1 = (Ok (to_signed 64 (be_val payload)), r2)"
    "pr_content r2 = rest" "pr_segment r2"
    using segment.readLong_p_bytes [OF 1(3,2) assms(3) order_refl] .
  have "be_val payload < 2 ^ 64" using be_val_bound [of payload] assms(3) by simp
  then have "writeLong_bytes (to_signed 64 (be_val payload)) = be_bytes (length payload) (be_val payload)"
    unfolding writeLong_bytes_def by (simp only: to_signed_mod_inverse assms(3))
  then have "writeLong_bytes (to_signed 64 (be_val payload)) = payload" by simp
  with 1 2 assms(4) show ?thesis
    by (simp add: HandlePingPong_def io_bind_def h_read_def h_write_def)
qed

text \<open>Everything the client sent: the bytes taken from the connection and those still on it.\<close>

definition pr_stream :: "pReader \<Rightarrow> bytes" where
  "pr_stream r = pr_buf r @ concat (ci_chunks (pr_conn r))"

lemma conn_read_stream:
  "conn_read n c = (x, c') \<Longrightarrow>
     concat (ci_chunks c) = (case x of Ok ch \<Rightarrow> ch | _ \<Rightarrow> []) @ concat (ci_chunks c')"
  by (auto simp: conn_read_def split: list.splits if_splits)

lemma reader_copy_stream: "pr_stream (snd (reader_copy n r)) = pr_stream r"
  by (simp add: reader_copy_def pr_stream_def Let_def)

lemma reader_eof_stream: "pr_stream (snd (reader_eof e r)) = pr_stream r"
  by (simp add: reader_eof_def pr_stream_def)

lemma keeps_Read [keeps_intros]: "keeps pr_stream (reader_Read n)"
  unfolding keeps_def
proof
  fix r :: pReader
  obtain x c where c: "conn_read 512 (pr_conn r) = (x, c)" by (cases "conn_read 512 (pr_conn r)")
  from conn_read_stream [OF c] c show "pr_stream (snd (reader_Read n r)) = pr_stream r"
    by (cases x) (simp_all add: reader_Read_def reader_copy_stream reader_eof_stream, simp_all add: pr_stream_def)
qed

lemma keeps_readVarInt_from: "keeps I (rd 1) \<Longrightarrow> I (snd (readVarInt_from rd result pos r)) = I r"
proof (induction rd result pos r rule: readVarInt_from.induct)
  case (1 rd result pos r)
  obtain x r1 where rd: "rd 1 r = (x, r1)" by (cases "rd 1 r")
  with 1(2) have "I r1 = I r" by (rule keepsD)
  with rd 1 show ?case
    by (cases x) (simp_all add: readVarInt_from.simps [of rd result pos r] Let_def)
qed

lemma keeps_readVarInt [keeps_intros]: "keeps I (rd 1) \<Longrightarrow> keeps I (readVarInt rd)"
  using keeps_readVarInt_from [of I rd] by (simp add: keeps_def readVarInt_def)

lemma keeps_packets [keeps_intros]:
  "keeps pr_stream (readPacket reader_Read)" "keeps pr_stream (readHandshake reader_Read)"
  "keeps pr_stream (readLong_p reader_Read)" "keeps pr_stream (readShort_p reader_Read)"
  by (auto simp: readPacket_def readHandshake_def readLong_p_def readShort_p_def intro!: keeps_intros)

lemma keeps_h_read [keeps_intros]: "keeps pr_stream m \<Longrightarrow> keeps (\<lambda>h. pr_stream (h_r h)) (h_read m)"
  by (auto simp: keeps_def h_read_def split: prod.split) (metis snd_conv)

lemma keeps_h_write [keeps_intros]: "keeps (\<lambda>h. pr_stream (h_r h)) (h_write bs)"
  by (simp add: keeps_def h_write_def split: option.split)

text \<open>The handler's operations, in any order.\<close>

datatype handler_op = OpHandshake | OpStatusRequest | OpWriteStatus "bytes res" | OpPingPong

fun run_op :: "handler_op \<Rightarrow> mc_handler \<Rightarrow> mc_handler" where
  "run_op OpHandshake h = snd (ReadHandshake h)"
| "run_op OpStatusRequest h = snd (ReadStatusRequest h)"
| "run_op (OpWriteStatus d) h = snd (WriteStatus d h)"
| "run_op OpPingPong h = snd (HandlePingPong h)"

lemma run_op_stream: "pr_stream (h_r (run_op a h)) = pr_stream (h_r h)"
proof -
  let ?I = "\<lambda>h. pr_stream (h_r h)"
  have "keeps ?I ReadHandshake" "keeps ?I ReadStatusRequest" "keeps ?I (WriteStatus d)" "keeps ?I HandlePingPong" for d
    by (auto simp: ReadHandshake_def ReadStatusRequest_def WriteStatus_def HandlePingPong_def intro!: keeps_intros)
  then show ?thesis by (cases a) (simp_all add: keeps_def)
qed

lemma orig_bytes_stream:
  "OrigBytes (fold run_op ops (NewHandler c)) @
     concat (ci_chunks (pr_conn (h_r (fold run_op ops (NewHandler c))))) = concat (ci_chunks c)"
proof -
  have "pr_stream (h_r (fold run_op ops h)) = pr_stream (h_r h)" for h
    by (induction ops arbitrary: h) (simp_all add: run_op_stream)
  then have "pr_stream (h_r (fold run_op ops (NewHandler c))) = concat (ci_chunks c)"
    by (simp add: pr_stream_def NewHandler_def)
  then show ?thesis by (simp add: OrigBytes_def pr_stream_def)
qed

text \<open>
  Property C6: nothing the client sends is lost to the upstream server.  After any sequence of
  handler operations, successful or not and however the network cut the stream, the bytes of
  \<open>OrigBytes\<close> followed by what is still on the connection are exactly what the client sent;
  the proxy forwards the first and then copies the second.
\<close>

theorem OrigBytes_replay:
  "OrigBytes (fold run_op ops (NewHandler c)) @
     concat (ci_chunks (pr_conn (h_r (fold run_op ops (NewHandler c))))) = concat (ci_chunks c)"
  by (rule orig_bytes_stream)

text \<open>
  A read that the network cuts short.  When the piece that arrives does not
  complete the buffer, \<open>Read\<close> still reports the whole buffer as read: its end is zeros the
  client never sent, and the bytes that belong there are skipped when they arrive.  If the
  client sends nothing more, the next read panics.
\<close>

lemma reader_Read_short:
  assumes "pr_pos r \<le> length (pr_buf r)" and "ci_chunks (pr_conn r) = [ch]" and "length ch \<le> 512"
    and "length (pr_buf r) + length ch < pr_pos r + n" and "ci_end (pr_conn r) = EOF"
  shows "fst (reader_Read n r) =
      Ok (pr_content r @ replicate (pr_pos r + n - length (pr_buf r) - length ch) 0)
    \<and> fst (reader_Read 1 (snd (reader_Read n r))) = Panic slice_panic"
proof -
  have p: "int (length (pr_buf r)) - int (pr_pos r) < int n" using assms(1,4) by linarith
  have c: "pr_content r = drop (pr_pos r) (pr_buf r @ ch)" using assms(1,2) by (simp add: pr_content_def)
  have t: "take n (drop (pr_pos r) (pr_buf r @ ch)) = drop (pr_pos r) (pr_buf r @ ch)"
    using assms(1,4) by simp
  let ?r = "r\<lparr>pr_conn := (pr_conn r)\<lparr>ci_chunks := []\<rparr>, pr_buf := pr_buf r @ ch, pr_pos := pr_pos r + n\<rparr>"
  have "reader_Read n r = (Ok (pr_content r @ replicate (pr_pos r + n - length (pr_buf r) - length ch) 0), ?r)"
    using p assms t by (simp add: reader_Read_def conn_read_def reader_copy_def Let_def c add.commute)
  moreover have "fst (reader_Read 1 ?r) = Panic slice_panic"
    using assms(4,5) by (simp add: reader_Read_def conn_read_def reader_eof_def)
  ultimately show ?thesis by simp
qed

end
