(* ===== verification/Store.thy ===== *)
theory Store
  imports Json
begin

text \<open>
  \<open>src/backend/ctrlplane/common/kvs/kvs.go\<close> and \<open>src/backend/ctrlplane/common/auth/auth.go\<close>: the
  key-value store over Redis and the access tokens kept in it.  The Redis client is a
  parameter, a record of its commands; \<open>redis_honest\<close> states what the commands do to
  the keys and lists of a server that answers, \<open>redis_timed\<close> how keys expire in between.  Stored texts are JSON values.
\<close>

section \<open>The Redis client\<close>

record 'w redis =
  rds_Set :: "string \<Rightarrow> json \<Rightarrow> int \<Rightarrow> ('w, unit) io"
  rds_Get :: "string \<Rightarrow> ('w, json) io"
  rds_SetGet :: "string \<Rightarrow> json \<Rightarrow> int \<Rightarrow> ('w, json) io"
  rds_Del :: "string list \<Rightarrow> ('w, unit) io"
  rds_RPush :: "string \<Rightarrow> json \<Rightarrow> ('w, unit) io"
  rds_LPop :: "string \<Rightarrow> ('w, json) io"
  rds_Publish :: "string \<Rightarrow> json \<Rightarrow> ('w, unit) io"

text \<open>
  The keys and the lists of the server: \<open>GET\<close> of a missing key is \<open>redis.Nil\<close>, \<open>SET\<close> with
  the option \<open>GET\<close> returns the old value or \<open>redis.Nil\<close> and sets the key in both cases.
\<close>

record redis_view =
  rv_keys :: "string \<Rightarrow> json option"
  rv_lists :: "string \<Rightarrow> json list"

definition found :: "json option \<Rightarrow> json res" where
  "found v = (case v of None \<Rightarrow> Err RedisNil | Some j \<Rightarrow> Ok j)"

definition first_of :: "'a list \<Rightarrow> 'a option" where
  "first_of xs = (case xs of [] \<Rightarrow> None | x # _ \<Rightarrow> Some x)"

definition redis_honest :: "'w redis \<Rightarrow> ('w \<Rightarrow> redis_view) \<Rightarrow> bool" where
  "redis_honest R view =
     ((\<forall>w k v ttl. \<exists>w'. rds_Set R k v ttl w = (Ok (), w') \<and> view w' = (view w)\<lparr>rv_keys := (rv_keys (view w))(k \<mapsto> v)\<rparr>)
    \<and> (\<forall>w k. \<exists>w'. rds_Get R k w = (found (rv_keys (view w) k), w') \<and> view w' = view w)
    \<and> (\<forall>w k v ttl. \<exists>w'. rds_SetGet R k v ttl w = (found (rv_keys (view w) k), w') \<and>
          view w' = (view w)\<lparr>rv_keys := (rv_keys (view w))(k \<mapsto> v)\<rparr>)
    \<and> (\<forall>w ks. \<exists>w'. rds_Del R ks w = (Ok (), w') \<and>
          view w' = (view w)\<lparr>rv_keys := (\<lambda>k. if k \<in> set ks then None else rv_keys (view w) k)\<rparr>)
    \<and> (\<forall>w k v. \<exists>w'. rds_RPush R k v w = (Ok (), w') \<and>
          view w' = (view w)\<lparr>rv_lists := (rv_lists (view w))(k := rv_lists (view w) k @ [v])\<rparr>)
    \<and> (\<forall>w k. \<exists>w'. rds_LPop R k w = (found (first_of (rv_lists (view w) k)), w') \<and>
          view w' = (view w)\<lparr>rv_lists := (rv_lists (view w))(k := tl (rv_lists (view w) k))\<rparr>)
    \<and> (\<forall>w c v. \<exists>w'. rds_Publish R c v w = (Ok (), w') \<and> view w' = view w))"

text \<open>A server that is its view.\<close>

definition mem_redis :: "redis_view redis" where
  "mem_redis = \<lparr>
     rds_Set = (\<lambda>k v ttl w. (Ok (), w\<lparr>rv_keys := (rv_keys w)(k \<mapsto> v)\<rparr>)),
     rds_Get = (\<lambda>k w. (found (rv_keys w k), w)),
     rds_SetGet = (\<lambda>k v ttl w. (found (rv_keys w k), w\<lparr>rv_keys := (rv_keys w)(k \<mapsto> v)\<rparr>)),
     rds_Del = (\<lambda>ks w. (Ok (), w\<lparr>rv_keys := (\<lambda>k. if k \<in> set ks then None else rv_keys w k)\<rparr>)),
     rds_RPush = (\<lambda>k v w. (Ok (), w\<lparr>rv_lists := (rv_lists w)(k := rv_lists w k @ [v])\<rparr>)),
     rds_LPop = (\<lambda>k w. (found (first_of (rv_lists w k)), w\<lparr>rv_lists := (rv_lists w)(k := tl (rv_lists w k))\<rparr>)),
     rds_Publish = (\<lambda>c v w. (Ok (), w))\<rparr>"

definition empty_view :: redis_view where
  "empty_view = \<lparr>rv_keys = Map.empty, rv_lists = (\<lambda>_. [])\<rparr>"

lemma mem_redis_honest: "redis_honest mem_redis (\<lambda>w. w)"
  by (simp add: redis_honest_def mem_redis_def split: list.split)

lemma honest_Set:
  assumes "redis_honest R view"
  obtains w' where "rds_Set R k v ttl w = (Ok (), w')"
    "view w' = (view w)\<lparr>rv_keys := (rv_keys (view w))(k \<mapsto> v)\<rparr>"
  using assms that unfolding redis_honest_def by metis

lemma honest_Get:
  assumes "redis_honest R view"
  obtains w' where "rds_Get R k w = (found (rv_keys (view w) k), w')" "view w' = view w"
  using assms that unfolding redis_honest_def by metis

lemma honest_SetGet:
  assumes "redis_honest R view"
  obtains w' where "rds_SetGet R k v ttl w = (found (rv_keys (view w) k), w')"
    "view w' = (view w)\<lparr>rv_keys := (rv_keys (view w))(k \<mapsto> v)\<rparr>"
  using assms that unfolding redis_honest_def by metis

lemma honest_Del:
  assumes "redis_honest R view"
  obtains w' where "rds_Del R ks w = (Ok (), w')"
    "view w' = (view w)\<lparr>rv_keys := (\<lambda>k. if k \<in> set ks then None else rv_keys (view w) k)\<rparr>"
  using assms that unfolding redis_honest_def by metis

lemma honest_RPush:
  assumes "redis_honest R view"
  obtains w' where "rds_RPush R k v w = (Ok (), w')"
    "view w' = (view w)\<lparr>rv_lists := (rv_lists (view w))(k := rv_lists (view w) k @ [v])\<rparr>"
  using assms that unfolding redis_honest_def by metis

lemma honest_LPop:
  assumes "redis_honest R view"
  obtains w' where "rds_LPop R k w = (found (first_of (rv_lists (view w) k)), w')"
    "view w' = (view w)\<lparr>rv_lists := (rv_lists (view w))(k := tl (rv_lists (view w) k))\<rparr>"
  using assms that unfolding redis_honest_def by metis

lemma honest_Publish:
  assumes "redis_honest R view"
  obtains w' where "rds_Publish R c v w = (Ok (), w')" "view w' = view w"
  using assms that unfolding redis_honest_def by metis

section \<open>Time\<close>

text \<open>
  \<open>redis_honest\<close> is about the moment a command runs: \<open>rv_keys\<close> are the keys that are alive then.  Between
  commands time passes and keys expire: \<open>left\<close> is the time, in nanoseconds, a key has left (\<open>None\<close> without
  a limit), and \<open>sleep\<close> lets time pass.  \<open>SET\<close> takes a positive time to live, \<open>-1\<close> (\<open>KeepTTL\<close>) to keep the
  one the key has, or none; with \<open>SetArgs\<close> what is not positive is none.
\<close>

definition redis_timed ::
  "'w redis \<Rightarrow> ('w \<Rightarrow> redis_view) \<Rightarrow> ('w \<Rightarrow> string \<Rightarrow> int option) \<Rightarrow> (int \<Rightarrow> 'w \<Rightarrow> 'w) \<Rightarrow> bool" where
  "redis_timed R view left sleep =
     (redis_honest R view
    \<and> (\<forall>w k v ttl. left (snd (rds_Set R k v ttl w)) = (left w)(k := if 0 < ttl then Some ttl else if ttl = -1 then left w k else None))
    \<and> (\<forall>w k. left (snd (rds_Get R k w)) = left w)
    \<and> (\<forall>w k v ttl. left (snd (rds_SetGet R k v ttl w)) = (left w)(k := if 0 < ttl then Some ttl else None))
    \<and> (\<forall>w ks. left (snd (rds_Del R ks w)) = (\<lambda>k. if k \<in> set ks then None else left w k))
    \<and> (\<forall>w k v. left (snd (rds_RPush R k v w)) = left w)
    \<and> (\<forall>w k. left (snd (rds_LPop R k w)) = left w)
    \<and> (\<forall>w c v. left (snd (rds_Publish R c v w)) = left w)
    \<and> (\<forall>w dt. 0 \<le> dt \<longrightarrow>
          rv_keys (view (sleep dt w)) = (\<lambda>k. if pred_option (\<lambda>t. dt < t) (left w k) then rv_keys (view w) k else None)
        \<and> left (sleep dt w) = (\<lambda>k. case left w k of Some t \<Rightarrow> if dt < t then Some (t - dt) else None | None \<Rightarrow> None)))"

lemma timed_honest: "redis_timed R view left sleep \<Longrightarrow> redis_honest R view"
  by (simp add: redis_timed_def)

lemma timed_left:
  assumes "redis_timed R view left sleep"
  shows "left (snd (rds_Set R k v ttl w)) = (left w)(k := if 0 < ttl then Some ttl else if ttl = -1 then left w k else None)"
    "left (snd (rds_Get R k w)) = left w"
    "left (snd (rds_Del R ks w)) = (\<lambda>k. if k \<in> set ks then None else left w k)"
  using assms by (simp_all add: redis_timed_def)

lemma timed_sleep:
  assumes "redis_timed R view left sleep" "0 \<le> dt"
  shows "rv_keys (view (sleep dt w)) k = (if pred_option (\<lambda>t. dt < t) (left w k) then rv_keys (view w) k else None)"
    "left (sleep dt w) k = (case left w k of Some t \<Rightarrow> if dt < t then Some (t - dt) else None | None \<Rightarrow> None)"
  using assms by (simp_all add: redis_timed_def)

text \<open>A server that is its view and the times its keys have left.\<close>

definition beside_times :: "(redis_view, 'a) io \<Rightarrow> ((string \<Rightarrow> int option) \<Rightarrow> string \<Rightarrow> int option) \<Rightarrow> (redis_view \<times> (string \<Rightarrow> int option), 'a) io" where
  "beside_times m f s = (case m (fst s) of (r, v) \<Rightarrow> (r, v, f (snd s)))"

definition timed_redis :: "(redis_view \<times> (string \<Rightarrow> int option)) redis" where
  "timed_redis = \<lparr>
     rds_Set = (\<lambda>k v ttl. beside_times (rds_Set mem_redis k v ttl)
       (\<lambda>l. l(k := if 0 < ttl then Some ttl else if ttl = -1 then l k else None))),
     rds_Get = (\<lambda>k. beside_times (rds_Get mem_redis k) (\<lambda>l. l)),
     rds_SetGet = (\<lambda>k v ttl. beside_times (rds_SetGet mem_redis k v ttl) (\<lambda>l. l(k := if 0 < ttl then Some ttl else None))),
     rds_Del = (\<lambda>ks. beside_times (rds_Del mem_redis ks) (\<lambda>l k. if k \<in> set ks then None else l k)),
     rds_RPush = (\<lambda>k v. beside_times (rds_RPush mem_redis k v) (\<lambda>l. l)),
     rds_LPop = (\<lambda>k. beside_times (rds_LPop mem_redis k) (\<lambda>l. l)),
     rds_Publish = (\<lambda>c v. beside_times (rds_Publish mem_redis c v) (\<lambda>l. l))\<rparr>"

definition timed_sleep_demo :: "int \<Rightarrow> redis_view \<times> (string \<Rightarrow> int option) \<Rightarrow> redis_view \<times> (string \<Rightarrow> int option)" where
  "timed_sleep_demo dt s =
     ((fst s)\<lparr>rv_keys := (\<lambda>k. if pred_option (\<lambda>t. dt < t) (snd s k) then rv_keys (fst s) k else None)\<rparr>,
      \<lambda>k. case snd s k of Some t \<Rightarrow> if dt < t then Some (t - dt) else None | None \<Rightarrow> None)"

lemma timed_redis_timed: "redis_timed timed_redis fst snd timed_sleep_demo"
  by (auto simp: redis_timed_def redis_honest_def timed_redis_def mem_redis_def beside_times_def timed_sleep_demo_def)

section \<open>The key-value store\<close>

text \<open>The interface \<open>Store\<close> and its implementation on Redis.\<close>

record 'w store =
  st_Set :: "string \<Rightarrow> json \<Rightarrow> int \<Rightarrow> ('w, unit) io"
  st_Get :: "string \<Rightarrow> ('w, json) io"
  st_GetSet :: "string \<Rightarrow> json \<Rightarrow> int \<Rightarrow> ('w, json) io"
  st_Del :: "string list \<Rightarrow> ('w, unit) io"

definition RedisStore_Set :: "'w redis \<Rightarrow> string \<Rightarrow> json \<Rightarrow> int \<Rightarrow> ('w, unit) io" where
  "RedisStore_Set R key v ttl = io_bind (rds_Set R key v ttl) (\<lambda>_. io_ret ())"

definition RedisStore_Get :: "'w redis \<Rightarrow> string \<Rightarrow> ('w, json) io" where
  "RedisStore_Get R key = io_bind (rds_Get R key) io_ret"

definition RedisStore_GetSet :: "'w redis \<Rightarrow> string \<Rightarrow> json \<Rightarrow> int \<Rightarrow> ('w, json) io" where
  "RedisStore_GetSet R key v ttl = io_bind (rds_SetGet R key v ttl) io_ret"

definition RedisStore_Del :: "'w redis \<Rightarrow> string list \<Rightarrow> ('w, unit) io" where
  "RedisStore_Del R keys = io_bind (rds_Del R keys) (\<lambda>_. io_ret ())"

definition NewRedis :: "'w redis \<Rightarrow> 'w store" where
  "NewRedis R = \<lparr>st_Set = RedisStore_Set R, st_Get = RedisStore_Get R,
     st_GetSet = RedisStore_GetSet R, st_Del = RedisStore_Del R\<rparr>"

text \<open>A value is marshalled to JSON \<open>j\<close>; a result is decoded by \<open>d\<close> into the value \<open>old\<close>.\<close>

definition kvs_Set :: "'w store \<Rightarrow> string \<Rightarrow> json \<Rightarrow> int \<Rightarrow> ('w, unit) io" where
  "kvs_Set c key j ttl = st_Set c key j ttl"

definition kvs_Get :: "'w store \<Rightarrow> string \<Rightarrow> 'a dec \<Rightarrow> 'a \<Rightarrow> ('w, 'a) io" where
  "kvs_Get c key d old = io_bind (st_Get c key) (\<lambda>j. io_lift (d old j))"

definition kvs_GetSet :: "'w store \<Rightarrow> string \<Rightarrow> json \<Rightarrow> int \<Rightarrow> 'a dec \<Rightarrow> 'a \<Rightarrow> ('w, 'a) io" where
  "kvs_GetSet c key j ttl d old = io_bind (st_GetSet c key j ttl) (\<lambda>oldj. io_lift (d old oldj))"

definition kvs_Del :: "'w store \<Rightarrow> string list \<Rightarrow> ('w, unit) io" where
  "kvs_Del c keys = st_Del c keys"

named_theorems kvs_simps

lemma NewRedis_simps [kvs_simps]:
  "st_Set (NewRedis R) k v ttl w = (case rds_Set R k v ttl w of (r, w') \<Rightarrow> (r, w'))"
  "st_Get (NewRedis R) k w = rds_Get R k w"
  "st_GetSet (NewRedis R) k v ttl w = rds_SetGet R k v ttl w"
  "st_Del (NewRedis R) ks w = rds_Del R ks w"
  by (simp_all add: NewRedis_def RedisStore_Set_def RedisStore_Get_def RedisStore_GetSet_def RedisStore_Del_def
      io_bind_def io_ret_def split: prod.split res.split)

lemma kvs_Set_honest:
  assumes "redis_honest R view"
  obtains w' where "kvs_Set (NewRedis R) k j ttl w = (Ok (), w')"
    "view w' = (view w)\<lparr>rv_keys := (rv_keys (view w))(k \<mapsto> j)\<rparr>"
  using honest_Set [OF assms, of k j ttl w] by (auto simp: kvs_Set_def kvs_simps)

lemma kvs_Get_honest:
  assumes "redis_honest R view"
  obtains w' where "kvs_Get (NewRedis R) k d old w = (res_bind (found (rv_keys (view w) k)) (d old), w')"
    "view w' = view w"
proof -
  from honest_Get [OF assms, of k w] obtain w' where
    "rds_Get R k w = (found (rv_keys (view w) k), w')" "view w' = view w" .
  then show thesis
    by (intro that [of w']) (simp_all add: kvs_Get_def io_bind_def io_lift_def kvs_simps found_def split: option.split)
qed

lemma kvs_Del_honest:
  assumes "redis_honest R view"
  obtains w' where "kvs_Del (NewRedis R) ks w = (Ok (), w')"
    "view w' = (view w)\<lparr>rv_keys := (\<lambda>k. if k \<in> set ks then None else rv_keys (view w) k)\<rparr>"
  using honest_Del [OF assms, of ks w] by (auto simp: kvs_Del_def kvs_simps)

section \<open>Access tokens\<close>

definition NoScope :: string where "NoScope = []"
definition ScopeAdmin :: string where "ScopeAdmin = ''admin''"

record token =
  tk_Token :: string
  tk_UserID :: int
  tk_Scopes :: "string list"
  tk_CreatedAt :: string
  tk_scopeMap :: "string set"

definition zero_token :: token where
  "zero_token = \<lparr>tk_Token = [], tk_UserID = 0, tk_Scopes = [], tk_CreatedAt = [], tk_scopeMap = {}\<rparr>"

definition HasScope :: "token \<Rightarrow> string \<Rightarrow> bool" where
  "HasScope t scope = (if scope = NoScope then True else ScopeAdmin \<in> tk_scopeMap t)"

definition enc_Token :: "token \<Rightarrow> json" where
  "enc_Token t = JObj [(''token'', JStr (tk_Token t)), (''userID'', JInt (tk_UserID t)),
     (''scopes'', JArr (map JStr (tk_Scopes t))), (''createdAt'', JStr (tk_CreatedAt t))]"

definition Token_fields :: "token fields" where
  "Token_fields =
     [field ''token'' dec_str tk_Token (\<lambda>v t. t\<lparr>tk_Token := v\<rparr>),
      field ''userID'' dec_uint tk_UserID (\<lambda>v t. t\<lparr>tk_UserID := v\<rparr>),
      field ''scopes'' (dec_list [] dec_str) tk_Scopes (\<lambda>v t. t\<lparr>tk_Scopes := v\<rparr>),
      field ''createdAt'' dec_str tk_CreatedAt (\<lambda>v t. t\<lparr>tk_CreatedAt := v\<rparr>)]"

definition dec_Token :: "token dec" where
  "dec_Token = dec_struct Token_fields"

text \<open>\<open>base32.StdEncoding\<close> without padding: five bits a character, the last group filled with zeros.\<close>

definition base32_alphabet :: string where
  "base32_alphabet = ''ABCDEFGHIJKLMNOPQRSTUVWXYZ234567''"

fun base32_groups :: "bool list \<Rightarrow> string" where
  "base32_groups bs =
     (if bs = [] then []
      else let g = take 5 (bs @ replicate 4 False)
           in base32_alphabet ! foldl (\<lambda>n b. 2 * n + (if b then 1 else 0)) 0 g # base32_groups (drop 5 bs))"

definition base32 :: "bytes \<Rightarrow> string" where
  "base32 bs = base32_groups (concat (map (\<lambda>b. map (\<lambda>i. odd (unat b div 2 ^ i)) [7, 6, 5, 4, 3, 2, 1, 0]) bs))"

text \<open>\<open>CreateToken\<close> with the random key and the time of the call.\<close>

definition token_ttl :: int where "token_ttl = 30 * 24 * 3600 * 1000000000"

definition token_key :: "string \<Rightarrow> string" where
  "token_key t = ''token:'' @ t"

definition CreateToken :: "'w store \<Rightarrow> bytes \<Rightarrow> string \<Rightarrow> int \<Rightarrow> string list \<Rightarrow> ('w, token) io" where
  "CreateToken c key now userID scopes =
     (let t = \<lparr>tk_Token = base32 key, tk_UserID = userID, tk_Scopes = scopes, tk_CreatedAt = now, tk_scopeMap = {}\<rparr>
      in io_bind (kvs_Set c (token_key (tk_Token t)) (enc_Token t) token_ttl) (\<lambda>_. io_ret t))"

definition auth_Get :: "'w store \<Rightarrow> string \<Rightarrow> ('w, token) io" where
  "auth_Get c token =
     io_bind (kvs_Get c (token_key token) dec_Token zero_token) (\<lambda>t.
     io_ret (t\<lparr>tk_scopeMap := set (filter (\<lambda>s. s \<noteq> NoScope) (tk_Scopes t))\<rparr>))"

text \<open>\<open>GetFromRequest\<close> with the \<open>Authorization\<close> header (empty when it is absent).\<close>

definition GetFromRequest :: "'w store \<Rightarrow> string \<Rightarrow> ('w, token) io" where
  "GetFromRequest c header =
     (if header = [] then io_err ErrNoAuthorization
      else if \<not> has_prefix ''Bearer '' header then io_err ErrNoAuthorization
      else auth_Get c (trim_prefix ''Bearer '' header))"

definition RevokeToken :: "'w store \<Rightarrow> string \<Rightarrow> ('w, unit) io" where
  "RevokeToken c token = kvs_Del c [token_key token]"


lemma dec_enc_Token:
  assumes "0 \<le> tk_UserID t" "tk_UserID t < 2 ^ 64"
  shows "dec_Token zero_token (enc_Token t) = Ok (t\<lparr>tk_scopeMap := {}\<rparr>)"
  using assms
  by (simp add: dec_Token_def dec_struct_def enc_Token_def Token_fields_def field_def json_simps zero_token_def)

lemma auth_Get_honest:
  assumes "redis_honest R view"
  obtains w' where "auth_Get (NewRedis R) tok w =
      (map_res (\<lambda>t. t\<lparr>tk_scopeMap := set (filter (\<lambda>s. s \<noteq> NoScope) (tk_Scopes t))\<rparr>)
        (res_bind (found (rv_keys (view w) (token_key tok))) (dec_Token zero_token)), w')"
    "view w' = view w"
proof -
  from kvs_Get_honest [OF assms, of "token_key tok" dec_Token zero_token w] obtain w' where
    "kvs_Get (NewRedis R) (token_key tok) dec_Token zero_token w =
      (res_bind (found (rv_keys (view w) (token_key tok))) (dec_Token zero_token), w')" "view w' = view w" .
  then show thesis
    by (intro that [of w']) (simp_all add: auth_Get_def io_bind_def io_ret_def split: res.split)
qed

lemma GetFromRequest_bearer: "GetFromRequest c (''Bearer '' @ tok) = auth_Get c tok"
proof -
  have "has_prefix ''Bearer '' (''Bearer '' @ tok)" "trim_prefix ''Bearer '' (''Bearer '' @ tok) = tok"
    by (rule has_prefix_append, rule trim_prefix_append)
  then show ?thesis by (simp add: GetFromRequest_def)
qed

lemma token_life:
  assumes "redis_honest R view" and "0 \<le> uid" and "uid < 2 ^ 64"
  shows "\<exists>t w1. CreateToken (NewRedis R) key now uid scopes w = (Ok t, w1)
    \<and> (\<exists>t' w2. GetFromRequest (NewRedis R) (''Bearer '' @ tk_Token t) w1 = (Ok t', w2)
         \<and> tk_UserID t' = uid \<and> tk_Scopes t' = scopes
         \<and> HasScope t' NoScope \<and> (HasScope t' ScopeAdmin \<longleftrightarrow> ScopeAdmin \<in> set scopes))
    \<and> (\<exists>w3 w4. RevokeToken (NewRedis R) (tk_Token t) w1 = (Ok (), w3)
         \<and> GetFromRequest (NewRedis R) (''Bearer '' @ tk_Token t) w3 = (Err RedisNil, w4))"
proof -
  let ?t = "\<lparr>tk_Token = base32 key, tk_UserID = uid, tk_Scopes = scopes, tk_CreatedAt = now, tk_scopeMap = {}\<rparr>"
  let ?k = "token_key (base32 key)"
  obtain w1 where s: "kvs_Set (NewRedis R) ?k (enc_Token ?t) token_ttl w = (Ok (), w1)"
    "view w1 = (view w)\<lparr>rv_keys := (rv_keys (view w))(?k \<mapsto> enc_Token ?t)\<rparr>"
    using kvs_Set_honest [OF assms(1)] .
  have c: "CreateToken (NewRedis R) key now uid scopes w = (Ok ?t, w1)"
    using s(1) by (simp add: CreateToken_def Let_def io_bind_def io_ret_def)
  obtain w2 where g: "auth_Get (NewRedis R) (base32 key) w1 =
      (Ok (?t\<lparr>tk_scopeMap := set (filter (\<lambda>s. s \<noteq> NoScope) scopes)\<rparr>), w2)"
    using auth_Get_honest [OF assms(1), of "base32 key" w1] s(2) assms(2,3)
    by (auto simp: found_def dec_enc_Token)
  obtain w3 where d: "kvs_Del (NewRedis R) [?k] w1 = (Ok (), w3)"
    "view w3 = (view w1)\<lparr>rv_keys := (\<lambda>k. if k \<in> set [?k] then None else rv_keys (view w1) k)\<rparr>"
    using kvs_Del_honest [OF assms(1)] .
  obtain w4 where n: "auth_Get (NewRedis R) (base32 key) w3 = (Err RedisNil, w4)"
    using auth_Get_honest [OF assms(1), of "base32 key" w3] d(2) by (auto simp: found_def)
  have "ScopeAdmin \<noteq> NoScope" by (simp add: ScopeAdmin_def NoScope_def)
  with c g d(1) n show ?thesis
    by (simp add: GetFromRequest_bearer [simplified] RevokeToken_def HasScope_def)
qed

text \<open>The token of a request and what a later request with it gets.\<close>

lemma CreateToken_authorises:
  assumes "redis_honest R view" and "0 \<le> uid" and "uid < 2 ^ 64"
  obtains t w1 t' w2 where "CreateToken (NewRedis R) key now uid scopes w = (Ok t, w1)" "tk_Token t = base32 key"
    "GetFromRequest (NewRedis R) (''Bearer '' @ base32 key) w1 = (Ok t', w2)"
    "tk_UserID t' = uid" "HasScope t' ScopeAdmin \<longleftrightarrow> ScopeAdmin \<in> set scopes"
proof -
  obtain t w1 t' w2 where *: "CreateToken (NewRedis R) key now uid scopes w = (Ok t, w1)"
    "GetFromRequest (NewRedis R) (''Bearer '' @ tk_Token t) w1 = (Ok t', w2)"
    "tk_UserID t' = uid" "HasScope t' ScopeAdmin \<longleftrightarrow> ScopeAdmin \<in> set scopes"
    using token_life [OF assms] by blast
  then have "tk_Token t = base32 key"
    by (auto simp: CreateToken_def Let_def io_run elim!: io_bind_OkE)
  with * show thesis by (intro that) simp_all
qed

text \<open>What is done with tokens, one thing after the other, and time that passes.\<close>

datatype token_op = MakeToken bytes string int "string list" | UseToken string | EndToken string | Pass int

fun token_do :: "'w redis \<Rightarrow> (int \<Rightarrow> 'w \<Rightarrow> 'w) \<Rightarrow> token_op \<Rightarrow> 'w \<Rightarrow> 'w" where
  "token_do R sleep (MakeToken key now uid scopes) w = snd (CreateToken (NewRedis R) key now uid scopes w)"
| "token_do R sleep (UseToken header) w = snd (GetFromRequest (NewRedis R) header w)"
| "token_do R sleep (EndToken t) w = snd (RevokeToken (NewRedis R) t w)"
| "token_do R sleep (Pass dt) w = sleep dt w"

definition token_run :: "'w redis \<Rightarrow> (int \<Rightarrow> 'w \<Rightarrow> 'w) \<Rightarrow> token_op list \<Rightarrow> 'w \<Rightarrow> 'w" where
  "token_run R sleep ops w = fold (token_do R sleep) ops w"

fun op_time :: "token_op \<Rightarrow> int" where
  "op_time (Pass dt) = dt"
| "op_time _ = 0"

definition time_of :: "token_op list \<Rightarrow> int" where
  "time_of ops = sum_list (map op_time ops)"

text \<open>What is not about the token \<open>t\<close>: no other token gets its name, and it is not revoked.\<close>

fun leaves_token :: "string \<Rightarrow> token_op \<Rightarrow> bool" where
  "leaves_token t (MakeToken key now uid scopes) = (base32 key \<noteq> t)"
| "leaves_token t (UseToken header) = True"
| "leaves_token t (EndToken t') = (t' \<noteq> t)"
| "leaves_token t (Pass dt) = (0 \<le> dt)"

lemma token_key_inj: "token_key t = token_key t' \<longleftrightarrow> t = t'"
  by (simp add: token_key_def)

lemma GetFromRequest_keeps:
  assumes "redis_timed R view left sleep"
  shows "view (snd (GetFromRequest (NewRedis R) h w)) = view w \<and> left (snd (GetFromRequest (NewRedis R) h w)) = left w"
proof -
  have "left (snd (auth_Get (NewRedis R) t w)) = left w" for t
  proof -
    obtain r w' where g: "rds_Get R (token_key t) w = (r, w')" by (cases "rds_Get R (token_key t) w")
    then have "snd (auth_Get (NewRedis R) t w) = w'"
      by (cases r) (simp_all add: auth_Get_def kvs_Get_def io_bind_def io_run kvs_simps split: res.split)
    then show ?thesis using timed_left(2) [OF assms, of "token_key t" w] g by simp
  qed
  moreover have "view (snd (auth_Get (NewRedis R) t w)) = view w" for t
    by (rule auth_Get_honest [OF timed_honest [OF assms], of t w]) simp
  ultimately show ?thesis by (simp add: GetFromRequest_def io_run)
qed

lemma CreateToken_state:
  assumes "redis_timed R view left sleep"
  shows "\<exists>w1. CreateToken (NewRedis R) key now uid scopes w =
      (Ok \<lparr>tk_Token = base32 key, tk_UserID = uid, tk_Scopes = scopes, tk_CreatedAt = now, tk_scopeMap = {}\<rparr>, w1)
    \<and> rv_keys (view w1) = (rv_keys (view w))(token_key (base32 key) \<mapsto> enc_Token
        \<lparr>tk_Token = base32 key, tk_UserID = uid, tk_Scopes = scopes, tk_CreatedAt = now, tk_scopeMap = {}\<rparr>)
    \<and> left w1 = (left w)(token_key (base32 key) \<mapsto> token_ttl)"
proof -
  let ?t = "\<lparr>tk_Token = base32 key, tk_UserID = uid, tk_Scopes = scopes, tk_CreatedAt = now, tk_scopeMap = {}\<rparr>"
  let ?k = "token_key (base32 key)"
  obtain w1 where s: "rds_Set R ?k (enc_Token ?t) token_ttl w = (Ok (), w1)"
    "view w1 = (view w)\<lparr>rv_keys := (rv_keys (view w))(?k \<mapsto> enc_Token ?t)\<rparr>"
    by (rule honest_Set [OF timed_honest [OF assms]])
  have "left w1 = (left w)(?k \<mapsto> token_ttl)"
    using timed_left(1) [OF assms, of ?k "enc_Token ?t" token_ttl w] s(1) by (simp add: token_ttl_def)
  then show ?thesis using s
    by (intro exI [of _ w1]) (simp add: CreateToken_def Let_def kvs_Set_def kvs_simps io_bind_def io_run)
qed

lemma RevokeToken_state:
  assumes "redis_timed R view left sleep"
  shows "\<exists>w1. RevokeToken (NewRedis R) t w = (Ok (), w1)
    \<and> rv_keys (view w1) = (rv_keys (view w))(token_key t := None) \<and> left w1 = (left w)(token_key t := None)"
proof -
  obtain w1 where d: "rds_Del R [token_key t] w = (Ok (), w1)"
    "view w1 = (view w)\<lparr>rv_keys := (\<lambda>k. if k \<in> set [token_key t] then None else rv_keys (view w) k)\<rparr>"
    by (rule honest_Del [OF timed_honest [OF assms]])
  have "left w1 = (\<lambda>k. if k \<in> set [token_key t] then None else left w k)"
    using timed_left(3) [OF assms, of "[token_key t]" w] d(1) by simp
  then show ?thesis using d
    by (intro exI [of _ w1]) (auto simp: RevokeToken_def kvs_Del_def kvs_simps fun_eq_iff)
qed

lemma token_do_keeps:
  assumes "redis_timed R view left sleep" and "leaves_token t op" and "op_time op = 0"
    and "rv_keys (view w) (token_key t) \<noteq> None \<longrightarrow> pred_option (\<lambda>l. 0 < l) (left w (token_key t))"
  shows "rv_keys (view (token_do R sleep op w)) (token_key t) = rv_keys (view w) (token_key t)
    \<and> (rv_keys (view w) (token_key t) \<noteq> None \<longrightarrow> left (token_do R sleep op w) (token_key t) = left w (token_key t))"
proof (cases op)
  case (MakeToken key now uid scopes)
  then show ?thesis using CreateToken_state [OF assms(1), of key now uid scopes w] assms(2)
    by (auto simp: token_key_inj)
next
  case (UseToken h)
  then show ?thesis using GetFromRequest_keeps [OF assms(1), of h w] by simp
next
  case (EndToken t')
  then show ?thesis using RevokeToken_state [OF assms(1), of t' w] assms(2)
    by (auto simp: token_key_inj)
next
  case (Pass dt)
  then show ?thesis using timed_sleep [OF assms(1), of 0 w "token_key t"] assms(3,4)
    by (auto split: option.split)
qed

lemma op_time_nonneg: "leaves_token t op \<Longrightarrow> 0 \<le> op_time op"
  by (cases op) simp_all

lemma time_of_nonneg: "\<forall>op \<in> set ops. leaves_token t op \<Longrightarrow> 0 \<le> time_of ops"
  by (induction ops) (auto simp: time_of_def dest: op_time_nonneg)

lemma token_gone_stays:
  assumes "redis_timed R view left sleep" and "\<forall>op \<in> set ops. leaves_token t op" and "rv_keys (view w) (token_key t) = None"
  shows "rv_keys (view (token_run R sleep ops w)) (token_key t) = None"
  using assms(2,3)
proof (induction ops arbitrary: w)
  case (Cons op ops)
  have "rv_keys (view (token_do R sleep op w)) (token_key t) = None"
  proof (cases op)
    case (Pass dt)
    then show ?thesis using timed_sleep(1) [OF assms(1), of dt w "token_key t"] Cons.prems by simp
  qed (use token_do_keeps [OF assms(1), of t op w] Cons.prems in auto)
  then show ?case using Cons by (simp add: token_run_def)
qed (simp add: token_run_def)

lemma token_lives:
  assumes "redis_timed R view left sleep" and "\<forall>op \<in> set ops. leaves_token t op"
    and "rv_keys (view w) (token_key t) = Some v" and "left w (token_key t) = Some l" and "0 < l"
  shows "rv_keys (view (token_run R sleep ops w)) (token_key t) = (if time_of ops < l then Some v else None)"
  using assms(2-5)
proof (induction ops arbitrary: w l)
  case (Cons op ops)
  have n: "0 \<le> op_time op" "0 \<le> time_of ops" using Cons.prems(1) op_time_nonneg time_of_nonneg by auto
  have split: "token_run R sleep (op # ops) w = token_run R sleep ops (token_do R sleep op w)"
    "time_of (op # ops) = op_time op + time_of ops" by (simp_all add: token_run_def time_of_def)
  show ?case
  proof (cases "op_time op < l")
    case True
    have "rv_keys (view (token_do R sleep op w)) (token_key t) = Some v
        \<and> left (token_do R sleep op w) (token_key t) = Some (l - op_time op)"
    proof (cases op)
      case (Pass dt)
      then show ?thesis using timed_sleep [OF assms(1), of dt w "token_key t"] Cons.prems True by simp
    qed (use token_do_keeps [OF assms(1), of t op w] Cons.prems in auto)
    then show ?thesis using Cons.IH [of "token_do R sleep op w" "l - op_time op"] Cons.prems(1) True unfolding split by auto
  next
    case False
    then obtain dt where op: "op = Pass dt" using Cons.prems(4) by (cases op) auto
    have "rv_keys (view (token_do R sleep op w)) (token_key t) = None"
      using timed_sleep(1) [OF assms(1), of dt w "token_key t"] Cons.prems False op by simp
    then show ?thesis using token_gone_stays [OF assms(1), of ops t] Cons.prems(1) False n unfolding split by auto
  qed
qed (simp add: token_run_def time_of_def)

text \<open>
  Property C13: the life of an access token.  Whatever is done in between with tokens - this one used, others made,
  used and revoked - a token that \<open>CreateToken\<close> made authorises the requests that carry it as bearer for
  30 days: the same user and scopes come back, and it has the admin scope exactly when it was created
  with it.  From then on, or from when it is revoked, they are refused with \<open>redis.Nil\<close>.
\<close>

theorem token_lifecycle:
  assumes "redis_timed R view left sleep" and "0 \<le> uid" and "uid < 2 ^ 64"
    and "\<forall>op \<in> set before \<union> set later. leaves_token (base32 key) op"
  shows "\<exists>t w1. CreateToken (NewRedis R) key now uid scopes w = (Ok t, w1) \<and> tk_Token t = base32 key
    \<and> (let request = ''Bearer '' @ tk_Token t; w2 = token_run R sleep before w1 in
        (if time_of before < 30 * 24 * 3600 * 1000000000
         then \<exists>t' w3. GetFromRequest (NewRedis R) request w2 = (Ok t', w3) \<and> tk_UserID t' = uid \<and> tk_Scopes t' = scopes
            \<and> HasScope t' NoScope \<and> (HasScope t' ScopeAdmin \<longleftrightarrow> ScopeAdmin \<in> set scopes)
         else fst (GetFromRequest (NewRedis R) request w2) = Err RedisNil)
      \<and> (\<exists>w3. RevokeToken (NewRedis R) (tk_Token t) w2 = (Ok (), w3)
          \<and> fst (GetFromRequest (NewRedis R) request (token_run R sleep later w3)) = Err RedisNil))"
proof -
  let ?t = "\<lparr>tk_Token = base32 key, tk_UserID = uid, tk_Scopes = scopes, tk_CreatedAt = now, tk_scopeMap = {}\<rparr>"
  let ?k = "token_key (base32 key)"
  note honest = timed_honest [OF assms(1)]
  have get: "fst (GetFromRequest (NewRedis R) (''Bearer '' @ base32 key) w) =
      map_res (\<lambda>t. t\<lparr>tk_scopeMap := set (filter (\<lambda>s. s \<noteq> NoScope) (tk_Scopes t))\<rparr>)
        (res_bind (found (rv_keys (view w) ?k)) (dec_Token zero_token))" for w
    unfolding GetFromRequest_bearer by (rule auth_Get_honest [OF honest, of "base32 key" w]) simp
  obtain w1 where c: "CreateToken (NewRedis R) key now uid scopes w = (Ok ?t, w1)"
    "rv_keys (view w1) ?k = Some (enc_Token ?t)" "left w1 ?k = Some token_ttl"
    using CreateToken_state [OF assms(1), of key now uid scopes w] by auto
  let ?w2 = "token_run R sleep before w1"
  have k2: "rv_keys (view ?w2) ?k = (if time_of before < token_ttl then Some (enc_Token ?t) else None)"
    using token_lives [OF assms(1), of before "base32 key" w1 "enc_Token ?t" token_ttl] assms(4) c(2,3)
    by (auto simp: token_ttl_def)
  obtain w3 where r: "RevokeToken (NewRedis R) (base32 key) ?w2 = (Ok (), w3)" "rv_keys (view w3) ?k = None"
    using RevokeToken_state [OF assms(1), of "base32 key" ?w2] by auto
  have "rv_keys (view (token_run R sleep later w3)) ?k = None"
    using token_gone_stays [OF assms(1), of later "base32 key" w3] assms(4) r(2) by auto
  then have gone: "fst (GetFromRequest (NewRedis R) (''Bearer '' @ base32 key) (token_run R sleep later w3)) = Err RedisNil"
    unfolding get by (simp add: found_def)
  have "fst (GetFromRequest (NewRedis R) (''Bearer '' @ base32 key) ?w2) =
      (if time_of before < token_ttl then Ok (?t\<lparr>tk_scopeMap := set (filter (\<lambda>s. s \<noteq> NoScope) scopes)\<rparr>) else Err RedisNil)"
    unfolding get k2 using assms(2,3) by (simp add: found_def dec_enc_Token)
  moreover have "ScopeAdmin \<noteq> NoScope" by (simp add: ScopeAdmin_def NoScope_def)
  ultimately have use: "if time_of before < 30 * 24 * 3600 * 1000000000
      then \<exists>t' w3. GetFromRequest (NewRedis R) (''Bearer '' @ base32 key) ?w2 = (Ok t', w3) \<and> tk_UserID t' = uid
        \<and> tk_Scopes t' = scopes \<and> HasScope t' NoScope \<and> (HasScope t' ScopeAdmin \<longleftrightarrow> ScopeAdmin \<in> set scopes)
      else fst (GetFromRequest (NewRedis R) (''Bearer '' @ base32 key) ?w2) = Err RedisNil"
    by (cases "GetFromRequest (NewRedis R) (''Bearer '' @ base32 key) ?w2") (auto simp: token_ttl_def HasScope_def)
  have tok: "tk_Token ?t = base32 key" by simp
  show ?thesis
    by (rule exI [of _ ?t], rule exI [of _ w1], unfold Let_def tok) (use c(1) r(1) gone use in blast)
qed

lemma token_lifecycle_witness:
  "\<exists>t w1. CreateToken (NewRedis timed_redis) (replicate 32 7) ''2024-01-01T00:00:00Z'' 3 [ScopeAdmin] (empty_view, Map.empty) = (Ok t, w1)
    \<and> (\<exists>t' w3. GetFromRequest (NewRedis timed_redis) (''Bearer '' @ tk_Token t)
          (token_run timed_redis timed_sleep_demo [Pass 1000, UseToken ''Bearer x'', EndToken ''x''] w1) = (Ok t', w3)
        \<and> tk_UserID t' = 3 \<and> HasScope t' ScopeAdmin)"
proof -
  have "base32 (replicate 32 7) \<noteq> ''x''" by code_simp
  then have "\<forall>op \<in> set [Pass 1000, UseToken ''Bearer x'', EndToken ''x''] \<union> set []. leaves_token (base32 (replicate 32 7)) op"
    by simp
  from token_lifecycle [OF timed_redis_timed _ _ this, of 3 "''2024-01-01T00:00:00Z''" "[ScopeAdmin]" "(empty_view, Map.empty)"]
  show ?thesis by (auto simp: Let_def time_of_def)
qed

end
