(* ===== verification/Entities.thy ===== *)
theory Entities
  imports Json
begin

text \<open>
  \<open>src/backend/common/entity\<close>: the codes, and the messages the control plane and the runners
  exchange, with their JSON encodings.  Every struct has its zero value, its encoder, the
  table of its fields, its decoder, the range of values that JSON carries, and the lemma
  that a decoded encoding is the value itself.
\<close>

section \<open>Codes\<close>

datatype error_code =
    ErrBadRequest | ErrInternal | ErrCredential | ErrServerRunning | ErrServerNotRunning | ErrRemote
  | ErrInvalidConfig | ErrPasswordRule | ErrDupUserName | ErrRequiresAuth | ErrBackup | ErrAgain

fun error_num :: "error_code \<Rightarrow> int" where
  "error_num ErrBadRequest = 1" | "error_num ErrInternal = 2" | "error_num ErrCredential = 3"
| "error_num ErrServerRunning = 4" | "error_num ErrServerNotRunning = 5" | "error_num ErrRemote = 6"
| "error_num ErrInvalidConfig = 7" | "error_num ErrPasswordRule = 8" | "error_num ErrDupUserName = 9"
| "error_num ErrRequiresAuth = 10" | "error_num ErrBackup = 11" | "error_num ErrAgain = 12"

datatype info_code =
    InfoSnapshotDone | InfoSnapshotError | InfoNoSnapshot | InfoErrRunnerPrepare | InfoErrRunnerStop

fun info_num :: "info_code \<Rightarrow> int" where
  "info_num InfoSnapshotDone = 1" | "info_num InfoSnapshotError = 2" | "info_num InfoNoSnapshot = 3"
| "info_num InfoErrRunnerPrepare = 100" | "info_num InfoErrRunnerStop = 101"

datatype event_code =
    EventShutdown | EventSysInit | EventGameDownload | EventWorldDownload | EventWorldPrepare
  | EventWorldUpload | EventLoading | EventRunning | EventStopping | EventCrashed | EventClean
  | EventStopped | EventCreateRunner | EventWaitConn | EventConnLost | EventStopRunner | EventManualSetup
  | EventGameErr | EventWorldErr | EventLaunchErr

fun event_num :: "event_code \<Rightarrow> int" where
  "event_num EventShutdown = 1" | "event_num EventSysInit = 2" | "event_num EventGameDownload = 3"
| "event_num EventWorldDownload = 4" | "event_num EventWorldPrepare = 5" | "event_num EventWorldUpload = 6"
| "event_num EventLoading = 7" | "event_num EventRunning = 8" | "event_num EventStopping = 9"
| "event_num EventCrashed = 10" | "event_num EventClean = 11" | "event_num EventStopped = 100"
| "event_num EventCreateRunner = 101" | "event_num EventWaitConn = 102" | "event_num EventConnLost = 103"
| "event_num EventStopRunner = 104" | "event_num EventManualSetup = 105" | "event_num EventGameErr = 50"
| "event_num EventWorldErr = 51" | "event_num EventLaunchErr = 52"

datatype page_code = PageLaunch | PageLoading | PageRunning | PageManualSetup

fun page_num :: "page_code \<Rightarrow> int" where
  "page_num PageLaunch = 1" | "page_num PageLoading = 2" | "page_num PageRunning = 3"
| "page_num PageManualSetup = 4"

text \<open>The types of a runner's events and of the actions it is sent.\<close>

datatype event_type = EventHello | EventStatus | EventInfo | EventStarted

fun event_type_name :: "event_type \<Rightarrow> string" where
  "event_type_name EventHello = ''hello''" | "event_type_name EventStatus = ''status''"
| "event_type_name EventInfo = ''info''" | "event_type_name EventStarted = ''started''"

datatype action_type = ActionStop | ActionSnapshot | ActionUndo | ActionReconfigure | ActionConnReq

fun action_type_name :: "action_type \<Rightarrow> string" where
  "action_type_name ActionStop = ''stop''" | "action_type_name ActionSnapshot = ''snapshot''"
| "action_type_name ActionUndo = ''undo''" | "action_type_name ActionReconfigure = ''reconfigure''"
| "action_type_name ActionConnReq = ''connectionRequest''"

section \<open>Messages\<close>

definition fits_int :: "int \<Rightarrow> bool" where
  "fits_int i = (int64_min \<le> i \<and> i \<le> int64_max)"

text \<open>\<open>StatusExtra\<close>.\<close>

record status_extra =
  se_EventCode :: int
  se_Progress :: int

definition zero_status_extra :: status_extra where
  "zero_status_extra = \<lparr>se_EventCode = 0, se_Progress = 0\<rparr>"

definition enc_status_extra :: "status_extra \<Rightarrow> json" where
  "enc_status_extra x = JObj ([(''eventCode'', JInt (se_EventCode x))] @
     [(''progress'', JInt (se_Progress x))])"

definition fields_status_extra :: "status_extra fields" where
  "fields_status_extra =
     [field ''eventCode'' dec_int se_EventCode (\<lambda>v x. x\<lparr>se_EventCode := v\<rparr>),
      field ''progress'' dec_int se_Progress (\<lambda>v x. x\<lparr>se_Progress := v\<rparr>)]"

definition dec_status_extra :: "status_extra dec" where
  "dec_status_extra = dec_struct fields_status_extra"

definition ok_status_extra :: "status_extra \<Rightarrow> bool" where
  "ok_status_extra x = (fits_int (se_EventCode x) \<and> fits_int (se_Progress x))"

lemma rt_status_extra [json_simps]: "ok_status_extra x \<Longrightarrow> dec_status_extra zero_status_extra (enc_status_extra x) = Ok x"
  by (cases x) (simp add: dec_status_extra_def dec_struct_def enc_status_extra_def fields_status_extra_def ok_status_extra_def zero_status_extra_def
      field_def fits_int_def json_simps)

lemma enc_status_extra_not_null [simp]: "enc_status_extra x \<noteq> JNull"
  by (simp add: enc_status_extra_def)

text \<open>\<open>InfoExtra\<close>.\<close>

record info_extra =
  ie_InfoCode :: int
  ie_Actor :: int
  ie_IsError :: bool

definition zero_info_extra :: info_extra where
  "zero_info_extra = \<lparr>ie_InfoCode = 0, ie_Actor = 0, ie_IsError = False\<rparr>"

definition enc_info_extra :: "info_extra \<Rightarrow> json" where
  "enc_info_extra x = JObj ([(''infoCode'', JInt (ie_InfoCode x))] @
     [(''actor'', JInt (ie_Actor x))] @
     [(''isError'', JBool (ie_IsError x))])"

definition fields_info_extra :: "info_extra fields" where
  "fields_info_extra =
     [field ''infoCode'' dec_int ie_InfoCode (\<lambda>v x. x\<lparr>ie_InfoCode := v\<rparr>),
      field ''actor'' dec_int ie_Actor (\<lambda>v x. x\<lparr>ie_Actor := v\<rparr>),
      field ''isError'' dec_bool ie_IsError (\<lambda>v x. x\<lparr>ie_IsError := v\<rparr>)]"

definition dec_info_extra :: "info_extra dec" where
  "dec_info_extra = dec_struct fields_info_extra"

definition ok_info_extra :: "info_extra \<Rightarrow> bool" where
  "ok_info_extra x = (fits_int (ie_InfoCode x) \<and> fits_int (ie_Actor x))"

lemma rt_info_extra [json_simps]: "ok_info_extra x \<Longrightarrow> dec_info_extra zero_info_extra (enc_info_extra x) = Ok x"
  by (cases x) (simp add: dec_info_extra_def dec_struct_def enc_info_extra_def fields_info_extra_def ok_info_extra_def zero_info_extra_def
      field_def fits_int_def json_simps)

lemma enc_info_extra_not_null [simp]: "enc_info_extra x \<noteq> JNull"
  by (simp add: enc_info_extra_def)

text \<open>The addresses of \<open>HelloExtra\<close>.\<close>

record addr_extra =
  ad_IPv4 :: "string list"
  ad_IPv6 :: "string list"

definition zero_addr_extra :: addr_extra where
  "zero_addr_extra = \<lparr>ad_IPv4 = [], ad_IPv6 = []\<rparr>"

definition enc_addr_extra :: "addr_extra \<Rightarrow> json" where
  "enc_addr_extra x = JObj ([(''ipv4'', JArr (map JStr (ad_IPv4 x)))] @
     omit_empty ''ipv6'' JStr (ad_IPv6 x))"

definition fields_addr_extra :: "addr_extra fields" where
  "fields_addr_extra =
     [field ''ipv4'' (dec_list [] dec_str) ad_IPv4 (\<lambda>v x. x\<lparr>ad_IPv4 := v\<rparr>),
      field ''ipv6'' (dec_list [] dec_str) ad_IPv6 (\<lambda>v x. x\<lparr>ad_IPv6 := v\<rparr>)]"

definition dec_addr_extra :: "addr_extra dec" where
  "dec_addr_extra = dec_struct fields_addr_extra"

definition ok_addr_extra :: "addr_extra \<Rightarrow> bool" where
  "ok_addr_extra x = (True)"

lemma rt_addr_extra [json_simps]: "ok_addr_extra x \<Longrightarrow> dec_addr_extra zero_addr_extra (enc_addr_extra x) = Ok x"
  by (cases x) (auto
      simp: dec_addr_extra_def dec_struct_def enc_addr_extra_def fields_addr_extra_def ok_addr_extra_def zero_addr_extra_def
      field_def fits_int_def json_simps dec_ptr_eq omit_nil_def omit_empty_def split: option.splits)

lemma enc_addr_extra_not_null [simp]: "enc_addr_extra x \<noteq> JNull"
  by (simp add: enc_addr_extra_def)

text \<open>\<open>HelloExtra\<close>.\<close>

record hello_extra =
  he_Version :: string
  he_Host :: string
  he_Addr :: addr_extra

definition zero_hello_extra :: hello_extra where
  "zero_hello_extra = \<lparr>he_Version = [], he_Host = [], he_Addr = zero_addr_extra\<rparr>"

definition enc_hello_extra :: "hello_extra \<Rightarrow> json" where
  "enc_hello_extra x = JObj ([(''version'', JStr (he_Version x))] @
     [(''host'', JStr (he_Host x))] @
     [(''addr'', enc_addr_extra (he_Addr x))])"

definition fields_hello_extra :: "hello_extra fields" where
  "fields_hello_extra =
     [field ''version'' dec_str he_Version (\<lambda>v x. x\<lparr>he_Version := v\<rparr>),
      field ''host'' dec_str he_Host (\<lambda>v x. x\<lparr>he_Host := v\<rparr>),
      field ''addr'' dec_addr_extra he_Addr (\<lambda>v x. x\<lparr>he_Addr := v\<rparr>)]"

definition dec_hello_extra :: "hello_extra dec" where
  "dec_hello_extra = dec_struct fields_hello_extra"

definition ok_hello_extra :: "hello_extra \<Rightarrow> bool" where
  "ok_hello_extra x = (ok_addr_extra (he_Addr x))"

lemma rt_hello_extra [json_simps]: "ok_hello_extra x \<Longrightarrow> dec_hello_extra zero_hello_extra (enc_hello_extra x) = Ok x"
  by (cases x) (simp add: dec_hello_extra_def dec_struct_def enc_hello_extra_def fields_hello_extra_def ok_hello_extra_def zero_hello_extra_def
      field_def fits_int_def json_simps)

lemma enc_hello_extra_not_null [simp]: "enc_hello_extra x \<noteq> JNull"
  by (simp add: enc_hello_extra_def)

text \<open>The world of \<open>StartedExtra\<close>.\<close>

record started_world =
  sw_Name :: string
  sw_Seed :: string

definition zero_started_world :: started_world where
  "zero_started_world = \<lparr>sw_Name = [], sw_Seed = []\<rparr>"

definition enc_started_world :: "started_world \<Rightarrow> json" where
  "enc_started_world x = JObj ([(''name'', JStr (sw_Name x))] @
     [(''seed'', JStr (sw_Seed x))])"

definition fields_started_world :: "started_world fields" where
  "fields_started_world =
     [field ''name'' dec_str sw_Name (\<lambda>v x. x\<lparr>sw_Name := v\<rparr>),
      field ''seed'' dec_str sw_Seed (\<lambda>v x. x\<lparr>sw_Seed := v\<rparr>)]"

definition dec_started_world :: "started_world dec" where
  "dec_started_world = dec_struct fields_started_world"

definition ok_started_world :: "started_world \<Rightarrow> bool" where
  "ok_started_world x = (True)"

lemma rt_started_world [json_simps]: "ok_started_world x \<Longrightarrow> dec_started_world zero_started_world (enc_started_world x) = Ok x"
  by (cases x) (simp add: dec_started_world_def dec_struct_def enc_started_world_def fields_started_world_def ok_started_world_def zero_started_world_def
      field_def fits_int_def json_simps)

lemma enc_started_world_not_null [simp]: "enc_started_world x \<noteq> JNull"
  by (simp add: enc_started_world_def)

text \<open>\<open>StartedExtra\<close>.\<close>

record started_extra =
  sx_ServerVersion :: string
  sx_World :: started_world

definition zero_started_extra :: started_extra where
  "zero_started_extra = \<lparr>sx_ServerVersion = [], sx_World = zero_started_world\<rparr>"

definition enc_started_extra :: "started_extra \<Rightarrow> json" where
  "enc_started_extra x = JObj ([(''serverVersion'', JStr (sx_ServerVersion x))] @
     [(''world'', enc_started_world (sx_World x))])"

definition fields_started_extra :: "started_extra fields" where
  "fields_started_extra =
     [field ''serverVersion'' dec_str sx_ServerVersion (\<lambda>v x. x\<lparr>sx_ServerVersion := v\<rparr>),
      field ''world'' dec_started_world sx_World (\<lambda>v x. x\<lparr>sx_World := v\<rparr>)]"

definition dec_started_extra :: "started_extra dec" where
  "dec_started_extra = dec_struct fields_started_extra"

definition ok_started_extra :: "started_extra \<Rightarrow> bool" where
  "ok_started_extra x = (ok_started_world (sx_World x))"

lemma rt_started_extra [json_simps]: "ok_started_extra x \<Longrightarrow> dec_started_extra zero_started_extra (enc_started_extra x) = Ok x"
  by (cases x) (simp add: dec_started_extra_def dec_struct_def enc_started_extra_def fields_started_extra_def ok_started_extra_def zero_started_extra_def
      field_def fits_int_def json_simps)

lemma enc_started_extra_not_null [simp]: "enc_started_extra x \<noteq> JNull"
  by (simp add: enc_started_extra_def)

text \<open>\<open>RequestMeta\<close>.\<close>

record request_meta =
  rm_Traceparent :: string

definition zero_request_meta :: request_meta where
  "zero_request_meta = \<lparr>rm_Traceparent = []\<rparr>"

definition enc_request_meta :: "request_meta \<Rightarrow> json" where
  "enc_request_meta x = JObj ([(''traceparent'', JStr (rm_Traceparent x))])"

definition fields_request_meta :: "request_meta fields" where
  "fields_request_meta =
     [field ''traceparent'' dec_str rm_Traceparent (\<lambda>v x. x\<lparr>rm_Traceparent := v\<rparr>)]"

definition dec_request_meta :: "request_meta dec" where
  "dec_request_meta = dec_struct fields_request_meta"

definition ok_request_meta :: "request_meta \<Rightarrow> bool" where
  "ok_request_meta x = (True)"

lemma rt_request_meta [json_simps]: "ok_request_meta x \<Longrightarrow> dec_request_meta zero_request_meta (enc_request_meta x) = Ok x"
  by (cases x) (simp add: dec_request_meta_def dec_struct_def enc_request_meta_def fields_request_meta_def ok_request_meta_def zero_request_meta_def
      field_def fits_int_def json_simps)

lemma enc_request_meta_not_null [simp]: "enc_request_meta x \<noteq> JNull"
  by (simp add: enc_request_meta_def)

text \<open>\<open>Event\<close>: what a runner reports.\<close>

record event =
  ev_Type :: string
  ev_Metadata :: request_meta
  ev_Hello :: "hello_extra option"
  ev_Status :: "status_extra option"
  ev_Info :: "info_extra option"
  ev_Started :: "started_extra option"

definition zero_event :: event where
  "zero_event = \<lparr>ev_Type = [], ev_Metadata = zero_request_meta, ev_Hello = None, ev_Status = None, ev_Info = None, ev_Started = None\<rparr>"

definition enc_event :: "event \<Rightarrow> json" where
  "enc_event x = JObj ([(''type'', JStr (ev_Type x))] @
     [(''metadata'', enc_request_meta (ev_Metadata x))] @
     omit_nil ''hello'' enc_hello_extra (ev_Hello x) @
     omit_nil ''status'' enc_status_extra (ev_Status x) @
     omit_nil ''info'' enc_info_extra (ev_Info x) @
     omit_nil ''started'' enc_started_extra (ev_Started x))"

definition fields_event :: "event fields" where
  "fields_event =
     [field ''type'' dec_str ev_Type (\<lambda>v x. x\<lparr>ev_Type := v\<rparr>),
      field ''metadata'' dec_request_meta ev_Metadata (\<lambda>v x. x\<lparr>ev_Metadata := v\<rparr>),
      field ''hello'' (dec_ptr zero_hello_extra dec_hello_extra) ev_Hello (\<lambda>v x. x\<lparr>ev_Hello := v\<rparr>),
      field ''status'' (dec_ptr zero_status_extra dec_status_extra) ev_Status (\<lambda>v x. x\<lparr>ev_Status := v\<rparr>),
      field ''info'' (dec_ptr zero_info_extra dec_info_extra) ev_Info (\<lambda>v x. x\<lparr>ev_Info := v\<rparr>),
      field ''started'' (dec_ptr zero_started_extra dec_started_extra) ev_Started (\<lambda>v x. x\<lparr>ev_Started := v\<rparr>)]"

definition dec_event :: "event dec" where
  "dec_event = dec_struct fields_event"

definition ok_event :: "event \<Rightarrow> bool" where
  "ok_event x = (ok_request_meta (ev_Metadata x) \<and> pred_option ok_hello_extra (ev_Hello x) \<and> pred_option ok_status_extra (ev_Status x) \<and> pred_option ok_info_extra (ev_Info x) \<and> pred_option ok_started_extra (ev_Started x))"

lemma rt_event [json_simps]: "ok_event x \<Longrightarrow> dec_event zero_event (enc_event x) = Ok x"
  by (cases x) (auto
      simp: dec_event_def dec_struct_def enc_event_def fields_event_def ok_event_def zero_event_def
      field_def fits_int_def json_simps dec_ptr_eq omit_nil_def omit_empty_def split: option.splits)

lemma enc_event_not_null [simp]: "enc_event x \<noteq> JNull"
  by (simp add: enc_event_def)

text \<open>The server part of \<open>GameConfig\<close>.\<close>

record server_config =
  sc_PreferDetected :: bool
  sc_Version :: string
  sc_DownloadUrl :: string
  sc_ManifestOverride :: string
  sc_CustomCommand :: "string list"
  sc_ServerPropOverride :: "(string \<times> string) list"
  sc_JavaVersion :: int
  sc_InactiveTimeout :: int

definition zero_server_config :: server_config where
  "zero_server_config = \<lparr>sc_PreferDetected = False, sc_Version = [], sc_DownloadUrl = [], sc_ManifestOverride = [], sc_CustomCommand = [], sc_ServerPropOverride = [], sc_JavaVersion = 0, sc_InactiveTimeout = 0\<rparr>"

definition enc_server_config :: "server_config \<Rightarrow> json" where
  "enc_server_config x = JObj ([(''preferDetected'', JBool (sc_PreferDetected x))] @
     [(''name'', JStr (sc_Version x))] @
     [(''downloadUrl'', JStr (sc_DownloadUrl x))] @
     [(''manifestOverride'', JStr (sc_ManifestOverride x))] @
     [(''customCommand'', JArr (map JStr (sc_CustomCommand x)))] @
     [(''serverPropOverride'', enc_map (sc_ServerPropOverride x))] @
     [(''javaVersion'', JInt (sc_JavaVersion x))] @
     [(''inactiveTimeout'', JInt (sc_InactiveTimeout x))])"

definition fields_server_config :: "server_config fields" where
  "fields_server_config =
     [field ''preferDetected'' dec_bool sc_PreferDetected (\<lambda>v x. x\<lparr>sc_PreferDetected := v\<rparr>),
      field ''name'' dec_str sc_Version (\<lambda>v x. x\<lparr>sc_Version := v\<rparr>),
      field ''downloadUrl'' dec_str sc_DownloadUrl (\<lambda>v x. x\<lparr>sc_DownloadUrl := v\<rparr>),
      field ''manifestOverride'' dec_str sc_ManifestOverride (\<lambda>v x. x\<lparr>sc_ManifestOverride := v\<rparr>),
      field ''customCommand'' (dec_list [] dec_str) sc_CustomCommand (\<lambda>v x. x\<lparr>sc_CustomCommand := v\<rparr>),
      field ''serverPropOverride'' dec_map sc_ServerPropOverride (\<lambda>v x. x\<lparr>sc_ServerPropOverride := v\<rparr>),
      field ''javaVersion'' dec_int sc_JavaVersion (\<lambda>v x. x\<lparr>sc_JavaVersion := v\<rparr>),
      field ''inactiveTimeout'' dec_int sc_InactiveTimeout (\<lambda>v x. x\<lparr>sc_InactiveTimeout := v\<rparr>)]"

definition dec_server_config :: "server_config dec" where
  "dec_server_config = dec_struct fields_server_config"

definition ok_server_config :: "server_config \<Rightarrow> bool" where
  "ok_server_config x = (distinct (map fst (sc_ServerPropOverride x)) \<and> fits_int (sc_JavaVersion x) \<and> fits_int (sc_InactiveTimeout x))"

lemma rt_server_config [json_simps]: "ok_server_config x \<Longrightarrow> dec_server_config zero_server_config (enc_server_config x) = Ok x"
  by (cases x) (simp add: dec_server_config_def dec_struct_def enc_server_config_def fields_server_config_def ok_server_config_def zero_server_config_def
      field_def fits_int_def json_simps)

lemma enc_server_config_not_null [simp]: "enc_server_config x \<noteq> JNull"
  by (simp add: enc_server_config_def)

text \<open>The world part of \<open>GameConfig\<close>.\<close>

record world_config =
  wc_ShouldGenerate :: bool
  wc_Name :: string
  wc_GenerationId :: string
  wc_Seed :: string
  wc_LevelType :: string
  wc_Difficulty :: string

definition zero_world_config :: world_config where
  "zero_world_config = \<lparr>wc_ShouldGenerate = False, wc_Name = [], wc_GenerationId = [], wc_Seed = [], wc_LevelType = [], wc_Difficulty = []\<rparr>"

definition enc_world_config :: "world_config \<Rightarrow> json" where
  "enc_world_config x = JObj ([(''shouldGenerate'', JBool (wc_ShouldGenerate x))] @
     [(''name'', JStr (wc_Name x))] @
     [(''generationId'', JStr (wc_GenerationId x))] @
     [(''seed'', JStr (wc_Seed x))] @
     [(''levelType'', JStr (wc_LevelType x))] @
     [(''difficulty'', JStr (wc_Difficulty x))])"

definition fields_world_config :: "world_config fields" where
  "fields_world_config =
     [field ''shouldGenerate'' dec_bool wc_ShouldGenerate (\<lambda>v x. x\<lparr>wc_ShouldGenerate := v\<rparr>),
      field ''name'' dec_str wc_Name (\<lambda>v x. x\<lparr>wc_Name := v\<rparr>),
      field ''generationId'' dec_str wc_GenerationId (\<lambda>v x. x\<lparr>wc_GenerationId := v\<rparr>),
      field ''seed'' dec_str wc_Seed (\<lambda>v x. x\<lparr>wc_Seed := v\<rparr>),
      field ''levelType'' dec_str wc_LevelType (\<lambda>v x. x\<lparr>wc_LevelType := v\<rparr>),
      field ''difficulty'' dec_str wc_Difficulty (\<lambda>v x. x\<lparr>wc_Difficulty := v\<rparr>)]"

definition dec_world_config :: "world_config dec" where
  "dec_world_config = dec_struct fields_world_config"

definition ok_world_config :: "world_config \<Rightarrow> bool" where
  "ok_world_config x = (True)"

lemma rt_world_config [json_simps]: "ok_world_config x \<Longrightarrow> dec_world_config zero_world_config (enc_world_config x) = Ok x"
  by (cases x) (simp add: dec_world_config_def dec_struct_def enc_world_config_def fields_world_config_def ok_world_config_def zero_world_config_def
      field_def fits_int_def json_simps)

lemma enc_world_config_not_null [simp]: "enc_world_config x \<noteq> JNull"
  by (simp add: enc_world_config_def)

text \<open>\<open>GameConfig\<close>: what a runner launches.\<close>

record game_config =
  gc_Server :: server_config
  gc_World :: world_config
  gc_Motd :: string
  gc_Operators :: "string list"
  gc_Whitelist :: "string list"

definition zero_game_config :: game_config where
  "zero_game_config = \<lparr>gc_Server = zero_server_config, gc_World = zero_world_config, gc_Motd = [], gc_Operators = [], gc_Whitelist = []\<rparr>"

definition enc_game_config :: "game_config \<Rightarrow> json" where
  "enc_game_config x = JObj ([(''server'', enc_server_config (gc_Server x))] @
     [(''world'', enc_world_config (gc_World x))] @
     [(''motd'', JStr (gc_Motd x))] @
     [(''operators'', JArr (map JStr (gc_Operators x)))] @
     [(''whitelist'', JArr (map JStr (gc_Whitelist x)))])"

definition fields_game_config :: "game_config fields" where
  "fields_game_config =
     [field ''server'' dec_server_config gc_Server (\<lambda>v x. x\<lparr>gc_Server := v\<rparr>),
      field ''world'' dec_world_config gc_World (\<lambda>v x. x\<lparr>gc_World := v\<rparr>),
      field ''motd'' dec_str gc_Motd (\<lambda>v x. x\<lparr>gc_Motd := v\<rparr>),
      field ''operators'' (dec_list [] dec_str) gc_Operators (\<lambda>v x. x\<lparr>gc_Operators := v\<rparr>),
      field ''whitelist'' (dec_list [] dec_str) gc_Whitelist (\<lambda>v x. x\<lparr>gc_Whitelist := v\<rparr>)]"

definition dec_game_config :: "game_config dec" where
  "dec_game_config = dec_struct fields_game_config"

definition ok_game_config :: "game_config \<Rightarrow> bool" where
  "ok_game_config x = (ok_server_config (gc_Server x) \<and> ok_world_config (gc_World x))"

lemma rt_game_config [json_simps]: "ok_game_config x \<Longrightarrow> dec_game_config zero_game_config (enc_game_config x) = Ok x"
  by (cases x) (simp add: dec_game_config_def dec_struct_def enc_game_config_def fields_game_config_def ok_game_config_def zero_game_config_def
      field_def fits_int_def json_simps)

lemma enc_game_config_not_null [simp]: "enc_game_config x \<noteq> JNull"
  by (simp add: enc_game_config_def)

text \<open>\<open>ObservabilityConfig\<close>.\<close>

record observability_config =
  oc_OtlpEndpoint :: string
  oc_MetricExportIntervalMs :: int

definition zero_observability_config :: observability_config where
  "zero_observability_config = \<lparr>oc_OtlpEndpoint = [], oc_MetricExportIntervalMs = 0\<rparr>"

definition enc_observability_config :: "observability_config \<Rightarrow> json" where
  "enc_observability_config x = JObj ([(''otlpEndpoint'', JStr (oc_OtlpEndpoint x))] @
     [(''metricExportIntervalMs'', JInt (oc_MetricExportIntervalMs x))])"

definition fields_observability_config :: "observability_config fields" where
  "fields_observability_config =
     [field ''otlpEndpoint'' dec_str oc_OtlpEndpoint (\<lambda>v x. x\<lparr>oc_OtlpEndpoint := v\<rparr>),
      field ''metricExportIntervalMs'' dec_int oc_MetricExportIntervalMs (\<lambda>v x. x\<lparr>oc_MetricExportIntervalMs := v\<rparr>)]"

definition dec_observability_config :: "observability_config dec" where
  "dec_observability_config = dec_struct fields_observability_config"

definition ok_observability_config :: "observability_config \<Rightarrow> bool" where
  "ok_observability_config x = (fits_int (oc_MetricExportIntervalMs x))"

lemma rt_observability_config [json_simps]: "ok_observability_config x \<Longrightarrow> dec_observability_config zero_observability_config (enc_observability_config x) = Ok x"
  by (cases x) (simp add: dec_observability_config_def dec_struct_def enc_observability_config_def fields_observability_config_def ok_observability_config_def zero_observability_config_def
      field_def fits_int_def json_simps)

lemma enc_observability_config_not_null [simp]: "enc_observability_config x \<noteq> JNull"
  by (simp add: enc_observability_config_def)

text \<open>\<open>Config\<close>: the configuration a runner is started with.\<close>

record runner_config =
  rc_AuthKey :: string
  rc_ControlPlane :: string
  rc_Observability :: observability_config
  rc_GameConfig :: game_config

definition zero_runner_config :: runner_config where
  "zero_runner_config = \<lparr>rc_AuthKey = [], rc_ControlPlane = [], rc_Observability = zero_observability_config, rc_GameConfig = zero_game_config\<rparr>"

definition enc_runner_config :: "runner_config \<Rightarrow> json" where
  "enc_runner_config x = JObj ([(''authKey'', JStr (rc_AuthKey x))] @
     [(''controlPlane'', JStr (rc_ControlPlane x))] @
     [(''observability'', enc_observability_config (rc_Observability x))] @
     [(''gameConfig'', enc_game_config (rc_GameConfig x))])"

definition fields_runner_config :: "runner_config fields" where
  "fields_runner_config =
     [field ''authKey'' dec_str rc_AuthKey (\<lambda>v x. x\<lparr>rc_AuthKey := v\<rparr>),
      field ''controlPlane'' dec_str rc_ControlPlane (\<lambda>v x. x\<lparr>rc_ControlPlane := v\<rparr>),
      field ''observability'' dec_observability_config rc_Observability (\<lambda>v x. x\<lparr>rc_Observability := v\<rparr>),
      field ''gameConfig'' dec_game_config rc_GameConfig (\<lambda>v x. x\<lparr>rc_GameConfig := v\<rparr>)]"

definition dec_runner_config :: "runner_config dec" where
  "dec_runner_config = dec_struct fields_runner_config"

definition ok_runner_config :: "runner_config \<Rightarrow> bool" where
  "ok_runner_config x = (ok_observability_config (rc_Observability x) \<and> ok_game_config (rc_GameConfig x))"

lemma rt_runner_config [json_simps]: "ok_runner_config x \<Longrightarrow> dec_runner_config zero_runner_config (enc_runner_config x) = Ok x"
  by (cases x) (simp add: dec_runner_config_def dec_struct_def enc_runner_config_def fields_runner_config_def ok_runner_config_def zero_runner_config_def
      field_def fits_int_def json_simps)

lemma enc_runner_config_not_null [simp]: "enc_runner_config x \<noteq> JNull"
  by (simp add: enc_runner_config_def)

text \<open>\<open>SnapshotConfig\<close>.\<close>

record snapshot_config =
  sn_Slot :: int

definition zero_snapshot_config :: snapshot_config where
  "zero_snapshot_config = \<lparr>sn_Slot = 0\<rparr>"

definition enc_snapshot_config :: "snapshot_config \<Rightarrow> json" where
  "enc_snapshot_config x = JObj ([(''slot'', JInt (sn_Slot x))])"

definition fields_snapshot_config :: "snapshot_config fields" where
  "fields_snapshot_config =
     [field ''slot'' dec_int sn_Slot (\<lambda>v x. x\<lparr>sn_Slot := v\<rparr>)]"

definition dec_snapshot_config :: "snapshot_config dec" where
  "dec_snapshot_config = dec_struct fields_snapshot_config"

definition ok_snapshot_config :: "snapshot_config \<Rightarrow> bool" where
  "ok_snapshot_config x = (fits_int (sn_Slot x))"

lemma rt_snapshot_config [json_simps]: "ok_snapshot_config x \<Longrightarrow> dec_snapshot_config zero_snapshot_config (enc_snapshot_config x) = Ok x"
  by (cases x) (simp add: dec_snapshot_config_def dec_struct_def enc_snapshot_config_def fields_snapshot_config_def ok_snapshot_config_def zero_snapshot_config_def
      field_def fits_int_def json_simps)

lemma enc_snapshot_config_not_null [simp]: "enc_snapshot_config x \<noteq> JNull"
  by (simp add: enc_snapshot_config_def)

text \<open>\<open>ConnReqInfo\<close>.\<close>

record conn_req_info =
  cr_ConnectionID :: string
  cr_Endpoint :: string
  cr_ServerCert :: string

definition zero_conn_req_info :: conn_req_info where
  "zero_conn_req_info = \<lparr>cr_ConnectionID = [], cr_Endpoint = [], cr_ServerCert = []\<rparr>"

definition enc_conn_req_info :: "conn_req_info \<Rightarrow> json" where
  "enc_conn_req_info x = JObj ([(''connectionId'', JStr (cr_ConnectionID x))] @
     [(''endpoint'', JStr (cr_Endpoint x))] @
     [(''serverCert'', JStr (cr_ServerCert x))])"

definition fields_conn_req_info :: "conn_req_info fields" where
  "fields_conn_req_info =
     [field ''connectionId'' dec_str cr_ConnectionID (\<lambda>v x. x\<lparr>cr_ConnectionID := v\<rparr>),
      field ''endpoint'' dec_str cr_Endpoint (\<lambda>v x. x\<lparr>cr_Endpoint := v\<rparr>),
      field ''serverCert'' dec_str cr_ServerCert (\<lambda>v x. x\<lparr>cr_ServerCert := v\<rparr>)]"

definition dec_conn_req_info :: "conn_req_info dec" where
  "dec_conn_req_info = dec_struct fields_conn_req_info"

definition ok_conn_req_info :: "conn_req_info \<Rightarrow> bool" where
  "ok_conn_req_info x = (True)"

lemma rt_conn_req_info [json_simps]: "ok_conn_req_info x \<Longrightarrow> dec_conn_req_info zero_conn_req_info (enc_conn_req_info x) = Ok x"
  by (cases x) (simp add: dec_conn_req_info_def dec_struct_def enc_conn_req_info_def fields_conn_req_info_def ok_conn_req_info_def zero_conn_req_info_def
      field_def fits_int_def json_simps)

lemma enc_conn_req_info_not_null [simp]: "enc_conn_req_info x \<noteq> JNull"
  by (simp add: enc_conn_req_info_def)

text \<open>\<open>Action\<close>: what the control plane asks of a runner.\<close>

record action =
  ac_Type :: string
  ac_Actor :: int
  ac_Metadata :: request_meta
  ac_Config :: "game_config option"
  ac_Snapshot :: "snapshot_config option"
  ac_ConnReq :: "conn_req_info option"

definition zero_action :: action where
  "zero_action = \<lparr>ac_Type = [], ac_Actor = 0, ac_Metadata = zero_request_meta, ac_Config = None, ac_Snapshot = None, ac_ConnReq = None\<rparr>"

definition enc_action :: "action \<Rightarrow> json" where
  "enc_action x = JObj ([(''type'', JStr (ac_Type x))] @
     [(''actor'', JInt (ac_Actor x))] @
     [(''metadata'', enc_request_meta (ac_Metadata x))] @
     omit_nil ''config'' enc_game_config (ac_Config x) @
     omit_nil ''snapshot'' enc_snapshot_config (ac_Snapshot x) @
     omit_nil ''connectionRequestInfo'' enc_conn_req_info (ac_ConnReq x))"

definition fields_action :: "action fields" where
  "fields_action =
     [field ''type'' dec_str ac_Type (\<lambda>v x. x\<lparr>ac_Type := v\<rparr>),
      field ''actor'' dec_int ac_Actor (\<lambda>v x. x\<lparr>ac_Actor := v\<rparr>),
      field ''metadata'' dec_request_meta ac_Metadata (\<lambda>v x. x\<lparr>ac_Metadata := v\<rparr>),
      field ''config'' (dec_ptr zero_game_config dec_game_config) ac_Config (\<lambda>v x. x\<lparr>ac_Config := v\<rparr>),
      field ''snapshot'' (dec_ptr zero_snapshot_config dec_snapshot_config) ac_Snapshot (\<lambda>v x. x\<lparr>ac_Snapshot := v\<rparr>),
      field ''connectionRequestInfo'' (dec_ptr zero_conn_req_info dec_conn_req_info) ac_ConnReq (\<lambda>v x. x\<lparr>ac_ConnReq := v\<rparr>)]"

definition dec_action :: "action dec" where
  "dec_action = dec_struct fields_action"

definition ok_action :: "action \<Rightarrow> bool" where
  "ok_action x = (fits_int (ac_Actor x) \<and> ok_request_meta (ac_Metadata x) \<and> pred_option ok_game_config (ac_Config x) \<and> pred_option ok_snapshot_config (ac_Snapshot x) \<and> pred_option ok_conn_req_info (ac_ConnReq x))"

lemma rt_action [json_simps]: "ok_action x \<Longrightarrow> dec_action zero_action (enc_action x) = Ok x"
  by (cases x) (auto
      simp: dec_action_def dec_struct_def enc_action_def fields_action_def ok_action_def zero_action_def
      field_def fits_int_def json_simps dec_ptr_eq omit_nil_def omit_empty_def split: option.splits)

lemma enc_action_not_null [simp]: "enc_action x \<noteq> JNull"
  by (simp add: enc_action_def)

text \<open>\<open>PendingConfig\<close>: the configuration a user edits.\<close>

record pending_config =
  pc_MachineType :: "string option"
  pc_ServerVersion :: "string option"
  pc_GuessVersion :: "bool option"
  pc_WorldSource :: "string option"
  pc_WorldName :: "string option"
  pc_BackupGen :: "string option"
  pc_LevelType :: "string option"
  pc_Seed :: "string option"
  pc_Motd :: "string option"
  pc_ServerPropOverride :: "(string \<times> string) list option"
  pc_InactiveTimeout :: "int option"
  pc_OtlpEndpoint :: "string option"
  pc_MetricExportIntervalSec :: "int option"

definition zero_pending_config :: pending_config where
  "zero_pending_config = \<lparr>pc_MachineType = None, pc_ServerVersion = None, pc_GuessVersion = None, pc_WorldSource = None, pc_WorldName = None, pc_BackupGen = None, pc_LevelType = None, pc_Seed = None, pc_Motd = None, pc_ServerPropOverride = None, pc_InactiveTimeout = None, pc_OtlpEndpoint = None, pc_MetricExportIntervalSec = None\<rparr>"

definition enc_pending_config :: "pending_config \<Rightarrow> json" where
  "enc_pending_config x = JObj (omit_nil ''machineType'' JStr (pc_MachineType x) @
     omit_nil ''serverVersion'' JStr (pc_ServerVersion x) @
     omit_nil ''guessServerVersion'' JBool (pc_GuessVersion x) @
     omit_nil ''worldSource'' JStr (pc_WorldSource x) @
     omit_nil ''worldName'' JStr (pc_WorldName x) @
     omit_nil ''backupGen'' JStr (pc_BackupGen x) @
     omit_nil ''levelType'' JStr (pc_LevelType x) @
     omit_nil ''seed'' JStr (pc_Seed x) @
     omit_nil ''motd'' JStr (pc_Motd x) @
     omit_nil ''serverPropOverride'' enc_map (pc_ServerPropOverride x) @
     omit_nil ''inactiveTimeout'' JInt (pc_InactiveTimeout x) @
     omit_nil ''otlpEndpoint'' JStr (pc_OtlpEndpoint x) @
     omit_nil ''metricExportIntervalSec'' JInt (pc_MetricExportIntervalSec x))"

definition fields_pending_config :: "pending_config fields" where
  "fields_pending_config =
     [field ''machineType'' (dec_ptr [] dec_str) pc_MachineType (\<lambda>v x. x\<lparr>pc_MachineType := v\<rparr>),
      field ''serverVersion'' (dec_ptr [] dec_str) pc_ServerVersion (\<lambda>v x. x\<lparr>pc_ServerVersion := v\<rparr>),
      field ''guessServerVersion'' (dec_ptr False dec_bool) pc_GuessVersion (\<lambda>v x. x\<lparr>pc_GuessVersion := v\<rparr>),
      field ''worldSource'' (dec_ptr [] dec_str) pc_WorldSource (\<lambda>v x. x\<lparr>pc_WorldSource := v\<rparr>),
      field ''worldName'' (dec_ptr [] dec_str) pc_WorldName (\<lambda>v x. x\<lparr>pc_WorldName := v\<rparr>),
      field ''backupGen'' (dec_ptr [] dec_str) pc_BackupGen (\<lambda>v x. x\<lparr>pc_BackupGen := v\<rparr>),
      field ''levelType'' (dec_ptr [] dec_str) pc_LevelType (\<lambda>v x. x\<lparr>pc_LevelType := v\<rparr>),
      field ''seed'' (dec_ptr [] dec_str) pc_Seed (\<lambda>v x. x\<lparr>pc_Seed := v\<rparr>),
      field ''motd'' (dec_ptr [] dec_str) pc_Motd (\<lambda>v x. x\<lparr>pc_Motd := v\<rparr>),
      field ''serverPropOverride'' (dec_ptr [] dec_map) pc_ServerPropOverride (\<lambda>v x. x\<lparr>pc_ServerPropOverride := v\<rparr>),
      field ''inactiveTimeout'' (dec_ptr 0 dec_int) pc_InactiveTimeout (\<lambda>v x. x\<lparr>pc_InactiveTimeout := v\<rparr>),
      field ''otlpEndpoint'' (dec_ptr [] dec_str) pc_OtlpEndpoint (\<lambda>v x. x\<lparr>pc_OtlpEndpoint := v\<rparr>),
      field ''metricExportIntervalSec'' (dec_ptr 0 dec_int) pc_MetricExportIntervalSec (\<lambda>v x. x\<lparr>pc_MetricExportIntervalSec := v\<rparr>)]"

definition dec_pending_config :: "pending_config dec" where
  "dec_pending_config = dec_struct fields_pending_config"

definition ok_pending_config :: "pending_config \<Rightarrow> bool" where
  "ok_pending_config x = (pred_option (\<lambda>m. distinct (map fst m)) (pc_ServerPropOverride x) \<and> pred_option fits_int (pc_InactiveTimeout x) \<and> pred_option fits_int (pc_MetricExportIntervalSec x))"

text \<open>Decoding its fields one by one, whether they are there or not.\<close>

lemmas pending_steps =
  dec_omit [where z = "[]" and d = dec_str and gt = pc_MachineType and st = "\<lambda>v x. x\<lparr>pc_MachineType := v\<rparr>"]
  dec_omit [where z = "[]" and d = dec_str and gt = pc_ServerVersion and st = "\<lambda>v x. x\<lparr>pc_ServerVersion := v\<rparr>"]
  dec_omit [where z = "False" and d = dec_bool and gt = pc_GuessVersion and st = "\<lambda>v x. x\<lparr>pc_GuessVersion := v\<rparr>"]
  dec_omit [where z = "[]" and d = dec_str and gt = pc_WorldSource and st = "\<lambda>v x. x\<lparr>pc_WorldSource := v\<rparr>"]
  dec_omit [where z = "[]" and d = dec_str and gt = pc_WorldName and st = "\<lambda>v x. x\<lparr>pc_WorldName := v\<rparr>"]
  dec_omit [where z = "[]" and d = dec_str and gt = pc_BackupGen and st = "\<lambda>v x. x\<lparr>pc_BackupGen := v\<rparr>"]
  dec_omit [where z = "[]" and d = dec_str and gt = pc_LevelType and st = "\<lambda>v x. x\<lparr>pc_LevelType := v\<rparr>"]
  dec_omit [where z = "[]" and d = dec_str and gt = pc_Seed and st = "\<lambda>v x. x\<lparr>pc_Seed := v\<rparr>"]
  dec_omit [where z = "[]" and d = dec_str and gt = pc_Motd and st = "\<lambda>v x. x\<lparr>pc_Motd := v\<rparr>"]
  dec_omit [where z = "[]" and d = dec_map and gt = pc_ServerPropOverride and st = "\<lambda>v x. x\<lparr>pc_ServerPropOverride := v\<rparr>"]
  dec_omit [where z = "0" and d = dec_int and gt = pc_InactiveTimeout and st = "\<lambda>v x. x\<lparr>pc_InactiveTimeout := v\<rparr>"]
  dec_omit [where z = "[]" and d = dec_str and gt = pc_OtlpEndpoint and st = "\<lambda>v x. x\<lparr>pc_OtlpEndpoint := v\<rparr>"]
  dec_omit [where z = "0" and d = dec_int and gt = pc_MetricExportIntervalSec and st = "\<lambda>v x. x\<lparr>pc_MetricExportIntervalSec := v\<rparr>"]

lemmas pending_defs =
  fields_pending_config_def find_field_def field_def omit_inverts_leaf zero_pending_config_def

lemma rt_pending_config [json_simps]:
  assumes "ok_pending_config x"
  shows "dec_pending_config zero_pending_config (enc_pending_config x) = Ok x"
proof -
  have ok: "pred_option (\<lambda>m. distinct (map fst m)) (pc_ServerPropOverride x)"
    "pred_option (\<lambda>i. int64_min \<le> i \<and> i \<le> int64_max) (pc_InactiveTimeout x)"
    "pred_option (\<lambda>i. int64_min \<le> i \<and> i \<le> int64_max) (pc_MetricExportIntervalSec x)"
    using assms by (simp_all add: ok_pending_config_def fits_int_def [abs_def])
  have "dec_obj fields_pending_config zero_pending_config
      (omit_nil ''machineType'' JStr (pc_MachineType x) @
       omit_nil ''serverVersion'' JStr (pc_ServerVersion x) @
       omit_nil ''guessServerVersion'' JBool (pc_GuessVersion x) @
       omit_nil ''worldSource'' JStr (pc_WorldSource x) @
       omit_nil ''worldName'' JStr (pc_WorldName x) @
       omit_nil ''backupGen'' JStr (pc_BackupGen x) @
       omit_nil ''levelType'' JStr (pc_LevelType x) @
       omit_nil ''seed'' JStr (pc_Seed x) @
       omit_nil ''motd'' JStr (pc_Motd x) @
       omit_nil ''serverPropOverride'' enc_map (pc_ServerPropOverride x) @
       omit_nil ''inactiveTimeout'' JInt (pc_InactiveTimeout x) @
       omit_nil ''otlpEndpoint'' JStr (pc_OtlpEndpoint x) @
       omit_nil ''metricExportIntervalSec'' JInt (pc_MetricExportIntervalSec x)) =
      Ok (zero_pending_config\<lparr>pc_MachineType := pc_MachineType x,
        pc_ServerVersion := pc_ServerVersion x,
        pc_GuessVersion := pc_GuessVersion x,
        pc_WorldSource := pc_WorldSource x,
        pc_WorldName := pc_WorldName x,
        pc_BackupGen := pc_BackupGen x,
        pc_LevelType := pc_LevelType x,
        pc_Seed := pc_Seed x,
        pc_Motd := pc_Motd x,
        pc_ServerPropOverride := pc_ServerPropOverride x,
        pc_InactiveTimeout := pc_InactiveTimeout x,
        pc_OtlpEndpoint := pc_OtlpEndpoint x,
        pc_MetricExportIntervalSec := pc_MetricExportIntervalSec x\<rparr>)"
    by (rule pending_steps(1), (simp add: pending_defs ok; fail)+,
      rule pending_steps(2), (simp add: pending_defs ok; fail)+,
      rule pending_steps(3), (simp add: pending_defs ok; fail)+,
      rule pending_steps(4), (simp add: pending_defs ok; fail)+,
      rule pending_steps(5), (simp add: pending_defs ok; fail)+,
      rule pending_steps(6), (simp add: pending_defs ok; fail)+,
      rule pending_steps(7), (simp add: pending_defs ok; fail)+,
      rule pending_steps(8), (simp add: pending_defs ok; fail)+,
      rule pending_steps(9), (simp add: pending_defs ok; fail)+,
      rule pending_steps(10), (simp add: pending_defs ok; fail)+,
      rule pending_steps(11), (simp add: pending_defs ok; fail)+,
      rule pending_steps(12), (simp add: pending_defs ok; fail)+,
      rule dec_omit_last, rule pending_steps(13), (simp add: pending_defs ok; fail)+)
  then show ?thesis by (simp add: zero_pending_config_def enc_pending_config_def dec_pending_config_def dec_struct_def)
qed

lemma enc_pending_config_not_null [simp]: "enc_pending_config x \<noteq> JNull"
  by (simp add: enc_pending_config_def)

section \<open>Round trips\<close>

text \<open>
  What a runner reports arrives.  An event decoded from its own encoding is the
  same event.
\<close>

lemma event_roundtrip:
  assumes "ok_event e"
  shows "dec_event zero_event (enc_event e) = Ok e"
  using assms by (rule rt_event)

definition demo_event :: event where
  "demo_event = \<lparr>ev_Type = ''status'', ev_Metadata = zero_request_meta, ev_Hello = None,
     ev_Status = Some \<lparr>se_EventCode = 8, se_Progress = 50\<rparr>, ev_Info = None, ev_Started = None\<rparr>"

end
