(* ===== verification/Messaging.thy ===== *)
theory Messaging
  imports Store Entities
begin

text \<open>
  \<open>src/backend/ctrlplane/common/streaming/streaming.go\<close> and
  \<open>src/backend/ctrlplane/common/longpoll/pollable.go\<close>: the events shown to users, with the last
  one kept for newcomers, and the queue of actions a runner polls.
\<close>

section \<open>Streaming\<close>

datatype message_type = EventMessage | NotifyMessage

fun message_type_num :: "message_type \<Rightarrow> int" where
  "message_type_num EventMessage = 0" | "message_type_num NotifyMessage = 1"

fun message_type_string :: "message_type \<Rightarrow> string" where
  "message_type_string EventMessage = ''event''" | "message_type_string NotifyMessage = ''notify''"

record message =
  msg_Type :: message_type
  msg_Body :: json

record standard_message =
  sm_EventCode :: int
  sm_PageCode :: int
  sm_Progress :: int
  sm_TextData :: string

definition enc_StandardMessage :: "standard_message \<Rightarrow> json" where
  "enc_StandardMessage m = JObj [(''eventCode'', JInt (sm_EventCode m)), (''pageCode'', JInt (sm_PageCode m)),
     (''extra'', JObj [(''progress'', JInt (sm_Progress m)), (''textData'', JStr (sm_TextData m))])]"

definition enc_InfoMessage :: "int \<Rightarrow> bool \<Rightarrow> json" where
  "enc_InfoMessage code isError = JObj [(''infoCode'', JInt code), (''isError'', JBool isError)]"

definition NewStandardMessage :: "int \<Rightarrow> int \<Rightarrow> message" where
  "NewStandardMessage eventCode pageCode = \<lparr>msg_Type = EventMessage, msg_Body = enc_StandardMessage
     \<lparr>sm_EventCode = eventCode, sm_PageCode = pageCode, sm_Progress = 0, sm_TextData = []\<rparr>\<rparr>"

definition NewStandardMessageWithProgress :: "int \<Rightarrow> int \<Rightarrow> int \<Rightarrow> message" where
  "NewStandardMessageWithProgress eventCode progress pageCode = \<lparr>msg_Type = EventMessage, msg_Body = enc_StandardMessage
     \<lparr>sm_EventCode = eventCode, sm_PageCode = pageCode, sm_Progress = progress, sm_TextData = []\<rparr>\<rparr>"

definition NewStandardMessageWithTextData :: "int \<Rightarrow> string \<Rightarrow> int \<Rightarrow> message" where
  "NewStandardMessageWithTextData eventCode textData pageCode = \<lparr>msg_Type = EventMessage, msg_Body = enc_StandardMessage
     \<lparr>sm_EventCode = eventCode, sm_PageCode = pageCode, sm_Progress = 0, sm_TextData = textData\<rparr>\<rparr>"

definition NewInfoMessage :: "int \<Rightarrow> bool \<Rightarrow> message" where
  "NewInfoMessage code isError = \<lparr>msg_Type = NotifyMessage, msg_Body = enc_InfoMessage code isError\<rparr>"

definition enc_Message :: "message \<Rightarrow> json" where
  "enc_Message m = JObj [(''Type'', JInt (message_type_num (msg_Type m))), (''Body'', msg_Body m)]"

definition publishEvent :: "'w redis \<Rightarrow> message \<Rightarrow> ('w, unit) io" where
  "publishEvent R m =
     io_bind (if msg_Type m = EventMessage then rds_Set R ''current-state'' (msg_Body m) 0 else io_ret ()) (\<lambda>_.
     io_bind (rds_Publish R ''events'' (enc_Message m)) (\<lambda>_. io_ret ()))"

text \<open>\<open>PublishEvent\<close> logs the error.\<close>

definition PublishEvent :: "'w redis \<Rightarrow> message \<Rightarrow> ('w, unit) io" where
  "PublishEvent R m = io_bind (io_try (publishEvent R m)) (\<lambda>_. io_ret ())"

text \<open>
  \<open>SubscribeEvent\<close>: the state a newcomer is shown.  A stored JSON text is never the empty
  string, so the default is used when the key is missing.
\<close>

definition default_state :: json where
  "default_state = enc_StandardMessage \<lparr>sm_EventCode = event_num EventStopped,
     sm_PageCode = page_num PageLaunch, sm_Progress = 0, sm_TextData = []\<rparr>"

definition SubscribeEvent :: "'w redis \<Rightarrow> ('w, json) io" where
  "SubscribeEvent R w =
     (case rds_Get R ''current-state'' w of
        (Ok j, w') \<Rightarrow> (Ok j, w')
      | (Err e, w') \<Rightarrow> if e = RedisNil then (Ok default_state, w') else (Err e, w')
      | (Panic p, w') \<Rightarrow> (Panic p, w'))"

text \<open>\<open>Channel\<close>: what a subscriber receives of the payloads published; others are dropped.\<close>

definition Message_fields :: "message fields" where
  "Message_fields =
     [field ''Type'' (\<lambda>old j. res_bind (dec_int (message_type_num old) j)
         (\<lambda>n. if n = 0 then Ok EventMessage else if n = 1 then Ok NotifyMessage else json_mismatch))
        msg_Type (\<lambda>v m. m\<lparr>msg_Type := v\<rparr>),
      field ''Body'' (\<lambda>old j. if j = JBad then json_syntax else Ok j) msg_Body (\<lambda>v m. m\<lparr>msg_Body := v\<rparr>)]"

definition dec_Message :: "message dec" where
  "dec_Message = dec_struct Message_fields"

definition sub_Channel :: "json list \<Rightarrow> message list" where
  "sub_Channel payloads =
     concat (map (\<lambda>j. case dec_Message \<lparr>msg_Type = EventMessage, msg_Body = JNull\<rparr> j of
                        Ok m \<Rightarrow> [m] | _ \<Rightarrow> []) payloads)"

definition ClearSysstat :: "'w redis \<Rightarrow> ('w, unit) io" where
  "ClearSysstat R = io_bind (rds_Del R [''sysstat-history'']) (\<lambda>_. io_ret ())"

section \<open>The queue of actions\<close>

definition lp_queue :: "string \<Rightarrow> string \<Rightarrow> string" where
  "lp_queue key runnerId = key @ '':'' @ runnerId"

definition lp_channel :: "string \<Rightarrow> string \<Rightarrow> string" where
  "lp_channel key runnerId = key @ '':notify:'' @ runnerId"

definition lp_Push :: "'w redis \<Rightarrow> string \<Rightarrow> string \<Rightarrow> json \<Rightarrow> ('w, unit) io" where
  "lp_Push R key runnerId data =
     io_bind (rds_RPush R (lp_queue key runnerId) data) (\<lambda>_.
     io_bind (rds_Publish R (lp_channel key runnerId) (JStr [])) (\<lambda>_. io_ret ()))"

text \<open>\<open>getAction\<close> returns an action, or the empty string (\<open>None\<close>) when the queue is empty.\<close>

definition getAction :: "'w redis \<Rightarrow> string \<Rightarrow> string \<Rightarrow> ('w, json option) io" where
  "getAction R key runnerId w =
     (case rds_LPop R (lp_queue key runnerId) w of
        (Ok j, w') \<Rightarrow> (Ok (Some j), w')
      | (Err e, w') \<Rightarrow> if e = RedisNil then (Ok None, w') else (Err e, w')
      | (Panic p, w') \<Rightarrow> (Panic p, w'))"

text \<open>
  \<open>Wait\<close>.  What happens while it blocks is the parameter \<open>block\<close>: the state others leave, and
  whether a notification came or the context was cancelled first.
\<close>

datatype wake = Notified | CtxDone

definition lp_Wait :: "'w redis \<Rightarrow> string \<Rightarrow> string \<Rightarrow> ('w \<Rightarrow> wake \<times> 'w) \<Rightarrow> ('w, json option) io" where
  "lp_Wait R key runnerId block w =
     (case getAction R key runnerId w of
        (Panic p, w1) \<Rightarrow> (Panic p, w1)
      | (Err e, w1) \<Rightarrow> (Ok None, w1)
      | (Ok _, w1) \<Rightarrow>
         (case block w1 of
            (CtxDone, w2) \<Rightarrow> (Err ErrCancelled, w2)
          | (Notified, w2) \<Rightarrow>
             (case getAction R key runnerId w2 of
                (Panic p, w3) \<Rightarrow> (Panic p, w3)
              | (Err e, w3) \<Rightarrow> (Ok None, w3)
              | (Ok a, w3) \<Rightarrow> (Ok a, w3))))"

section \<open>Properties\<close>

lemma publishEvent_honest:
  assumes "redis_honest R view"
  obtains w' where "publishEvent R m w = (Ok (), w')"
    "view w' = (if msg_Type m = EventMessage
       then (view w)\<lparr>rv_keys := (rv_keys (view w))(''current-state'' \<mapsto> msg_Body m)\<rparr> else view w)"
proof -
  obtain w1 where 1: "rds_Set R ''current-state'' (msg_Body m) 0 w = (Ok (), w1)"
    "view w1 = (view w)\<lparr>rv_keys := (rv_keys (view w))(''current-state'' \<mapsto> msg_Body m)\<rparr>"
    using honest_Set [OF assms] .
  obtain w2 where 2: "rds_Publish R ''events'' (enc_Message m) w1 = (Ok (), w2)" "view w2 = view w1"
    using honest_Publish [OF assms] .
  obtain w3 where 3: "rds_Publish R ''events'' (enc_Message m) w = (Ok (), w3)" "view w3 = view w"
    using honest_Publish [OF assms] .
  show thesis
  proof (cases "msg_Type m = EventMessage")
    case True
    with 1 2 show thesis by (intro that [of w2]) (simp_all add: publishEvent_def io_simps)
  next
    case False
    with 3 show thesis by (intro that [of w3]) (simp_all add: publishEvent_def io_simps)
  qed
qed

lemma SubscribeEvent_honest:
  assumes "redis_honest R view"
  shows "\<exists>w'. SubscribeEvent R w =
     (Ok (case rv_keys (view w) ''current-state'' of None \<Rightarrow> default_state | Some j \<Rightarrow> j), w')"
proof -
  obtain w' where "rds_Get R ''current-state'' w = (found (rv_keys (view w) ''current-state''), w')"
    using honest_Get [OF assms] .
  then show ?thesis by (simp add: SubscribeEvent_def found_def split: option.split)
qed

text \<open>
  A newcomer sees the last event.  After any sequence of published messages a
  subscriber's current state is the body of the last event among them; notifications do
  not change it, and without any event it is what it was, the stopped state at first.
\<close>

lemma SubscribeEvent_last_event:
  assumes "redis_honest R view"
  shows "\<exists>w'. SubscribeEvent R (fold (\<lambda>m w. snd (PublishEvent R m w)) ms w) =
    (Ok (case filter (\<lambda>m. msg_Type m = EventMessage) ms of
           [] \<Rightarrow> (case rv_keys (view w) ''current-state'' of None \<Rightarrow> default_state | Some j \<Rightarrow> j)
         | x # xs \<Rightarrow> msg_Body (last (x # xs))), w')"
proof -
  have "rv_keys (view (fold (\<lambda>m w. snd (PublishEvent R m w)) ms w)) ''current-state'' =
      (case filter (\<lambda>m. msg_Type m = EventMessage) ms of
         [] \<Rightarrow> rv_keys (view w) ''current-state'' | x # xs \<Rightarrow> Some (msg_Body (last (x # xs))))"
  proof (induction ms rule: rev_induct)
    case (snoc m ms)
    let ?w = "fold (\<lambda>m w. snd (PublishEvent R m w)) ms w"
    obtain w' where p: "publishEvent R m ?w = (Ok (), w')"
      "view w' = (if msg_Type m = EventMessage
         then (view ?w)\<lparr>rv_keys := (rv_keys (view ?w))(''current-state'' \<mapsto> msg_Body m)\<rparr> else view ?w)"
      using publishEvent_honest [OF assms] .
    have "snd (PublishEvent R m ?w) = w'" using p(1) by (simp add: PublishEvent_def io_simps)
    with p(2) snoc show ?case by (auto split: list.splits)
  qed simp
  with SubscribeEvent_honest [OF assms, of "fold (\<lambda>m w. snd (PublishEvent R m w)) ms w"]
  show ?thesis by (cases "filter (\<lambda>m. msg_Type m = EventMessage) ms") simp_all
qed

lemma getAction_honest:
  assumes "redis_honest R view"
  obtains w' where "getAction R key rid w = (Ok (first_of (rv_lists (view w) (lp_queue key rid))), w')"
    "view w' = (view w)\<lparr>rv_lists := (rv_lists (view w))(lp_queue key rid := tl (rv_lists (view w) (lp_queue key rid)))\<rparr>"
proof -
  obtain w' where p: "rds_LPop R (lp_queue key rid) w = (found (first_of (rv_lists (view w) (lp_queue key rid))), w')"
    "view w' = (view w)\<lparr>rv_lists := (rv_lists (view w))(lp_queue key rid := tl (rv_lists (view w) (lp_queue key rid)))\<rparr>"
    using honest_LPop [OF assms] .
  then show thesis
    by (intro that [of w']) (auto simp: getAction_def found_def first_of_def split: list.splits)
qed

lemma lp_Push_honest:
  assumes "redis_honest R view"
  obtains w' where "lp_Push R key rid a w = (Ok (), w')"
    "view w' = (view w)\<lparr>rv_lists := (rv_lists (view w))(lp_queue key rid := rv_lists (view w) (lp_queue key rid) @ [a])\<rparr>"
proof -
  obtain w1 where 1: "rds_RPush R (lp_queue key rid) a w = (Ok (), w1)"
    "view w1 = (view w)\<lparr>rv_lists := (rv_lists (view w))(lp_queue key rid := rv_lists (view w) (lp_queue key rid) @ [a])\<rparr>"
    using honest_RPush [OF assms] .
  obtain w2 where 2: "rds_Publish R (lp_channel key rid) (JStr []) w1 = (Ok (), w2)" "view w2 = view w1"
    using honest_Publish [OF assms] .
  from 1 2 show thesis by (intro that [of w2]) (simp_all add: lp_Push_def io_simps)
qed

text \<open>
  Delivery to a runner that is waiting.  When the queue is empty and the action
  is pushed while \<open>Wait\<close> blocks, \<open>Wait\<close> returns that action and the queue is empty again.
\<close>

lemma Wait_delivers:
  assumes "redis_honest R view" and "rv_lists (view w) (lp_queue key rid) = []"
  shows "\<exists>w'. lp_Wait R key rid (\<lambda>w1. (Notified, snd (lp_Push R key rid a w1))) w = (Ok (Some a), w')
    \<and> rv_lists (view w') (lp_queue key rid) = []"
proof -
  obtain w1 where 1: "getAction R key rid w = (Ok None, w1)" "rv_lists (view w1) (lp_queue key rid) = []"
    by (rule getAction_honest [OF assms(1), of key rid w]) (simp add: assms(2) first_of_def)
  obtain w2 where 2: "lp_Push R key rid a w1 = (Ok (), w2)" "rv_lists (view w2) (lp_queue key rid) = [a]"
    by (rule lp_Push_honest [OF assms(1), of key rid a w1]) (simp add: 1(2))
  obtain w3 where 3: "getAction R key rid w2 = (Ok (Some a), w3)" "rv_lists (view w3) (lp_queue key rid) = []"
    by (rule getAction_honest [OF assms(1), of key rid w2]) (simp add: 2(2) first_of_def)
  from 1 2 3 show ?thesis by (simp add: lp_Wait_def)
qed

text \<open>
  An action that was queued before is lost.  When the runner begins to wait
  while actions are queued, \<open>Wait\<close> takes the first one and drops it: the state it blocks in
  lacks the action, and a wait that ends with the next notification returns what
  comes after it, or nothing.
\<close>

lemma Wait_drops_queued:
  assumes "redis_honest R view" and "rv_lists (view w) (lp_queue key rid) = a # as"
    and "\<And>w1. view (snd (block w1)) = view w1"
  shows "\<exists>b w'. lp_Wait R key rid block w =
      (case b of CtxDone \<Rightarrow> (Err ErrCancelled, w') | Notified \<Rightarrow> (Ok (first_of as), w'))
    \<and> rv_lists (view w') (lp_queue key rid) = (case b of CtxDone \<Rightarrow> as | Notified \<Rightarrow> tl as)"
proof -
  obtain w1 where 1: "getAction R key rid w = (Ok (Some a), w1)" "rv_lists (view w1) (lp_queue key rid) = as"
    by (rule getAction_honest [OF assms(1), of key rid w]) (simp add: assms(2) first_of_def)
  obtain b w2 where b: "block w1 = (b, w2)" by (cases "block w1")
  with assms(3) [of w1] have v: "rv_lists (view w2) (lp_queue key rid) = as" using 1(2) by simp
  obtain w3 where 3: "getAction R key rid w2 = (Ok (first_of as), w3)" "rv_lists (view w3) (lp_queue key rid) = tl as"
    by (rule getAction_honest [OF assms(1), of key rid w2]) (simp add: v)
  show ?thesis
  proof (cases b)
    case Notified
    with 1 b 3 show ?thesis by (intro exI [of _ b] exI [of _ w3]) (simp add: lp_Wait_def)
  next
    case CtxDone
    with 1 b v show ?thesis by (intro exI [of _ b] exI [of _ w2]) (simp add: lp_Wait_def)
  qed
qed

end
