(* ===== verification/Versions.thy ===== *)
theory Versions
  imports Store
begin

text \<open>
  \<open>src/backend/common/mc/launchermeta/launchermeta.go\<close> and
  \<open>src/backend/ctrlplane/common/mcversions/mcversions.go\<close>: the list of Minecraft versions, from
  Mojang's manifest or the cache in the key-value store, and what a version's server
  needs.  An HTTP request is the parameter \<open>http\<close>: the URL gives a status and a JSON body.
\<close>

type_synonym 'w http_get = "string \<Rightarrow> ('w, int \<times> json) io"

section \<open>The launcher's metadata\<close>

record version_info =
  vi_ID :: string
  vi_Type :: string
  vi_URL :: string
  vi_ReleaseTime :: string

record version_manifest =
  vm_Release :: string
  vm_Snapshot :: string
  vm_Versions :: "version_info list"

record version_meta =
  vd_URL :: string
  vd_LaunchCommand :: "string list"
  vd_Major :: int

definition zero_version_info :: version_info where
  "zero_version_info = \<lparr>vi_ID = [], vi_Type = [], vi_URL = [], vi_ReleaseTime = []\<rparr>"

definition zero_manifest :: version_manifest where
  "zero_manifest = \<lparr>vm_Release = [], vm_Snapshot = [], vm_Versions = []\<rparr>"

definition zero_version_meta :: version_meta where
  "zero_version_meta = \<lparr>vd_URL = [], vd_LaunchCommand = [], vd_Major = 0\<rparr>"

definition enc_VersionInfo :: "version_info \<Rightarrow> json" where
  "enc_VersionInfo v = JObj [(''id'', JStr (vi_ID v)), (''type'', JStr (vi_Type v)),
     (''url'', JStr (vi_URL v)), (''releaseTime'', JStr (vi_ReleaseTime v))]"

definition dec_VersionInfo :: "version_info dec" where
  "dec_VersionInfo = dec_struct
     [field ''id'' dec_str vi_ID (\<lambda>x v. v\<lparr>vi_ID := x\<rparr>),
      field ''type'' dec_str vi_Type (\<lambda>x v. v\<lparr>vi_Type := x\<rparr>),
      field ''url'' dec_str vi_URL (\<lambda>x v. v\<lparr>vi_URL := x\<rparr>),
      field ''releaseTime'' dec_str vi_ReleaseTime (\<lambda>x v. v\<lparr>vi_ReleaseTime := x\<rparr>)]"

text \<open>
  The field \<open>Latest\<close> has no tag: it is written as \<open>Latest\<close> and read from Mojang's
  \<open>latest\<close> too, as member names match without regard to case.
\<close>

definition enc_Manifest :: "version_manifest \<Rightarrow> json" where
  "enc_Manifest m = JObj
     [(''Latest'', JObj [(''release'', JStr (vm_Release m)), (''snapshot'', JStr (vm_Snapshot m))]),
      (''versions'', JArr (map enc_VersionInfo (vm_Versions m)))]"

definition dec_Latest :: "version_manifest dec" where
  "dec_Latest = dec_struct
     [field ''release'' dec_str vm_Release (\<lambda>x m. m\<lparr>vm_Release := x\<rparr>),
      field ''snapshot'' dec_str vm_Snapshot (\<lambda>x m. m\<lparr>vm_Snapshot := x\<rparr>)]"

definition dec_Manifest :: "version_manifest dec" where
  "dec_Manifest = dec_struct
     [(''Latest'', dec_Latest),
      field ''versions'' (dec_list zero_version_info dec_VersionInfo) vm_Versions (\<lambda>x m. m\<lparr>vm_Versions := x\<rparr>)]"

definition dec_VersionMeta :: "version_meta dec" where
  "dec_VersionMeta = dec_struct
     [(''downloads'', dec_struct
        [(''server'', dec_struct
           [field ''url'' dec_str vd_URL (\<lambda>x m. m\<lparr>vd_URL := x\<rparr>),
            (''x-premises'', dec_struct
              [field ''launchCommand'' (dec_list [] dec_str) vd_LaunchCommand (\<lambda>x m. m\<lparr>vd_LaunchCommand := x\<rparr>)])])]),
      (''javaVersion'', dec_struct
        [field ''majorVersion'' dec_int vd_Major (\<lambda>x m. m\<lparr>vd_Major := x\<rparr>)])]"

definition mojangManifest :: string where
  "mojangManifest = ''https://launchermeta.mojang.com/mc/game/version_manifest.json''"

text \<open>\<open>NewLauncherMetaClient\<close> with the URL option when one is given.\<close>

definition manifest_url :: "string option \<Rightarrow> string" where
  "manifest_url opt = (case opt of None \<Rightarrow> mojangManifest | Some u \<Rightarrow> u)"

definition GetVersionInfo :: "'w http_get \<Rightarrow> string \<Rightarrow> ('w, version_manifest) io" where
  "GetVersionInfo http url =
     io_bind (http url) (\<lambda>(status, body).
       if status \<noteq> 200 then io_err (Msg (''failed to retrieve launchermeta: '' @ fmt_d status))
       else io_lift (dec_Manifest zero_manifest body))"

definition GetVersionMetaData :: "'w http_get \<Rightarrow> version_info \<Rightarrow> ('w, version_meta) io" where
  "GetVersionMetaData http v =
     io_bind (http (vi_URL v)) (\<lambda>(status, body).
       if status \<noteq> 200 then io_err (Msg ''failed to get version metadata'')
       else io_lift (dec_VersionMeta zero_version_meta body))"

section \<open>The version service\<close>

record 'w mcversions =
  mv_http :: "'w http_get"
  mv_url :: string
  mv_kvs :: "'w store"
  mv_overridenURL :: string

text \<open>\<open>New\<close> with the environment variable (empty when it is not set).\<close>

definition mcversions_New :: "'w http_get \<Rightarrow> 'w store \<Rightarrow> string \<Rightarrow> 'w mcversions" where
  "mcversions_New http kvs env =
     \<lparr>mv_http = http, mv_url = manifest_url (if env \<noteq> [] then Some env else None),
      mv_kvs = kvs, mv_overridenURL = env\<rparr>"

definition versions_key :: string where "versions_key = ''mcversions:versions''"
definition versions_ttl :: int where "versions_ttl = 24 * 3600 * 1000000000"

text \<open>
  The manifest, from the cache or from Mojang; a failure to read or to write the cache is
  only logged.  \<open>GetVersions\<close> and \<open>GetLatestRelease\<close> both begin with this.
\<close>

definition cached_manifest :: "'w mcversions \<Rightarrow> ('w, version_manifest) io" where
  "cached_manifest s =
     io_bind (io_try (kvs_Get (mv_kvs s) versions_key dec_Manifest zero_manifest)) (\<lambda>r.
     case r of
       Ok m \<Rightarrow> io_ret m
     | _ \<Rightarrow>
         io_bind (GetVersionInfo (mv_http s) (mv_url s)) (\<lambda>m.
         io_bind (io_try (kvs_Set (mv_kvs s) versions_key (enc_Manifest m) versions_ttl)) (\<lambda>_.
         io_ret m)))"

definition GetVersions :: "'w mcversions \<Rightarrow> ('w, version_info list) io" where
  "GetVersions s = io_bind (cached_manifest s) (\<lambda>m. io_ret (vm_Versions m))"

definition GetLatestRelease :: "'w mcversions \<Rightarrow> ('w, string) io" where
  "GetLatestRelease s = io_bind (cached_manifest s) (\<lambda>m. io_ret (vm_Release m))"

record server_info =
  si_DownloadURL :: string
  si_LaunchCommand :: "string list"
  si_JavaVersion :: int

fun find_version :: "string \<Rightarrow> version_info list \<Rightarrow> version_info" where
  "find_version v [] = zero_version_info"
| "find_version v (x # xs) = (if v = vi_ID x then x else find_version v xs)"

definition GetServerInfo :: "'w mcversions \<Rightarrow> string \<Rightarrow> ('w, server_info) io" where
  "GetServerInfo s version =
     io_bind (GetVersions s) (\<lambda>versions.
     let v = find_version version versions in
     if vi_ID v = [] then io_err (Msg ''no matching version found'')
     else
     io_bind (GetVersionMetaData (mv_http s) v) (\<lambda>meta.
     io_ret \<lparr>si_DownloadURL = vd_URL meta, si_LaunchCommand = vd_LaunchCommand meta, si_JavaVersion = vd_Major meta\<rparr>))"

section \<open>Properties\<close>

lemma inverts_VersionInfo: "inverts (\<lambda>_. True) (\<lambda>old. dec_VersionInfo zero_version_info) enc_VersionInfo"
  by (simp add: inverts_def dec_VersionInfo_def dec_struct_def enc_VersionInfo_def field_def json_simps
      zero_version_info_def)

lemma dec_all_VersionInfo: "dec_all zero_version_info dec_VersionInfo (map enc_VersionInfo vs) = Ok vs"
proof -
  have "dec_VersionInfo zero_version_info (enc_VersionInfo v) = Ok v" for v
    using invertsD [OF inverts_VersionInfo] by simp
  then show ?thesis by (induction vs) simp_all
qed

lemma dec_enc_Manifest: "dec_Manifest zero_manifest (enc_Manifest m) = Ok m"
  by (simp add: dec_Manifest_def dec_struct_def enc_Manifest_def dec_Latest_def field_def json_simps
      zero_manifest_def dec_list_def dec_all_VersionInfo)

text \<open>
  The cache is transparent.  When the manifest is not cached and Mojang's answer
  decodes to \<open>m\<close>, the first \<open>GetVersions\<close> returns its versions and caches the manifest;
  from then on \<open>GetVersions\<close> and \<open>GetLatestRelease\<close> return the same without any request
  (they do so even if every request fails).
\<close>

lemma version_cache_transparent:
  assumes "redis_honest R view" and "rv_keys (view w) versions_key = None"
    and "\<And>w. \<exists>w'. http (manifest_url None) w = (Ok (200, body), w') \<and> view w' = view w"
    and "dec_Manifest zero_manifest body = Ok m"
  shows "\<exists>w1. GetVersions (mcversions_New http (NewRedis R) []) w = (Ok (vm_Versions m), w1)
    \<and> (\<exists>w2. GetVersions (mcversions_New (\<lambda>url w. (Err EOF, w)) (NewRedis R) []) w1 = (Ok (vm_Versions m), w2))
    \<and> (\<exists>w3. GetLatestRelease (mcversions_New (\<lambda>url w. (Err EOF, w)) (NewRedis R) []) w1 = (Ok (vm_Release m), w3))"
proof -
  obtain w0 where g: "kvs_Get (NewRedis R) versions_key dec_Manifest zero_manifest w = (Err RedisNil, w0)"
    by (rule kvs_Get_honest [OF assms(1), of versions_key dec_Manifest zero_manifest w])
      (simp add: assms(2) found_def)
  obtain w' where h: "http mojangManifest w0 = (Ok (200, body), w')"
    using assms(3) [of w0] by (auto simp: manifest_url_def)
  obtain w1 where s: "kvs_Set (NewRedis R) versions_key (enc_Manifest m) versions_ttl w' = (Ok (), w1)"
    "view w1 = (view w')\<lparr>rv_keys := (rv_keys (view w'))(versions_key \<mapsto> enc_Manifest m)\<rparr>"
    using kvs_Set_honest [OF assms(1)] .
  obtain w2 where g2: "kvs_Get (NewRedis R) versions_key dec_Manifest zero_manifest w1 = (Ok m, w2)"
    by (rule kvs_Get_honest [OF assms(1), of versions_key dec_Manifest zero_manifest w1])
      (simp add: s(2) found_def dec_enc_Manifest)
  have "cached_manifest (mcversions_New http (NewRedis R) []) w = (Ok m, w1)"
    using g h s(1) assms(4)
    by (simp add: cached_manifest_def mcversions_New_def manifest_url_def GetVersionInfo_def io_bind_def io_try_def
        io_lift_def io_ret_def)
  moreover have "cached_manifest (mcversions_New (\<lambda>url w. (Err EOF, w)) (NewRedis R) []) w1 = (Ok m, w2)"
    using g2 by (simp add: cached_manifest_def mcversions_New_def io_bind_def io_try_def io_ret_def)
  ultimately show ?thesis
    by (simp add: GetVersions_def GetLatestRelease_def io_bind_def io_ret_def)
qed

definition demo_manifest :: version_manifest where
  "demo_manifest = \<lparr>vm_Release = ''1.21'', vm_Snapshot = ''24w1'',
     vm_Versions = [\<lparr>vi_ID = ''1.21'', vi_Type = ''release'', vi_URL = ''u'', vi_ReleaseTime = ''t''\<rparr>]\<rparr>"

end
