(* ===== verification/GameConfig.thy ===== *)
theory GameConfig
  imports Versions Entities
begin

text \<open>
  From what a user configures to what a runner launches:
  \<open>src/backend/ctrlplane/common/gameconfig/gameconfig.go\<close>, \<open>.../launcher/config.go\<close>, and the validation
  and conversion of the pending configuration in \<open>.../handler/api.go\<close>.
\<close>

section \<open>The control plane's configuration and the launch configuration\<close>

text \<open>The settings of \<open>config.Config\<close> that the control plane's logic reads.\<close>

record cp_config =
  cfg_ConohaUser :: string
  cfg_ConohaPassword :: string
  cfg_ConohaTenantID :: string
  cfg_ConohaNameTag :: string
  cfg_S3Bucket :: string
  cfg_Operators :: "string list"
  cfg_Whitelist :: "string list"
  cfg_Origin :: string
  cfg_GameDomain :: string
  cfg_IconURL :: string

record launch_server =
  ls_PreferDetected :: bool
  ls_Version :: string
  ls_DownloadUrl :: string
  ls_ManifestOverride :: string
  ls_CustomCommand :: "string list"
  ls_ServerPropOverride :: "(string \<times> string) list"
  ls_JavaVersion :: int
  ls_InactiveTimeout :: int
  ls_Motd :: string
  ls_Operators :: "string list"
  ls_Whitelist :: "string list"

record launch_world =
  lw_ShouldGenerate :: bool
  lw_Name :: string
  lw_GenerationID :: string
  lw_Seed :: string
  lw_LevelType :: string
  lw_Difficulty :: string

record launch_observability =
  lo_OtlpEndpoint :: string
  lo_MetricExportIntervalMs :: int

record launch_config =
  lc_MachineType :: string
  lc_Server :: launch_server
  lc_World :: launch_world
  lc_Observability :: launch_observability

definition zero_launch_config :: launch_config where
  "zero_launch_config =
     \<lparr>lc_MachineType = [],
      lc_Server = \<lparr>ls_PreferDetected = False, ls_Version = [], ls_DownloadUrl = [], ls_ManifestOverride = [],
        ls_CustomCommand = [], ls_ServerPropOverride = [], ls_JavaVersion = 0, ls_InactiveTimeout = 0,
        ls_Motd = [], ls_Operators = [], ls_Whitelist = []\<rparr>,
      lc_World = \<lparr>lw_ShouldGenerate = False, lw_Name = [], lw_GenerationID = [], lw_Seed = [],
        lw_LevelType = [], lw_Difficulty = []\<rparr>,
      lc_Observability = \<lparr>lo_OtlpEndpoint = [], lo_MetricExportIntervalMs = 0\<rparr>\<rparr>"

section \<open>Building a launch configuration\<close>

definition on_server :: "(launch_server \<Rightarrow> launch_server) \<Rightarrow> launch_config \<Rightarrow> launch_config" where
  "on_server f c = c\<lparr>lc_Server := f (lc_Server c)\<rparr>"

definition on_world :: "(launch_world \<Rightarrow> launch_world) \<Rightarrow> launch_config \<Rightarrow> launch_config" where
  "on_world f c = c\<lparr>lc_World := f (lc_World c)\<rparr>"

definition gameconfig_New :: launch_config where
  "gameconfig_New = on_world (\<lambda>w. w\<lparr>lw_LevelType := ''default'', lw_Difficulty := ''normal''\<rparr>) zero_launch_config"

definition SetServer :: "string \<Rightarrow> string \<Rightarrow> launch_config \<Rightarrow> launch_config" where
  "SetServer version downloadURL = on_server (\<lambda>s. s\<lparr>ls_Version := version, ls_DownloadUrl := downloadURL\<rparr>)"

definition SetDetectServerVersion :: "bool \<Rightarrow> launch_config \<Rightarrow> launch_config" where
  "SetDetectServerVersion detect = on_server (\<lambda>s. s\<lparr>ls_PreferDetected := detect\<rparr>)"

definition SetWorld :: "string \<Rightarrow> string \<Rightarrow> launch_config \<Rightarrow> launch_config res" where
  "SetWorld worldName generationId c =
     (if worldName = [] \<or> generationId = [] then Err (Msg ''either worldName or generationId is empty'')
      else Ok (on_world (\<lambda>w. w\<lparr>lw_Name := worldName, lw_GenerationID := generationId\<rparr>) c))"

definition GenerateWorld :: "string \<Rightarrow> string \<Rightarrow> launch_config \<Rightarrow> launch_config" where
  "GenerateWorld worldName seed =
     on_world (\<lambda>w. w\<lparr>lw_ShouldGenerate := True, lw_Name := worldName, lw_Seed := seed\<rparr>)"

definition SetMotd :: "string \<Rightarrow> launch_config \<Rightarrow> launch_config" where
  "SetMotd motd = on_server (\<lambda>s. s\<lparr>ls_Motd := motd\<rparr>)"

definition isValidLevelType :: "string \<Rightarrow> bool" where
  "isValidLevelType t = slices_contains [''default'', ''flat'', ''largeBiomes'', ''amplified'', ''buffet''] t"

definition SetLevelType :: "string \<Rightarrow> launch_config \<Rightarrow> launch_config res" where
  "SetLevelType levelType c =
     (if \<not> isValidLevelType levelType then Err (Msg ''unknown level type'')
      else Ok (on_world (\<lambda>w. w\<lparr>lw_LevelType := levelType\<rparr>) c))"

definition isValidDifficulty :: "string \<Rightarrow> bool" where
  "isValidDifficulty d = slices_contains [''peaceful'', ''easy'', ''normal'', ''hard''] d"

definition SetDifficulty :: "string \<Rightarrow> launch_config \<Rightarrow> launch_config res" where
  "SetDifficulty difficulty c =
     (if \<not> isValidDifficulty difficulty then Err (Msg ''unknown difficulty'')
      else Ok (on_world (\<lambda>w. w\<lparr>lw_Difficulty := difficulty\<rparr>) c))"

definition addToSlice :: "'a list \<Rightarrow> 'a \<Rightarrow> 'a list" where
  "addToSlice to elm = (if elm \<in> set to then to else to @ [elm])"

definition SetOperators :: "string list \<Rightarrow> launch_config \<Rightarrow> launch_config" where
  "SetOperators ops c =
     foldl (\<lambda>c p. on_server (\<lambda>s. s\<lparr>ls_Operators := addToSlice (ls_Operators s) p,
                                ls_Whitelist := addToSlice (ls_Whitelist s) p\<rparr>) c) c ops"

definition SetWhitelist :: "string list \<Rightarrow> launch_config \<Rightarrow> launch_config" where
  "SetWhitelist wlist c =
     foldl (\<lambda>c p. on_server (\<lambda>s. s\<lparr>ls_Whitelist := addToSlice (ls_Whitelist s) p\<rparr>) c) c wlist"

text \<open>\<open>ToRunnerConfig\<close> with the random key of \<open>generateAuthKey\<close>.\<close>

definition generateAuthKey :: "bytes \<Rightarrow> string" where
  "generateAuthKey rnd = base32 rnd"

definition ToRunnerConfig :: "bytes \<Rightarrow> cp_config \<Rightarrow> launch_config \<Rightarrow> runner_config" where
  "ToRunnerConfig rnd cfg c =
     (let s = lc_Server c; w = lc_World c in
      \<lparr>rc_AuthKey = generateAuthKey rnd, rc_ControlPlane = cfg_Origin cfg,
       rc_Observability = \<lparr>oc_OtlpEndpoint = lo_OtlpEndpoint (lc_Observability c),
         oc_MetricExportIntervalMs = lo_MetricExportIntervalMs (lc_Observability c)\<rparr>,
       rc_GameConfig =
        \<lparr>gc_Server = \<lparr>sc_PreferDetected = ls_PreferDetected s, sc_Version = ls_Version s,
           sc_DownloadUrl = ls_DownloadUrl s, sc_ManifestOverride = ls_ManifestOverride s,
           sc_CustomCommand = ls_CustomCommand s, sc_ServerPropOverride = ls_ServerPropOverride s,
           sc_JavaVersion = ls_JavaVersion s, sc_InactiveTimeout = ls_InactiveTimeout s\<rparr>,
         gc_World = \<lparr>wc_ShouldGenerate = lw_ShouldGenerate w, wc_Name = lw_Name w,
           wc_GenerationId = lw_GenerationID w, wc_Seed = lw_Seed w, wc_LevelType = lw_LevelType w,
           wc_Difficulty = lw_Difficulty w\<rparr>,
         gc_Motd = ls_Motd s, gc_Operators = ls_Operators s, gc_Whitelist = ls_Whitelist s\<rparr>\<rparr>)"

section \<open>The pending configuration\<close>

definition machine_types :: "string list" where
  "machine_types = [''2g'', ''4g'', ''12g'', ''24g'', ''48g'', ''96g'', ''128g'']"

definition empty_opt :: "string option \<Rightarrow> bool" where
  "empty_opt x = (case x of None \<Rightarrow> True | Some s \<Rightarrow> s = [])"

text \<open>
  \<open>validateAndNormalizeConfig\<close>: the configuration as it leaves it and the verdict.  The
  checks run in the order of the source and stop at the first failure; the world's part
  is \<open>validate_world\<close>.
\<close>

definition api_level_types :: "string list" where
  "api_level_types = [''default'', ''flat'', ''largeBiomes'', ''amplified'', ''buffet'']"

definition validate_world :: "string \<Rightarrow> pending_config \<Rightarrow> pending_config \<times> bool" where
  "validate_world source c =
     (let gen_missing = empty_opt (pc_BackupGen c);
          c1 = (if gen_missing \<and> source = ''new-world'' then c\<lparr>pc_BackupGen := None\<rparr> else c)
      in if gen_missing \<and> source \<noteq> ''new-world'' then (c, False)
         else if source = ''new-world'' then
           (if (case pc_LevelType c1 of None \<Rightarrow> False | Some t \<Rightarrow> \<not> slices_contains api_level_types t)
            then (c1\<lparr>pc_LevelType := None\<rparr>, False)
            else (c1\<lparr>pc_Seed := (if pc_Seed c1 = Some [] then None else pc_Seed c1)\<rparr>, True))
         else (c1\<lparr>pc_LevelType := None, pc_Seed := None\<rparr>, True))"

definition validateAndNormalizeConfig :: "pending_config \<Rightarrow> pending_config \<times> bool" where
  "validateAndNormalizeConfig c =
     (if (case pc_MachineType c of None \<Rightarrow> True | Some t \<Rightarrow> \<not> slices_contains machine_types t)
      then (c\<lparr>pc_MachineType := None\<rparr>, False)
      else if empty_opt (pc_ServerVersion c) then (c\<lparr>pc_ServerVersion := None\<rparr>, False)
      else
        let c1 = (if pc_GuessVersion c = None then c\<lparr>pc_GuessVersion := Some False\<rparr> else c) in
        case pc_WorldSource c1 of
          None \<Rightarrow> (c1, False)
        | Some source \<Rightarrow>
            if \<not> slices_contains [''backups'', ''new-world''] source then (c1\<lparr>pc_WorldSource := None\<rparr>, False)
            else (case pc_WorldName c1 of
                None \<Rightarrow> (c1, False)
              | Some name \<Rightarrow>
                  if name = [] then (c1\<lparr>pc_WorldName := None\<rparr>, False)
                  else validate_world source c1))"

text \<open>
  \<open>convertToLaunchConfig\<close> once the server information is there: the world and the optional
  settings.
\<close>

definition convert_world :: "pending_config \<Rightarrow> launch_config \<Rightarrow> launch_config res" where
  "convert_world config result =
     (if pc_WorldSource config = Some ''backups'' then
        (case (pc_WorldName config, pc_BackupGen config) of
           (Some n, Some g) \<Rightarrow> SetWorld n g result
         | _ \<Rightarrow> Err (Msg ''both worldName and backupGen must be set if worldSource is backups''))
      else
        (case pc_WorldName config of
           None \<Rightarrow> Err (Msg ''world name is not set'')
         | Some n \<Rightarrow>
             if n = [] then Err (Msg ''world name is not set'')
             else SetLevelType (case pc_LevelType config of None \<Rightarrow> ''default'' | Some t \<Rightarrow> t)
                    (GenerateWorld n (case pc_Seed config of None \<Rightarrow> [] | Some s \<Rightarrow> s) result)))"

text \<open>\<open>metricExportIntervalSec * 1000\<close> wraps around in 64 bits.\<close>

definition mul64 :: "int \<Rightarrow> int \<Rightarrow> int" where
  "mul64 a b = to_signed 64 (nat ((a * b) mod 2 ^ 64))"

definition convert_rest :: "cp_config \<Rightarrow> pending_config \<Rightarrow> launch_config \<Rightarrow> launch_config" where
  "convert_rest cfg config result =
     (let r1 = (case pc_ServerPropOverride config of None \<Rightarrow> result
                | Some m \<Rightarrow> on_server (\<lambda>s. s\<lparr>ls_ServerPropOverride := m\<rparr>) result);
          r2 = (case pc_Motd config of None \<Rightarrow> r1 | Some m \<Rightarrow> SetMotd m r1);
          r3 = SetWhitelist (cfg_Whitelist cfg) (SetOperators (cfg_Operators cfg) r2)
      in case pc_OtlpEndpoint config of
           None \<Rightarrow> r3
         | Some e \<Rightarrow> r3\<lparr>lc_Observability :=
             \<lparr>lo_OtlpEndpoint = e,
              lo_MetricExportIntervalMs =
                mul64 (case pc_MetricExportIntervalSec config of None \<Rightarrow> 10 | Some n \<Rightarrow> n) 1000\<rparr>\<rparr>)"

definition convertToLaunchConfig :: "'w mcversions \<Rightarrow> cp_config \<Rightarrow> pending_config \<Rightarrow> ('w, launch_config) io" where
  "convertToLaunchConfig mcv cfg config =
     (case pc_ServerVersion config of
        None \<Rightarrow> io_err (Msg ''server version is not set'')
      | Some version \<Rightarrow>
        if version = [] then io_err (Msg ''server version is not set'')
        else (case pc_MachineType config of
          None \<Rightarrow> io_err (Msg ''machine type is not set'')
        | Some mt \<Rightarrow>
          io_bind (GetServerInfo mcv version) (\<lambda>info.
          case pc_GuessVersion config of
            None \<Rightarrow> io_panic ''invalid memory address or nil pointer dereference''
          | Some guess \<Rightarrow>
            (let r0 = gameconfig_New\<lparr>lc_MachineType := mt\<rparr>;
                 r1 = SetDetectServerVersion guess (SetServer version (si_DownloadURL info) r0);
                 r2 = on_server (\<lambda>s. s\<lparr>ls_ManifestOverride := mv_overridenURL mcv,
                        ls_CustomCommand := si_LaunchCommand info, ls_JavaVersion := si_JavaVersion info,
                        ls_InactiveTimeout := (case pc_InactiveTimeout config of None \<Rightarrow> -1 | Some t \<Rightarrow> t)\<rparr>) r1
             in io_lift (map_res (convert_rest cfg config) (convert_world config r2))))))"

section \<open>Properties\<close>

named_theorems valid_simps

text \<open>The lists of the handler and of the launch configuration agree.\<close>

lemma api_level_types_valid: "slices_contains api_level_types t = isValidLevelType t"
  by (simp add: api_level_types_def isValidLevelType_def)

lemmas validate_defs = validateAndNormalizeConfig_def validate_world_def api_level_types_valid

text \<open>What a valid configuration has.\<close>

lemma valid_config:
  assumes "validateAndNormalizeConfig c = (c', True)"
  obtains mt v g src n where
    "pc_MachineType c' = Some mt" "mt \<in> set machine_types"
    "pc_ServerVersion c' = Some v" "v \<noteq> []" "pc_GuessVersion c' = Some g"
    "pc_WorldSource c' = Some src" "src = ''backups'' \<or> src = ''new-world''"
    "pc_WorldName c' = Some n" "n \<noteq> []"
    "src = ''backups'' \<Longrightarrow> \<not> empty_opt (pc_BackupGen c')"
    "src = ''new-world'' \<Longrightarrow> pred_option isValidLevelType (pc_LevelType c')"
proof -
  from assms obtain mt where mt: "pc_MachineType c = Some mt" "mt \<in> set machine_types"
    by (auto simp: validateAndNormalizeConfig_def slices_contains_def split: option.splits if_splits)
  from assms mt obtain v where v: "pc_ServerVersion c = Some v" "v \<noteq> []"
    by (cases "pc_ServerVersion c") (auto simp: validateAndNormalizeConfig_def slices_contains_def empty_opt_def split: if_splits)
  define c1 where "c1 = (if pc_GuessVersion c = None then c\<lparr>pc_GuessVersion := Some False\<rparr> else c)"
  from assms mt v obtain src where src: "pc_WorldSource c1 = Some src" "src = ''backups'' \<or> src = ''new-world''"
    by (cases "pc_WorldSource c1")
      (auto simp: validateAndNormalizeConfig_def slices_contains_def empty_opt_def c1_def [symmetric] Let_def split: if_splits)
  from assms mt v src obtain n where n: "pc_WorldName c1 = Some n" "n \<noteq> []"
    by (cases "pc_WorldName c1")
      (auto simp: validateAndNormalizeConfig_def slices_contains_def empty_opt_def c1_def [symmetric] Let_def split: if_splits)
  from assms mt v src n have w: "validate_world src c1 = (c', True)"
    by (auto simp: validateAndNormalizeConfig_def slices_contains_def empty_opt_def c1_def [symmetric] Let_def)
  obtain g where g: "pc_GuessVersion c1 = Some g" by (cases "pc_GuessVersion c") (auto simp: c1_def)
  have same: "pc_MachineType c1 = pc_MachineType c" "pc_ServerVersion c1 = pc_ServerVersion c"
    by (simp_all add: c1_def)
  from w have keep: "pc_MachineType c' = pc_MachineType c1" "pc_ServerVersion c' = pc_ServerVersion c1"
      "pc_GuessVersion c' = pc_GuessVersion c1" "pc_WorldSource c' = pc_WorldSource c1" "pc_WorldName c' = pc_WorldName c1"
    by (auto simp: validate_world_def Let_def split: if_splits)
  from w have "src = ''backups'' \<Longrightarrow> \<not> empty_opt (pc_BackupGen c')"
    "src = ''new-world'' \<Longrightarrow> pred_option isValidLevelType (pc_LevelType c')"
    by (auto simp: validate_world_def api_level_types_valid Let_def split: if_splits option.splits)
  with keep same mt v src n g show thesis by (intro that [of mt v g src n]) auto
qed

lemma set_addToSlice: "set (foldl addToSlice xs ys) = set xs \<union> set ys"
  by (induction ys arbitrary: xs) (auto simp: addToSlice_def)

lemma SetOperators_eq:
  "SetOperators ops c = on_server (\<lambda>s. s\<lparr>ls_Operators := foldl addToSlice (ls_Operators s) ops,
     ls_Whitelist := foldl addToSlice (ls_Whitelist s) ops\<rparr>) c"
  by (induction ops rule: rev_induct) (simp_all add: SetOperators_def on_server_def)

lemma SetWhitelist_eq:
  "SetWhitelist wl c = on_server (\<lambda>s. s\<lparr>ls_Whitelist := foldl addToSlice (ls_Whitelist s) wl\<rparr>) c"
  by (induction wl rule: rev_induct) (simp_all add: SetWhitelist_def on_server_def)

lemma valid_config_converts_all:
  assumes "validateAndNormalizeConfig c = (c', True)"
    and "GetServerInfo mcv (the (pc_ServerVersion c')) w = (Ok info, w')"
  shows "\<exists>lc. convertToLaunchConfig mcv cfg c' w = (Ok lc, w')
    \<and> Some (lc_MachineType lc) = pc_MachineType c' \<and> lc_MachineType lc \<in> set machine_types
    \<and> Some (ls_Version (lc_Server lc)) = pc_ServerVersion c' \<and> Some (ls_PreferDetected (lc_Server lc)) = pc_GuessVersion c'
    \<and> ls_DownloadUrl (lc_Server lc) = si_DownloadURL info \<and> ls_CustomCommand (lc_Server lc) = si_LaunchCommand info
    \<and> ls_JavaVersion (lc_Server lc) = si_JavaVersion info
    \<and> set (ls_Operators (lc_Server lc)) = set (cfg_Operators cfg)
    \<and> set (ls_Whitelist (lc_Server lc)) = set (cfg_Operators cfg) \<union> set (cfg_Whitelist cfg)
    \<and> Some (lw_Name (lc_World lc)) = pc_WorldName c' \<and> lw_Name (lc_World lc) \<noteq> []
    \<and> (if pc_WorldSource c' = Some ''backups''
       then \<not> lw_ShouldGenerate (lc_World lc) \<and> Some (lw_GenerationID (lc_World lc)) = pc_BackupGen c'
       else lw_ShouldGenerate (lc_World lc) \<and> isValidLevelType (lw_LevelType (lc_World lc))
         \<and> lw_LevelType (lc_World lc) = (case pc_LevelType c' of None \<Rightarrow> ''default'' | Some t \<Rightarrow> t)
         \<and> lw_Seed (lc_World lc) = (case pc_Seed c' of None \<Rightarrow> [] | Some sd \<Rightarrow> sd))"
proof -
  obtain mt v g src n where c': "pc_MachineType c' = Some mt" "mt \<in> set machine_types"
    "pc_ServerVersion c' = Some v" "v \<noteq> []" "pc_GuessVersion c' = Some g"
    "pc_WorldSource c' = Some src" "src = ''backups'' \<or> src = ''new-world''"
    "pc_WorldName c' = Some n" "n \<noteq> []"
    and gen: "src = ''backups'' \<Longrightarrow> \<not> empty_opt (pc_BackupGen c')"
    and lt: "src = ''new-world'' \<Longrightarrow> pred_option isValidLevelType (pc_LevelType c')"
    using valid_config [OF assms(1)] by blast
  define r where "r = on_server (\<lambda>s. s\<lparr>ls_ManifestOverride := mv_overridenURL mcv,
      ls_CustomCommand := si_LaunchCommand info, ls_JavaVersion := si_JavaVersion info,
      ls_InactiveTimeout := (case pc_InactiveTimeout c' of None \<Rightarrow> -1 | Some t \<Rightarrow> t)\<rparr>)
      (SetDetectServerVersion g (SetServer v (si_DownloadURL info) (gameconfig_New\<lparr>lc_MachineType := mt\<rparr>)))"
  have conv: "convertToLaunchConfig mcv cfg c' w = (map_res (convert_rest cfg c') (convert_world c' r), w')"
    using assms(2) c' by (simp add: convertToLaunchConfig_def io_simps r_def)
  have rest: "lc_World (convert_rest cfg c' x) = lc_World x" "lc_MachineType (convert_rest cfg c' x) = lc_MachineType x"
    "ls_Version (lc_Server (convert_rest cfg c' x)) = ls_Version (lc_Server x)"
    "ls_PreferDetected (lc_Server (convert_rest cfg c' x)) = ls_PreferDetected (lc_Server x)"
    "ls_DownloadUrl (lc_Server (convert_rest cfg c' x)) = ls_DownloadUrl (lc_Server x)"
    "ls_CustomCommand (lc_Server (convert_rest cfg c' x)) = ls_CustomCommand (lc_Server x)"
    "ls_JavaVersion (lc_Server (convert_rest cfg c' x)) = ls_JavaVersion (lc_Server x)"
    "set (ls_Operators (lc_Server (convert_rest cfg c' x))) = set (ls_Operators (lc_Server x)) \<union> set (cfg_Operators cfg)"
    "set (ls_Whitelist (lc_Server (convert_rest cfg c' x))) =
       set (ls_Whitelist (lc_Server x)) \<union> set (cfg_Operators cfg) \<union> set (cfg_Whitelist cfg)" for x
    by (cases "pc_OtlpEndpoint c'"; cases "pc_Motd c'"; cases "pc_ServerPropOverride c'";
        simp add: convert_rest_def SetOperators_eq SetWhitelist_eq SetMotd_def on_server_def Let_def set_addToSlice)+
  have r: "lc_MachineType r = mt" "ls_Version (lc_Server r) = v" "lw_ShouldGenerate (lc_World r) = False"
    "ls_PreferDetected (lc_Server r) = g" "ls_DownloadUrl (lc_Server r) = si_DownloadURL info"
    "ls_CustomCommand (lc_Server r) = si_LaunchCommand info" "ls_JavaVersion (lc_Server r) = si_JavaVersion info"
    "ls_Operators (lc_Server r) = []" "ls_Whitelist (lc_Server r) = []"
    by (simp_all add: r_def on_server_def SetDetectServerVersion_def SetServer_def gameconfig_New_def
        on_world_def zero_launch_config_def)
  show ?thesis
  proof (cases "src = ''backups''")
    case True
    then obtain b where b: "pc_BackupGen c' = Some b" "b \<noteq> []"
      using gen by (auto simp: empty_opt_def split: option.splits)
    with True c' have "convert_world c' r = Ok (on_world (\<lambda>w. w\<lparr>lw_Name := n, lw_GenerationID := b\<rparr>) r)"
      by (simp add: convert_world_def SetWorld_def)
    with conv rest r c' b True show ?thesis by (simp add: on_world_def)
  next
    case False
    with c' have nw: "src = ''new-world''" by simp
    define t where "t = (case pc_LevelType c' of None \<Rightarrow> ''default'' | Some t \<Rightarrow> t)"
    have "isValidLevelType ''default''" by (simp add: isValidLevelType_def slices_contains_def)
    with lt [OF nw] have t: "isValidLevelType t" by (cases "pc_LevelType c'") (simp_all add: t_def)
    with nw c' have "convert_world c' r = Ok (on_world (\<lambda>w. w\<lparr>lw_LevelType := t\<rparr>)
        (GenerateWorld n (case pc_Seed c' of None \<Rightarrow> [] | Some s \<Rightarrow> s) r))"
      by (simp add: convert_world_def SetLevelType_def t_def)
    with conv rest r c' t nw show ?thesis by (simp add: on_world_def GenerateWorld_def t_def [symmetric])
  qed
qed

text \<open>
  Property C3: a configuration that is called valid can be launched.  If the validation accepts
  a configuration, then for the normalised configuration the conversion to a launch
  configuration succeeds whenever the version's server information is found.  The result has the
  configuration's machine type, version and choice of detection, what was found of the version, the
  operators (who are on the whitelist too) and the whitelist, and the configuration's world: an
  existing backup, or a new world with its seed and its level type, which is one the game knows.
\<close>

theorem valid_config_converts:
  assumes "validateAndNormalizeConfig c = (c', True)"
    and "GetServerInfo mcv (the (pc_ServerVersion c')) w = (Ok info, w')"
  shows "\<exists>lc. convertToLaunchConfig mcv cfg c' w = (Ok lc, w')
    \<and> Some (lc_MachineType lc) = pc_MachineType c' \<and> lc_MachineType lc \<in> set machine_types
    \<and> Some (ls_Version (lc_Server lc)) = pc_ServerVersion c' \<and> Some (ls_PreferDetected (lc_Server lc)) = pc_GuessVersion c'
    \<and> ls_DownloadUrl (lc_Server lc) = si_DownloadURL info \<and> ls_CustomCommand (lc_Server lc) = si_LaunchCommand info
    \<and> ls_JavaVersion (lc_Server lc) = si_JavaVersion info
    \<and> set (ls_Operators (lc_Server lc)) = set (cfg_Operators cfg)
    \<and> set (ls_Whitelist (lc_Server lc)) = set (cfg_Operators cfg) \<union> set (cfg_Whitelist cfg)
    \<and> Some (lw_Name (lc_World lc)) = pc_WorldName c' \<and> lw_Name (lc_World lc) \<noteq> []
    \<and> (if pc_WorldSource c' = Some ''backups''
       then \<not> lw_ShouldGenerate (lc_World lc) \<and> Some (lw_GenerationID (lc_World lc)) = pc_BackupGen c'
       else lw_ShouldGenerate (lc_World lc) \<and> isValidLevelType (lw_LevelType (lc_World lc))
         \<and> lw_LevelType (lc_World lc) = (case pc_LevelType c' of None \<Rightarrow> ''default'' | Some t \<Rightarrow> t)
         \<and> lw_Seed (lc_World lc) = (case pc_Seed c' of None \<Rightarrow> [] | Some sd \<Rightarrow> sd))"
  using valid_config_converts_all [OF assms, of cfg] by blast

definition demo_config :: pending_config where
  "demo_config = zero_pending_config\<lparr>pc_MachineType := Some ''4g'', pc_ServerVersion := Some ''1.21'',
     pc_WorldSource := Some ''new-world'', pc_WorldName := Some ''w''\<rparr>"

definition demo_mcv :: "version_manifest mcversions" where
  "demo_mcv = \<lparr>mv_http = (\<lambda>url m. (Ok (200, JObj []), m)), mv_url = [],
     mv_kvs = \<lparr>st_Set = (\<lambda>k v t w. (Ok (), w)), st_Get = (\<lambda>k m. (Ok (enc_Manifest m), m)),
       st_GetSet = (\<lambda>k v t w. (Err RedisNil, w)), st_Del = (\<lambda>ks w. (Ok (), w))\<rparr>, mv_overridenURL = []\<rparr>"

lemma demo_info: "GetServerInfo demo_mcv ''1.21'' demo_manifest =
    (Ok \<lparr>si_DownloadURL = [], si_LaunchCommand = [], si_JavaVersion = 0\<rparr>, demo_manifest)"
proof -
  have "kvs_Get (mv_kvs demo_mcv) versions_key dec_Manifest zero_manifest demo_manifest = (Ok demo_manifest, demo_manifest)"
    by (simp add: kvs_Get_def demo_mcv_def io_bind_def io_lift_def dec_enc_Manifest)
  then have "GetVersions demo_mcv demo_manifest = (Ok (vm_Versions demo_manifest), demo_manifest)"
    by (simp add: GetVersions_def cached_manifest_def io_bind_def io_try_def io_ret_def)
  then show ?thesis
    by (simp add: GetServerInfo_def io_bind_def io_ret_def io_lift_def demo_manifest_def GetVersionMetaData_def demo_mcv_def
        dec_VersionMeta_def dec_struct_def zero_version_meta_def)
qed

lemma valid_config_converts_witness:
  "\<exists>lc w'. convertToLaunchConfig demo_mcv \<lparr>cfg_ConohaUser = [], cfg_ConohaPassword = [], cfg_ConohaTenantID = [],
      cfg_ConohaNameTag = [], cfg_S3Bucket = [], cfg_Operators = [''op''], cfg_Whitelist = [], cfg_Origin = [],
      cfg_GameDomain = [], cfg_IconURL = []\<rparr>
      (fst (validateAndNormalizeConfig demo_config)) demo_manifest = (Ok lc, w') \<and> lc_MachineType lc = ''4g''
      \<and> ls_Version (lc_Server lc) = ''1.21'' \<and> set (ls_Whitelist (lc_Server lc)) = {''op''}
      \<and> lw_Name (lc_World lc) = ''w'' \<and> lw_LevelType (lc_World lc) = ''default''"
proof -
  have v: "validateAndNormalizeConfig demo_config = (demo_config\<lparr>pc_GuessVersion := Some False\<rparr>, True)"
    by (simp add: validateAndNormalizeConfig_def validate_world_def demo_config_def zero_pending_config_def machine_types_def
        slices_contains_def empty_opt_def)
  have i: "GetServerInfo demo_mcv (the (pc_ServerVersion (demo_config\<lparr>pc_GuessVersion := Some False\<rparr>))) demo_manifest =
      (Ok \<lparr>si_DownloadURL = [], si_LaunchCommand = [], si_JavaVersion = 0\<rparr>, demo_manifest)"
    using demo_info by (simp add: demo_config_def)
  show ?thesis
    using valid_config_converts [OF v i, of "\<lparr>cfg_ConohaUser = [], cfg_ConohaPassword = [], cfg_ConohaTenantID = [],
      cfg_ConohaNameTag = [], cfg_S3Bucket = [], cfg_Operators = [''op''], cfg_Whitelist = [], cfg_Origin = [],
      cfg_GameDomain = [], cfg_IconURL = []\<rparr>"] v
    by (elim exE conjE) (simp add: demo_config_def zero_pending_config_def)
qed

lemma validate_world_keeps:
  "pc_MachineType (fst (validate_world src d)) = pc_MachineType d"
  "pc_ServerVersion (fst (validate_world src d)) = pc_ServerVersion d"
  "pc_GuessVersion (fst (validate_world src d)) = pc_GuessVersion d"
  "pc_WorldSource (fst (validate_world src d)) = pc_WorldSource d"
  "pc_WorldName (fst (validate_world src d)) = pc_WorldName d"
  by (simp_all add: validate_world_def Let_def)

lemma empty_opt_None [simp]: "empty_opt None"
  by (simp add: empty_opt_def)

lemma validate_world_again:
  "snd (validate_world src d) \<Longrightarrow> validate_world src (fst (validate_world src d)) = validate_world src d"
  "validate_world src (fst (validate_world src (fst (validate_world src d)))) =
     validate_world src (fst (validate_world src d))"
  by (cases "empty_opt (pc_BackupGen d)"; cases "src = ''new-world''"; cases "pc_LevelType d";
      cases "slices_contains api_level_types (the (pc_LevelType d))"; cases "pc_Seed d = Some []";
      simp add: validate_world_def Let_def)+

text \<open>
  Normalising again.  A configuration that was found valid is a fixed point of
  the validation and stays valid; any configuration is one after two rounds (a rejected
  level type is removed in the first round, which the second accepts).
\<close>

lemma validate_idempotent:
  "(snd (validateAndNormalizeConfig c) \<longrightarrow>
      validateAndNormalizeConfig (fst (validateAndNormalizeConfig c)) = validateAndNormalizeConfig c)
   \<and> validateAndNormalizeConfig (fst (validateAndNormalizeConfig (fst (validateAndNormalizeConfig c))))
     = validateAndNormalizeConfig (fst (validateAndNormalizeConfig c))"
  by (cases "pc_MachineType c"; cases "pc_GuessVersion c"; cases "pc_WorldSource c"; cases "pc_WorldName c")
    (simp_all add: validateAndNormalizeConfig_def Let_def validate_world_keeps validate_world_again)

lemma map_res_Panic: "map_res f r = Panic p \<longleftrightarrow> r = Panic p"
  by (cases r) simp_all

lemma normalized_has_guess:
  assumes "pc_MachineType (fst (validateAndNormalizeConfig c)) \<noteq> None"
    and "\<not> empty_opt (pc_ServerVersion (fst (validateAndNormalizeConfig c)))"
  shows "pc_GuessVersion (fst (validateAndNormalizeConfig c)) \<noteq> None"
  using assms
  by (cases "pc_MachineType c"; cases "pc_GuessVersion c"; cases "pc_WorldSource c"; cases "pc_WorldName c")
    (auto simp: validateAndNormalizeConfig_def Let_def validate_world_keeps split: if_splits)

text \<open>
  A stored configuration never crashes a launch.  For a normalised configuration,
  valid or not, the conversion dereferences no nil pointer: it panics only if the lookup
  of the version does.
\<close>

lemma normalized_never_panics:
  assumes "\<And>v. \<forall>p. fst (GetServerInfo mcv v w) \<noteq> Panic p"
  shows "fst (convertToLaunchConfig mcv cfg (fst (validateAndNormalizeConfig c)) w) \<noteq> Panic p"
proof -
  let ?c = "fst (validateAndNormalizeConfig c)"
  have cw: "convert_world d r \<noteq> Panic p" for d r
    by (simp add: convert_world_def SetWorld_def SetLevelType_def split: option.split)
  show ?thesis
  proof (cases "empty_opt (pc_ServerVersion ?c) \<or> pc_MachineType ?c = None")
    case True
    then show ?thesis
      by (cases "pc_ServerVersion ?c"; cases "pc_MachineType ?c")
        (simp_all add: convertToLaunchConfig_def empty_opt_def io_run)
  next
    case False
    then obtain v mt where v: "pc_ServerVersion ?c = Some v" "v \<noteq> []" "pc_MachineType ?c = Some mt"
      by (cases "pc_ServerVersion ?c") (auto simp: empty_opt_def)
    from normalized_has_guess [of c] False obtain gv where gv: "pc_GuessVersion ?c = Some gv" by auto
    obtain r w' where i: "GetServerInfo mcv v w = (r, w')" by (cases "GetServerInfo mcv v w")
    with assms [of v] have "r \<noteq> Panic p" by simp
    with v gv i cw show ?thesis
      by (cases r) (simp_all add: convertToLaunchConfig_def io_bind_def io_lift_def Let_def map_res_Panic)
  qed
qed

end
