(* ===== verification/Proxy.thy ===== *)
theory Proxy
  imports Protocol Conoha Messaging GameConfig
begin

text \<open>
  \<open>src/backend/ctrlplane/common/proxy/proxy.go\<close>: players connect to the proxy, which asks the
  runner for a connection (the connector) and joins the two, or answers as a server that is
  offline.  What one connection does in order is \<open>handle_start\<close> and \<open>handleDummyServer\<close>; how
  connections, connectors, the pool and its mutex interleave is the step relation
  \<open>proxy_step\<close>.  Copying the bytes, certificates and deadlines are left out.
\<close>

section \<open>One connection\<close>

datatype conn_decision = Refuse go_error | Dummy | Forward

text \<open>After the handshake: \<open>running\<close> is false when the key cannot be read.\<close>

definition proxy_decide :: "cp_config \<Rightarrow> bool \<Rightarrow> handshake \<Rightarrow> conn_decision" where
  "proxy_decide cfg running hs =
     (if hs_ServerAddr hs \<noteq> cfg_GameDomain cfg \<or> \<not> running then
        (if hs_NextState hs \<noteq> 1 then Refuse (Msg (''unknown server: '' @ hs_ServerAddr hs)) else Dummy)
      else Forward)"

definition get_running :: "'w store \<Rightarrow> ('w, bool) io" where
  "get_running kvs =
     io_bind (io_try (kvs_Get kvs ''running'' dec_bool False)) (\<lambda>r.
     io_ret (case r of Ok b \<Rightarrow> b | _ \<Rightarrow> False))"

definition handle_start :: "cp_config \<Rightarrow> 'w store \<Rightarrow> mc_handler \<Rightarrow> ('w, conn_decision \<times> mc_handler) io" where
  "handle_start cfg kvs h =
     (case ReadHandshake h of
        (Err e, h1) \<Rightarrow> io_ret (Refuse (Wrapped ''handshake error'' e), h1)
      | (Panic p, h1) \<Rightarrow> io_panic p
      | (Ok hs, h1) \<Rightarrow> io_bind (get_running kvs) (\<lambda>running. io_ret (proxy_decide cfg running hs, h1)))"

text \<open>The action that asks the runner for a connection.\<close>

definition conn_request :: "string \<Rightarrow> string \<Rightarrow> string \<Rightarrow> action" where
  "conn_request connID endpoint cert = zero_action\<lparr>ac_Type := action_type_name ActionConnReq,
     ac_ConnReq := Some \<lparr>cr_ConnectionID = connID, cr_Endpoint = endpoint, cr_ServerCert = cert\<rparr>\<rparr>"

section \<open>The offline server\<close>

definition proxy_colors :: string where "proxy_colors = ''1234569abcdeg''"

text \<open>The section sign is two bytes in UTF-8.\<close>

definition section_sign :: string where "section_sign = [CHR 0xC2, CHR 0xA7]"

definition offline_text :: "char \<Rightarrow> string \<Rightarrow> string" where
  "offline_text color addr =
     section_sign @ [color] @ ''Server '' @ section_sign @ ''o'' @ [CHR 0x22] @ addr @ [CHR 0x22]
     @ section_sign @ ''r'' @ section_sign @ [color] @ '' is offline''"

text \<open>\<open>retrieveFavicon\<close>: the body of the response, whatever its status.\<close>

definition retrieveFavicon :: "string res \<Rightarrow> string res" where
  "retrieveFavicon body = map_res (\<lambda>d. ''data:image/png;base64,'' @ base64_raw d) body"

definition offline_status :: "cp_config \<Rightarrow> nat \<Rightarrow> string res \<Rightarrow> handshake \<Rightarrow> status" where
  "offline_status cfg raw icon hs =
     \<lparr>st_VersionName = ''0.0.0+proxy'', st_Protocol = hs_Version hs, st_Max = 0, st_Online = 0, st_Sample = [],
      st_Text = offline_text (proxy_colors ! (raw mod length proxy_colors)) (hs_ServerAddr hs),
      st_Favicon = (if hs_ServerAddr hs = cfg_GameDomain cfg \<and> cfg_IconURL cfg \<noteq> [] then
          (case retrieveFavicon icon of Ok f \<Rightarrow> Some f | _ \<Rightarrow> None) else None),
      st_EnforcesSecureChat = True, st_PreviewsChat = None, st_CustomData = None\<rparr>"

definition handleDummyServer :: "cp_config \<Rightarrow> nat \<Rightarrow> string res \<Rightarrow> handshake \<Rightarrow> (mc_handler, unit) io" where
  "handleDummyServer cfg raw icon hs =
     io_bind ReadStatusRequest (\<lambda>_.
     io_bind (WriteStatus (Ok (bytes_of_string (json_text (enc_Status (offline_status cfg raw icon hs)))))) (\<lambda>_.
     HandlePingPong))"

section \<open>Connections, connectors and the pool\<close>

text \<open>
  A player's connection, under the identifier of its request: it waits in the \<open>select\<close>
  for the connector or the timer, serves as the offline server, is about to run its
  deferred removal from the pool, has received a connector, is joined, or is gone.
\<close>

datatype conn_phase = HWaiting | HDummy | HLeaving | HMatched | HJoined | HGone

text \<open>
  A connector that presented an identifier: before it takes the mutex, blocked in the send
  while it holds the mutex, handed over, asleep without having found a channel, closed.
\<close>

datatype connector_phase = CArrived | CSending | CHandedOver | CAsleep | CClosed

record proxy_state =
  px_lock :: bool
  px_pool :: "string set"
  px_conns :: "string \<Rightarrow> conn_phase option"
  px_connectors :: "(string \<times> connector_phase) list"

definition proxy_init :: proxy_state where
  "proxy_init = \<lparr>px_lock = False, px_pool = {}, px_conns = Map.empty, px_connectors = []\<rparr>"

definition set_conn :: "string \<Rightarrow> conn_phase \<Rightarrow> proxy_state \<Rightarrow> proxy_state" where
  "set_conn i p s = s\<lparr>px_conns := (px_conns s)(i \<mapsto> p)\<rparr>"

definition set_connector :: "nat \<Rightarrow> string \<Rightarrow> connector_phase \<Rightarrow> proxy_state \<Rightarrow> proxy_state" where
  "set_connector c i p s = s\<lparr>px_connectors := (px_connectors s)[c := (i, p)]\<rparr>"

text \<open>\<open>connector s c i p\<close>: connector \<open>c\<close> presented \<open>i\<close> and is in phase \<open>p\<close>.\<close>

definition connector :: "proxy_state \<Rightarrow> nat \<Rightarrow> string \<Rightarrow> connector_phase \<Rightarrow> bool" where
  "connector s c i p \<longleftrightarrow> c < length (px_connectors s) \<and> px_connectors s ! c = (i, p)"

text \<open>The connector takes the mutex, finds the channel in the pool and starts its send.\<close>

definition take_and_send :: "nat \<Rightarrow> string \<Rightarrow> proxy_state \<Rightarrow> proxy_state" where
  "take_and_send c i s = set_connector c i CSending s\<lparr>px_lock := True\<rparr>"

declare take_and_send_def [simp]

text \<open>
  \<open>status i\<close> tells whether connection \<open>i\<close> asked for the status (next state 1).  The channel is
  unbuffered: a hand-over needs the connector in its send and the connection in its select.
  The send is made with the mutex held.
\<close>

inductive proxy_step :: "(string \<Rightarrow> bool) \<Rightarrow> proxy_state \<Rightarrow> proxy_state \<Rightarrow> bool" for status where
  register: "\<not> px_lock s \<Longrightarrow> px_conns s i = None
    \<Longrightarrow> proxy_step status s (set_conn i HWaiting s\<lparr>px_pool := insert i (px_pool s)\<rparr>)"
| timeout: "px_conns s i = Some HWaiting
    \<Longrightarrow> proxy_step status s (set_conn i (if status i then HDummy else HLeaving) s)"
| dummy_done: "px_conns s i = Some HDummy \<Longrightarrow> proxy_step status s (set_conn i HLeaving s)"
| leave: "px_conns s i = Some HLeaving \<Longrightarrow> \<not> px_lock s
    \<Longrightarrow> proxy_step status s (set_conn i HGone s\<lparr>px_pool := px_pool s - {i}\<rparr>)"
| arrive: "proxy_step status s (s\<lparr>px_connectors := px_connectors s @ [(i, CArrived)]\<rparr>)"
| not_found: "connector s c i CArrived \<Longrightarrow> \<not> px_lock s \<Longrightarrow> i \<notin> px_pool s
    \<Longrightarrow> proxy_step status s (set_connector c i CAsleep s)"
| send: "connector s c i CArrived \<Longrightarrow> \<not> px_lock s \<Longrightarrow> i \<in> px_pool s
    \<Longrightarrow> proxy_step status s (take_and_send c i s)"
| hand_over: "connector s c i CSending \<Longrightarrow> px_conns s i = Some HWaiting
    \<Longrightarrow> proxy_step status s (set_conn i HMatched (set_connector c i CHandedOver s\<lparr>px_lock := False\<rparr>))"
| matched: "px_conns s i = Some HMatched \<Longrightarrow> \<not> px_lock s
    \<Longrightarrow> proxy_step status s (set_conn i HJoined s\<lparr>px_pool := px_pool s - {i}\<rparr>)"
| joined_done: "px_conns s i = Some HJoined \<Longrightarrow> proxy_step status s (set_conn i HLeaving s)"
| expire: "connector s c i CAsleep \<Longrightarrow> proxy_step status s (set_connector c i CClosed s)"


inductive_cases proxy_stepE: "proxy_step status s s'"

lemma connector_set_conn [simp]: "connector (set_conn i p s) = connector s"
  by (simp add: connector_def set_conn_def fun_eq_iff)

lemma connector_updates [simp]:
  "connector (s\<lparr>px_pool := P\<rparr>) = connector s" "connector (s\<lparr>px_lock := b\<rparr>) = connector s"
  by (simp_all add: connector_def fun_eq_iff)

lemma set_conn_simps [simp]:
  "px_lock (set_conn i p s) = px_lock s" "px_pool (set_conn i p s) = px_pool s"
  "px_conns (set_conn i p s) = (px_conns s)(i \<mapsto> p)"
  by (simp_all add: set_conn_def)

lemma set_connector_simps [simp]:
  "px_lock (set_connector c i p s) = px_lock s" "px_pool (set_connector c i p s) = px_pool s"
  "px_conns (set_connector c i p s) = px_conns s"
  by (simp_all add: set_connector_def)

lemma connector_set_connector:
  assumes "connector s c i q"
  shows "connector (set_connector c i p s) c' i' p' \<longleftrightarrow> (if c' = c then i' = i \<and> p' = p else connector s c' i' p')"
  using assms by (auto simp: connector_def set_connector_def nth_list_update)

lemma connector_arrive:
  "connector (s\<lparr>px_connectors := px_connectors s @ [(i, CArrived)]\<rparr>) c' i' p' \<longleftrightarrow>
     connector s c' i' p' \<or> c' = length (px_connectors s) \<and> i' = i \<and> p' = CArrived"
  by (auto simp: connector_def nth_append)

lemma connector_inj: "connector s c i p \<Longrightarrow> connector s c i' p' \<Longrightarrow> i' = i \<and> p' = p"
  by (auto simp: connector_def)

lemmas proxy_simps = connector_set_connector connector_arrive fun_upd_apply

section \<open>Who is joined with whom\<close>

text \<open>
  The mutex is held exactly while one connector is in its send.
\<close>

definition mutex_inv :: "proxy_state \<Rightarrow> bool" where
  "mutex_inv s \<longleftrightarrow> (px_lock s \<longleftrightarrow> (\<exists>c i. connector s c i CSending))
     \<and> (\<forall>c i c' i'. connector s c i CSending \<longrightarrow> connector s c' i' CSending \<longrightarrow> c' = c)"

text \<open>Connections that may own a connector, and those that do.\<close>

definition may_own :: "conn_phase option \<Rightarrow> bool" where
  "may_own p \<longleftrightarrow> p \<in> Some ` {HMatched, HJoined, HLeaving, HGone}"

definition owns :: "conn_phase option \<Rightarrow> bool" where
  "owns p \<longleftrightarrow> p \<in> Some ` {HMatched, HJoined}"

definition owner_inv :: "proxy_state \<Rightarrow> bool" where
  "owner_inv s \<longleftrightarrow>
     (\<forall>c c' i. connector s c i CHandedOver \<longrightarrow> connector s c' i CHandedOver \<longrightarrow> c' = c)
   \<and> (\<forall>c i. connector s c i CHandedOver \<longrightarrow> may_own (px_conns s i))
   \<and> (\<forall>i. owns (px_conns s i) \<longrightarrow> (\<exists>c. connector s c i CHandedOver))"

text \<open>A connection that waits is in the pool, one that is joined or gone is not.\<close>

definition pool_inv :: "proxy_state \<Rightarrow> bool" where
  "pool_inv s \<longleftrightarrow> (\<forall>i. px_conns s i \<in> Some ` {HWaiting, HMatched} \<longrightarrow> i \<in> px_pool s)
   \<and> (\<forall>i \<in> px_pool s. px_conns s i \<in> Some ` {HWaiting, HDummy, HMatched, HLeaving})"

lemma owner_simps [simp]:
  "may_own (Some HMatched)" "may_own (Some HJoined)" "may_own (Some HLeaving)" "may_own (Some HGone)"
  "\<not> may_own None" "\<not> may_own (Some HWaiting)" "\<not> may_own (Some HDummy)"
  "owns (Some HMatched)" "owns (Some HJoined)" "\<not> owns None"
  "\<not> owns (Some HWaiting)" "\<not> owns (Some HDummy)" "\<not> owns (Some HLeaving)" "\<not> owns (Some HGone)"
  by (auto simp: may_own_def owns_def)

lemma owned_not_waiting [simp]:
  assumes "owner_inv s" and "connector s c i CHandedOver"
  shows "px_conns s i \<noteq> None" "px_conns s i \<noteq> Some HWaiting" "px_conns s i \<noteq> Some HDummy"
proof -
  have "may_own (px_conns s i)" using assms unfolding owner_inv_def by blast
  then show "px_conns s i \<noteq> None" "px_conns s i \<noteq> Some HWaiting" "px_conns s i \<noteq> Some HDummy"
    by (auto simp: may_own_def)
qed

lemma connector_sending_step:
  assumes "proxy_step status s s'"
  shows "(\<exists>c i. \<not> px_lock s \<and> px_lock s' \<and> (\<forall>c' i'. connector s' c' i' CSending \<longleftrightarrow> (if c' = c then i' = i else connector s c' i' CSending)))
       \<or> (\<exists>c i. connector s c i CSending \<and> \<not> px_lock s' \<and> (\<forall>c' i'. connector s' c' i' CSending \<longleftrightarrow> c' \<noteq> c \<and> connector s c' i' CSending))
       \<or> px_lock s' = px_lock s \<and> (\<forall>c i. connector s' c i CSending = connector s c i CSending)"
  using assms
proof (cases rule: proxy_step.cases)
  case (send c i)
  then show ?thesis by (intro disjI1 exI [of _ c] exI [of _ i]) (simp add: proxy_simps)
next
  case (hand_over c i)
  then show ?thesis by (intro disjI2 disjI1 exI [of _ c] exI [of _ i]) (auto simp: proxy_simps)
qed (auto simp: proxy_simps dest: connector_inj)

lemma mutex_inv_step: "proxy_step status s s' \<Longrightarrow> mutex_inv s \<Longrightarrow> mutex_inv s'"
  by (drule connector_sending_step) (elim disjE exE conjE; auto simp: mutex_inv_def split: if_splits; blast)

lemma pool_inv_step: "proxy_step status s s' \<Longrightarrow> pool_inv s \<Longrightarrow> pool_inv s'"
  by (erule proxy_step.cases) (auto simp: pool_inv_def)

lemma connector_handed_step:
  assumes "proxy_step status s s'"
  shows "(\<exists>i c. connector s c i CSending \<and> px_conns s i = Some HWaiting \<and>
            s' = set_conn i HMatched (set_connector c i CHandedOver s\<lparr>px_lock := False\<rparr>))
       \<or> (\<forall>c i. connector s' c i CHandedOver = connector s c i CHandedOver)
         \<and> (\<forall>i. (may_own (px_conns s i) \<longrightarrow> may_own (px_conns s' i)) \<and> (owns (px_conns s' i) \<longrightarrow> owns (px_conns s i)))"
  using assms
  by (cases rule: proxy_step.cases) (auto simp: proxy_simps dest: connector_inj)

lemma owner_inv_step:
  assumes "proxy_step status s s'" and "owner_inv s"
  shows "owner_inv s'"
  using connector_handed_step [OF assms(1)]
proof (elim disjE exE conjE)
  fix i c
  assume c: "connector s c i CSending" and w: "px_conns s i = Some HWaiting"
    and s': "s' = set_conn i HMatched (set_connector c i CHandedOver s\<lparr>px_lock := False\<rparr>)"
  have h: "connector s' c' i' CHandedOver \<longleftrightarrow> (if c' = c then i' = i else connector s c' i' CHandedOver)" for c' i'
    using c by (simp add: s' proxy_simps)
  have "\<not> connector s c' i CHandedOver" for c'
    using assms(2) w by auto
  moreover have "\<not> connector s c i' CHandedOver" for i'
    using connector_inj [OF c] by blast
  moreover have "px_conns s' j = (if j = i then Some HMatched else px_conns s j)" for j by (simp add: s')
  ultimately show ?thesis using assms(2) unfolding owner_inv_def h by (auto split: if_splits; metis)
next
  assume "\<forall>c i. connector s' c i CHandedOver = connector s c i CHandedOver"
    and "\<forall>i. (may_own (px_conns s i) \<longrightarrow> may_own (px_conns s' i)) \<and> (owns (px_conns s' i) \<longrightarrow> owns (px_conns s i))"
  then show ?thesis using assms(2) unfolding owner_inv_def by blast
qed

lemma proxy_reachable:
  assumes "(proxy_step status)\<^sup>*\<^sup>* proxy_init s"
  shows "mutex_inv s \<and> owner_inv s \<and> pool_inv s"
  using assms
proof (induction rule: rtranclp_induct)
  case base
  show ?case by (simp add: mutex_inv_def owner_inv_def pool_inv_def proxy_init_def connector_def)
next
  case (step s s')
  then show ?case by (blast intro: mutex_inv_step owner_inv_step pool_inv_step)
qed

section \<open>The mutex held in the send\<close>

text \<open>Connector \<open>c\<close> holds the mutex in its send to connection \<open>i\<close>, which stopped listening.\<close>

definition stuck_on :: "nat \<Rightarrow> string \<Rightarrow> proxy_state \<Rightarrow> bool" where
  "stuck_on c i s \<longleftrightarrow> mutex_inv s \<and> connector s c i CSending \<and> px_conns s i \<in> Some ` {HDummy, HLeaving}"

lemma stuck_on_step:
  assumes "proxy_step status s s'" and "stuck_on c i s"
  shows "stuck_on c i s' \<and> px_lock s' \<and> dom (px_conns s') = dom (px_conns s)
    \<and> px_pool s' = px_pool s \<and> (\<forall>j p. p \<in> {HMatched, HJoined} \<longrightarrow> px_conns s' j = Some p \<longrightarrow> px_conns s j = Some p)"
proof -
  have c: "connector s c i CSending" and p: "px_conns s i \<in> Some ` {HDummy, HLeaving}" and m: "mutex_inv s"
    using assms(2) by (auto simp: stuck_on_def)
  have l: "px_lock s" using c m by (auto simp: mutex_inv_def)
  have only: "c' = c \<and> j = i" if "connector s c' j CSending" for c' j
  proof -
    have "c' = c" using that c m unfolding mutex_inv_def by blast
    then show ?thesis using that c connector_inj by blast
  qed
  have m': "mutex_inv s'" using assms(1) m by (rule mutex_inv_step)
  note facts = m' c p l
  from assms(1) show ?thesis
  proof (cases rule: proxy_step.cases)
    case (register j)
    then show ?thesis using l by simp
  next
    case (timeout j)
    then show ?thesis using facts unfolding stuck_on_def by (auto simp: proxy_simps)
  next
    case (dummy_done j)
    then show ?thesis using facts unfolding stuck_on_def by (auto simp: proxy_simps)
  next
    case (leave j)
    then show ?thesis using l by simp
  next
    case (arrive j)
    then show ?thesis using facts unfolding stuck_on_def by (auto simp: proxy_simps)
  next
    case (not_found c' j)
    then show ?thesis using l by simp
  next
    case (send c' j)
    then show ?thesis using l by simp
  next
    case (hand_over c' j)
    then show ?thesis using only p by auto
  next
    case (matched j)
    then show ?thesis using l by simp
  next
    case (joined_done j)
    then show ?thesis using facts unfolding stuck_on_def by (auto simp: proxy_simps)
  next
    case (expire c' j)
    moreover from this have "c' \<noteq> c" using connector_inj [OF c] by blast
    ultimately show ?thesis using facts unfolding stuck_on_def by (simp add: connector_set_connector)
  qed
qed

lemma stuck_on_steps:
  assumes "(proxy_step status)\<^sup>*\<^sup>* s s'" and "stuck_on c i s"
  shows "stuck_on c i s' \<and> px_lock s' \<and> dom (px_conns s') = dom (px_conns s) \<and> px_pool s' = px_pool s
    \<and> (\<forall>j p. p \<in> {HMatched, HJoined} \<longrightarrow> px_conns s' j = Some p \<longrightarrow> px_conns s j = Some p)"
  using assms
proof (induction rule: rtranclp_induct)
  case base
  then show ?case by (auto simp: stuck_on_def mutex_inv_def)
next
  case (step t u)
  then have "stuck_on c i t" by blast
  then show ?case using stuck_on_step [OF step.hyps(2)] step by metis
qed

text \<open>While a connection answers as the offline server its channel is still in the pool.\<close>

definition pool_dummy :: "proxy_state \<Rightarrow> bool" where
  "pool_dummy s \<longleftrightarrow> (\<forall>i. px_conns s i = Some HDummy \<longrightarrow> i \<in> px_pool s)"

lemma pool_dummy_step: "proxy_step status s s' \<Longrightarrow> pool_inv s \<Longrightarrow> pool_dummy s \<Longrightarrow> pool_dummy s'"
  by (erule proxy_step.cases) (auto simp: pool_inv_def pool_dummy_def)

lemma dummy_in_pool:
  assumes "(proxy_step status)\<^sup>*\<^sup>* proxy_init s"
  shows "pool_dummy s"
  using assms
proof (induction rule: rtranclp_induct)
  case base
  show ?case by (simp add: pool_dummy_def proxy_init_def)
next
  case (step s s')
  then show ?case using proxy_reachable pool_dummy_step by blast
qed

text \<open>
  Connection \<open>i\<close> answers as the offline server when connector \<open>c\<close>, which it asked for,
  arrives, and nobody holds the mutex.
\<close>

definition late_connector :: "nat \<Rightarrow> string \<Rightarrow> proxy_state \<Rightarrow> bool" where
  "late_connector c i s \<longleftrightarrow> px_conns s i = Some HDummy \<and> connector s c i CArrived \<and> \<not> px_lock s"

lemma late_connector_sends:
  assumes "pool_dummy s" and "late_connector c i s"
  shows "i \<in> px_pool s" and "proxy_step status s (take_and_send c i s)"
    and "proxy_step status s s' \<Longrightarrow> connector s' c i CArrived \<or> s' = take_and_send c i s"
proof -
  have l: "px_conns s i = Some HDummy" "connector s c i CArrived" "\<not> px_lock s"
    using assms(2) by (auto simp: late_connector_def)
  show p: "i \<in> px_pool s" using assms(1) l(1) by (simp add: pool_dummy_def)
  show "proxy_step status s (take_and_send c i s)"
    using l(2,3) p by (rule proxy_step.send)
  show "connector s' c i CArrived \<or> s' = take_and_send c i s" if "proxy_step status s s'"
    using that
    by (cases rule: proxy_step.cases)
      (use l(2) p in \<open>auto simp: proxy_simps take_and_send_def dest: connector_inj\<close>)
qed

lemma late_connector_stuck:
  assumes "mutex_inv s" and "late_connector c i s"
  shows "stuck_on c i (take_and_send c i s)"
proof -
  have l: "px_conns s i = Some HDummy" "connector s c i CArrived" "\<not> px_lock s"
    using assms(2) by (auto simp: late_connector_def)
  moreover have "\<not> connector s c' j CSending" for c' j
    using assms(1) l(3) unfolding mutex_inv_def by blast
  ultimately show ?thesis
    by (auto simp: stuck_on_def take_and_send_def mutex_inv_def proxy_simps)
qed

text \<open>The state after one connection registered and timed out and its connector arrived.\<close>

definition late_demo :: "string \<Rightarrow> proxy_state" where
  "late_demo i = \<lparr>px_lock = False, px_pool = {i}, px_conns = [i \<mapsto> HDummy], px_connectors = [(i, CArrived)]\<rparr>"

lemma late_demo_late: "late_connector 0 i (late_demo i)"
  by (simp add: late_connector_def late_demo_def connector_def)

lemma late_demo_reachable:
  assumes "status i"
  shows "(proxy_step status)\<^sup>*\<^sup>* proxy_init (late_demo i)"
proof -
  let ?st = "\<lambda>h cs. \<lparr>px_lock = False, px_pool = {i}, px_conns = [i \<mapsto> h], px_connectors = cs\<rparr>"
  have "proxy_step status proxy_init (?st HWaiting [])"
    using proxy_step.register [of proxy_init i status] by (simp add: proxy_init_def set_conn_def)
  moreover have "proxy_step status (?st HWaiting []) (?st HDummy [])"
    using proxy_step.timeout [of "?st HWaiting []" i status] assms by (simp add: set_conn_def)
  moreover have "proxy_step status (?st HDummy []) (late_demo i)"
    using proxy_step.arrive [of status "?st HDummy []" i] by (simp add: late_demo_def)
  ultimately show ?thesis by (meson rtranclp.rtrancl_into_rtrancl rtranclp.rtrancl_refl)
qed

text \<open>
  Property C36: a late connector stops the proxy for good.  A connection that asks for the status and has
  waited five seconds answers as the offline server while its channel is still in the pool, and
  it is reachable that its connector arrives then, with the mutex free.  Whenever that is so,
  the connector's next step takes the mutex and sends to the channel, and nothing else
  moves it.  From there, whatever happens, the mutex stays held and the connector stays in its
  send: no connection is registered, none leaves the pool, and none is matched or joined that
  was not before.
\<close>

theorem late_connector_blocks_proxy:
  assumes "status i"
  shows "(\<exists>s c. (proxy_step status)\<^sup>*\<^sup>* proxy_init s \<and> late_connector c i s)
    \<and> (\<forall>s c. (proxy_step status)\<^sup>*\<^sup>* proxy_init s \<longrightarrow> late_connector c i s \<longrightarrow>
         i \<in> px_pool s \<and> proxy_step status s (take_and_send c i s)
       \<and> (\<forall>s'. proxy_step status s s' \<longrightarrow> connector s' c i CArrived \<or> s' = take_and_send c i s)
       \<and> (\<forall>s'. (proxy_step status)\<^sup>*\<^sup>* (take_and_send c i s) s' \<longrightarrow>
            px_lock s' \<and> connector s' c i CSending \<and> dom (px_conns s') = dom (px_conns s)
          \<and> px_pool s' = px_pool s
          \<and> (\<forall>j p. p \<in> {HMatched, HJoined} \<longrightarrow> px_conns s' j = Some p \<longrightarrow> px_conns s j = Some p)))"
proof (intro conjI allI impI)
  show "\<exists>s c. (proxy_step status)\<^sup>*\<^sup>* proxy_init s \<and> late_connector c i s"
    using late_demo_reachable [where status = status, OF assms] late_demo_late by blast
next
  fix s c assume r: "(proxy_step status)\<^sup>*\<^sup>* proxy_init s" and late: "late_connector c i s"
  note sends = late_connector_sends [OF dummy_in_pool [OF r] late]
  show "i \<in> px_pool s" "proxy_step status s (take_and_send c i s)" by (rule sends)+
  show "connector s' c i CArrived \<or> s' = take_and_send c i s" if "proxy_step status s s'" for s'
    using that by (rule sends)
  have "mutex_inv s" using proxy_reachable [OF r] by blast
  note stuck = stuck_on_steps [OF _ late_connector_stuck [OF this late]]
  fix s' assume run: "(proxy_step status)\<^sup>*\<^sup>* (take_and_send c i s) s'"
  have same: "px_conns (take_and_send c i s) = px_conns s" "px_pool (take_and_send c i s) = px_pool s"
    by (simp_all add: take_and_send_def)
  show "px_lock s'" "dom (px_conns s') = dom (px_conns s)" "px_pool s' = px_pool s" "connector s' c i CSending"
    using stuck [OF run] by (simp_all add: same stuck_on_def)
  show "px_conns s j = Some p" if "p \<in> {HMatched, HJoined}" "px_conns s' j = Some p" for j p
    using stuck [OF run] that unfolding same by blast
qed

lemma late_connector_blocks_proxy_witness:
  "let step = proxy_step (\<lambda>i. i = ''a''); stuck = take_and_send 0 ''a'' (late_demo ''a'');
       reached = {s'. step\<^sup>*\<^sup>* stuck s'}
   in step (late_demo ''a'') stuck \<and> px_lock ` reached = {True} \<and> px_pool ` reached = {{''a''}}
     \<and> (\<lambda>s'. dom (px_conns s')) ` reached = {{''a''}}"
proof -
  let ?step = "proxy_step (\<lambda>i. i = ''a'')" and ?stuck = "take_and_send 0 ''a'' (late_demo ''a'')"
  have "?step\<^sup>*\<^sup>* proxy_init (late_demo ''a'')"
    by (rule late_demo_reachable) simp
  note blocked = late_connector_blocks_proxy [where status = "\<lambda>i. i = ''a''" and i = "''a''",
      THEN conjunct2, rule_format, OF refl this late_demo_late]
  have demo: "px_pool (late_demo ''a'') = {''a''}" "dom (px_conns (late_demo ''a'')) = {''a''}"
    by (simp_all add: late_demo_def)
  have step: "?step (late_demo ''a'') ?stuck" using blocked by (elim conjE)
  have lock: "px_lock s'" and pool: "px_pool s' = {''a''}" and conns: "dom (px_conns s') = {''a''}"
    if "?step\<^sup>*\<^sup>* ?stuck s'" for s'
  proof -
    note after = blocked [THEN conjunct2, THEN conjunct2, THEN conjunct2, rule_format, OF that]
    show "px_lock s'" using after by (rule conjunct1)
    show "px_pool s' = {''a''}" using after unfolding demo by (elim conjE)
    show "dom (px_conns s') = {''a''}" using after unfolding demo by (elim conjE)
  qed
  have const: "f ` {s'. ?step\<^sup>*\<^sup>* ?stuck s'} = {x}" if "\<And>s'. ?step\<^sup>*\<^sup>* ?stuck s' \<Longrightarrow> f s' = x" for f :: "proxy_state \<Rightarrow> 'x" and x
    using that by blast
  show ?thesis unfolding Let_def
    by (intro conjI step const pool conns) (simp add: lock)
qed

text \<open>
  Property C10: players and connectors are never crossed.  In every reachable state a joined
  connection owns exactly one connector that presented its identifier, no connector serves two
  connections, a connection that waits is in the pool and one that is joined or gone is not.
\<close>

theorem joined_owns_one_connector:
  assumes "(proxy_step status)\<^sup>*\<^sup>* proxy_init s"
  shows "(px_conns s i = Some HJoined \<longrightarrow> (\<exists>!c. connector s c i CHandedOver))
    \<and> (connector s c i CHandedOver \<longrightarrow> connector s c j CHandedOver \<longrightarrow> j = i)
    \<and> (px_conns s i = Some HWaiting \<longrightarrow> i \<in> px_pool s \<and> (\<forall>c. \<not> connector s c i CHandedOver))
    \<and> (i \<in> px_pool s \<longrightarrow> px_conns s i \<notin> {None, Some HJoined, Some HGone})"
proof -
  have o: "owner_inv s" and p: "pool_inv s" using proxy_reachable [OF assms] by auto
  have "\<exists>!c. connector s c i CHandedOver" if "px_conns s i = Some HJoined"
    using o that unfolding owner_inv_def by (metis owner_simps(9))
  moreover have "\<not> connector s c' i CHandedOver" if "px_conns s i = Some HWaiting" for c'
    using owned_not_waiting(2) [OF o] that by blast
  ultimately show ?thesis using p by (auto simp: pool_inv_def dest: connector_inj)
qed

definition joined_demo :: proxy_state where
  "joined_demo = \<lparr>px_lock = False, px_pool = {}, px_conns = [''a'' \<mapsto> HJoined], px_connectors = [(''a'', CHandedOver)]\<rparr>"

lemma joined_demo_reachable: "(proxy_step status)\<^sup>*\<^sup>* proxy_init joined_demo"
proof -
  let ?st = "\<lambda>l p h cs. \<lparr>px_lock = l, px_pool = p, px_conns = [''a'' \<mapsto> h], px_connectors = cs\<rparr>"
  have "proxy_step status proxy_init (?st False {''a''} HWaiting [])"
    using proxy_step.register [of proxy_init "''a''" status] by (simp add: proxy_init_def set_conn_def)
  moreover have "proxy_step status (?st False {''a''} HWaiting []) (?st False {''a''} HWaiting [(''a'', CArrived)])"
    using proxy_step.arrive [of status "?st False {''a''} HWaiting []" "''a''"] by simp
  moreover have "proxy_step status (?st False {''a''} HWaiting [(''a'', CArrived)]) (?st True {''a''} HWaiting [(''a'', CSending)])"
    using proxy_step.send [of "?st False {''a''} HWaiting [(''a'', CArrived)]" 0 "''a''" status]
    by (simp add: connector_def set_connector_def)
  moreover have "proxy_step status (?st True {''a''} HWaiting [(''a'', CSending)]) (?st False {''a''} HMatched [(''a'', CHandedOver)])"
    using proxy_step.hand_over [of "?st True {''a''} HWaiting [(''a'', CSending)]" 0 "''a''" status]
    by (simp add: connector_def set_connector_def set_conn_def)
  moreover have "proxy_step status (?st False {''a''} HMatched [(''a'', CHandedOver)]) joined_demo"
    using proxy_step.matched [of "?st False {''a''} HMatched [(''a'', CHandedOver)]" "''a''" status]
    by (simp add: set_conn_def joined_demo_def)
  ultimately show ?thesis by (meson rtranclp.rtrancl_into_rtrancl rtranclp.rtrancl_refl)
qed

lemma joined_owns_one_connector_witness:
  "px_conns joined_demo ''a'' = Some HJoined \<and> (\<exists>!c. connector joined_demo c ''a'' CHandedOver)
    \<and> ''a'' \<notin> px_pool joined_demo"
proof (intro conjI)
  show j: "px_conns joined_demo ''a'' = Some HJoined" by (simp add: joined_demo_def)
  note one = joined_owns_one_connector [OF joined_demo_reachable [of "\<lambda>_. True"], where i = "''a''"]
  show "\<exists>!c. connector joined_demo c ''a'' CHandedOver" using one j by blast
  show "''a'' \<notin> px_pool joined_demo" using one j by blast
qed

end
