(* ===== verification/JsonText.thy ===== *)
theory JsonText
  imports Json
begin

text \<open>
  The text of JSON values is read back: a parser for JSON text, as \<open>json.Unmarshal\<close> and
  \<open>json.Decoder\<close> need one, and the proof that it inverts the text \<open>json.Marshal\<close> writes.  A text
  that is not JSON is \<open>JBad\<close>.  The fuel of the parser is twice the length of its input, more
  than the depth of its recursion.
\<close>

section \<open>Numbers\<close>

definition num_char :: "char \<Rightarrow> bool" where
  "num_char c = (is_digit c \<or> c \<in> set ''-+.eE'')"

text \<open>The integer part, the fraction and the exponent, each with what follows it.\<close>

definition int_part :: "string \<Rightarrow> string option" where
  "int_part s =
     (case s of
        [] \<Rightarrow> None
      | c # r \<Rightarrow> if c = CHR ''0'' then Some r else if is_digit c then Some (dropWhile is_digit r) else None)"

definition some_digits :: "string \<Rightarrow> string option" where
  "some_digits s = (if s \<noteq> [] \<and> is_digit (hd s) then Some (dropWhile is_digit s) else None)"

definition frac_part :: "string \<Rightarrow> string option" where
  "frac_part s = (case s of [] \<Rightarrow> Some [] | c # r \<Rightarrow> if c = CHR ''.'' then some_digits r else Some s)"

definition exp_part :: "string \<Rightarrow> string option" where
  "exp_part s =
     (case s of
        [] \<Rightarrow> Some []
      | c # r \<Rightarrow>
          if c \<in> set ''eE'' then some_digits (if r \<noteq> [] \<and> hd r \<in> set ''+-'' then tl r else r) else Some s)"

definition json_number :: "string \<Rightarrow> json option" where
  "json_number lit =
     (let neg = has_prefix ''-'' lit;
          s = (if neg then tl lit else lit) in
      case int_part s of
        None \<Rightarrow> None
      | Some [] \<Rightarrow> Some (JInt (if neg then - int (digits_val s) else int (digits_val s)))
      | Some r \<Rightarrow>
          (case Option.bind (frac_part r) exp_part of Some [] \<Rightarrow> Some (JNum lit) | _ \<Rightarrow> None))"

section \<open>Strings\<close>

definition hex_val :: "char \<Rightarrow> nat option" where
  "hex_val c =
     (let n = of_char (lower_char c) :: nat in
      if is_digit c then Some (n - 48) else if 97 \<le> n \<and> n \<le> 102 then Some (n - 87) else None)"

definition hex4 :: "char \<Rightarrow> char \<Rightarrow> char \<Rightarrow> char \<Rightarrow> nat option" where
  "hex4 a b c d =
     (case (hex_val a, hex_val b, hex_val c, hex_val d) of
        (Some w, Some x, Some y, Some z) \<Rightarrow> Some (4096 * w + 256 * x + 16 * y + z) | _ \<Rightarrow> None)"

text \<open>The UTF-8 encoding of a code point.\<close>

definition utf8 :: "nat \<Rightarrow> string" where
  "utf8 n =
     (if n < 128 then [char_of n]
      else if n < 2048 then [char_of (192 + n div 64), char_of (128 + n mod 64)]
      else if n < 65536 then [char_of (224 + n div 4096), char_of (128 + n div 64 mod 64), char_of (128 + n mod 64)]
      else [char_of (240 + n div 262144), char_of (128 + n div 4096 mod 64), char_of (128 + n div 64 mod 64),
            char_of (128 + n mod 64)])"

definition simple_escape :: "char \<Rightarrow> char option" where
  "simple_escape c =
     map_of [(CHR 0x22, CHR 0x22), (CHR 0x5C, CHR 0x5C), (CHR ''/'', CHR ''/''), (CHR ''b'', CHR 0x08),
       (CHR ''f'', CHR 0x0C), (CHR ''n'', CHR 0x0A), (CHR ''r'', CHR 0x0D), (CHR ''t'', CHR 0x09)] c"

definition prepend :: "string \<Rightarrow> (string \<times> string) option \<Rightarrow> (string \<times> string) option" where
  "prepend p = map_option (\<lambda>(s, r). (p @ s, r))"

text \<open>
  The characters up to the closing quote, and what follows it.  A surrogate is combined with
  the one after it; alone it is the replacement character.
\<close>

definition high_low :: "nat \<Rightarrow> string \<Rightarrow> (nat \<times> string) option" where
  "high_low n r =
     (if n < 55296 \<or> 56320 \<le> n then None
      else case r of
        x # u # a # b # c # d # r' \<Rightarrow>
          if x = CHR 0x5C \<and> u = CHR ''u'' then
            (case hex4 a b c d of
               Some m \<Rightarrow> if 56320 \<le> m \<and> m < 57344 then Some (65536 + (n - 55296) * 1024 + (m - 56320), r') else None
             | None \<Rightarrow> None)
          else None
      | _ \<Rightarrow> None)"

lemma high_low_shorter: "high_low n r = Some (m, r') \<Longrightarrow> length r' < length r"
  by (auto simp: high_low_def split: if_splits list.splits option.splits)

function parse_chars :: "string \<Rightarrow> (string \<times> string) option" where
  "parse_chars [] = None"
| "parse_chars (c # s) =
     (if c = CHR 0x22 then Some ([], s)
      else if (of_char c :: nat) < 32 then None
      else if c \<noteq> CHR 0x5C then prepend [c] (parse_chars s)
      else case s of
        [] \<Rightarrow> None
      | e # r \<Rightarrow>
          if e = CHR ''u'' then
            (case r of
               w # x # y # z # r' \<Rightarrow>
                 (case hex4 w x y z of
                    None \<Rightarrow> None
                  | Some n \<Rightarrow>
                      if n < 55296 \<or> 57344 \<le> n then prepend (utf8 n) (parse_chars r')
                      else case high_low n r' of
                        Some (m, r'') \<Rightarrow> prepend (utf8 m) (parse_chars r'')
                      | None \<Rightarrow> prepend (utf8 65533) (parse_chars r'))
             | _ \<Rightarrow> None)
          else (case simple_escape e of None \<Rightarrow> None | Some x \<Rightarrow> prepend [x] (parse_chars r)))"
  by pat_completeness auto
termination
  by (relation "measure length") (auto dest: high_low_shorter)

section \<open>Values\<close>

definition skip_ws :: "string \<Rightarrow> string" where
  "skip_ws = dropWhile (\<lambda>c. c \<in> {CHR 0x20, CHR 0x09, CHR 0x0A, CHR 0x0D})"

definition parse_number :: "string \<Rightarrow> (json \<times> string) option" where
  "parse_number s = map_option (\<lambda>j. (j, dropWhile num_char s)) (json_number (takeWhile num_char s))"

definition keyword :: "string \<Rightarrow> json \<Rightarrow> string \<Rightarrow> (json \<times> string) option" where
  "keyword k j s = (if has_prefix k s then Some (j, drop (length k) s) else None)"

fun parse_value :: "nat \<Rightarrow> string \<Rightarrow> (json \<times> string) option"
  and parse_elems :: "nat \<Rightarrow> string \<Rightarrow> (json list \<times> string) option"
  and parse_members :: "nat \<Rightarrow> string \<Rightarrow> ((string \<times> json) list \<times> string) option" where
  "parse_value 0 s = None"
| "parse_value (Suc n) s =
     (case skip_ws s of
        [] \<Rightarrow> None
      | c # r \<Rightarrow>
          if c = CHR ''n'' then keyword ''null'' JNull (c # r)
          else if c = CHR ''t'' then keyword ''true'' (JBool True) (c # r)
          else if c = CHR ''f'' then keyword ''false'' (JBool False) (c # r)
          else if c = CHR 0x22 then map_option (\<lambda>(t, r'). (JStr t, r')) (parse_chars r)
          else if c = CHR ''['' then
            (if has_prefix '']'' (skip_ws r) then Some (JArr [], tl (skip_ws r))
             else map_option (\<lambda>(js, r'). (JArr js, r')) (parse_elems n r))
          else if c = CHR ''{'' then
            (if has_prefix ''}'' (skip_ws r) then Some (JObj [], tl (skip_ws r))
             else map_option (\<lambda>(kjs, r'). (JObj kjs, r')) (parse_members n r))
          else parse_number (c # r))"
| "parse_elems 0 s = None"
| "parse_elems (Suc n) s =
     (case parse_value n s of
        None \<Rightarrow> None
      | Some (j, r) \<Rightarrow>
          (case skip_ws r of
             [] \<Rightarrow> None
           | c # r' \<Rightarrow>
               if c = CHR '','' then map_option (\<lambda>(js, r''). (j # js, r'')) (parse_elems n r')
               else if c = CHR '']'' then Some ([j], r') else None))"
| "parse_members 0 s = None"
| "parse_members (Suc n) s =
     (if \<not> has_prefix [CHR 0x22] (skip_ws s) then None
      else case parse_chars (tl (skip_ws s)) of
        None \<Rightarrow> None
      | Some (k, r) \<Rightarrow>
          if \<not> has_prefix '':'' (skip_ws r) then None
          else case parse_value n (tl (skip_ws r)) of
            None \<Rightarrow> None
          | Some (j, r1) \<Rightarrow>
              (case skip_ws r1 of
                 [] \<Rightarrow> None
               | c # r2 \<Rightarrow>
                   if c = CHR '','' then map_option (\<lambda>(kjs, r3). ((k, j) # kjs, r3)) (parse_members n r2)
                   else if c = CHR ''}'' then Some ([(k, j)], r2) else None))"

definition json_parse :: "string \<Rightarrow> json" where
  "json_parse s =
     (case parse_value (2 * length s + 2) s of
        Some (j, r) \<Rightarrow> if skip_ws r = [] then j else JBad | None \<Rightarrow> JBad)"

section \<open>Numbers are read back\<close>

lemma has_prefix_one [simp]: "has_prefix [c] (d # r) \<longleftrightarrow> d = c" "\<not> has_prefix [c] []"
  by (auto simp: has_prefix_def)

lemma char_ofI: "(of_char c :: nat) = n \<Longrightarrow> char_of n = c"
  by auto

lemma digit_not_zero:
  assumes "0 < n" and "n < 10"
  shows "char_of (48 + n :: nat) \<noteq> CHR ''0''"
proof
  assume "char_of (48 + n) = CHR ''0''"
  then have "(of_char (char_of (48 + n) :: char) :: nat) = of_char CHR ''0''" by simp
  with assms show False by simp
qed

lemma nat_digits_hd: "0 < n \<Longrightarrow> hd (nat_digits n) \<noteq> CHR ''0''"
proof (induction n rule: nat_digits.induct)
  case (1 n)
  show ?case
  proof (cases "n < 10")
    case True
    then show ?thesis using 1 digit_not_zero by (simp add: nat_digits.simps [of n])
  next
    case False
    then have "0 < n div 10" by simp
    with 1 False show ?thesis by (simp add: nat_digits.simps [of n] hd_append)
  qed
qed

lemma dropWhile_digits [simp]: "dropWhile is_digit (nat_digits n) = []"
  using nat_digits_digits [of n] by (simp add: list_all_iff)

lemma nat_digits_hd_digit: "is_digit (hd (nat_digits n))"
  using nat_digits_digits [of n] by (cases "nat_digits n") auto

lemma int_part_nat_digits: "int_part (nat_digits n) = Some []"
proof (cases "n = 0")
  case True
  moreover have "char_of (48 :: nat) = CHR ''0''" by (rule char_ofI) simp
  ultimately show ?thesis by (simp add: int_part_def nat_digits.simps)
next
  case False
  then have hd: "hd (nat_digits n) \<noteq> CHR ''0''" by (simp add: nat_digits_hd)
  obtain c r where n: "nat_digits n = c # r" by (cases "nat_digits n") simp_all
  have "dropWhile is_digit (c # r) = []" using dropWhile_digits [of n] by (simp only: n)
  then show ?thesis using hd nat_digits_hd_digit [of n] by (simp add: int_part_def n)
qed

lemma hd_digits_not_sign: "\<not> has_prefix ''-'' (nat_digits n)"
  using nat_digits_hd_digit [of n] by (cases "nat_digits n") (auto simp: has_prefix_def is_digit_def)

lemma json_number_fmt_d: "json_number (fmt_d i) = Some (JInt i)"
proof (cases "i < 0")
  case True
  then show ?thesis
    by (simp add: json_number_def fmt_d_def has_prefix_def int_part_nat_digits digits_val_nat_digits)
next
  case False
  then show ?thesis
    by (simp add: json_number_def fmt_d_def hd_digits_not_sign int_part_nat_digits digits_val_nat_digits)
qed

lemma num_char_fmt_d: "list_all num_char (fmt_d i)"
proof -
  have "list_all num_char (nat_digits n)" for n
    using nat_digits_digits [of n] by (auto simp: list_all_iff num_char_def)
  then show ?thesis by (simp add: fmt_d_def num_char_def)
qed

lemma nat_digits_length: "0 < k \<Longrightarrow> n < 10 ^ k \<Longrightarrow> length (nat_digits n) \<le> k"
proof (induction k arbitrary: n)
  case (Suc k)
  show ?case
  proof (cases "n < 10")
    case False
    then have "0 < k" using Suc.prems by (cases k) auto
    moreover have "n div 10 < 10 ^ k" using Suc.prems by (simp add: less_mult_imp_div_less mult.commute)
    ultimately show ?thesis using False Suc.IH [of "n div 10"] by (simp add: nat_digits.simps [of n])
  qed (simp add: nat_digits.simps)
qed simp

lemma go_atoi_fmt_d:
  assumes "int64_min \<le> i" and "i \<le> int64_max"
  shows "go_atoi (fmt_d i) = Ok i"
proof -
  have plus: "\<not> has_prefix ''+'' (nat_digits n)" for n
    using nat_digits_hd_digit [of n] by (cases "nat_digits n") (auto simp: is_digit_def)
  have minus: "has_prefix ''-'' (CHR ''-'' # s)" "\<not> has_prefix ''+'' (CHR ''-'' # s)" for s by simp_all
  show ?thesis
    using assms nat_digits_digits digits_val_nat_digits hd_digits_not_sign plus minus
    by (simp add: go_atoi_def fmt_d_def Let_def)
qed

section \<open>Strings are read back\<close>

lemma char_of_small: "n < 128 \<Longrightarrow> utf8 n = [char_of n]"
  by (simp add: utf8_def)

lemma hex_val_hex_char: "n < 16 \<Longrightarrow> hex_val (hex_char n) = Some n"
  by (cases "n < 10") (simp_all add: hex_val_def hex_char_def lower_char_def is_digit_def Let_def)

lemma char_of_escape:
  "char_of (8 :: nat) = CHR 0x08" "char_of (9 :: nat) = CHR 0x09" "char_of (10 :: nat) = CHR 0x0A"
  "char_of (12 :: nat) = CHR 0x0C" "char_of (13 :: nat) = CHR 0x0D"
  by (rule char_ofI, simp)+

lemma hex_val_zero: "hex_val CHR ''0'' = Some 0"
  by (simp add: hex_val_def lower_char_def is_digit_def Let_def)

lemma parse_escape: "parse_chars (json_escape c @ t) = prepend [c] (parse_chars t)"
proof -
  let ?n = "of_char c :: nat"
  have n: "char_of ?n = c" by simp
  consider "c = CHR 0x22" | "c = CHR 0x5C" | "?n = 8" | "?n = 9" | "?n = 10" | "?n = 12" | "?n = 13"
    | "c \<noteq> CHR 0x22" "c \<noteq> CHR 0x5C" "?n \<notin> {8, 9, 10, 12, 13}" "?n < 32 \<or> c \<in> set ''<>&''"
    | "c \<noteq> CHR 0x22" "c \<noteq> CHR 0x5C" "32 \<le> ?n" "c \<notin> set ''<>&''"
    by (cases "?n < 32") auto
  then show ?thesis
  proof cases
    case 3
    then have "c = CHR 0x08" by (metis n char_of_escape(1))
    then show ?thesis by (simp add: json_escape_def simple_escape_def)
  next
    case 4
    then have "c = CHR 0x09" by (metis n char_of_escape(2))
    then show ?thesis by (simp add: json_escape_def simple_escape_def)
  next
    case 5
    then have "c = CHR 0x0A" by (metis n char_of_escape(3))
    then show ?thesis by (simp add: json_escape_def simple_escape_def)
  next
    case 6
    then have "c = CHR 0x0C" by (metis n char_of_escape(4))
    then show ?thesis by (simp add: json_escape_def simple_escape_def)
  next
    case 7
    then have "c = CHR 0x0D" by (metis n char_of_escape(5))
    then show ?thesis by (simp add: json_escape_def simple_escape_def)
  next
    case 8
    then have "?n < 128" by auto
    then have "?n div 16 < 16" "?n mod 16 < 16" by simp_all
    then have "hex4 CHR ''0'' CHR ''0'' (hex_char (?n div 16)) (hex_char (?n mod 16)) = Some ?n"
      by (simp add: hex4_def hex_val_hex_char hex_val_zero)
    with 8 \<open>?n < 128\<close> show ?thesis
      by (simp add: json_escape_def Let_def char_of_small n)
  next
    case 9
    then show ?thesis by (simp add: json_escape_def Let_def)
  qed (simp_all add: json_escape_def simple_escape_def)
qed

text \<open>An escaped separator is read back as its three bytes.\<close>

lemma parse_separator:
  assumes "line_separator s = Some x"
  shows "parse_chars ([CHR 0x5C, CHR ''u'', CHR ''2'', CHR ''0'', CHR ''2'', x] @ t) = prepend (take 3 s) (parse_chars t)"
proof -
  have "hex4 (CHR ''2'') (CHR ''0'') (CHR ''2'') (CHR ''8'') = Some 8232" "utf8 8232 = [CHR 0xE2, CHR 0x80, CHR 0xA8]"
    "hex4 (CHR ''2'') (CHR ''0'') (CHR ''2'') (CHR ''9'') = Some 8233" "utf8 8233 = [CHR 0xE2, CHR 0x80, CHR 0xA9]"
    by (simp_all add: hex4_def hex_val_def lower_char_def is_digit_def Let_def utf8_def char_of_def bit_Suc bit_0)
  moreover have "parse_chars (CHR 0x5C # CHR ''u'' # a # b # c # d # t) = prepend (utf8 n) (parse_chars t)"
    if "hex4 a b c d = Some n" "n < 55296" for a b c d n
    using that by (subst parse_chars.simps(2)) simp
  moreover have "x = CHR ''8'' \<and> take 3 s = [CHR 0xE2, CHR 0x80, CHR 0xA8] \<or> x = CHR ''9'' \<and> take 3 s = [CHR 0xE2, CHR 0x80, CHR 0xA9]"
    using assms by (auto simp: line_separator_def split: if_splits)
  ultimately show ?thesis by (elim disjE conjE) (simp_all del: parse_chars.simps)
qed

lemma parse_chars_quote: "parse_chars (json_escapes s @ CHR 0x22 # r) = Some (s, r)"
proof (induction s rule: json_escapes.induct)
  case (2 c s)
  show ?case
  proof (cases "line_separator (c # s)")
    case None
    then show ?thesis using 2(1) [OF None] by (simp add: None parse_escape prepend_def)
  next
    case (Some x)
    have "take 3 (c # s) @ drop 2 s = c # s" by (simp add: numeral_3_eq_3 numeral_2_eq_2)
    then show ?thesis
      using 2(2) [OF Some] parse_separator [OF Some, of "json_escapes (drop 2 s) @ CHR 0x22 # r"]
      by (simp add: Some prepend_def del: parse_chars.simps)
  qed
qed simp


section \<open>Values are read back\<close>

text \<open>Values whose text can be read: no \<open>JBad\<close>, and literals of numbers that are not integers.\<close>

fun json_ok :: "json \<Rightarrow> bool" where
  "json_ok (JNum s) = (list_all num_char s \<and> json_number s = Some (JNum s))"
| "json_ok (JArr js) = (\<forall>j \<in> set js. json_ok j)"
| "json_ok (JObj kjs) = (\<forall>kj \<in> set kjs. json_ok (snd kj))"
| "json_ok JBad = False"
| "json_ok _ = True"

text \<open>What follows a value does not belong to a number.\<close>

definition follows :: "string \<Rightarrow> bool" where
  "follows r = (r = [] \<or> \<not> num_char (hd r))"

lemma follows_sep [simp]: "follows []" "follows (CHR '','' # r)" "follows (CHR '']'' # r)" "follows (CHR ''}'' # r)"
  by (simp_all add: follows_def num_char_def is_digit_def)

lemma skip_ws_sep [simp]:
  "skip_ws (CHR '','' # r) = CHR '','' # r" "skip_ws (CHR '']'' # r) = CHR '']'' # r"
  "skip_ws (CHR ''}'' # r) = CHR ''}'' # r" "skip_ws (CHR '':'' # r) = CHR '':'' # r"
  "skip_ws (CHR ''['' # r) = CHR ''['' # r" "skip_ws (CHR ''{'' # r) = CHR ''{'' # r"
  "skip_ws (CHR 0x22 # r) = CHR 0x22 # r" "skip_ws [] = []"
  by (simp_all add: skip_ws_def)

lemma num_span:
  assumes "list_all num_char s" and "follows r"
  shows "takeWhile num_char (s @ r) = s" "dropWhile num_char (s @ r) = r"
proof -
  have "\<forall>c \<in> set s. num_char c" using assms(1) by (simp add: list_all_iff)
  then show "takeWhile num_char (s @ r) = s" "dropWhile num_char (s @ r) = r"
    using assms(2) by (cases r; simp add: follows_def)+
qed

lemma number_start:
  assumes "json_number s = Some j"
  obtains c s' where "s = c # s'" "is_digit c \<or> c = CHR ''-''"
  using assms
proof (cases s)
  case Nil
  then show ?thesis using assms by (simp add: json_number_def int_part_def Let_def)
next
  case (Cons c s')
  show ?thesis
  proof (rule that [OF Cons])
    show "is_digit c \<or> c = CHR ''-''"
      using assms by (cases "c = CHR ''0''") (auto simp: Cons json_number_def int_part_def is_digit_def Let_def split: if_splits)
  qed
qed

lemma parse_number_value:
  assumes "json_number s = Some j" and "list_all num_char s" and "follows r"
  shows "parse_value (Suc n) (s @ r) = Some (j, r)"
proof -
  obtain c s' where s: "s = c # s'" "is_digit c \<or> c = CHR ''-''" using number_start [OF assms(1)] .
  then have "c \<notin> set (''ntf[{'' @ [CHR 0x22, CHR 0x20, CHR 0x09, CHR 0x0A, CHR 0x0D])" by (auto simp: is_digit_def)
  then have "parse_value (Suc n) (s @ r) = parse_number (s @ r)" by (simp add: s(1) skip_ws_def)
  then show ?thesis using num_span [OF assms(2,3)] assms(1) by (simp add: parse_number_def)
qed

lemma json_text_not_Nil: "json_ok j \<Longrightarrow> json_text j \<noteq> []"
proof (cases j)
  case (JNum s)
  then show "json_ok j \<Longrightarrow> json_text j \<noteq> []" using number_start [of s] by auto
qed (simp_all add: json_quote_def fmt_d_def)

lemma json_text_length: "json_ok j \<Longrightarrow> 0 < length (json_text j)"
  using json_text_not_Nil by simp

lemma json_text_start:
  assumes "json_ok j"
  obtains (start) c s where "json_text j = c # s" "c \<notin> {CHR 0x20, CHR 0x09, CHR 0x0A, CHR 0x0D, CHR '']''}"
proof -
  have num: thesis if r: "json_number (json_text j) = Some j'" for j'
  proof -
    obtain c s where "json_text j = c # s" "is_digit c \<or> c = CHR ''-''" using number_start [OF r] .
    then show thesis by (intro start [of c s]) (auto simp: is_digit_def)
  qed
  show thesis
  proof (cases j)
    case (JInt i)
    then show thesis using json_number_fmt_d [of i] num by simp
  next
    case (JNum s)
    then show thesis using assms num by simp
  next
    case (JBool b)
    then show thesis using start by (cases b) simp_all
  qed (use start assms in \<open>simp_all add: json_quote_def\<close>)
qed

lemma json_join_Cons: "json_join (x # xs) = x @ (if xs = [] then [] else CHR '','' # json_join xs)"
  by (cases xs) simp_all

definition reads :: "json \<Rightarrow> bool" where
  "reads j = (\<forall>n r. 2 * length (json_text j) \<le> n \<longrightarrow> follows r \<longrightarrow> parse_value n (json_text j @ r) = Some (j, r))"

lemma readsD: "reads j \<Longrightarrow> 2 * length (json_text j) \<le> n \<Longrightarrow> follows r \<Longrightarrow> parse_value n (json_text j @ r) = Some (j, r)"
  by (simp add: reads_def)

lemma readsI:
  assumes "json_text j \<noteq> []"
    and "\<And>m r. 2 * length (json_text j) \<le> Suc m \<Longrightarrow> follows r \<Longrightarrow> parse_value (Suc m) (json_text j @ r) = Some (j, r)"
  shows "reads j"
  unfolding reads_def
proof (intro allI impI)
  fix n r assume n: "2 * length (json_text j) \<le> n" and r: "follows r"
  then obtain m where "n = Suc m" using assms(1) by (cases n) auto
  then show "parse_value n (json_text j @ r) = Some (j, r)" using assms(2) n r by simp
qed

lemma number_reads:
  assumes "json_number (json_text j) = Some j" and "list_all num_char (json_text j)"
  shows "reads j"
proof (rule readsI)
  show "json_text j \<noteq> []" by (rule number_start [OF assms(1)]) simp
next
  fix m r assume "follows r"
  then show "parse_value (Suc m) (json_text j @ r) = Some (j, r)" by (rule parse_number_value [OF assms])
qed

lemma parse_elems_text:
  assumes "js \<noteq> []" and "\<And>j. j \<in> set js \<Longrightarrow> json_ok j \<and> reads j"
    and "2 * length (json_join (map json_text js)) + 1 \<le> n"
  shows "parse_elems n (json_join (map json_text js) @ CHR '']'' # r) = Some (js, r)"
  using assms
proof (induction js arbitrary: n)
  case (Cons j js)
  then have j: "0 < length (json_text j)" "reads j" by (simp_all add: json_text_not_Nil)
  obtain m where n: "n = Suc m" using Cons.prems(3) by (cases n) auto
  have v: "parse_value m (json_text j @ x) = Some (j, x)" if "follows x" for x
    by (rule readsD [OF j(2)]) (use Cons.prems(3) that in \<open>simp_all add: n json_join_Cons\<close>)
  show ?case
  proof (cases "js = []")
    case True
    then show ?thesis by (simp add: n v)
  next
    case False
    then have "parse_elems m (json_join (map json_text js) @ CHR '']'' # r) = Some (js, r)"
      by (intro Cons.IH) (use Cons.prems j(1) in \<open>simp_all add: n json_join_Cons\<close>)
    then show ?thesis using False by (simp add: n v json_join_Cons)
  qed
qed simp

definition member_text :: "string \<times> json \<Rightarrow> string" where
  "member_text = (\<lambda>(k, j). json_quote k @ '':'' @ json_text j)"

lemma json_text_JObj: "json_text (JObj kjs) = ''{'' @ json_join (map member_text kjs) @ ''}''"
  by (simp add: member_text_def)

lemma parse_members_text:
  assumes "kjs \<noteq> []" and "\<And>k j. (k, j) \<in> set kjs \<Longrightarrow> reads j"
    and "2 * length (json_join (map member_text kjs)) + 1 \<le> n"
  shows "parse_members n (json_join (map member_text kjs) @ CHR ''}'' # r) = Some (kjs, r)"
  using assms
proof (induction kjs arbitrary: n)
  case (Cons kj kjs)
  obtain k j where kj: "kj = (k, j)" by (cases kj)
  have j: "reads j" using Cons.prems(2) kj by auto
  obtain m where n: "n = Suc m" using Cons.prems(3) by (cases n) auto
  have v: "parse_value m (json_text j @ x) = Some (j, x)" if "follows x" for x
    by (rule readsD [OF j]) (use Cons.prems(3) that in \<open>simp_all add: n kj member_text_def json_join_Cons\<close>)
  have k: "parse_chars (tl (json_quote k @ x)) = Some (k, x)" for x
    by (simp add: json_quote_def parse_chars_quote)
  have q: "skip_ws (json_quote k @ x) = json_quote k @ x" "has_prefix [CHR 0x22] (json_quote k @ x)" for x
    by (simp_all add: json_quote_def)
  show ?case
  proof (cases "kjs = []")
    case True
    then show ?thesis by (simp add: n kj v k q member_text_def)
  next
    case False
    then have "parse_members m (json_join (map member_text kjs) @ CHR ''}'' # r) = Some (kjs, r)"
      by (intro Cons.IH) (use Cons.prems in \<open>auto simp: n kj member_text_def json_join_Cons\<close>)
    then show ?thesis using False by (simp add: n kj v k q member_text_def json_join_Cons)
  qed
qed simp

lemma text_reads: "json_ok j \<Longrightarrow> reads j"
proof (induction j)
  case (JArr js)
  show ?case
  proof (rule readsI)
    fix m r assume m: "2 * length (json_text (JArr js)) \<le> Suc m"
    show "parse_value (Suc m) (json_text (JArr js) @ r) = Some (JArr js, r)"
    proof (cases js)
      case (Cons j js')
      have "parse_elems m (json_join (map json_text js) @ CHR '']'' # r) = Some (js, r)"
        using Cons m by (intro parse_elems_text) (simp_all add: JArr.IH JArr.prems [simplified])
      moreover have "\<not> has_prefix '']'' (skip_ws (json_join (map json_text js) @ CHR '']'' # r))"
      proof -
        have "json_ok j" using JArr.prems by (simp add: Cons)
        then show ?thesis by (rule json_text_start) (simp add: Cons json_join_Cons skip_ws_def)
      qed
      ultimately show ?thesis by simp
    qed simp
  qed simp
next
  case (JObj kjs)
  show ?case
  proof (rule readsI)
    fix m r assume m: "2 * length (json_text (JObj kjs)) \<le> Suc m"
    show "parse_value (Suc m) (json_text (JObj kjs) @ r) = Some (JObj kjs, r)"
    proof (cases kjs)
      case (Cons kj kjs')
      have "parse_members m (json_join (map member_text kjs) @ CHR ''}'' # r) = Some (kjs, r)"
      proof (rule parse_members_text)
        show "reads j" if "(k, j) \<in> set kjs" for k j
          using JObj.IH [of "(k, j)" j] JObj.prems that by force
      qed (use Cons m in \<open>simp_all add: json_text_JObj del: json_text.simps\<close>)
      moreover have "\<not> has_prefix ''}'' (skip_ws (json_join (map member_text kjs) @ CHR ''}'' # r))"
        by (simp add: Cons json_join_Cons member_text_def json_quote_def split: prod.split)
      ultimately show ?thesis by (simp add: json_text_JObj del: json_text.simps)
    qed simp
  qed simp
next
  case (JInt i)
  then show ?case by (intro number_reads) (simp_all add: json_number_fmt_d num_char_fmt_d)
next
  case (JNum s)
  then show ?case by (intro number_reads) simp_all
next
  case (JStr s)
  then show ?case by (intro readsI) (simp_all add: json_quote_def parse_chars_quote)
next
  case (JBool b)
  then show ?case by (intro readsI) (simp_all add: skip_ws_def keyword_def has_prefix_def)
next
  case JNull
  then show ?case by (intro readsI) (simp_all add: skip_ws_def keyword_def has_prefix_def)
qed simp

lemma json_parse_text: "json_ok j \<Longrightarrow> json_parse (json_text j) = j"
  using readsD [OF text_reads, of j "2 * length (json_text j) + 2" "[]"] by (simp add: json_parse_def)


text \<open>\<open>json.Decoder\<close> reads the first value and leaves what follows.\<close>

definition json_first :: "string \<Rightarrow> json" where
  "json_first s = (case parse_value (2 * length s + 2) s of Some (j, r) \<Rightarrow> j | None \<Rightarrow> JBad)"

lemma json_first_text: "json_ok j \<Longrightarrow> follows r \<Longrightarrow> json_first (json_text j @ r) = j"
  using readsD [OF text_reads, of j "2 * length (json_text j @ r) + 2" r] by (simp add: json_first_def)

text \<open>No text of a value holds a control character: neither a zero byte nor a line feed.\<close>

definition printable :: "string \<Rightarrow> bool" where
  "printable s = list_all (\<lambda>c. 32 \<le> (of_char c :: nat)) s"

lemma printable_simps [simp]:
  "printable []" "printable (c # s) \<longleftrightarrow> 32 \<le> (of_char c :: nat) \<and> printable s" "printable (s @ t) \<longleftrightarrow> printable s \<and> printable t"
  "printable (concat ss) \<longleftrightarrow> list_all printable ss"
  by (simp_all add: printable_def list_all_iff) blast

lemma printable_not_in: "printable s \<Longrightarrow> CHR 0x00 \<notin> set s" "printable s \<Longrightarrow> CHR 0x0A \<notin> set s"
  by (auto simp: printable_def list_all_iff)

lemma hex_char_printable: "n < 16 \<Longrightarrow> 32 \<le> (of_char (hex_char n) :: nat)"
  by (cases "n < 10") (simp_all add: hex_char_def)

lemma printable_escape [simp]: "printable (json_escape c)"
proof -
  have "(of_char c :: nat) div 16 < 16" "(of_char c :: nat) mod 16 < 16"
    by (simp_all add: less_mult_imp_div_less)
  then have h: "32 \<le> (of_char (hex_char (of_char c div 16)) :: nat)" "32 \<le> (of_char (hex_char (of_char c mod 16)) :: nat)"
    by (simp_all add: hex_char_printable)
  then show ?thesis by (auto simp: json_escape_def Let_def)
qed

lemma printable_escapes [simp]: "printable (json_escapes s)"
proof (induction s rule: json_escapes.induct)
  case (2 c s)
  have "32 \<le> (of_char x :: nat)" if "line_separator (c # s) = Some x" for x
    using that by (auto simp: line_separator_def split: if_splits)
  with 2 show ?case by (cases "line_separator (c # s)") simp_all
qed simp

lemma printable_quote [simp]: "printable (json_quote s)"
  by (simp add: json_quote_def)

lemma json_quote_not_zero [simp]: "CHR 0x00 \<notin> set (json_quote s)"
  by (rule printable_not_in) simp

lemma printable_join: "list_all printable xs \<Longrightarrow> printable (json_join xs)"
  by (induction xs rule: json_join.induct) auto

lemma num_char_printable: "list_all num_char s \<Longrightarrow> printable s"
  by (induction s) (auto simp: num_char_def is_digit_def Let_def)

lemma printable_text: "json_ok j \<Longrightarrow> printable (json_text j)"
proof (induction j)
  case (JArr js)
  then show ?case using printable_join [of "map json_text js"] by (simp add: list_all_iff)
next
  case (JObj kjs)
  have "printable (member_text kj)" if "kj \<in> set kjs" for kj
    using JObj that by (cases kj) (auto simp: member_text_def)
  then show ?case using printable_join [of "map member_text kjs"]
    by (simp add: json_text_JObj list_all_iff del: json_text.simps)
qed (simp_all add: num_char_printable num_char_fmt_d)

lemma json_text_not_zero: "json_ok j \<Longrightarrow> CHR 0x00 \<notin> set (json_text j)"
  by (rule printable_not_in(1)) (rule printable_text)

end
