(* ===== verification/Rpc.thy ===== *)
theory Rpc
  imports JsonText Entities
begin

text \<open>
  \<open>src/backend/runner/rpc\<close>: JSON-RPC over Unix sockets between the processes of a runner.
  A connection is the text that arrives on it; the text of an error (\<open>err.Error()\<close>) is the
  parameter \<open>msg\<close>.  The last section proves that a call over the socket is a call of the
  registered method.
\<close>

section \<open>Packets\<close>

record packet =
  pk_ContentLength :: int
  pk_Traceparent :: string
  pk_Body :: json

text \<open>
  \<open>bufio.Reader.ReadLine\<close>: a line without its end; a line that fills the buffer of 4096
  bytes comes in pieces, which \<open>readPacket\<close> does not tell from lines.
\<close>

definition drop_cr :: "string \<Rightarrow> string" where
  "drop_cr l = (if l \<noteq> [] \<and> last l = CHR 0x0D then butlast l else l)"

definition read_line :: "go_error \<Rightarrow> string \<Rightarrow> (string \<times> string) res" where
  "read_line e s =
     (let l = takeWhile (\<lambda>c. c \<noteq> CHR 0x0A) s in
      if s = [] then Err e
      else if 4096 \<le> length l then
        (if s ! 4095 = CHR 0x0D then Ok (take 4095 s, drop 4095 s) else Ok (take 4096 s, drop 4096 s))
      else if length l = length s then Ok (l, [])
      else Ok (drop_cr l, drop (Suc (length l)) s))"

lemma read_line_shorter: "read_line e s = Ok (l, r) \<Longrightarrow> length r < length s"
  by (auto simp: read_line_def Let_def split: if_splits)

text \<open>The header lines, up to the empty one, with the length and the trace context found.\<close>

function read_headers :: "go_error \<Rightarrow> int \<Rightarrow> string \<Rightarrow> string \<Rightarrow> ((int \<times> string) \<times> string) res" where
  "read_headers e len tp s =
     (case read_line e s of
        Err er \<Rightarrow> Err er
      | Panic p \<Rightarrow> Panic p
      | Ok (l, r) \<Rightarrow>
          if l = [] then Ok ((len, tp), r)
          else (case splitn2 '': '' l of
              [k, v] \<Rightarrow>
                if equal_fold k ''content-length'' then
                  (case go_atoi v of Err er \<Rightarrow> Err er | Panic p \<Rightarrow> Panic p | Ok n \<Rightarrow> read_headers e n tp r)
                else if equal_fold k ''traceparent'' then read_headers e len v r
                else read_headers e len tp r
            | _ \<Rightarrow> Err (Msg ''invalid header'')))"
  by pat_completeness auto
termination
  by (relation "measure (\<lambda>(e, len, tp, s). length s)") (auto dest: read_line_shorter)

declare read_headers.simps [simp del]

definition readPacket_rpc :: "go_error \<Rightarrow> string \<Rightarrow> packet res" where
  "readPacket_rpc e s =
     (case read_headers e (-1) [] s of
        Err er \<Rightarrow> Err er
      | Panic p \<Rightarrow> Panic p
      | Ok ((len, tp), r) \<Rightarrow>
          if len < 0 then Err (Msg ''invalid length'')
          else if 2 ^ 48 \<le> len then Panic ''runtime error: makeslice: len out of range''
          else if length r < nat len then Err (if r = [] then e else if e = EOF then UnexpectedEOF else e)
          else (case json_parse (take (nat len) r) of
              JBad \<Rightarrow> json_syntax
            | body \<Rightarrow> Ok \<lparr>pk_ContentLength = len, pk_Traceparent = tp, pk_Body = body\<rparr>))"

definition crlf :: string where "crlf = [CHR 0x0D, CHR 0x0A]"

definition writePacket :: "string \<Rightarrow> json \<Rightarrow> string" where
  "writePacket tp body =
     ''Content-Length: '' @ fmt_d (int (length (json_text body))) @ crlf
     @ (if tp \<noteq> [] then ''Traceparent: '' @ tp @ crlf else []) @ crlf @ json_text body"

section \<open>Requests and responses\<close>

definition InvalidRequest :: int where "InvalidRequest = -32600"
definition MethodNotFound :: int where "MethodNotFound = -32601"
definition CallerError :: int where "CallerError = -32000"

text \<open>A \<open>json.RawMessage\<close>: any value is kept; a missing one is the empty text.\<close>

definition dec_raw :: "json dec" where
  "dec_raw old j = (case j of JBad \<Rightarrow> json_syntax | _ \<Rightarrow> Ok j)"

record rpc_request =
  jq_Version :: string
  jq_ID :: "int option"
  jq_Method :: string
  jq_Params :: json
  jq_Traceparent :: string

definition zero_request :: rpc_request where
  "zero_request = \<lparr>jq_Version = [], jq_ID = None, jq_Method = [], jq_Params = JBad, jq_Traceparent = []\<rparr>"

definition enc_Request :: "rpc_request \<Rightarrow> json" where
  "enc_Request q = JObj ((''jsonrpc'', JStr (jq_Version q)) # omit_nil ''id'' JInt (jq_ID q) @
     [(''method'', JStr (jq_Method q)), (''params'', jq_Params q)])"

definition dec_Request :: "rpc_request dec" where
  "dec_Request = dec_struct
     [field ''jsonrpc'' dec_str jq_Version (\<lambda>v r. r\<lparr>jq_Version := v\<rparr>),
      field ''id'' (dec_ptr 0 dec_int) jq_ID (\<lambda>v r. r\<lparr>jq_ID := v\<rparr>),
      field ''method'' dec_str jq_Method (\<lambda>v r. r\<lparr>jq_Method := v\<rparr>),
      field ''params'' dec_raw jq_Params (\<lambda>v r. r\<lparr>jq_Params := v\<rparr>)]"

text \<open>\<open>Bind\<close>: the parameters as a Go value.\<close>

definition rpc_Bind :: "'a dec \<Rightarrow> 'a \<Rightarrow> rpc_request \<Rightarrow> 'a res" where
  "rpc_Bind d zero q = d zero (jq_Params q)"

record rpc_error =
  re_Code :: int
  re_Message :: string
  re_Data :: string

definition zero_rpc_error :: rpc_error where
  "zero_rpc_error = \<lparr>re_Code = 0, re_Message = [], re_Data = []\<rparr>"

definition enc_RPCError :: "rpc_error \<Rightarrow> json" where
  "enc_RPCError x = JObj ([(''code'', JInt (re_Code x)), (''message'', JStr (re_Message x))] @
     (if re_Data x = [] then [] else [(''data'', JStr (re_Data x))]))"

definition dec_RPCError :: "rpc_error dec" where
  "dec_RPCError = dec_struct
     [field ''code'' dec_int re_Code (\<lambda>v r. r\<lparr>re_Code := v\<rparr>),
      field ''message'' dec_str re_Message (\<lambda>v r. r\<lparr>re_Message := v\<rparr>),
      field ''data'' dec_str re_Data (\<lambda>v r. r\<lparr>re_Data := v\<rparr>)]"

definition rpc_error_value :: "rpc_error \<Rightarrow> go_error" where
  "rpc_error_value x = RPCErr (re_Code x) (re_Message x) (re_Data x)"

text \<open>A result that is nil is left out, and read as a missing one.\<close>

record rpc_response =
  js_Version :: string
  js_ID :: int
  js_Result :: "json option"
  js_Error :: "rpc_error option"

definition zero_response :: rpc_response where
  "zero_response = \<lparr>js_Version = [], js_ID = 0, js_Result = None, js_Error = None\<rparr>"

definition enc_Response :: "rpc_response \<Rightarrow> json" where
  "enc_Response x = JObj ([(''jsonrpc'', JStr (js_Version x)), (''id'', JInt (js_ID x))] @
     omit_nil ''result'' (\<lambda>j. j) (js_Result x) @ omit_nil ''error'' enc_RPCError (js_Error x))"

definition dec_Response :: "rpc_response dec" where
  "dec_Response = dec_struct
     [field ''jsonrpc'' dec_str js_Version (\<lambda>v r. r\<lparr>js_Version := v\<rparr>),
      field ''id'' dec_int js_ID (\<lambda>v r. r\<lparr>js_ID := v\<rparr>),
      field ''result'' (\<lambda>old j. map_res Some (dec_raw JBad j)) js_Result (\<lambda>v r. r\<lparr>js_Result := v\<rparr>),
      field ''error'' (dec_ptr zero_rpc_error dec_RPCError) js_Error (\<lambda>v r. r\<lparr>js_Error := v\<rparr>)]"

section \<open>The server\<close>

text \<open>A method returns a value (nil is \<open>None\<close>), a notification only whether it went well.\<close>

record 'w rpc_server =
  sv_methods :: "string \<Rightarrow> (rpc_request \<Rightarrow> ('w, json option) io) option"
  sv_notifyMethods :: "string \<Rightarrow> (rpc_request \<Rightarrow> ('w, unit) io) option"

definition NewServer :: "'w rpc_server" where
  "NewServer = \<lparr>sv_methods = Map.empty, sv_notifyMethods = Map.empty\<rparr>"

definition RegisterMethod :: "string \<Rightarrow> (rpc_request \<Rightarrow> ('w, json option) io) \<Rightarrow> 'w rpc_server \<Rightarrow> 'w rpc_server" where
  "RegisterMethod name fn S = S\<lparr>sv_methods := (sv_methods S)(name \<mapsto> fn)\<rparr>"

definition RegisterNotifyMethod :: "string \<Rightarrow> (rpc_request \<Rightarrow> ('w, unit) io) \<Rightarrow> 'w rpc_server \<Rightarrow> 'w rpc_server" where
  "RegisterNotifyMethod name fn S = S\<lparr>sv_notifyMethods := (sv_notifyMethods S)(name \<mapsto> fn)\<rparr>"

definition readRequest :: "go_error \<Rightarrow> string \<Rightarrow> rpc_request res" where
  "readRequest e s =
     res_bind (readPacket_rpc e s) (\<lambda>pk.
     map_res (\<lambda>q. q\<lparr>jq_Traceparent := pk_Traceparent pk\<rparr>) (dec_Request zero_request (pk_Body pk)))"

definition respond :: "int \<Rightarrow> json option \<Rightarrow> rpc_error option \<Rightarrow> rpc_response option" where
  "respond i result err = Some \<lparr>js_Version = ''2.0'', js_ID = i, js_Result = result, js_Error = err\<rparr>"

definition handle_notify :: "'w rpc_server \<Rightarrow> rpc_request \<Rightarrow> ('w, rpc_response option) io" where
  "handle_notify S q =
     (case sv_notifyMethods S (jq_Method q) of
        None \<Rightarrow> io_ret None
      | Some fn \<Rightarrow> io_bind (io_try (fn q)) (\<lambda>_. io_ret None))"

definition handle_call :: "(go_error \<Rightarrow> string) \<Rightarrow> 'w rpc_server \<Rightarrow> int \<Rightarrow> rpc_request \<Rightarrow> ('w, rpc_response option) io" where
  "handle_call msg S i q =
     (case sv_methods S (jq_Method q) of
        None \<Rightarrow> io_ret (respond i None (Some \<lparr>re_Code = MethodNotFound, re_Message = ''Method not found'', re_Data = []\<rparr>))
      | Some fn \<Rightarrow>
          io_bind (io_try (fn q)) (\<lambda>r.
          case r of
            Ok result \<Rightarrow> io_ret (respond i result None)
          | Err e \<Rightarrow> io_ret (respond i None (Some \<lparr>re_Code = CallerError, re_Message = ''Server error'', re_Data = msg e\<rparr>))
          | Panic p \<Rightarrow> io_panic p))"

definition handleRequest :: "(go_error \<Rightarrow> string) \<Rightarrow> 'w rpc_server \<Rightarrow> rpc_request \<Rightarrow> ('w, rpc_response option) io" where
  "handleRequest msg S q =
     (if jq_Version q \<noteq> ''2.0'' then
        io_ret (respond (case jq_ID q of None \<Rightarrow> 0 | Some i \<Rightarrow> i) None
          (Some \<lparr>re_Code = InvalidRequest, re_Message = ''Invalid request'', re_Data = []\<rparr>))
      else case jq_ID q of None \<Rightarrow> handle_notify S q | Some i \<Rightarrow> handle_call msg S i q)"

text \<open>One connection: the text the server writes before it closes the connection.\<close>

definition handleConnection :: "(go_error \<Rightarrow> string) \<Rightarrow> 'w rpc_server \<Rightarrow> string \<Rightarrow> ('w, string) io" where
  "handleConnection msg S s =
     io_bind (io_lift (readRequest EOF s)) (\<lambda>q.
     io_bind (handleRequest msg S q) (\<lambda>resp.
     io_ret (case resp of None \<Rightarrow> [] | Some x \<Rightarrow> writePacket [] (enc_Response x))))"

section \<open>The client\<close>

definition readResponse :: "string \<Rightarrow> rpc_response res" where
  "readResponse s = res_bind (readPacket_rpc EOF s) (\<lambda>pk. dec_Response zero_response (pk_Body pk))"

text \<open>\<open>bind\<close> decodes the result; without a result to decode it is \<open>\<lambda>_. Ok ()\<close>.\<close>

definition call_request :: "string \<Rightarrow> json \<Rightarrow> rpc_request" where
  "call_request method params =
     \<lparr>jq_Version = ''2.0'', jq_ID = Some 1, jq_Method = method, jq_Params = params, jq_Traceparent = []\<rparr>"

definition handle_response :: "(json \<Rightarrow> 'a res) \<Rightarrow> string \<Rightarrow> 'a res" where
  "handle_response bind s =
     res_bind (readResponse s) (\<lambda>resp.
     if js_ID resp \<noteq> 1 then Err (Msg ''invalid request id'')
     else case js_Error resp of
       Some x \<Rightarrow> Err (rpc_error_value x)
     | None \<Rightarrow> bind (case js_Result resp of None \<Rightarrow> JBad | Some j \<Rightarrow> j))"

text \<open>
  \<open>Call\<close> and \<open>Notify\<close> over a connection to the process with server \<open>S\<close>, in the trace context
  \<open>tp\<close>.  A connection that the server closes early ends the caller's read; what goes wrong in
  the server is logged there.  The server has no \<open>recover\<close>: a panic of a method ends the
  server's process, which closes the connection, and the caller reads the end of the file.
\<close>

definition other_process :: "('w, 'a) io \<Rightarrow> ('w, 'a res) io" where
  "other_process m w = (Ok (fst (m w)), snd (m w))"

lemma other_process_run [simp]: "m w = (r, w') \<Longrightarrow> other_process m w = (Ok r, w')"
  by (simp add: other_process_def)

definition rpc_Call ::
  "(go_error \<Rightarrow> string) \<Rightarrow> 'w rpc_server \<Rightarrow> string \<Rightarrow> string \<Rightarrow> json \<Rightarrow> (json \<Rightarrow> 'a res) \<Rightarrow> ('w, 'a) io" where
  "rpc_Call msg S tp method params bind =
     io_bind (other_process (handleConnection msg S (writePacket tp (enc_Request (call_request method params))))) (\<lambda>r.
     io_lift (handle_response bind (case r of Ok s \<Rightarrow> s | _ \<Rightarrow> [])))"

definition rpc_Notify ::
  "(go_error \<Rightarrow> string) \<Rightarrow> 'w rpc_server \<Rightarrow> string \<Rightarrow> string \<Rightarrow> json \<Rightarrow> ('w, unit) io" where
  "rpc_Notify msg S tp method params =
     io_bind (other_process (handleConnection msg S
       (writePacket tp (enc_Request ((call_request method params)\<lparr>jq_ID := None\<rparr>))))) (\<lambda>_. io_ret ())"

section \<open>What is written is read\<close>

lemma takeWhile_line:
  assumes "CHR 0x0A \<notin> set h"
  shows "takeWhile (\<lambda>c. c \<noteq> CHR 0x0A) (h @ CHR 0x0D # CHR 0x0A # rest) = h @ [CHR 0x0D]"
  using assms by (induction h) auto

lemma read_line_crlf:
  assumes "CHR 0x0A \<notin> set h" and "length h < 4095"
  shows "read_line e (h @ crlf @ rest) = Ok (h, rest)"
  using assms takeWhile_line [OF assms(1), of rest] by (simp add: read_line_def crlf_def drop_cr_def Let_def)

lemma splitn2_header:
  assumes "CHR '':'' \<notin> set k"
  shows "splitn2 '': '' (k @ '': '' @ v) = [k, v]"
proof -
  have "str_index '': '' (k @ '': '' @ v) = Some (length k)"
    using assms by (induction k) (auto simp: has_prefix_def)
  then show ?thesis by (simp add: splitn2_def)
qed

lemma read_headers_line:
  assumes "CHR 0x0A \<notin> set k" "CHR '':'' \<notin> set k" "CHR 0x0A \<notin> set v" "length k + length v < 4000"
  shows "read_headers e len tp ((k @ '': '' @ v) @ crlf @ rest) =
    (if equal_fold k ''content-length'' then
       (case go_atoi v of Err er \<Rightarrow> Err er | Panic p \<Rightarrow> Panic p | Ok n \<Rightarrow> read_headers e n tp rest)
     else if equal_fold k ''traceparent'' then read_headers e len v rest
     else read_headers e len tp rest)"
proof -
  have "read_line e ((k @ '': '' @ v) @ crlf @ rest) = Ok (k @ '': '' @ v, rest)"
    by (rule read_line_crlf) (use assms in auto)
  then show ?thesis by (subst read_headers.simps) (simp add: splitn2_header [OF assms(2), simplified])
qed

lemma read_headers_end: "read_headers e len tp (crlf @ rest) = Ok ((len, tp), rest)"
  using read_line_crlf [of "[]" e rest] by (subst read_headers.simps) simp

text \<open>A trace context as it is written: one short line.\<close>

definition ok_trace :: "string \<Rightarrow> bool" where
  "ok_trace tp = (CHR 0x0A \<notin> set tp \<and> length tp < 3000)"

lemma header_names:
  "equal_fold ''Content-Length'' ''content-length''" "\<not> equal_fold ''Traceparent'' ''content-length''"
  "equal_fold ''Traceparent'' ''traceparent''"
  by code_simp+

lemma writePacket_read:
  assumes "json_ok body" and "ok_trace tp" and "length (json_text body) < 2 ^ 48"
  shows "readPacket_rpc EOF (writePacket tp body) =
    Ok \<lparr>pk_ContentLength = int (length (json_text body)), pk_Traceparent = tp, pk_Body = body\<rparr>"
proof -
  let ?n = "length (json_text body)"
  let ?rest = "(if tp \<noteq> [] then ''Traceparent: '' @ tp @ crlf else []) @ crlf @ json_text body"
  have "?n < 10 ^ 15" using assms(3) by simp
  then have len: "length (fmt_d (int ?n)) \<le> 15" using nat_digits_length [of 15 ?n] by (simp add: fmt_d_def)
  have nl: "CHR 0x0A \<notin> set (fmt_d i)" for i
    using num_char_fmt_d [of i] by (auto simp: list_all_iff num_char_def is_digit_def)
  have at: "go_atoi (fmt_d (int ?n)) = Ok (int ?n)"
    by (rule go_atoi_fmt_d) (use assms(3) in \<open>simp_all add: int64_min_def int64_max_def\<close>)
  have "read_headers EOF (-1) [] (writePacket tp body) = read_headers EOF (int ?n) [] ?rest"
    using read_headers_line [of "''Content-Length''" "fmt_d (int ?n)" EOF "-1" "[]" ?rest] len nl at header_names
    by (simp add: writePacket_def)
  also have "\<dots> = Ok ((int ?n, tp), json_text body)"
  proof (cases "tp = []")
    case True
    then show ?thesis by (simp add: read_headers_end)
  next
    case False
    have "read_headers EOF (int ?n) [] ((''Traceparent'' @ '': '' @ tp) @ crlf @ crlf @ json_text body)
        = read_headers EOF (int ?n) tp (crlf @ json_text body)"
      by (subst read_headers_line) (use assms(2) header_names in \<open>simp_all add: ok_trace_def\<close>)
    then show ?thesis using False by (simp add: read_headers_end)
  qed
  finally show ?thesis
    using assms(1,3) json_parse_text [OF assms(1)] by (cases body) (simp_all add: readPacket_rpc_def)
qed

lemma dec_Request_enc:
  assumes "jq_Params q \<noteq> JBad" and "pred_option (\<lambda>i. int64_min \<le> i \<and> i \<le> int64_max) (jq_ID q)"
  shows "dec_Request zero_request (enc_Request q) = Ok (q\<lparr>jq_Traceparent := []\<rparr>)"
  using assms by (cases q; cases "jq_ID q"; cases "jq_Params q")
    (simp_all add: dec_Request_def enc_Request_def dec_struct_def field_def zero_request_def dec_raw_def omit_nil_def
      dec_ptr_def json_simps)

lemma rt_RPCError [json_simps]:
  "int64_min \<le> re_Code x \<Longrightarrow> re_Code x \<le> int64_max \<Longrightarrow> dec_RPCError zero_rpc_error (enc_RPCError x) = Ok x"
  by (cases x) (simp add: dec_RPCError_def enc_RPCError_def dec_struct_def field_def zero_rpc_error_def json_simps)

lemma enc_RPCError_object: "\<exists>kjs. enc_RPCError x = JObj kjs"
  by (simp add: enc_RPCError_def)

lemma dec_Response_enc:
  assumes "js_Result x \<noteq> Some JBad" and "int64_min \<le> js_ID x" "js_ID x \<le> int64_max"
    and "pred_option (\<lambda>er. int64_min \<le> re_Code er \<and> re_Code er \<le> int64_max) (js_Error x)"
  shows "dec_Response zero_response (enc_Response x) = Ok x"
proof -
  obtain ver i res err where x: "x = \<lparr>js_Version = ver, js_ID = i, js_Result = res, js_Error = err\<rparr>" by (cases x)
  have p: "dec_ptr zero_rpc_error dec_RPCError None (enc_RPCError er) = Ok (Some er)" if "err = Some er" for er
  proof -
    obtain kjs where "enc_RPCError er = JObj kjs" using enc_RPCError_object by blast
    then show ?thesis using rt_RPCError [of er] assms(4) that x by (simp add: dec_ptr_def)
  qed
  have r: "map_res Some (dec_raw JBad j) = Ok (Some j)" if "res = Some j" for j
    using assms(1) that x by (cases j) (simp_all add: dec_raw_def)
  show ?thesis using assms(2,3) p r
    by (cases res; cases err)
      (simp_all add: x dec_Response_def enc_Response_def dec_struct_def field_def zero_response_def omit_nil_def json_simps)
qed

section \<open>A call is a call\<close>

text \<open>What the client gets for an answer of the method: its own value, an RPC error, or the end of
  the file when the method panicked and took its process with it.\<close>

definition call_outcome :: "(go_error \<Rightarrow> string) \<Rightarrow> (json \<Rightarrow> 'a res) \<Rightarrow> json option res \<Rightarrow> 'a res" where
  "call_outcome msg bind r =
     (case r of
        Ok result \<Rightarrow> bind (case result of None \<Rightarrow> JBad | Some j \<Rightarrow> j)
      | Err e \<Rightarrow> Err (RPCErr CallerError ''Server error'' (msg e))
      | Panic p \<Rightarrow> Err EOF)"

text \<open>A value that fits a packet.\<close>

definition sendable :: "json \<Rightarrow> bool" where
  "sendable j = (json_ok j \<and> length (json_text j) < 2 ^ 48)"

text \<open>The response to an answer fits a packet.\<close>

definition answers_fit :: "(go_error \<Rightarrow> string) \<Rightarrow> json option res \<Rightarrow> bool" where
  "answers_fit msg r =
     (case r of
        Ok result \<Rightarrow> result \<noteq> Some JBad \<and> sendable (enc_Response \<lparr>js_Version = ''2.0'', js_ID = 1, js_Result = result, js_Error = None\<rparr>)
      | Err e \<Rightarrow> length (json_text (JStr (msg e))) < 2 ^ 40
      | Panic p \<Rightarrow> True)"

lemma handle_response_write:
  assumes "js_Result x \<noteq> Some JBad" and "js_ID x = 1"
    and "pred_option (\<lambda>er. int64_min \<le> re_Code er \<and> re_Code er \<le> int64_max) (js_Error x)"
    and "sendable (enc_Response x)"
  shows "handle_response bind (writePacket [] (enc_Response x)) =
    (case js_Error x of Some er \<Rightarrow> Err (rpc_error_value er)
     | None \<Rightarrow> bind (case js_Result x of None \<Rightarrow> JBad | Some j \<Rightarrow> j))"
proof -
  have "readResponse (writePacket [] (enc_Response x)) = Ok x"
    using assms writePacket_read [of "enc_Response x" "[]"] dec_Response_enc [of x]
    by (simp add: readResponse_def sendable_def ok_trace_def int64_min_def int64_max_def)
  then show ?thesis using assms(2) by (simp add: handle_response_def split: option.split)
qed

lemma handle_response_empty: "handle_response bind [] = Err EOF"
  by (simp add: handle_response_def readResponse_def readPacket_rpc_def read_headers.simps read_line_def)

lemma error_sendable:
  assumes "length (json_text (JStr d)) < 2 ^ 40"
  shows "sendable (enc_Response \<lparr>js_Version = ''2.0'', js_ID = 1, js_Result = None,
    js_Error = Some \<lparr>re_Code = CallerError, re_Message = ''Server error'', re_Data = d\<rparr>\<rparr>)"
  using assms by (simp add: sendable_def enc_Response_def enc_RPCError_def omit_nil_def CallerError_def
      fmt_d_def nat_digits.simps json_quote_def json_escape_def Let_def)

lemma method_missing_sendable:
  "sendable (enc_Response \<lparr>js_Version = ''2.0'', js_ID = 1, js_Result = None,
    js_Error = Some \<lparr>re_Code = MethodNotFound, re_Message = ''Method not found'', re_Data = []\<rparr>\<rparr>)"
  by (simp add: sendable_def enc_Response_def enc_RPCError_def omit_nil_def MethodNotFound_def
      fmt_d_def nat_digits.simps json_quote_def json_escape_def Let_def)

lemma readRequest_write:
  assumes "jq_Params q \<noteq> JBad" and "pred_option (\<lambda>i. int64_min \<le> i \<and> i \<le> int64_max) (jq_ID q)"
    and "sendable (enc_Request q)" and "ok_trace tp"
  shows "readRequest EOF (writePacket tp (enc_Request q)) = Ok (q\<lparr>jq_Traceparent := tp\<rparr>)"
  using assms writePacket_read [of "enc_Request q" tp] dec_Request_enc [of q]
  by (simp add: readRequest_def sendable_def)

lemma rpc_Call_run:
  assumes "ok_trace tp" and "params \<noteq> JBad" and "sendable (enc_Request (call_request m params))"
    and "\<And>fn. sv_methods S m = Some fn \<Longrightarrow>
      answers_fit msg (fst (fn ((call_request m params)\<lparr>jq_Traceparent := tp\<rparr>) w))"
  shows "rpc_Call msg S tp m params bind w =
    (case sv_methods S m of
       None \<Rightarrow> (Err (RPCErr MethodNotFound ''Method not found'' []), w)
     | Some fn \<Rightarrow>
         (case fn ((call_request m params)\<lparr>jq_Traceparent := tp\<rparr>) w of (r, w') \<Rightarrow> (call_outcome msg bind r, w')))"
proof -
  let ?q = "(call_request m params)\<lparr>jq_Traceparent := tp\<rparr>"
  have read: "readRequest EOF (writePacket tp (enc_Request (call_request m params))) = Ok ?q"
    by (rule readRequest_write) (use assms(1-3) in \<open>simp_all add: call_request_def int64_min_def int64_max_def\<close>)
  have h: "handleRequest msg S ?q = handle_call msg S 1 ?q" by (simp add: handleRequest_def call_request_def)
  have code: "int64_min \<le> CallerError" "CallerError \<le> int64_max" "int64_min \<le> MethodNotFound" "MethodNotFound \<le> int64_max"
    by (simp_all add: CallerError_def MethodNotFound_def int64_min_def int64_max_def)
  have m: "jq_Method ?q = m" by (simp add: call_request_def)
  show ?thesis
  proof (cases "sv_methods S m")
    case None
    then show ?thesis using code method_missing_sendable
      by (simp add: rpc_Call_def handleConnection_def read h handle_call_def m respond_def io_bind_def io_run io_try_def other_process_def
          handle_response_write rpc_error_value_def)
  next
    case (Some fn)
    obtain r w' where f: "fn ?q w = (r, w')" by (cases "fn ?q w")
    have fit: "answers_fit msg r" using assms(4) [OF Some] f by simp
    show ?thesis
    proof (cases r)
      case (Ok x)
      then show ?thesis using fit
        by (simp add: rpc_Call_def handleConnection_def read h handle_call_def m respond_def io_bind_def io_run io_try_def other_process_def
            Some f answers_fit_def handle_response_write call_outcome_def)
    next
      case (Err e)
      then show ?thesis using fit code error_sendable [of "msg e"]
        by (simp add: rpc_Call_def handleConnection_def read h handle_call_def m respond_def io_bind_def io_run io_try_def other_process_def
            Some f answers_fit_def handle_response_write call_outcome_def rpc_error_value_def)
    next
      case (Panic p)
      then show ?thesis
        by (simp add: rpc_Call_def handleConnection_def read h handle_call_def m io_bind_def io_run io_try_def other_process_def
            Some f call_outcome_def handle_response_empty)
    qed
  qed
qed

lemma rpc_Notify_run:
  assumes "ok_trace tp" and "params \<noteq> JBad" and "sendable (enc_Request ((call_request m params)\<lparr>jq_ID := None\<rparr>))"
    and "sv_notifyMethods S m = Some fn"
    and "fn ((call_request m params)\<lparr>jq_ID := None, jq_Traceparent := tp\<rparr>) w = (r, w')" and "\<And>p. r \<noteq> Panic p"
  shows "rpc_Notify msg S tp m params w = (Ok (), w')"
proof -
  let ?q = "(call_request m params)\<lparr>jq_ID := None, jq_Traceparent := tp\<rparr>"
  have read: "readRequest EOF (writePacket tp (enc_Request ((call_request m params)\<lparr>jq_ID := None\<rparr>))) = Ok ?q"
    using readRequest_write [of "(call_request m params)\<lparr>jq_ID := None\<rparr>" tp] assms(1-3) by (simp add: call_request_def)
  have "handleRequest msg S ?q w = (Ok None, w')"
    using assms(4-6) by (cases r) (auto simp: handleRequest_def handle_notify_def call_request_def io_bind_def io_try_def io_run)
  then show ?thesis by (simp add: rpc_Notify_def handleConnection_def read io_bind_def other_process_def io_run)
qed

text \<open>
  Property C11: a call over the socket is a call of the method.  When the registered
  method ends with a value the client of \<open>Call\<close> gets the decoded value, when it ends with an
  error the client gets an RPC error with it, when it panics the client finds its connection
  closed, and the state is the one the method left; a method that is not registered is
  reported as such.
\<close>

theorem Call_is_method:
  assumes "ok_trace tp" and "params \<noteq> JBad" and "sendable (enc_Request (call_request m params))"
    and "\<And>fn. sv_methods S m = Some fn \<Longrightarrow>
      answers_fit msg (fst (fn ((call_request m params)\<lparr>jq_Traceparent := tp\<rparr>) w))"
  shows "rpc_Call msg S tp m params bind w =
    (case sv_methods S m of
       None \<Rightarrow> (Err (RPCErr MethodNotFound ''Method not found'' []), w)
     | Some fn \<Rightarrow>
         (case fn ((call_request m params)\<lparr>jq_Traceparent := tp\<rparr>) w of (r, w') \<Rightarrow> (call_outcome msg bind r, w')))"
  using assms by (rule rpc_Call_run)

definition demo_server :: "nat rpc_server" where
  "demo_server = RegisterMethod ''count'' (\<lambda>q n. (Ok (Some (jq_Params q)), Suc n)) NewServer"

lemma Call_is_method_witness:
  "rpc_Call (\<lambda>e. ''error'') demo_server ''00-ab-01'' ''count'' (JStr ''hi'') (dec_str []) 4 =
    (case sv_methods demo_server ''count'' of
       None \<Rightarrow> (Err (RPCErr MethodNotFound ''Method not found'' []), 4)
     | Some fn \<Rightarrow>
         (case fn ((call_request ''count'' (JStr ''hi''))\<lparr>jq_Traceparent := ''00-ab-01''\<rparr>) 4 of
            (r, w') \<Rightarrow> (call_outcome (\<lambda>e. ''error'') (dec_str []) r, w')))"
proof (rule Call_is_method)
  show "ok_trace ''00-ab-01''" by (simp add: ok_trace_def)
  show "sendable (enc_Request (call_request ''count'' (JStr ''hi'')))"
    by (simp add: sendable_def enc_Request_def call_request_def omit_nil_def fmt_d_def nat_digits.simps json_quote_def
        json_escape_def Let_def)
  fix fn assume "sv_methods demo_server ''count'' = Some fn"
  then have "fn = (\<lambda>q n. (Ok (Some (jq_Params q)), Suc n))" by (simp add: demo_server_def RegisterMethod_def)
  then show "answers_fit (\<lambda>e. ''error'')
      (fst (fn ((call_request ''count'' (JStr ''hi''))\<lparr>jq_Traceparent := ''00-ab-01''\<rparr>) 4))"
    by (simp add: answers_fit_def call_request_def sendable_def enc_Response_def omit_nil_def fmt_d_def nat_digits.simps
        json_quote_def json_escape_def Let_def)
qed simp

end
