(* ===== verification/Exteriord.thy ===== *)
theory Exteriord
  imports Rpc
begin

text \<open>
  \<open>src/backend/runner/commands/exteriord/{state,apis}.go\<close> and the client of its state
  (\<open>mclauncher/repository/state.go\<close>): the values the processes of a runner keep across
  restarts.  The file operations are parameters with their documented behaviour
  (\<open>honest_disk\<close>); the store is a map over any backend that keeps \<open>state_backend\<close>, and the
  backend on a file does.
\<close>

section \<open>The backend\<close>

text \<open>\<open>os.Open\<close> and reading all of a file; \<open>os.Create\<close> and writing all of it.\<close>

record 'w file_ops =
  fo_Open :: "string \<Rightarrow> ('w, string) io"
  fo_Create :: "string \<Rightarrow> string \<Rightarrow> ('w, unit) io"

text \<open>A Go map of strings, in some order of its keys; \<open>None\<close> is the nil map.\<close>

type_synonym go_map = "(string \<times> string) list option"

record 'w state_backend_ops =
  sb_LoadStates :: "('w, go_map) io"
  sb_SaveStates :: "go_map \<Rightarrow> ('w, unit) io"

definition decode_states :: "string \<Rightarrow> go_map res" where
  "decode_states s = (if skip_ws s = [] then Err EOF else dec_ptr [] dec_map None (json_first s))"

definition LoadStates :: "'w file_ops \<Rightarrow> string \<Rightarrow> ('w, go_map) io" where
  "LoadStates F path w =
     (case fo_Open F path w of
        (Err e, w1) \<Rightarrow> if e = NotExist then (Ok (Some []), w1) else (Err e, w1)
      | (Panic p, w1) \<Rightarrow> (Panic p, w1)
      | (Ok s, w1) \<Rightarrow> (decode_states s, w1))"

text \<open>\<open>json.Encoder\<close>: the keys in order, and a newline.\<close>

definition encode_states :: "go_map \<Rightarrow> string" where
  "encode_states m =
     json_text (case m of None \<Rightarrow> JNull | Some kvs \<Rightarrow> enc_map (sort_key fst kvs)) @ [CHR 0x0A]"

definition SaveStates :: "'w file_ops \<Rightarrow> string \<Rightarrow> go_map \<Rightarrow> ('w, unit) io" where
  "SaveStates F path m = fo_Create F path (encode_states m)"

definition NewLocalStorageStateBackend :: "'w file_ops \<Rightarrow> string \<Rightarrow> 'w state_backend_ops" where
  "NewLocalStorageStateBackend F path = \<lparr>sb_LoadStates = LoadStates F path, sb_SaveStates = SaveStates F path\<rparr>"

section \<open>The store\<close>

text \<open>A value cannot be put into a nil map.\<close>

definition store_Set :: "'w state_backend_ops \<Rightarrow> string \<Rightarrow> string \<Rightarrow> ('w, unit) io" where
  "store_Set B key val =
     io_bind (sb_LoadStates B) (\<lambda>state.
     case state of
       None \<Rightarrow> io_panic ''assignment to entry in nil map''
     | Some m \<Rightarrow> sb_SaveStates B (Some (map_put key val m)))"

definition store_Get :: "'w state_backend_ops \<Rightarrow> string \<Rightarrow> ('w, string) io" where
  "store_Get B key =
     io_bind (sb_LoadStates B) (\<lambda>state. io_ret (case state of None \<Rightarrow> [] | Some m \<Rightarrow> map_lookup m key))"

definition store_Remove :: "'w state_backend_ops \<Rightarrow> string \<Rightarrow> ('w, unit) io" where
  "store_Remove B key = io_bind (sb_LoadStates B) (\<lambda>state. sb_SaveStates B (map_option (map_del key) state))"

section \<open>A backend keeps a map\<close>

locale state_backend =
  fixes B :: "'w state_backend_ops"
    and states :: "'w \<Rightarrow> string \<rightharpoonup> string"
    and sound :: "'w \<Rightarrow> bool"
  assumes load: "sound w \<Longrightarrow>
      \<exists>m. sb_LoadStates B w = (Ok (Some m), w) \<and> distinct (map fst m) \<and> map_of m = states w"
    and save: "sound w \<Longrightarrow> distinct (map fst m) \<Longrightarrow>
      \<exists>w'. sb_SaveStates B (Some m) w = (Ok (), w') \<and> sound w' \<and> states w' = map_of m"
begin

lemma Set:
  assumes "sound w"
  obtains w' where "store_Set B k v w = (Ok (), w')" "sound w'" "states w' = (states w)(k \<mapsto> v)"
proof -
  obtain m where m: "sb_LoadStates B w = (Ok (Some m), w)" "distinct (map fst m)" "map_of m = states w"
    using load [OF assms] by blast
  have "distinct (map fst (map_put k v m))" using distinct_filter_key [OF m(2)] by (auto simp: map_put_def)
  then obtain w' where "sb_SaveStates B (Some (map_put k v m)) w = (Ok (), w')" "sound w'"
    "states w' = map_of (map_put k v m)" using save [OF assms] by blast
  moreover have "map_of (map_put k v m) = (states w)(k \<mapsto> v)"
    using m(3) by (intro ext) (simp add: map_put_def map_of_filter_key map_add_def fun_eq_iff split: option.split)
  ultimately show thesis using m(1) that by (simp add: store_Set_def io_bind_def)
qed

lemma Get:
  assumes "sound w"
  shows "store_Get B k w = (Ok (case states w k of None \<Rightarrow> [] | Some v \<Rightarrow> v), w)"
  using load [OF assms] by (auto simp: store_Get_def io_bind_def io_run map_lookup_def)

lemma Remove:
  assumes "sound w"
  obtains w' where "store_Remove B k w = (Ok (), w')" "sound w'" "states w' = (states w)(k := None)"
proof -
  obtain m where m: "sb_LoadStates B w = (Ok (Some m), w)" "distinct (map fst m)" "map_of m = states w"
    using load [OF assms] by blast
  have "distinct (map fst (map_del k m))" using distinct_filter_key [OF m(2)] by (simp add: map_del_def)
  then obtain w' where "sb_SaveStates B (Some (map_del k m)) w = (Ok (), w')" "sound w'"
    "states w' = map_of (map_del k m)" using save [OF assms] by blast
  then show thesis
    using m that by (auto simp: store_Remove_def io_bind_def map_del_def map_of_filter_key)
qed

end

section \<open>The file keeps the map\<close>

locale honest_disk =
  fixes F :: "'w file_ops"
    and files :: "'w \<Rightarrow> string \<rightharpoonup> string"
  assumes Open: "fo_Open F p w = (case files w p of None \<Rightarrow> Err NotExist | Some s \<Rightarrow> Ok s, w)"
    and Create: "\<exists>w'. fo_Create F p s w = (Ok (), w') \<and> files w' = (files w)(p \<mapsto> s)"

definition states_in :: "('w \<Rightarrow> string \<rightharpoonup> string) \<Rightarrow> string \<Rightarrow> 'w \<Rightarrow> string \<rightharpoonup> string" where
  "states_in files path w =
     (case files w path of
        None \<Rightarrow> Map.empty
      | Some s \<Rightarrow> (case decode_states s of Ok (Some m) \<Rightarrow> map_of m | _ \<Rightarrow> Map.empty))"

definition states_sound :: "('w \<Rightarrow> string \<rightharpoonup> string) \<Rightarrow> string \<Rightarrow> 'w \<Rightarrow> bool" where
  "states_sound files path w =
     (case files w path of
        None \<Rightarrow> True
      | Some s \<Rightarrow> (case decode_states s of Ok (Some m) \<Rightarrow> distinct (map fst m) | _ \<Rightarrow> False))"

lemma decode_encode_states:
  assumes "distinct (map fst m)"
  shows "decode_states (encode_states (Some m)) = Ok (Some (sort_key fst m))"
proof -
  let ?j = "enc_map (sort_key fst m)"
  have "json_ok ?j" by (auto simp: enc_map_def)
  moreover have "follows [CHR 0x0A]" by (simp add: follows_def num_char_def is_digit_def)
  ultimately have j: "json_first (encode_states (Some m)) = ?j"
    unfolding encode_states_def by (simp add: json_first_text del: json_text.simps)
  have "skip_ws (encode_states (Some m)) \<noteq> []" by (simp add: encode_states_def enc_map_def)
  moreover have "?j \<noteq> JNull" by (simp add: enc_map_def)
  ultimately show ?thesis
    using distinct_fst_sort [OF assms] by (simp add: decode_states_def j dec_map_enc dec_ptr_eq)
qed

context honest_disk
begin

lemma Load_sound:
  assumes "states_sound files path w"
  shows "\<exists>m. LoadStates F path w = (Ok (Some m), w) \<and> distinct (map fst m) \<and> map_of m = states_in files path w"
  using assms by (auto simp: LoadStates_def Open states_sound_def states_in_def split: option.splits res.splits)

lemma Save_sound:
  assumes "distinct (map fst m)"
  shows "\<exists>w'. SaveStates F path (Some m) w = (Ok (), w') \<and> states_sound files path w' \<and> states_in files path w' = map_of m"
  using Create [of path "encode_states (Some m)" w] decode_encode_states [OF assms] map_of_sort [OF assms]
    distinct_fst_sort [OF assms]
  by (auto simp: SaveStates_def states_sound_def states_in_def)

end

sublocale honest_disk \<subseteq> local_states: state_backend "NewLocalStorageStateBackend F path" "states_in files path" "states_sound files path" for path
  by unfold_locales (use Load_sound Save_sound in \<open>simp_all add: NewLocalStorageStateBackend_def\<close>)

section \<open>Operations of the store refine those of a map\<close>

datatype state_op = OpSet string string | OpGet string | OpRemove string

text \<open>One request after the other: the values that the \<open>Get\<close>s return.\<close>

fun run_store :: "'w state_backend_ops \<Rightarrow> state_op list \<Rightarrow> ('w, string list) io" where
  "run_store B [] = io_ret []"
| "run_store B (OpSet k v # ops) = io_bind (store_Set B k v) (\<lambda>_. run_store B ops)"
| "run_store B (OpGet k # ops) = io_bind (store_Get B k) (\<lambda>v. io_bind (run_store B ops) (\<lambda>vs. io_ret (v # vs)))"
| "run_store B (OpRemove k # ops) = io_bind (store_Remove B k) (\<lambda>_. run_store B ops)"

fun run_map :: "state_op list \<Rightarrow> (string \<rightharpoonup> string) \<Rightarrow> string list \<times> (string \<rightharpoonup> string)" where
  "run_map [] m = ([], m)"
| "run_map (OpSet k v # ops) m = run_map ops (m(k \<mapsto> v))"
| "run_map (OpGet k # ops) m =
     (let (vs, m') = run_map ops m in ((case m k of None \<Rightarrow> [] | Some v \<Rightarrow> v) # vs, m'))"
| "run_map (OpRemove k # ops) m = run_map ops (m(k := None))"

context state_backend
begin

lemma run_store_map:
  "sound w \<Longrightarrow> \<exists>w'. run_store B ops w = (Ok (fst (run_map ops (states w))), w') \<and> sound w'
    \<and> states w' = snd (run_map ops (states w))"
proof (induction ops arbitrary: w)
  case (Cons op ops)
  show ?case
  proof (cases op)
    case (OpSet k v)
    obtain w1 where "store_Set B k v w = (Ok (), w1)" "sound w1" "states w1 = (states w)(k \<mapsto> v)"
      using Set [OF Cons.prems] .
    with Cons.IH [of w1] OpSet show ?thesis by (simp add: io_bind_def fun_upd_def)
  next
    case (OpGet k)
    with Cons.IH [OF Cons.prems] Get [OF Cons.prems] show ?thesis
      by (auto simp: io_bind_def io_run Let_def split: prod.split)
  next
    case (OpRemove k)
    obtain w1 where "store_Remove B k w = (Ok (), w1)" "sound w1" "states w1 = (states w)(k := None)"
      using Remove [OF Cons.prems] .
    with Cons.IH [of w1] OpRemove show ?thesis by (simp add: io_bind_def fun_upd_def)
  qed
qed (simp add: io_run)

end

context honest_disk
begin

lemmas run_local_store = local_states.run_store_map and set_local = local_states.Set
  and get_local = local_states.Get and remove_local = local_states.Remove

end

text \<open>A disk in memory.\<close>

definition mem_disk :: "(string \<rightharpoonup> string) file_ops" where
  "mem_disk =
     \<lparr>fo_Open = (\<lambda>p m. (case m p of None \<Rightarrow> Err NotExist | Some s \<Rightarrow> Ok s, m)),
      fo_Create = (\<lambda>p s m. (Ok (), m(p \<mapsto> s)))\<rparr>"

interpretation mem: honest_disk mem_disk "\<lambda>m. m"
  by unfold_locales (simp_all add: mem_disk_def)

text \<open>
  Property C27: the state store is a map of strings.  Over any disk that behaves, whatever is
  set, read and removed in whatever order, the reads return what a map returns, the empty
  string for a missing key, and the file holds exactly that map afterwards.  Each request
  reads and writes the file, so this holds across restarts of the process too.
\<close>

theorem state_store_is_map:
  assumes "honest_disk F files" and "states_sound files path w"
  shows "\<exists>w'. run_store (NewLocalStorageStateBackend F path) ops w = (Ok (fst (run_map ops (states_in files path w))), w')
    \<and> states_in files path w' = snd (run_map ops (states_in files path w))"
  using honest_disk.run_local_store [OF assms] by blast

lemma state_store_is_map_witness:
  "\<exists>w'. run_store (NewLocalStorageStateBackend mem_disk ''states.json'')
      [OpGet ''k'', OpSet ''k'' ''v'', OpSet ''l'' ''x'', OpGet ''k'', OpRemove ''k'', OpGet ''k''] Map.empty
        = (Ok [[], ''v'', []], w')
    \<and> states_in (\<lambda>m. m) ''states.json'' w' = [''l'' \<mapsto> ''x'']"
proof -
  let ?ops = "[OpGet ''k'', OpSet ''k'' ''v'', OpSet ''l'' ''x'', OpGet ''k'', OpRemove ''k'', OpGet ''k'']"
  have "states_in (\<lambda>m. m) ''states.json'' Map.empty = Map.empty" by (simp add: states_in_def)
  moreover have "run_map ?ops Map.empty = ([[], ''v'', []], [''l'' \<mapsto> ''x''])" by (auto simp: fun_eq_iff)
  moreover have "states_sound (\<lambda>m. m) ''states.json'' Map.empty" by (simp add: states_sound_def)
  ultimately show ?thesis
    using state_store_is_map [OF mem.honest_disk_axioms, of "''states.json''" Map.empty ?ops]
    by (simp del: run_store.simps run_map.simps)
qed

section \<open>The handler of requests\<close>

record outbound_message =
  om_Dispatch :: bool
  om_Event :: event

definition enc_EventInput :: "outbound_message \<Rightarrow> json" where
  "enc_EventInput m = JObj [(''dispatch'', JBool (om_Dispatch m)), (''event'', enc_event (om_Event m))]"

definition dec_EventInput :: "outbound_message dec" where
  "dec_EventInput = dec_struct
     [field ''dispatch'' dec_bool om_Dispatch (\<lambda>v r. r\<lparr>om_Dispatch := v\<rparr>),
      field ''event'' dec_event om_Event (\<lambda>v r. r\<lparr>om_Event := v\<rparr>)]"

definition zero_EventInput :: outbound_message where
  "zero_EventInput = \<lparr>om_Dispatch = False, om_Event = zero_event\<rparr>"

definition dec_field :: "string \<Rightarrow> string dec" where
  "dec_field name = dec_struct [field name dec_str (\<lambda>s. s) (\<lambda>v s. v)]"

definition dec_StateSetInput :: "(string \<times> string) dec" where
  "dec_StateSetInput = dec_struct [field ''key'' dec_str fst (\<lambda>v s. (v, snd s)), field ''value'' dec_str snd (\<lambda>v s. (fst s, v))]"

text \<open>
  The process: the world outside (the disk, the other processes), the channel to the outbound
  server, the stop hooks, and whether its context is cancelled.  The channel holds what has
  not been received yet; a sender that has to wait for room is not modelled.
\<close>

record 'w exteriord =
  ex_world :: 'w
  ex_msgChan :: "outbound_message list"
  ex_stopHook :: "string list"
  ex_cancelled :: bool

text \<open>The state store, and the notification of another process: the socket's name, the method.\<close>

record 'w exterior_handler =
  eh_states :: "'w state_backend_ops"
  eh_notify :: "string \<Rightarrow> string \<Rightarrow> json \<Rightarrow> ('w, unit) io"

definition in_world :: "('w, 'a) io \<Rightarrow> ('w exteriord, 'a) io" where
  "in_world m s = (case m (ex_world s) of (r, w) \<Rightarrow> (r, s\<lparr>ex_world := w\<rparr>))"

definition HandleStatusPush :: "rpc_request \<Rightarrow> ('w exteriord, unit) io" where
  "HandleStatusPush q =
     io_bind (io_lift (rpc_Bind dec_EventInput zero_EventInput q)) (\<lambda>msg s.
     (Ok (), s\<lparr>ex_msgChan := ex_msgChan s @ [msg]\<rparr>))"

definition HandleStateSet :: "'w exterior_handler \<Rightarrow> rpc_request \<Rightarrow> ('w exteriord, json option) io" where
  "HandleStateSet h q =
     io_bind (io_lift (rpc_Bind dec_StateSetInput ([], []) q)) (\<lambda>(key, val).
     io_bind (in_world (store_Set (eh_states h) key val)) (\<lambda>_. io_ret (Some (JStr ''ok''))))"

definition HandleStateGet :: "'w exterior_handler \<Rightarrow> rpc_request \<Rightarrow> ('w exteriord, json option) io" where
  "HandleStateGet h q =
     io_bind (io_lift (rpc_Bind (dec_field ''key'') [] q)) (\<lambda>key.
     io_bind (in_world (store_Get (eh_states h) key)) (\<lambda>val. io_ret (Some (JStr val))))"

definition HandleStateRemove :: "'w exterior_handler \<Rightarrow> rpc_request \<Rightarrow> ('w exteriord, json option) io" where
  "HandleStateRemove h q =
     io_bind (io_lift (rpc_Bind (dec_field ''key'') [] q)) (\<lambda>key.
     io_bind (in_world (store_Remove (eh_states h) key)) (\<lambda>_. io_ret (Some (JStr ''ok''))))"

definition HandleProcRegisterStopHook :: "rpc_request \<Rightarrow> ('w exteriord, unit) io" where
  "HandleProcRegisterStopHook q =
     io_bind (io_lift (rpc_Bind dec_str [] q)) (\<lambda>cmd s.
     (Ok (), s\<lparr>ex_stopHook := ex_stopHook s @ [cmd]\<rparr>))"

fun notify_hooks :: "'w exterior_handler \<Rightarrow> string list \<Rightarrow> ('w, unit) io" where
  "notify_hooks h [] = io_ret ()"
| "notify_hooks h (cmd # cmds) =
     io_bind (io_try (eh_notify h (''rpc@'' @ cmd) ''base/stop'' JNull)) (\<lambda>_. notify_hooks h cmds)"

definition HandleProcDone :: "'w exterior_handler \<Rightarrow> rpc_request \<Rightarrow> ('w exteriord, unit) io" where
  "HandleProcDone h q s =
     io_bind (in_world (notify_hooks h (ex_stopHook s))) (\<lambda>_ s. (Ok (), s\<lparr>ex_cancelled := True\<rparr>)) s"

definition exteriord_Bind :: "'w exterior_handler \<Rightarrow> 'w exteriord rpc_server \<Rightarrow> 'w exteriord rpc_server" where
  "exteriord_Bind h S =
     RegisterMethod ''state/remove'' (HandleStateRemove h)
     (RegisterMethod ''state/get'' (HandleStateGet h)
     (RegisterMethod ''state/save'' (HandleStateSet h)
     (RegisterNotifyMethod ''proc/done'' (HandleProcDone h)
     (RegisterNotifyMethod ''proc/registerStopHook'' HandleProcRegisterStopHook
     (RegisterNotifyMethod ''status/push'' HandleStatusPush S)))))"

section \<open>Sending events\<close>

text \<open>
  \<open>src/backend/runner/exterior\<close>: the other processes send their events with the trace context
  \<open>tp\<close>; \<open>notify\<close> is the notification of this process.
\<close>

definition sendEvent :: "(string \<Rightarrow> json \<Rightarrow> ('w, unit) io) \<Rightarrow> event \<Rightarrow> bool \<Rightarrow> ('w, unit) io" where
  "sendEvent notify ev dispatch = notify ''status/push'' (enc_EventInput \<lparr>om_Dispatch = dispatch, om_Event = ev\<rparr>)"

definition with_trace :: "string \<Rightarrow> event \<Rightarrow> event" where
  "with_trace tp ev = ev\<lparr>ev_Metadata := (ev_Metadata ev)\<lparr>rm_Traceparent := tp\<rparr>\<rparr>"

definition SendEvent :: "string \<Rightarrow> (string \<Rightarrow> json \<Rightarrow> ('w, unit) io) \<Rightarrow> event \<Rightarrow> ('w, unit) io" where
  "SendEvent tp notify ev = io_bind (io_try (sendEvent notify (with_trace tp ev) False)) (\<lambda>_. io_ret ())"

definition DispatchEvent :: "string \<Rightarrow> (string \<Rightarrow> json \<Rightarrow> ('w, unit) io) \<Rightarrow> event \<Rightarrow> ('w, unit) io" where
  "DispatchEvent tp notify ev = io_bind (io_try (sendEvent notify (with_trace tp ev) True)) (\<lambda>_. io_ret ())"

section \<open>The client of the state\<close>

text \<open>The state of the launcher, and its implementation: \<open>SetState\<close> hands over the JSON text of the value.\<close>

record 'w state_repository =
  sr_SetState :: "string \<Rightarrow> string \<Rightarrow> ('w, unit) io"
  sr_RemoveState :: "string \<Rightarrow> ('w, unit) io"
  sr_GetState :: "string \<Rightarrow> ('w, string) io"

definition SetState :: "(go_error \<Rightarrow> string) \<Rightarrow> 'w rpc_server \<Rightarrow> string \<Rightarrow> string \<Rightarrow> string \<Rightarrow> ('w, unit) io" where
  "SetState msg S tp key state =
     rpc_Call msg S tp ''state/save'' (JObj [(''key'', JStr key), (''value'', JStr (json_quote state))]) (\<lambda>_. Ok ())"

definition RemoveState :: "(go_error \<Rightarrow> string) \<Rightarrow> 'w rpc_server \<Rightarrow> string \<Rightarrow> string \<Rightarrow> ('w, unit) io" where
  "RemoveState msg S tp key = rpc_Call msg S tp ''state/remove'' (JObj [(''key'', JStr key)]) (\<lambda>_. Ok ())"

definition GetState :: "(go_error \<Rightarrow> string) \<Rightarrow> 'w rpc_server \<Rightarrow> string \<Rightarrow> string \<Rightarrow> ('w, string) io" where
  "GetState msg S tp key = rpc_Call msg S tp ''state/get'' (JObj [(''key'', JStr key)]) (dec_str [])"

definition NewExteriorStateRepository :: "(go_error \<Rightarrow> string) \<Rightarrow> 'w rpc_server \<Rightarrow> string \<Rightarrow> 'w state_repository" where
  "NewExteriorStateRepository msg S tp =
     \<lparr>sr_SetState = SetState msg S tp, sr_RemoveState = RemoveState msg S tp, sr_GetState = GetState msg S tp\<rparr>"

section \<open>The state of the launcher is quoted\<close>

lemma exteriord_methods:
  "sv_methods (exteriord_Bind h S) ''state/save'' = Some (HandleStateSet h)"
  "sv_methods (exteriord_Bind h S) ''state/get'' = Some (HandleStateGet h)"
  "sv_methods (exteriord_Bind h S) ''state/remove'' = Some (HandleStateRemove h)"
  "sv_notifyMethods (exteriord_Bind h S) ''status/push'' = Some HandleStatusPush"
  by (simp_all add: exteriord_Bind_def RegisterMethod_def RegisterNotifyMethod_def)

text \<open>Texts that fit a packet with room for its other members.\<close>

definition short_text :: "string \<Rightarrow> bool" where
  "short_text s = (length s < 2 ^ 30)"

lemma json_escape_length: "length (json_escape c) \<le> 6"
  by (simp add: json_escape_def Let_def)

lemma json_quote_bound: "length (json_quote s) \<le> 6 * length s + 2"
proof -
  have "length (json_escapes s) \<le> 6 * length s"
  proof (induction s rule: json_escapes.induct)
    case (2 c s)
    then show ?case using json_escape_length [of c] by (cases "line_separator (c # s)") fastforce+
  qed simp
  then show ?thesis by (simp add: json_quote_def)
qed

lemma quote_lengths:
  "length (json_quote ''jsonrpc'') \<le> 44" "length (json_quote ''2.0'') \<le> 20" "length (json_quote ''id'') \<le> 14"
  "length (json_quote ''method'') \<le> 38" "length (json_quote ''params'') \<le> 38" "length (json_quote ''result'') \<le> 38"
  "length (json_quote ''key'') \<le> 20" "length (json_quote ''value'') \<le> 32"
  using json_quote_bound [of "''jsonrpc''"] json_quote_bound [of "''2.0''"] json_quote_bound [of "''id''"]
    json_quote_bound [of "''method''"] json_quote_bound [of "''params''"] json_quote_bound [of "''result''"]
    json_quote_bound [of "''key''"] json_quote_bound [of "''value''"]
  by simp_all

lemma call_sendable:
  assumes "json_ok p" and "length (json_text p) < 2 ^ 40" and "length m < 100"
  shows "sendable (enc_Request (call_request m p))"
  using assms quote_lengths json_quote_bound [of m]
  by (simp add: sendable_def enc_Request_def call_request_def omit_nil_def fmt_d_def nat_digits.simps)

lemma answer_fits:
  assumes "length v < 2 ^ 40"
  shows "answers_fit msg (Ok (Some (JStr v)))"
  using assms quote_lengths json_quote_bound [of v]
  by (simp add: answers_fit_def sendable_def enc_Response_def omit_nil_def fmt_d_def nat_digits.simps)

lemma dec_inputs:
  "rpc_Bind dec_StateSetInput ([], []) (call_request m (JObj [(''key'', JStr k), (''value'', JStr v)])\<lparr>jq_Traceparent := tp\<rparr>) = Ok (k, v)"
  "rpc_Bind (dec_field ''key'') [] (call_request m (JObj [(''key'', JStr k)])\<lparr>jq_Traceparent := tp\<rparr>) = Ok k"
  by (simp_all add: rpc_Bind_def call_request_def dec_StateSetInput_def dec_field_def dec_struct_def field_def json_simps)

text \<open>The process whose state is kept on a disk.\<close>

definition disk_exteriord :: "'w file_ops \<Rightarrow> string \<Rightarrow> (string \<Rightarrow> string \<Rightarrow> json \<Rightarrow> ('w, unit) io) \<Rightarrow> 'w exteriord rpc_server" where
  "disk_exteriord F path nt = exteriord_Bind \<lparr>eh_states = NewLocalStorageStateBackend F path, eh_notify = nt\<rparr> NewServer"

lemma SetState_run:
  assumes "honest_disk F files" and "states_sound files path (ex_world s)" and "ok_trace tp"
    and "short_text key" and "short_text state"
  obtains w where "SetState msg (disk_exteriord F path nt) tp key state s = (Ok (), s\<lparr>ex_world := w\<rparr>)"
    and "states_sound files path w"
    and "states_in files path w = (states_in files path (ex_world s))(key \<mapsto> json_quote state)"
proof -
  let ?p = "JObj [(''key'', JStr key), (''value'', JStr (json_quote state))]"
  obtain w where w: "store_Set (NewLocalStorageStateBackend F path) key (json_quote state) (ex_world s) = (Ok (), w)"
    "states_sound files path w" "states_in files path w = (states_in files path (ex_world s))(key \<mapsto> json_quote state)"
    using honest_disk.set_local [OF assms(1,2)] .
  have "length (json_text ?p) < 2 ^ 40"
    using assms(4,5) quote_lengths json_quote_bound [of key] json_quote_bound [of "json_quote state"] json_quote_bound [of state]
    by (simp add: short_text_def)
  then have fit: "sendable (enc_Request (call_request ''state/save'' ?p))" by (intro call_sendable) simp_all
  have "SetState msg (disk_exteriord F path nt) tp key state s = (Ok (), s\<lparr>ex_world := w\<rparr>)"
    unfolding SetState_def disk_exteriord_def
    by (subst rpc_Call_run [OF assms(3) _ fit])
      (simp_all add: exteriord_methods HandleStateSet_def dec_inputs in_world_def io_bind_def io_run w(1) answer_fits call_outcome_def)
  then show thesis using w(2,3) that by blast
qed

lemma GetState_run:
  assumes "honest_disk F files" and "states_sound files path (ex_world s)" and "ok_trace tp" and "short_text key"
    and "pred_option (\<lambda>v. length v < 2 ^ 40) (states_in files path (ex_world s) key)"
  shows "GetState msg (disk_exteriord F path nt) tp key s
    = (Ok (case states_in files path (ex_world s) key of None \<Rightarrow> [] | Some v \<Rightarrow> v), s)"
proof -
  let ?p = "JObj [(''key'', JStr key)]"
  let ?v = "case states_in files path (ex_world s) key of None \<Rightarrow> [] | Some v \<Rightarrow> v"
  have get: "store_Get (NewLocalStorageStateBackend F path) key (ex_world s) = (Ok ?v, ex_world s)"
    using honest_disk.get_local [OF assms(1,2)] .
  have "length (json_text ?p) < 2 ^ 40"
    using assms(4) quote_lengths json_quote_bound [of key] by (simp add: short_text_def)
  then have fit: "sendable (enc_Request (call_request ''state/get'' ?p))" by (intro call_sendable) simp_all
  have v: "answers_fit msg (Ok (Some (JStr ?v)))" by (rule answer_fits) (use assms(5) in \<open>auto split: option.split\<close>)
  show ?thesis
    unfolding GetState_def disk_exteriord_def
    by (subst rpc_Call_run [OF assms(3) _ fit])
      (simp_all add: exteriord_methods HandleStateGet_def dec_inputs in_world_def io_bind_def io_run get v call_outcome_def json_simps)
qed

lemma RemoveState_run:
  assumes "honest_disk F files" and "states_sound files path (ex_world s)" and "ok_trace tp" and "short_text key"
  obtains w where "RemoveState msg (disk_exteriord F path nt) tp key s = (Ok (), s\<lparr>ex_world := w\<rparr>)"
    and "states_sound files path w"
    and "states_in files path w = (states_in files path (ex_world s))(key := None)"
proof -
  let ?p = "JObj [(''key'', JStr key)]"
  obtain w where w: "store_Remove (NewLocalStorageStateBackend F path) key (ex_world s) = (Ok (), w)"
    "states_sound files path w" "states_in files path w = (states_in files path (ex_world s))(key := None)"
    using honest_disk.remove_local [OF assms(1,2)] .
  have "length (json_text ?p) < 2 ^ 40"
    using assms(4) quote_lengths json_quote_bound [of key] by (simp add: short_text_def)
  then have fit: "sendable (enc_Request (call_request ''state/remove'' ?p))" by (intro call_sendable) simp_all
  have "RemoveState msg (disk_exteriord F path nt) tp key s = (Ok (), s\<lparr>ex_world := w\<rparr>)"
    unfolding RemoveState_def disk_exteriord_def
    by (subst rpc_Call_run [OF assms(3) _ fit])
      (simp_all add: exteriord_methods HandleStateRemove_def dec_inputs in_world_def io_bind_def io_run w(1) answer_fits call_outcome_def)
  then show thesis using w(2,3) that by blast
qed

text \<open>
  A state that the launcher sets is not the state it gets.  \<open>SetState\<close> sends the
  JSON text of the value as the value, and \<open>GetState\<close> returns what is stored: for every key and
  every value, through the socket, the handler and the file, the launcher reads its value in
  quotes, which is never the value.  The key of the world it compares is one of these.
\<close>

lemma state_is_quoted:
  assumes "honest_disk F files" and "states_sound files path (ex_world s)" and "ok_trace tp"
    and "short_text key" and "short_text state"
  shows "\<exists>s1. SetState msg (disk_exteriord F path nt) tp key state s = (Ok (), s1)
    \<and> GetState msg (disk_exteriord F path nt) tp key s1 = (Ok (json_quote state), s1) \<and> json_quote state \<noteq> state"
proof -
  obtain w where w: "SetState msg (disk_exteriord F path nt) tp key state s = (Ok (), s\<lparr>ex_world := w\<rparr>)"
    "states_sound files path w" "states_in files path w = (states_in files path (ex_world s))(key \<mapsto> json_quote state)"
    using SetState_run [OF assms] .
  have "length (json_quote state) < 2 ^ 40" using json_quote_bound [of state] assms(5) by (simp add: short_text_def)
  then have "GetState msg (disk_exteriord F path nt) tp key (s\<lparr>ex_world := w\<rparr>) = (Ok (json_quote state), s\<lparr>ex_world := w\<rparr>)"
    using w(2,3) by (subst GetState_run [OF assms(1) _ assms(3,4)]) simp_all
  then show ?thesis using w(1) json_quote_neq by blast
qed

end
