(* ===== verification/McCore.thy ===== *)
theory McCore
  imports Exteriord
begin

text \<open>
  The core of the runner's game launcher: \<open>src/backend/runner/commands/mclauncher/core\<close>, the
  settings (\<open>mclauncher/repository/settings.go\<close>), the processes it starts
  (\<open>runner/system/cmd.go\<close>, \<open>mclauncher/quickundo/executor.go\<close>) and the memory of the host
  (\<open>runner/system/memory.go\<close>).  The operating system is a parameter: starting a process,
  waiting for it, killing it.
\<close>

section \<open>The memory of the host\<close>

text \<open>
  \<open>/proc/meminfo\<close> line by line: a line, its end, or an error.  The line that is read with an
  error is empty.
\<close>

definition parseMeminfoLine :: "string \<Rightarrow> string \<times> int res" where
  "parseMeminfoLine line =
     (case str_index '':'' line of
        None \<Rightarrow> ([], Err (Msg ''invalid line''))
      | Some pos \<Rightarrow>
          (let key = take pos line;
               fields = str_split '' '' (trim_set [CHR 0x20, CHR 0x0D, CHR 0x0A] (drop (Suc pos) line))
           in (key, case go_atoi (hd fields) of
                 Err e \<Rightarrow> Err e
               | Panic p \<Rightarrow> Panic p
               | Ok v \<Rightarrow>
                   if length fields > 1 then
                     (if fields ! 1 = ''kB'' then Ok (wrap64 (v * 1024)) else Err (Msg ''unsupported suffix''))
                   else Ok v)))"

partial_function (option) readTotalMemory_from :: "(nat \<Rightarrow> string res) \<Rightarrow> nat \<Rightarrow> int res option" where
  "readTotalMemory_from rd i =
     (if rd i = Err EOF then Some (Err (Msg ''reached to EOF without reading MemTotal''))
      else
        (let (key, r) = parseMeminfoLine (case rd i of Ok l \<Rightarrow> l | _ \<Rightarrow> []) in
         case r of
           Ok v \<Rightarrow> if key = ''MemTotal'' then Some (Ok v) else readTotalMemory_from rd (Suc i)
         | Err e \<Rightarrow> if key \<noteq> ''MemTotal'' then readTotalMemory_from rd (Suc i) else Some (Err e)
         | Panic p \<Rightarrow> Some (Panic p)))"

declare readTotalMemory_from.simps [code]

definition readTotalMemoryFromReader :: "(nat \<Rightarrow> string res) \<Rightarrow> int res option" where
  "readTotalMemoryFromReader rd = readTotalMemory_from rd 0"

text \<open>\<open>getAllowedSizeMiB\<close> from the total in bytes: Go's division rounds to zero.\<close>

definition go_div :: "int \<Rightarrow> int \<Rightarrow> int" where
  "go_div a b = sgn a * sgn b * (\<bar>a\<bar> div \<bar>b\<bar>)"

definition getAllowedSizeMiB :: "bool \<Rightarrow> int res \<Rightarrow> int" where
  "getAllowedSizeMiB isDevEnv totalMem =
     (if isDevEnv then 1024
      else case totalMem of Ok m \<Rightarrow> go_div (go_div m 1024) 1024 - 1024 | _ \<Rightarrow> 1024)"

section \<open>Settings\<close>

record settings =
  st_serverPath :: string
  st_minecraftVersion :: string
  st_autoVersionEnabled :: bool
  st_worldName :: string
  st_worldResourceID :: string
  st_newWorld :: bool
  st_motd :: string
  st_difficulty :: string
  st_levelType :: string
  st_seed :: string
  st_serverPropertiesOverrides :: "(string \<times> string) list"
  st_otlpEndpoint :: string
  st_metricExportIntervalMs :: int

definition NewConfigJSONSettingsRepository :: "runner_config \<Rightarrow> settings" where
  "NewConfigJSONSettingsRepository config =
     (let g = rc_GameConfig config in
      \<lparr>st_serverPath = [],
       st_minecraftVersion = sc_Version (gc_Server g),
       st_autoVersionEnabled = sc_PreferDetected (gc_Server g),
       st_worldName = wc_Name (gc_World g),
       st_worldResourceID = wc_GenerationId (gc_World g),
       st_newWorld = wc_ShouldGenerate (gc_World g),
       st_motd = gc_Motd g,
       st_difficulty = wc_Difficulty (gc_World g),
       st_levelType = wc_LevelType (gc_World g),
       st_seed = wc_Seed (gc_World g),
       st_serverPropertiesOverrides = sc_ServerPropOverride (gc_Server g),
       st_otlpEndpoint = oc_OtlpEndpoint (rc_Observability config),
       st_metricExportIntervalMs = oc_MetricExportIntervalMs (rc_Observability config)\<rparr>)"

section \<open>The launcher\<close>

text \<open>
  What a launch works on: the settings, the process id the killable executor keeps, the
  snapshot to restore, and the world outside.
\<close>

record 'w launching =
  lx_settings :: settings
  lx_pid :: int
  lx_restorePath :: string
  lx_world :: 'w

type_synonym 'w game_handler = "('w launching, unit) run"

definition outside :: "('w, 'a) io \<Rightarrow> ('w launching, 'a) io" where
  "outside m s = (case m (lx_world s) of (r, w) \<Rightarrow> (r, s\<lparr>lx_world := w\<rparr>))"

definition set_settings :: "(settings \<Rightarrow> settings) \<Rightarrow> ('w launching, unit) io" where
  "set_settings f s = (Ok (), s\<lparr>lx_settings := f (lx_settings s)\<rparr>)"

text \<open>Middleware wraps the handler: the last one that is used is the first one that runs.\<close>

type_synonym 'w middleware = "('w launching, unit) run \<Rightarrow> ('w launching, unit) run"

record 'w launcher_core =
  lc_handler :: "('w launching, unit) run"
  lc_beforeLaunchListeners :: "('w launching, unit) io list"

definition NewLauncherCore :: "('w launching, unit) run \<Rightarrow> 'w launcher_core" where
  "NewLauncherCore startMinecraft = \<lparr>lc_handler = startMinecraft, lc_beforeLaunchListeners = []\<rparr>"

definition core_Use :: "'w middleware \<Rightarrow> 'w launcher_core \<Rightarrow> 'w launcher_core" where
  "core_Use m L = L\<lparr>lc_handler := m (lc_handler L)\<rparr>"

definition AddBeforeLaunchListener :: "('w launching, unit) io \<Rightarrow> 'w launcher_core \<Rightarrow> 'w launcher_core" where
  "AddBeforeLaunchListener l L = L\<lparr>lc_beforeLaunchListeners := lc_beforeLaunchListeners L @ [l]\<rparr>"

definition core_Start :: "'w launcher_core \<Rightarrow> ('w launching, unit) run" where
  "core_Start L = lc_handler L"

definition StopMiddleware :: "'w middleware" where
  "StopMiddleware next = run_io (io_ret ())"

section \<open>Processes\<close>

text \<open>
  Processes of the operating system: starting one gives its id, \<open>os.Process.Wait\<close> gives its
  exit status and fails only when there is nothing to wait for, and \<open>exec.Cmd.Wait\<close> makes an error
  of a status that is not zero.  Finding a process never fails on Unix.
\<close>

record 'w processes =
  op_Start :: "string \<Rightarrow> string list \<Rightarrow> string \<Rightarrow> ('w, int) io"
  op_Wait :: "int \<Rightarrow> ('w, int) io"
  op_Kill :: "int \<Rightarrow> ('w, unit) io"

definition Cmd_Wait :: "'w processes \<Rightarrow> int \<Rightarrow> ('w, unit) io" where
  "Cmd_Wait P pid = io_bind (op_Wait P pid) (\<lambda>status. if status = 0 then io_ret () else io_err (Ext ''exit status''))"

text \<open>The handle of a command: only its process id.\<close>

definition CommandHandle_Wait :: "'w processes \<Rightarrow> int \<Rightarrow> ('w, unit) io" where
  "CommandHandle_Wait P pid = (if pid = 0 then io_ret () else io_bind (op_Wait P pid) (\<lambda>status. io_ret ()))"

text \<open>\<open>SimpleExecutor\<close>: the command with its arguments in a working directory.\<close>

definition Simple_Start :: "'w processes \<Rightarrow> string \<Rightarrow> string list \<Rightarrow> string \<Rightarrow> ('w, int) io" where
  "Simple_Start P path args dir = op_Start P path args dir"

definition Simple_Run :: "'w processes \<Rightarrow> string \<Rightarrow> string list \<Rightarrow> string \<Rightarrow> ('w, unit) io" where
  "Simple_Run P path args dir = io_bind (Simple_Start P path args dir) (CommandHandle_Wait P)"

definition AptGet :: "'w processes \<Rightarrow> string list \<Rightarrow> ('w, unit) io" where
  "AptGet P args =
     io_bind (io_try (Simple_Run P ''apt-get'' args [])) (\<lambda>r.
     if r = Ok () then io_ret ()
     else io_bind (io_try (Simple_Run P ''dpkg'' [''--configure'', ''-a''] [])) (\<lambda>_.
       Simple_Run P ''apt-get'' args []))"

text \<open>\<open>KillableCommandExecutor\<close>: it keeps the id of the process it runs.\<close>

definition Killable_Run :: "'w processes \<Rightarrow> string \<Rightarrow> string list \<Rightarrow> string \<Rightarrow> ('w launching, unit) io" where
  "Killable_Run P path args dir s =
     (if lx_pid s \<noteq> 0 then (Err (Msg ''process already running''), s)
      else io_bind (outside (op_Start P path args dir)) (\<lambda>pid s.
        io_bind (io_try (outside (Cmd_Wait P pid))) (\<lambda>r s. (r, s\<lparr>lx_pid := 0\<rparr>)) (s\<lparr>lx_pid := pid\<rparr>)) s)"

definition Killable_Start :: "'w processes \<Rightarrow> string \<Rightarrow> string list \<Rightarrow> string \<Rightarrow> ('w launching, int) io" where
  "Killable_Start P path args dir s =
     (if lx_pid s \<noteq> 0 then (Err (Msg ''process already running''), s)
      else outside (op_Start P path args dir) s)"

definition Killable_Kill :: "'w processes \<Rightarrow> ('w launching, unit) io" where
  "Killable_Kill P s =
     (if lx_pid s = 0 then (Ok (), s)
      else io_bind (io_try (outside (op_Kill P (lx_pid s)))) (\<lambda>_ s. (Ok (), s\<lparr>lx_pid := 0\<rparr>)) s)"

section \<open>Running the game server\<close>

text \<open>
  What the loop uses: the executor of the launcher, waiting for its process, the meter's RPC, and
  the timer, which ends with the context (\<open>True\<close>) or when the time, in nanoseconds, is over.
\<close>

record 'w launch_ops =
  lo_Start :: "string \<Rightarrow> string list \<Rightarrow> string \<Rightarrow> ('w launching, int) io"
  lo_Wait :: "int \<Rightarrow> ('w launching, unit) io"
  lo_Meter :: "string \<Rightarrow> json \<Rightarrow> ('w launching, unit) io"
  lo_Timer :: "int \<Rightarrow> ('w launching, bool) io"

definition enc_MeterTarget :: "int \<Rightarrow> json" where
  "enc_MeterTarget pid = JObj [(''pid'', JInt pid)]"

fun run_listeners :: "('w launching, unit) io list \<Rightarrow> ('w launching, unit) io" where
  "run_listeners [] = io_ret ()"
| "run_listeners (l # ls) = io_bind (io_try l) (\<lambda>_. run_listeners ls)"

text \<open>
  One attempt: \<open>Inl r\<close> ends the loop, \<open>Inr e\<close> goes on to the timer with the error of the start (an
  error of the server itself is not kept).
\<close>

definition launch_once ::
  "'w launch_ops \<Rightarrow> ('w launching, unit) io list \<Rightarrow> string list \<Rightarrow> string \<Rightarrow> ('w launching, unit res + unit res) io" where
  "launch_once P ls cmdline workDir =
     io_bind (run_listeners ls) (\<lambda>_.
     if cmdline = [] then io_panic ''runtime error: index out of range [0] with length 0''
     else io_bind (io_try (lo_Start P (hd cmdline) (tl cmdline) workDir)) (\<lambda>r.
     case r of
       Err e \<Rightarrow> io_ret (Inr (Err e))
     | Panic p \<Rightarrow> io_panic p
     | Ok pid \<Rightarrow>
         io_bind (io_try (lo_Meter P ''target/register'' (enc_MeterTarget pid))) (\<lambda>_.
         io_bind (io_try (lo_Wait P pid)) (\<lambda>r.
         io_bind (io_try (lo_Meter P ''target/unregister'' (enc_MeterTarget pid))) (\<lambda>_.
         io_ret (if r = Ok () then Inl (Ok ()) else Inr (Ok ())))))))"

text \<open>The wait grows twofold; \<open>rnd\<close> is the random part of one attempt, less than half a second.\<close>

partial_function (option) backoff_loop ::
  "'w launch_ops \<Rightarrow> ('w launching, unit) io list \<Rightarrow> (nat \<Rightarrow> int) \<Rightarrow> string list \<Rightarrow> string \<Rightarrow> nat \<Rightarrow> int
    \<Rightarrow> 'w launching \<Rightarrow> (unit res \<times> 'w launching) option" where
  "backoff_loop P ls rnd cmdline workDir n secs s =
     (case launch_once P ls cmdline workDir s of
        (r, s1) \<Rightarrow>
          (case r of
             Panic p \<Rightarrow> Some (Panic p, s1)
           | Err e \<Rightarrow> Some (Err e, s1)
           | Ok x \<Rightarrow>
               (case x of
                  Inl r \<Rightarrow> Some (r, s1)
                | Inr e \<Rightarrow>
                    (case lo_Timer P (wrap64 (wrap64 (secs * second) + rnd n)) s1 of
                       (t, s2) \<Rightarrow>
                         (case t of
                            Ok cancelled \<Rightarrow>
                              if cancelled then Some (e, s2)
                              else backoff_loop P ls rnd cmdline workDir (Suc n) (wrap64 (secs * 2)) s2
                          | Err x \<Rightarrow> Some (Err x, s2)
                          | Panic p \<Rightarrow> Some (Panic p, s2))))))"

declare backoff_loop.simps [code]

definition executeWithBackOff ::
  "'w launch_ops \<Rightarrow> ('w launching, unit) io list \<Rightarrow> (nat \<Rightarrow> int) \<Rightarrow> string list \<Rightarrow> string \<Rightarrow> ('w launching, unit) run" where
  "executeWithBackOff P ls rnd cmdline workDir = backoff_loop P ls rnd cmdline workDir 0 2"

text \<open>
  The command line of a server.  What it asks of the host: whether the file is a JAR, the newest
  Java, the memory.
\<close>

record 'w host =
  ho_IsJar :: "string \<Rightarrow> ('w, bool) io"
  ho_JavaPath :: "('w, string) io"
  ho_AllowedMem :: "('w, int) io"
  ho_DataPath :: "string \<Rightarrow> string"

definition otel_args :: "'w host \<Rightarrow> settings \<Rightarrow> string list" where
  "otel_args h c =
     (if st_otlpEndpoint c = [] then []
      else [''-javaagent:'' @ ho_DataPath h ''resources/opentelemetry-javaagent.jar'',
            ''-Dotel.javaagent.configuration-file='' @ ho_DataPath h ''resources/opentelemetry-javaagent.properties'',
            ''-Dotel.service.name=minecraft-server'',
            ''-Dotel.exporter.otlp.endpoint='' @ st_otlpEndpoint c,
            ''-Dotel.metric.export.interval='' @ fmt_d (max (st_metricExportIntervalMs c) 1000)])"

definition commandLine :: "'w host \<Rightarrow> ('w launching, string list) io" where
  "commandLine h s =
     (let c = lx_settings s in
      io_bind (outside (ho_IsJar h (st_serverPath c))) (\<lambda>jar.
      if jar then
        io_bind (outside (ho_AllowedMem h)) (\<lambda>mem.
        io_bind (outside (ho_JavaPath h)) (\<lambda>java.
        io_ret ([java, ''-Xmx'' @ fmt_d mem @ ''M'', ''-Xms'' @ fmt_d mem @ ''M''] @ otel_args h c
          @ [''-jar'', st_serverPath c, ''nogui''])))
      else io_ret [st_serverPath c])) s"

definition startMinecraft ::
  "'w launch_ops \<Rightarrow> 'w host \<Rightarrow> ('w launching, unit) io list \<Rightarrow> (nat \<Rightarrow> int) \<Rightarrow> ('w launching, unit) run" where
  "startMinecraft P h ls rnd =
     run_bind (run_io (commandLine h)) (\<lambda>cmd. executeWithBackOff P ls rnd cmd (ho_DataPath h ''gamedata''))"

section \<open>Properties\<close>

fun is_panic :: "'a res \<Rightarrow> bool" where
  "is_panic (Panic _) = True"
| "is_panic _ = False"

text \<open>The reader ends at the end of the file and at the line it looks for.\<close>

definition last_line :: "(nat \<Rightarrow> string res) \<Rightarrow> nat \<Rightarrow> bool" where
  "last_line rd n = (rd n = Err EOF \<or> fst (parseMeminfoLine (case rd n of Ok l \<Rightarrow> l | _ \<Rightarrow> [])) = ''MemTotal'')"

lemma parseMeminfoLine_panic: "parseMeminfoLine l = (k, r) \<Longrightarrow> r \<noteq> Panic m"
  by (auto simp: parseMeminfoLine_def Let_def go_atoi_def split: option.splits if_splits)

lemma readTotalMemory_step:
  "readTotalMemory_from rd i =
    (if last_line rd i then
       (if rd i = Err EOF then Some (Err (Msg ''reached to EOF without reading MemTotal''))
        else Some (snd (parseMeminfoLine (case rd i of Ok l \<Rightarrow> l | _ \<Rightarrow> []))))
     else readTotalMemory_from rd (Suc i))"
proof -
  obtain k r where p: "parseMeminfoLine (case rd i of Ok l \<Rightarrow> l | _ \<Rightarrow> []) = (k, r)"
    by (cases "parseMeminfoLine (case rd i of Ok l \<Rightarrow> l | _ \<Rightarrow> [])")
  show ?thesis
    by (subst readTotalMemory_from.simps) (cases r; simp add: last_line_def p parseMeminfoLine_panic [OF p])
qed

lemma readTotalMemory_ends: "last_line rd (i + k) \<Longrightarrow> readTotalMemory_from rd i \<noteq> None"
proof (induction k arbitrary: i)
  case 0
  then show ?case by (subst readTotalMemory_step) simp
next
  case (Suc k)
  then have "readTotalMemory_from rd (Suc i) \<noteq> None" by simp
  then show ?case by (subst readTotalMemory_step) simp
qed

lemma readTotalMemory_SomeD:
  assumes "readTotalMemory_from rd i = Some x"
  shows "\<exists>n. last_line rd n"
proof (rule readTotalMemory_from.raw_induct [OF _ assms, of "\<lambda>rd i x. \<exists>n. last_line rd n"], goal_cases)
  case (1 f rd i y)
  obtain k r where p: "parseMeminfoLine (case rd i of Ok l \<Rightarrow> l | _ \<Rightarrow> []) = (k, r)"
    by (cases "parseMeminfoLine (case rd i of Ok l \<Rightarrow> l | _ \<Rightarrow> [])")
  have "last_line rd i \<or> f rd (Suc i) = Some y"
    using 1(2) by (cases r) (auto simp: last_line_def p Let_def parseMeminfoLine_panic [OF p] split: if_splits)
  with 1(1) show ?case by blast
qed

text \<open>
  Reading the memory of the host returns exactly when it meets the end of the
  file or the line it looks for.  An error of the read that is not the end of the file is taken
  for a line without a colon: where every further read fails, the loop never ends.
\<close>

lemma total_memory_ends_iff:
  "readTotalMemoryFromReader rd \<noteq> None \<longleftrightarrow> (\<exists>n. last_line rd n)"
  using readTotalMemory_ends [of rd 0] readTotalMemory_SomeD [of rd 0] by (auto simp: readTotalMemoryFromReader_def)

text \<open>
  Property C31: a server that crashes is not started again.  The handle of a process waits with
  \<open>os.Process.Wait\<close>, which succeeds whatever the exit status, so the first end of the server, with
  any status, ends the launcher without an error, and the loop with its growing pauses is left.
\<close>

theorem crashed_server_not_restarted:
  assumes "lo_Wait P = (\<lambda>pid. outside (CommandHandle_Wait os pid))"
    and "run_listeners ls s = (Ok (), s1)" and "cmdline \<noteq> []"
    and "lo_Start P (hd cmdline) (tl cmdline) dir s1 = (Ok pid, s2)"
    and "\<And>m j s. is_panic (fst (lo_Meter P m j s)) = False"
    and "\<And>pid w. is_ok (fst (op_Wait os pid w))"
  shows "\<exists>s'. executeWithBackOff P ls rnd cmdline dir s = Some (Ok (), s')"
proof -
  have meter: "\<exists>r s'. io_try (lo_Meter P m j) s = (Ok r, s')" for m j s
    using assms(5) [of m j s] by (cases "lo_Meter P m j s"; cases "fst (lo_Meter P m j s)") (auto simp: io_try_def)
  have wait: "\<exists>s'. io_try (lo_Wait P pid) s = (Ok (Ok ()), s')" for s
  proof -
    obtain r w where o: "op_Wait os pid (lx_world s) = (r, w)" by (cases "op_Wait os pid (lx_world s)")
    then have "is_ok r" using assms(6) [of pid "lx_world s"] by simp
    then show ?thesis
      using o by (cases r) (auto simp: assms(1) io_try_def outside_def CommandHandle_Wait_def io_run io_bind_def)
  qed
  obtain r3 s3 where m1: "io_try (lo_Meter P ''target/register'' (enc_MeterTarget pid)) s2 = (Ok r3, s3)" using meter by blast
  obtain s4 where w: "io_try (lo_Wait P pid) s3 = (Ok (Ok ()), s4)" using wait by blast
  obtain r5 s5 where m2: "io_try (lo_Meter P ''target/unregister'' (enc_MeterTarget pid)) s4 = (Ok r5, s5)" using meter by blast
  have "launch_once P ls cmdline dir s = (Ok (Inl (Ok ())), s5)"
    by (simp add: launch_once_def io_bind_def assms(2,3) io_try_def [of "lo_Start P (hd cmdline) (tl cmdline) dir"] assms(4)
        m1 w m2 io_run)
  then show ?thesis by (simp add: executeWithBackOff_def backoff_loop.simps)
qed

text \<open>A system on which every process ends with the status 137, and a launch on it.\<close>

definition crashing_os :: "nat processes" where
  "crashing_os = \<lparr>op_Start = (\<lambda>p args dir n. (Ok (int n), Suc n)), op_Wait = (\<lambda>pid n. (Ok 137, n)), op_Kill = (\<lambda>pid n. (Ok (), n))\<rparr>"

definition crashing_ops :: "nat launch_ops" where
  "crashing_ops =
     \<lparr>lo_Start = Killable_Start crashing_os, lo_Wait = (\<lambda>pid. outside (CommandHandle_Wait crashing_os pid)),
      lo_Meter = (\<lambda>m j. io_ret ()), lo_Timer = (\<lambda>d. io_ret False)\<rparr>"

definition demo_launching :: "nat launching" where
  "demo_launching = \<lparr>lx_settings = NewConfigJSONSettingsRepository zero_runner_config, lx_pid = 0, lx_restorePath = [], lx_world = 7\<rparr>"

lemma crashed_server_not_restarted_witness:
  "\<exists>s'. executeWithBackOff crashing_ops [] (\<lambda>n. 0) [''java'', ''-jar'', ''server.jar''] ''/gamedata'' demo_launching = Some (Ok (), s')"
  by (rule crashed_server_not_restarted [where os = crashing_os and ?s1.0 = demo_launching])
    (simp_all add: crashing_ops_def crashing_os_def demo_launching_def Killable_Start_def outside_def io_run)

end
