(* ===== verification/Connector.thy ===== *)
theory Connector
  imports Proxy McCore
begin

text \<open>
  The way of a player's bytes: the proxy of the control plane hands a connection to the connector of
  the runner (\<open>runner/commands/connector\<close>), which copies it to the game and counts it.  Also the
  reader that reports the progress of a transfer (\<open>runner/util/ioprogress.go\<close>).  Sockets, TLS and
  the way the two directions are interleaved are parameters.
\<close>

section \<open>Copying\<close>

text \<open>
  What the reads of a connection give until it ends: some bytes and, with them, an error or none.
  \<open>write\<close> writes to the other side, \<open>add\<close> is the counter.  When nothing is left to read the copy waits.
\<close>

type_synonym reads = "(bytes \<times> go_error option) list"

fun copyWithMeter :: "(bytes \<Rightarrow> ('w, unit) io) \<Rightarrow> (nat \<Rightarrow> 'w \<Rightarrow> 'w) \<Rightarrow> reads \<Rightarrow> 'w \<Rightarrow> 'w" where
  "copyWithMeter write add [] w = w"
| "copyWithMeter write add ((b, e) # rs) w =
     (if b = [] then (if e \<noteq> None then w else copyWithMeter write add rs w)
      else
        (case write b w of
           (Ok x, w1) \<Rightarrow> if e \<noteq> None then add (length b) w1 else copyWithMeter write add rs (add (length b) w1)
         | (r, w1) \<Rightarrow> w1))"

section \<open>One connection\<close>

record conn_proxy =
  cx_ID :: string
  cx_Endpoint :: string
  cx_Cert :: string

text \<open>
  The certificate pool, dialling with TLS and without, closing, and the copies in both directions,
  the one from the game in the foreground.
\<close>

record 'w connect_ops =
  ct_AppendCerts :: "string \<Rightarrow> bool"
  ct_DialTLS :: "string \<Rightarrow> string \<Rightarrow> ('w, unit) io"
  ct_Write :: "string \<Rightarrow> ('w, unit) io"
  ct_Dial :: "string \<Rightarrow> ('w, unit) io"
  ct_relay :: "('w, unit) run"
  ct_CloseTLS :: "'w \<Rightarrow> 'w"
  ct_Close :: "'w \<Rightarrow> 'w"

definition createTLSConfig :: "'w connect_ops \<Rightarrow> string \<Rightarrow> string res" where
  "createTLSConfig K cert =
     (if \<not> ct_AppendCerts K cert then Err (Msg ''error appending certificate'') else Ok ''control.fake.premises.kofuk.org'')"

definition run_closing :: "('w \<Rightarrow> 'w) \<Rightarrow> ('w, 'a) run \<Rightarrow> ('w, 'a) run" where
  "run_closing cl m w = map_option (\<lambda>(r, w1). (r, cl w1)) (m w)"

definition connect_Run :: "'w connect_ops \<Rightarrow> conn_proxy \<Rightarrow> ('w, unit) run" where
  "connect_Run K p =
     run_bind (run_io (io_lift (createTLSConfig K (cx_Cert p)))) (\<lambda>serverName.
     run_bind (run_io (ct_DialTLS K (cx_Endpoint p) serverName)) (\<lambda>_.
     run_closing (ct_CloseTLS K)
       (run_bind (run_io (ct_Write K (cx_ID p))) (\<lambda>_.
        run_bind (run_io (ct_Dial K ''127.0.0.2:32109'')) (\<lambda>_.
        run_closing (ct_Close K) (ct_relay K))))))"

text \<open>The requests of the connector; \<open>go\<close> runs a connection beside the rest, counted when it opens and when it closes.\<close>

record 'w connector_apis =
  ca_connect :: "'w connect_ops"
  ca_opened :: "'w \<Rightarrow> 'w"
  ca_closed :: "'w \<Rightarrow> 'w"
  ca_go :: "('w, unit) run \<Rightarrow> ('w, unit) io"
  ca_cancel :: "'w \<Rightarrow> 'w"

definition serve_connection :: "'w connector_apis \<Rightarrow> conn_proxy \<Rightarrow> ('w, unit) run" where
  "serve_connection A p w =
     map_option (\<lambda>(r, w1). (case r of Panic m \<Rightarrow> Panic m | _ \<Rightarrow> Ok (), ca_closed A w1)) (connect_Run (ca_connect A) p (ca_opened A w))"

definition HandleProxyOpen :: "'w connector_apis \<Rightarrow> rpc_request \<Rightarrow> ('w, unit) io" where
  "HandleProxyOpen A q =
     io_bind (io_lift (rpc_Bind dec_conn_req_info zero_conn_req_info q)) (\<lambda>c.
     ca_go A (serve_connection A \<lparr>cx_ID = cr_ConnectionID c, cx_Endpoint = cr_Endpoint c, cx_Cert = cr_ServerCert c\<rparr>))"

definition HandleBaseStop :: "'w connector_apis \<Rightarrow> rpc_request \<Rightarrow> ('w, unit) io" where
  "HandleBaseStop A q w = (Ok (), ca_cancel A w)"

definition connector_Bind :: "'w connector_apis \<Rightarrow> 'w rpc_server \<Rightarrow> 'w rpc_server" where
  "connector_Bind A S =
     RegisterNotifyMethod ''base/stop'' (HandleBaseStop A) (RegisterNotifyMethod ''proxy/open'' (HandleProxyOpen A) S)"

section \<open>The control plane's end\<close>

text \<open>
  A connector is accepted by what its first read gives: 36 bytes that are a UUID (\<open>valid\<close> is the check
  of the library).  Then the proxy writes what the handler kept and copies the rest.
\<close>

definition connector_header :: "(string \<Rightarrow> bool) \<Rightarrow> string res \<Rightarrow> string res" where
  "connector_header valid r =
     (case r of
        Ok buf \<Rightarrow> if length buf \<noteq> 36 \<or> \<not> valid buf then Err (Msg ''Invalid header'') else Ok buf
      | Err e \<Rightarrow> Err e
      | Panic p \<Rightarrow> Panic p)"

definition upstream_writes :: "mc_handler \<Rightarrow> bytes list" where
  "upstream_writes h = OrigBytes h # ci_chunks (pr_conn (h_r h))"

section \<open>A player's bytes reach the game\<close>

text \<open>What a copy that can write delivers: everything up to the first error, and what comes with it.\<close>

fun read_until_error :: "reads \<Rightarrow> bytes" where
  "read_until_error [] = []"
| "read_until_error ((b, e) # rs) = b @ (if e \<noteq> None then [] else read_until_error rs)"

lemma copy_delivers:
  assumes "\<And>b w. \<exists>w'. write b w = (Ok (), w') \<and> sent w' = sent w @ b \<and> counted w' = (counted w :: nat)"
    and "\<And>n w. sent (add n w) = sent w \<and> counted (add n w) = counted w + n"
  shows "sent (copyWithMeter write add rs w) = sent w @ read_until_error rs
    \<and> counted (copyWithMeter write add rs w) = counted w + length (read_until_error rs)"
proof (induction rs arbitrary: w)
  case (Cons r rs)
  obtain b e where r: "r = (b, e)" by (cases r)
  obtain w' where w': "write b w = (Ok (), w')" "sent w' = sent w @ b" "counted w' = counted w" using assms(1) by blast
  show ?case using Cons [of w] Cons [of "add (length b) w'"] w' assms(2) [of "length b" w'] by (simp add: r)
qed simp

lemma no_error_reads: "list_all (\<lambda>(b, e). e = None) rs \<Longrightarrow> read_until_error rs = concat (map fst rs)"
  by (induction rs) auto

text \<open>
  Property C15: a player's bytes reach the game.  Whatever the proxy did with the connection before it was
  handed over, however the network cuts what the proxy writes, the connector delivers to the game
  exactly the bytes the client sent, in order, and its counter grows by their number.
\<close>

theorem player_bytes_reach_game:
  assumes "h = fold run_op ops (NewHandler c)"
    and "concat (map fst rs) = concat (upstream_writes h)" and "list_all (\<lambda>(b, e). e = None) rs"
    and "\<And>b w. \<exists>w'. write b w = (Ok (), w') \<and> sent w' = sent w @ b \<and> counted w' = (counted w :: nat)"
    and "\<And>n w. sent (add n w) = sent w \<and> counted (add n w) = counted w + n"
  shows "sent (copyWithMeter write add rs w) = sent w @ concat (ci_chunks c)
    \<and> counted (copyWithMeter write add rs w) = counted w + length (concat (ci_chunks c))"
proof -
  have "read_until_error rs = concat (ci_chunks c)"
    unfolding no_error_reads [OF assms(3)] assms(2) upstream_writes_def assms(1) using orig_bytes_stream [of ops c] by simp
  then show ?thesis using copy_delivers [OF assms(4,5), of rs w] by simp
qed

text \<open>A game that takes everything, with the bytes it got and the counter.\<close>

definition demo_stream :: conn_in where
  "demo_stream = \<lparr>ci_chunks = [[7, 0], [1, 2, 3]], ci_end = EOF\<rparr>"

lemma player_bytes_reach_game_witness:
  "fst (copyWithMeter (\<lambda>b (s, n). (Ok (), (s @ b, n))) (\<lambda>k (s, n). (s, n + k))
      (map (\<lambda>b. (b, None)) (upstream_writes (fold run_op [OpHandshake] (NewHandler demo_stream)))) ([], 0)) = fst ([], 0 :: nat) @ concat (ci_chunks demo_stream)
    \<and> snd (copyWithMeter (\<lambda>b (s, n). (Ok (), (s @ b, n))) (\<lambda>k (s, n). (s, n + k))
      (map (\<lambda>b. (b, None)) (upstream_writes (fold run_op [OpHandshake] (NewHandler demo_stream)))) ([], 0))
      = snd ([] :: bytes, 0) + length (concat (ci_chunks demo_stream))"
  by (rule player_bytes_reach_game [where h = "fold run_op [OpHandshake] (NewHandler demo_stream)" and ops = "[OpHandshake]"])
    (auto simp: list_all_iff comp_def simp del: fold_simps)

section \<open>The progress of a transfer\<close>

text \<open>
  The events are sent by goroutines; here each comes right after the read that caused it.  \<open>since\<close> is the
  time since the last one, in nanoseconds.
\<close>

record progress_reader =
  pg_event :: event_code
  pg_total :: int
  pg_current :: int

definition NewProgressReader :: "event_code \<Rightarrow> int \<Rightarrow> progress_reader" where
  "NewProgressReader ev len = \<lparr>pg_event = ev, pg_total = len, pg_current = 0\<rparr>"

definition go_quot :: "int \<Rightarrow> int \<Rightarrow> int" where
  "go_quot a b = sgn a * sgn b * (\<bar>a\<bar> div \<bar>b\<bar>)"

definition percent :: "progress_reader \<Rightarrow> int" where
  "percent r = (if pg_total r \<noteq> 0 then wrap64 (go_quot (wrap64 (pg_current r * 100)) (pg_total r)) else 100)"

definition progress_event :: "progress_reader \<Rightarrow> event" where
  "progress_event r = zero_event\<lparr>ev_Type := event_type_name EventStatus,
     ev_Status := Some \<lparr>se_EventCode = event_num (pg_event r), se_Progress = percent r\<rparr>\<rparr>"

definition progress_Read :: "nat \<Rightarrow> go_error option \<Rightarrow> int \<Rightarrow> progress_reader \<Rightarrow> progress_reader \<times> event list" where
  "progress_Read n e since r =
     (let r1 = r\<lparr>pg_current := wrap64 (pg_current r + int n)\<rparr> in
      (r1, if e = None \<and> second \<le> since then [progress_event r1] else []))"

definition progress_Seek :: "int \<Rightarrow> int \<Rightarrow> progress_reader \<Rightarrow> progress_reader" where
  "progress_Seek offset whence r = (if whence = 0 \<and> offset = 0 then r\<lparr>pg_current := 0\<rparr> else r)"

text \<open>A length that is known gives percents, and one that is not (\<open>-1\<close>) a negative number.\<close>

lemma percent_bounds:
  assumes "0 \<le> pg_current r" and "pg_current r \<le> pg_total r" and "pg_total r < 2 ^ 56"
  shows "0 \<le> percent r \<and> percent r \<le> 100"
proof (cases "pg_total r = 0")
  case False
  then have t: "0 < pg_total r" using assms by simp
  have w: "wrap64 x = x" if "0 \<le> x" "x < 2 ^ 63" for x using that by (simp add: wrap64_def)
  have "pg_current r * 100 < 2 ^ 63" using assms by simp
  then have c: "wrap64 (pg_current r * 100) = pg_current r * 100" using w assms(1) by simp
  have "go_quot (pg_current r * 100) (pg_total r) = pg_current r * 100 div pg_total r"
    using t assms(1) by (cases "pg_current r = 0") (simp_all add: go_quot_def)
  moreover have "0 \<le> pg_current r * 100 div pg_total r" using t assms(1) by (simp add: pos_imp_zdiv_nonneg_iff)
  moreover have "pg_current r * 100 div pg_total r \<le> 100"
    using t assms(2) by (metis mult.commute nonzero_mult_div_cancel_left zdiv_mono1 mult_right_mono zero_le_numeral less_irrefl)
  ultimately show ?thesis using False c w [of "pg_current r * 100 div pg_total r"] by (simp add: percent_def)
qed (simp add: percent_def)

lemma unknown_length_negative:
  assumes "0 < pg_current r" and "pg_current r < 2 ^ 56" and "pg_total r = -1"
  shows "percent r = - (pg_current r * 100)"
proof -
  have w: "wrap64 x = x" if "- (2 ^ 63) \<le> x" "x < 2 ^ 63" for x using that by (simp add: wrap64_def)
  have "wrap64 (pg_current r * 100) = pg_current r * 100" using assms by (intro w) simp_all
  moreover have "wrap64 (- (pg_current r * 100)) = - (pg_current r * 100)" using assms by (intro w) simp_all
  ultimately show ?thesis using assms by (simp add: percent_def go_quot_def)
qed

end
