(* ===== verification/Retry.thy ===== *)
theory Retry
  imports Prelude
begin

text \<open>
  \<open>src/backend/common/retry/retry.go\<close>: calling a function until it succeeds or the time is
  up, with intervals that double up to a minute and a random part below three seconds.
  Durations are nanoseconds.  The loop is a partial function - it has no bound of its
  own - and is proved to return.
\<close>

section \<open>The retrier\<close>

record retrier =
  rr_curInterval :: int
  rr_maxInterval :: int
  rr_failAfter :: int
  rr_elapsedTime :: int

text \<open>\<open>nextInterval\<close>: the interval to wait, with \<open>Intn(3000)\<close> drawn from a raw random number.\<close>

definition nextInterval :: "nat \<Rightarrow> retrier \<Rightarrow> int \<times> retrier" where
  "nextInterval raw r =
     (let curInterval = rr_curInterval r + int (raw mod 3000) * 1000000;
          doubled = rr_curInterval r * 2 in
      (curInterval,
       r\<lparr>rr_elapsedTime := rr_elapsedTime r + curInterval,
         rr_curInterval := (if doubled > rr_maxInterval r then rr_maxInterval r else doubled)\<rparr>))"

definition finished :: "retrier \<Rightarrow> bool" where
  "finished r = (rr_failAfter r < rr_elapsedTime r)"

definition Retry_init :: "int \<Rightarrow> retrier" where
  "Retry_init failAfter =
     \<lparr>rr_curInterval = 1 * second, rr_maxInterval = 1 * minute, rr_failAfter = failAfter, rr_elapsedTime = 0\<rparr>"

text \<open>
  The loop: \<open>rnd\<close> gives the raw random number of each attempt, and \<open>sleep\<close> waits for the
  interval or until the context is cancelled.  A panic of the function ends the loop.
\<close>

partial_function (option) Retry_loop ::
  "(nat \<Rightarrow> nat) \<Rightarrow> (int \<Rightarrow> 'w \<Rightarrow> 'w) \<Rightarrow> ('w, 'a) io \<Rightarrow> nat \<Rightarrow> retrier \<Rightarrow> 'w \<Rightarrow> ('a res \<times> 'w) option" where
  "Retry_loop rnd sleep fn k r w =
     (case fn w of
        (Err e, w1) \<Rightarrow>
          if finished r then Some (Err e, w1)
          else Retry_loop rnd sleep fn (Suc k) (snd (nextInterval (rnd k) r))
                 (sleep (fst (nextInterval (rnd k) r)) w1)
      | (x, w1) \<Rightarrow> Some (x, w1))"

declare Retry_loop.simps [code]

definition Retry :: "(nat \<Rightarrow> nat) \<Rightarrow> (int \<Rightarrow> 'w \<Rightarrow> 'w) \<Rightarrow> ('w, 'a) io \<Rightarrow> int \<Rightarrow> ('w, 'a) io" where
  "Retry rnd sleep fn failAfter w = the (Retry_loop rnd sleep fn 0 (Retry_init failAfter) w)"

section \<open>The intervals\<close>

text \<open>The least interval and the least elapsed time after so many waits, in seconds.\<close>

fun least_interval :: "nat \<Rightarrow> int" where
  "least_interval 0 = 1"
| "least_interval (Suc k) = (if 60 < least_interval k * 2 then 60 else least_interval k * 2)"

fun least_elapsed :: "nat \<Rightarrow> int" where
  "least_elapsed 0 = 0"
| "least_elapsed (Suc k) = least_elapsed k + least_interval k"

definition after_waits :: "int \<Rightarrow> nat \<Rightarrow> retrier \<Rightarrow> bool" where
  "after_waits failAfter k r \<longleftrightarrow>
     rr_curInterval r = least_interval k * second \<and> rr_maxInterval r = minute
     \<and> rr_failAfter r = failAfter \<and> least_elapsed k * second \<le> rr_elapsedTime r"

lemma least_interval_bounds: "1 \<le> least_interval k \<and> least_interval k \<le> 60"
  by (induction k) auto

lemma least_elapsed_grows: "int k \<le> least_elapsed k"
proof (induction k)
  case (Suc k)
  then show ?case using least_interval_bounds [of k] by simp
qed simp

lemma least_elapsed_mono: "k \<le> m \<Longrightarrow> least_elapsed k \<le> least_elapsed m"
proof (induction rule: dec_induct)
  case (step m)
  then show ?case using least_interval_bounds [of m] by simp
qed simp

lemma after_waits_init: "after_waits f 0 (Retry_init f)"
  by (simp add: after_waits_def Retry_init_def)

lemma after_waits_next: "after_waits f k r \<Longrightarrow> after_waits f (Suc k) (snd (nextInterval raw r))"
  by (auto simp: after_waits_def nextInterval_def Let_def minute_def second_def)

lemma nextInterval_bounds:
  assumes "after_waits f k r"
  shows "least_interval k * second \<le> fst (nextInterval raw r)" "fst (nextInterval raw r) < 63 * second"
  using assms least_interval_bounds [of k]
  by (auto simp: after_waits_def nextInterval_def Let_def second_def)

section \<open>The loop returns\<close>

text \<open>
  The loop with a counter: \<open>counted fn\<close> counts its calls, and \<open>waited\<close> the nominal time of the
  waits.
\<close>

definition counted :: "('w, 'a) io \<Rightarrow> (nat \<times> int \<times> 'w, 'a) io" where
  "counted fn = (\<lambda>(n, t, w). (fst (fn w), (Suc n, t, snd (fn w))))"

definition waited :: "(int \<Rightarrow> 'w \<Rightarrow> 'w) \<Rightarrow> int \<Rightarrow> nat \<times> int \<times> 'w \<Rightarrow> nat \<times> int \<times> 'w" where
  "waited sleep d = (\<lambda>(n, t, w). (n, t + d, sleep d w))"

lemma not_finished_less:
  assumes "after_waits f k r" "\<not> finished r" "f < least_elapsed m * second"
  shows "k < m"
proof (rule ccontr)
  assume "\<not> k < m"
  then have "least_elapsed m * second \<le> least_elapsed k * second"
    by (intro mult_right_mono least_elapsed_mono) (simp_all add: second_def)
  with assms show False by (simp add: after_waits_def finished_def)
qed

lemma some_elapsed: "f < least_elapsed (nat f + 1) * second"
proof -
  have "f < (int (nat f) + 1) * second" by (simp add: second_def)
  also have "\<dots> \<le> least_elapsed (nat f + 1) * second"
    using least_elapsed_grows [of "nat f + 1"] by (intro mult_right_mono) (simp_all add: second_def)
  finally show ?thesis .
qed

text \<open>Two unfoldings, and the induction along the attempts that all facts about the loop use.\<close>

lemma Retry_loop_stop:
  "fn w = (x, w1) \<Longrightarrow> (\<And>e. x = Err e \<Longrightarrow> finished r) \<Longrightarrow> Retry_loop rnd sleep fn k r w = Some (x, w1)"
  by (subst Retry_loop.simps) (simp split: res.split)

lemma Retry_loop_again:
  "fn w = (Err e, w1) \<Longrightarrow> \<not> finished r \<Longrightarrow> Retry_loop rnd sleep fn k r w
     = Retry_loop rnd sleep fn (Suc k) (snd (nextInterval (rnd k) r)) (sleep (fst (nextInterval (rnd k) r)) w1)"
  by (subst Retry_loop.simps) simp

lemma Retry_loop_induct [consumes 1, case_names stop again]:
  assumes "after_waits f k r"
    and stop: "\<And>k r w x w1. after_waits f k r \<Longrightarrow> fn w = (x, w1)
      \<Longrightarrow> Retry_loop rnd sleep fn k r w = Some (x, w1) \<Longrightarrow> P k w (Some (x, w1))"
    and again: "\<And>k r w e w1 y. after_waits f k r \<Longrightarrow> fn w = (Err e, w1) \<Longrightarrow> \<not> finished r
      \<Longrightarrow> P (Suc k) (sleep (fst (nextInterval (rnd k) r)) w1) y \<Longrightarrow> P k w y"
  shows "P k w (Retry_loop rnd sleep fn k r w)"
  using assms(1)
proof (induction "nat f + 1 - k" arbitrary: k r w rule: less_induct)
  case less
  obtain x w1 where fn: "fn w = (x, w1)" by (cases "fn w")
  show ?case
  proof (cases "\<exists>e. x = Err e \<and> \<not> finished r")
    case True
    then obtain e where e: "fn w = (Err e, w1)" "\<not> finished r" using fn by auto
    have k: "k < nat f + 1" by (rule not_finished_less [OF less.prems e(2) some_elapsed])
    have "P (Suc k) w' (Retry_loop rnd sleep fn (Suc k) (snd (nextInterval (rnd k) r)) w')" for w'
      using k less.prems by (intro less.hyps after_waits_next) simp_all
    from again [OF less.prems e this] e show ?thesis by (simp add: Retry_loop_again)
  next
    case False
    then have "Retry_loop rnd sleep fn k r w = Some (x, w1)" using fn by (intro Retry_loop_stop) auto
    with stop [OF less.prems fn] show ?thesis by simp
  qed
qed

lemma Retry_loop_total: "\<exists>y. Retry_loop rnd sleep fn 0 (Retry_init f) w = Some y"
  by (rule Retry_loop_induct [OF after_waits_init, where P = "\<lambda>k w y. \<exists>z. y = Some z"]) simp_all

lemma Retry_eq: "Retry_loop rnd sleep fn 0 (Retry_init f) w = Some (Retry rnd sleep fn f w)"
  using Retry_loop_total [of rnd sleep fn f w] by (auto simp: Retry_def)

text \<open>What the loop returns is what the last call of the function returned.\<close>

lemma Retry_last:
  assumes "Retry rnd sleep fn f w = (x, w')"
  shows "\<exists>w0. fn w0 = (x, w')"
proof -
  have "\<exists>y w0. Retry_loop rnd sleep fn 0 (Retry_init f) w = Some y \<and> fn w0 = y"
    by (rule Retry_loop_induct [OF after_waits_init, where P = "\<lambda>k w y. \<exists>z w0. y = Some z \<and> fn w0 = z"]) auto
  with assms Retry_eq [of rnd sleep fn f w] show ?thesis by auto
qed

lemma keeps_Retry [keeps_intros]:
  assumes "keeps I fn" "\<And>d w. I (sleep d w) = I w"
  shows "keeps I (Retry rnd sleep fn f)"
  unfolding keeps_def
proof
  fix w
  have "\<exists>y. Retry_loop rnd sleep fn 0 (Retry_init f) w = Some y \<and> I (snd y) = I w"
  proof (rule Retry_loop_induct [OF after_waits_init, where P = "\<lambda>k w y. \<exists>z. y = Some z \<and> I (snd z) = I w"],
      goal_cases stop again)
    case (stop k r w x w1)
    with assms(1) show ?case by (auto dest: keepsD)
  next
    case (again k r w e w1 y)
    with assms show ?case by (auto dest: keepsD)
  qed
  then show "I (snd (Retry rnd sleep fn f w)) = I w" using Retry_eq [of rnd sleep fn f w] by auto
qed

text \<open>The number of calls and the time waited.\<close>

lemma Retry_loop_counts:
  assumes "f < least_elapsed m * second"
  shows "(\<exists>x n' t' w'. Retry_loop rnd (waited sleep) (counted fn) 0 (Retry_init f) s = Some (x, (n', t', w'))
    \<and> fst s < n' \<and> n' \<le> fst s + Suc m \<and> t' \<le> fst (snd s) + 63 * second * int m)"
proof -
  let ?Q = "\<lambda>k s y. k \<le> m \<longrightarrow> (\<exists>x n' t' w'. y = Some (x, (n', t', w'))
    \<and> fst s < n' \<and> n' \<le> fst s + Suc (m - k) \<and> t' \<le> fst (snd s) + 63 * second * int (m - k))"
  have "?Q 0 s (Retry_loop rnd (waited sleep) (counted fn) 0 (Retry_init f) s)"
  proof (rule Retry_loop_induct [OF after_waits_init, where P = ?Q], goal_cases stop again)
    case (stop k r s x s1)
    then show ?case by (cases s) (auto simp: counted_def second_def)
  next
    case (again k r s e s1 y)
    obtain n t w where s: "s = (n, t, w)" by (metis prod_cases3)
    let ?i = "fst (nextInterval (rnd k) r)"
    have k: "k < m" by (rule not_finished_less [OF again(1,3) assms])
    have w: "fst (waited sleep ?i s1) = Suc n" "fst (snd (waited sleep ?i s1)) = t + ?i"
      using again(2) by (auto simp: s counted_def waited_def)
    have "?i < 63 * second" by (rule nextInterval_bounds [OF again(1)])
    moreover have "int (m - k) = int (m - Suc k) + 1" using k by simp
    ultimately show ?case using again(4) k by (auto simp: w s algebra_simps)
  qed
  then show ?thesis by simp
qed

text \<open>
  Property C16: the retry loop ends.  With the thirty minutes the program gives it,
  \<open>Retry\<close> returns after at most 36 calls of the function, whatever the function, the random
  numbers and the waits do, and it has asked to wait for less than 37 minutes in all.
\<close>

theorem Retry_bounded:
  "\<exists>x n t w'. Retry_loop rnd (waited sleep) (counted fn) 0 (Retry_init (30 * minute)) (0, 0, w) = Some (x, (n, t, w'))
     \<and> 1 \<le> n \<and> n \<le> 36 \<and> t \<le> 37 * minute"
proof -
  have "30 * minute < least_elapsed 35 * second"
    by (simp add: minute_def second_def eval_nat_numeral)
  from Retry_loop_counts [OF this, of rnd sleep fn "(0, 0, w)"]
  show ?thesis by (fastforce simp: minute_def second_def)
qed

end
