(* ===== verification/Rcon.thy ===== *)
theory Rcon
  imports Retry
begin

text \<open>
  \<open>src/backend/runner/commands/mclauncher/rcon\<close>: the commands the launcher gives the game
  server, and the parsing of what it answers.  Connecting and executing one command are those of
  the RCON library, a parameter.
\<close>

section \<open>The executor\<close>

text \<open>\<open>rcon.Dial\<close>, and \<open>Execute\<close> on the connection that is closed afterwards.\<close>

record ('w, 'c) rcon_lib =
  rl_Dial :: "('w, 'c) io"
  rl_Execute :: "'c \<Rightarrow> string \<Rightarrow> ('w, string) io"
  rl_Close :: "'c \<Rightarrow> 'w \<Rightarrow> 'w"

record 'w rcon =
  rn_Exec :: "string \<Rightarrow> ('w, string) io"

definition rcon_Exec ::
  "(nat \<Rightarrow> nat) \<Rightarrow> (int \<Rightarrow> 'w \<Rightarrow> 'w) \<Rightarrow> ('w, 'c) rcon_lib \<Rightarrow> string \<Rightarrow> ('w, string) io" where
  "rcon_Exec rnd sleep L cmd =
     io_bind (Retry rnd sleep (rl_Dial L) (20 * minute)) (\<lambda>conn w.
     case rl_Execute L conn cmd w of (r, w1) \<Rightarrow> (r, rl_Close L conn w1))"

section \<open>Commands\<close>

definition rcon_do :: "'w rcon \<Rightarrow> string \<Rightarrow> ('w, unit) io" where
  "rcon_do R cmd = io_bind (rn_Exec R cmd) (\<lambda>_. io_ret ())"

definition SaveAll :: "'w rcon \<Rightarrow> ('w, unit) io" where
  "SaveAll R = rcon_do R ''save-all''"

definition AddToWhiteList :: "'w rcon \<Rightarrow> string \<Rightarrow> ('w, unit) io" where
  "AddToWhiteList R player =
     wrap_error (''failed to add '' @ player @ '' to whitelist'') (rcon_do R (''whitelist add '' @ player))"

definition AddToOp :: "'w rcon \<Rightarrow> string \<Rightarrow> ('w, unit) io" where
  "AddToOp R player = wrap_error (''failed to add '' @ player @ '' to op'') (rcon_do R (''op '' @ player))"

definition Say :: "'w rcon \<Rightarrow> string \<Rightarrow> ('w, unit) io" where
  "Say R message = rcon_do R (''tellraw @a '' @ [CHR 0x22] @ message @ [CHR 0x22])"

definition rcon_Stop :: "'w rcon \<Rightarrow> ('w, unit) io" where
  "rcon_Stop R = rcon_do R ''stop''"

section \<open>The list of players\<close>

record list_output =
  lu_MaxPlayers :: int
  lu_Players :: "string list"

text \<open>
  The regular expression: \<open>take_digits\<close> is \<open>([0-9]+)\<close>, \<open>expect\<close> a fixed part, and \<open>(.*)$\<close> the rest of
  one line.
\<close>

definition take_digits :: "string \<Rightarrow> (string \<times> string) option" where
  "take_digits s =
     (let ds = takeWhile is_digit s in if ds = [] then None else Some (ds, dropWhile is_digit s))"

definition expect :: "string \<Rightarrow> string \<Rightarrow> string option" where
  "expect p s = (if has_prefix p s then Some (drop (length p) s) else None)"

definition playerListRegexp :: "string \<Rightarrow> (string \<times> string \<times> string) option" where
  "playerListRegexp s =
     (case expect ''There are '' s of None \<Rightarrow> None | Some s1 \<Rightarrow>
     (case take_digits s1 of None \<Rightarrow> None | Some (n, s2) \<Rightarrow>
     (case expect '' of a max of '' s2 of None \<Rightarrow> None | Some s3 \<Rightarrow>
     (case take_digits s3 of None \<Rightarrow> None | Some (m, s4) \<Rightarrow>
     (case expect '' players online: '' s4 of None \<Rightarrow> None | Some rest \<Rightarrow>
      if CHR 0x0A \<in> set rest then None else Some (n, m, rest))))))"

text \<open>\<open>strconv.Atoi\<close> of digits with its error ignored: the largest integer when it is too large.\<close>

definition atoi_digits :: "string \<Rightarrow> int" where
  "atoi_digits ds = min (int (digits_val ds)) int64_max"

definition ParseListOutput :: "string \<Rightarrow> list_output res" where
  "ParseListOutput output =
     (case playerListRegexp output of
        None \<Rightarrow> Err (Msg ''invalid /list output'')
      | Some (n, m, rest) \<Rightarrow>
          (let players = map (trim_set '' '') (filter (\<lambda>p. p \<noteq> []) (str_split '', '' rest)) in
           if atoi_digits n \<noteq> int (length players) then Err (Msg ''player count mismatch'')
           else Ok \<lparr>lu_MaxPlayers = atoi_digits m, lu_Players = players\<rparr>))"

text \<open>An error of the command is only logged: the empty answer is parsed.\<close>

definition rcon_List :: "'w rcon \<Rightarrow> ('w, list_output) io" where
  "rcon_List R =
     io_bind (io_try (rn_Exec R ''list'')) (\<lambda>r.
     io_lift (ParseListOutput (case r of Ok s \<Rightarrow> s | _ \<Rightarrow> [])))"

section \<open>The seed\<close>

definition ParseSeedOutput :: "string \<Rightarrow> string res" where
  "ParseSeedOutput s =
     (if length s < 8 \<or> take 7 s \<noteq> ''Seed: ['' \<or> last s \<noteq> CHR '']'' then Err (Msg ''failed to retrieve seed'')
      else Ok (drop 7 (butlast s)))"

definition rcon_Seed :: "'w rcon \<Rightarrow> ('w, string) io" where
  "rcon_Seed R = io_bind (rn_Exec R ''seed'') (\<lambda>s. io_lift (ParseSeedOutput s))"

section \<open>What the server prints is read\<close>

fun join_names :: "string list \<Rightarrow> string" where
  "join_names [] = []"
| "join_names [x] = x"
| "join_names (x # xs) = x @ '', '' @ join_names xs"

text \<open>The answer of the server to \<open>list\<close>.\<close>

definition list_text :: "nat \<Rightarrow> string list \<Rightarrow> string" where
  "list_text m names =
     ''There are '' @ nat_digits (length names) @ '' of a max of '' @ nat_digits m @ '' players online: '' @ join_names names"

text \<open>A name of a player: letters, digits and underscores; here no separator, space or line end.\<close>

definition player_name :: "string \<Rightarrow> bool" where
  "player_name p = (p \<noteq> [] \<and> CHR '','' \<notin> set p \<and> CHR '' '' \<notin> set p \<and> CHR 0x0A \<notin> set p)"

lemma take_digits_nat: "\<not> is_digit c \<Longrightarrow> take_digits (nat_digits n @ c # r) = Some (nat_digits n, c # r)"
  using nat_digits_digits [of n] by (simp add: take_digits_def list_all_iff takeWhile_append2 dropWhile_append2)

lemma str_index_sep:
  assumes "CHR '','' \<notin> set x"
  shows "str_index '', '' (x @ '', '' @ r) = Some (length x)"
  using assms by (induction x) (auto simp: has_prefix_def)

lemma str_index_no_sep: "CHR '','' \<notin> set x \<Longrightarrow> str_index '', '' x = None"
  by (induction x) (auto simp: has_prefix_def)

lemma split_names:
  "list_all player_name names \<Longrightarrow> names \<noteq> [] \<Longrightarrow> str_split '', '' (join_names names) = names"
proof (induction names rule: join_names.induct)
  case (2 x)
  then show ?case by (subst str_split.simps) (simp add: str_index_no_sep player_name_def)
next
  case (3 x y xs)
  have "str_split '', '' (x @ '', '' @ join_names (y # xs)) = x # str_split '', '' (join_names (y # xs))"
    using 3(2) str_index_sep [of x "join_names (y # xs)"] by (subst str_split.simps) (simp add: player_name_def)
  then show ?case using 3 by simp
qed simp

lemma trim_name: "CHR '' '' \<notin> set p \<Longrightarrow> trim_set '' '' p = p"
proof -
  assume p: "CHR '' '' \<notin> set p"
  have "dropWhile (\<lambda>c. c \<in> set '' '') q = q" if "CHR '' '' \<notin> set q" for q
    using that by (cases q) auto
  then show ?thesis using p by (simp add: trim_set_def)
qed

lemma join_no_newline: "list_all player_name names \<Longrightarrow> CHR 0x0A \<notin> set (join_names names)"
  by (induction names rule: join_names.induct) (auto simp: player_name_def)

lemma list_text_parses:
  assumes "list_all player_name names" and "int m \<le> int64_max" and "int (length names) \<le> int64_max"
  shows "ParseListOutput (list_text m names) = Ok \<lparr>lu_MaxPlayers = int m, lu_Players = names\<rparr>"
proof -
  have "playerListRegexp (list_text m names) = Some (nat_digits (length names), nat_digits m, join_names names)"
    using join_no_newline [OF assms(1)] take_digits_nat [of "CHR '' ''"]
    by (simp add: playerListRegexp_def list_text_def is_digit_def expect_def has_prefix_def)
  moreover have "filter (\<lambda>p. p \<noteq> []) (str_split '', '' (join_names names)) = names"
  proof (cases "names = []")
    case True
    then show ?thesis by (subst str_split.simps) simp
  next
    case False
    then show ?thesis using split_names [OF assms(1)] assms(1)
      by (simp add: list_all_iff player_name_def)
  qed
  moreover have "map (trim_set '' '') names = names"
    using assms(1) by (intro map_idI) (simp add: list_all_iff player_name_def trim_name)
  ultimately show ?thesis
    using assms(2,3) by (simp add: ParseListOutput_def atoi_digits_def digits_val_nat_digits)
qed

text \<open>
  The players the server lists are the players the launcher sees: parsing the
  answer to \<open>list\<close> for any list of names, the empty one included, gives these names and the limit.
\<close>

lemma list_output_roundtrip:
  assumes "list_all player_name names" and "int m \<le> int64_max" and "int (length names) \<le> int64_max"
  shows "ParseListOutput (list_text m names) = Ok \<lparr>lu_MaxPlayers = int m, lu_Players = names\<rparr>"
  using assms by (rule list_text_parses)

end
