(* ===== verification/Launcher.thy ===== *)
theory Launcher
  imports GameConfig Messaging
begin

text \<open>
  \<open>src/backend/ctrlplane/common/launcher/launcher.go\<close> and the interface
  \<open>.../launcher/server/server.go\<close>: at most one server runs at a time.  The lock is the key
  \<open>running\<close> of the key-value store, taken by an atomic get-and-set in \<open>Launch\<close> and
  released by \<open>Clean\<close>.  The goroutine that \<open>Launch\<close> starts is a pending task of the
  step relation \<open>launcher_step\<close>.
\<close>

section \<open>The game server interface and the service\<close>

record 'w game_server =
  gs_IsAvailable :: bool
  gs_Start :: "runner_config \<Rightarrow> string \<Rightarrow> ('w, string) io"
  gs_Find :: "('w, string) io"
  gs_IsRunning :: "string \<Rightarrow> ('w, bool) io"
  gs_Stop :: "string \<Rightarrow> ('w, bool) io"
  gs_Delete :: "string \<Rightarrow> ('w, bool) io"

text \<open>
  The service; the streaming service and the store share the Redis client, and
  \<open>la_script\<close> is the startup script the embedded template gives for a configuration.
\<close>

record 'w launcher =
  la_config :: cp_config
  la_redis :: "'w redis"
  la_server :: "'w game_server"
  la_script :: "runner_config \<Rightarrow> string"

definition la_kvs :: "'w launcher \<Rightarrow> 'w store" where
  "la_kvs s = NewRedis (la_redis s)"

definition lockInstance :: "'w launcher \<Rightarrow> ('w, unit) io" where
  "lockInstance s =
     io_bind (io_try (kvs_GetSet (la_kvs s) ''running'' (JBool True) (-1) dec_bool False)) (\<lambda>r.
     case r of
       Err e \<Rightarrow> if errors_is e RedisNil then io_ret () else io_err e
     | Panic p \<Rightarrow> io_panic p
     | Ok running \<Rightarrow> if running then io_err (Msg ''another server is already running'') else io_ret ())"

definition releaseInstance :: "'w launcher \<Rightarrow> ('w, unit) io" where
  "releaseInstance s =
     io_bind (io_try (kvs_Del (la_kvs s) [''running''])) (\<lambda>r.
     case r of Err e \<Rightarrow> io_err (Wrapped ''failed to unlock instance'' e) | _ \<Rightarrow> io_ret ())"

definition la_publish :: "'w launcher \<Rightarrow> message \<Rightarrow> ('w, unit) io" where
  "la_publish s m = PublishEvent (la_redis s) m"

text \<open>Manual setup: a code under which the user fetches the startup script.\<close>

definition manual_setup :: "'w launcher \<Rightarrow> bytes \<Rightarrow> runner_config \<Rightarrow> ('w, unit) io" where
  "manual_setup s rnd rc =
     (let authCode = base32 rnd in
      io_bind (la_publish s (NewStandardMessageWithTextData (event_num EventManualSetup) authCode (page_num PageManualSetup))) (\<lambda>_.
      io_bind (io_try (kvs_Set (la_kvs s) (''startup:'' @ authCode) (JStr (la_script s rc)) (3600 * 1000000000))) (\<lambda>_.
      io_ret ())))"

text \<open>
  \<open>launchServer\<close> with the random bytes of the runner's key and of the manual code.  The
  conversion to a runner configuration never fails.  \<open>launch_started\<close> is what follows
  once the runner's key is saved.
\<close>

definition launch_started :: "'w launcher \<Rightarrow> bytes \<Rightarrow> runner_config \<Rightarrow> string \<Rightarrow> ('w, unit) io" where
  "launch_started s rndCode rc machineType =
     io_bind (la_publish s (NewStandardMessage (event_num EventCreateRunner) (page_num PageLoading))) (\<lambda>_.
     if gs_IsAvailable (la_server s) then
       io_bind (io_try (gs_Start (la_server s) rc machineType)) (\<lambda>started.
       case started of
         Ok cookie \<Rightarrow>
           io_bind (io_try (kvs_Set (la_kvs s) ''runner-id:default'' (JStr cookie) (-1))) (\<lambda>set_id.
           if is_ok set_id then
             la_publish s (NewStandardMessageWithProgress (event_num EventCreateRunner) 50 (page_num PageLoading))
           else io_ret ())
       | Err e \<Rightarrow> manual_setup s rndCode rc
       | Panic p \<Rightarrow> io_panic p)
     else manual_setup s rndCode rc)"

definition launchServer :: "'w launcher \<Rightarrow> bytes \<Rightarrow> bytes \<Rightarrow> launch_config \<Rightarrow> ('w, unit) io" where
  "launchServer s rndKey rndCode c =
     (let rc = ToRunnerConfig rndKey (la_config s) c in
      io_bind (io_try (kvs_Set (la_kvs s) (''runner:'' @ rc_AuthKey rc) (JStr ''default'') (-1))) (\<lambda>saved.
      if is_ok saved then launch_started s rndCode rc (lc_MachineType c)
      else
        io_bind (la_publish s (NewInfoMessage (info_num InfoErrRunnerPrepare) True)) (\<lambda>_.
        io_bind (io_try (releaseInstance s)) (\<lambda>_. io_ret ()))))"

text \<open>\<open>Launch\<close> up to the start of the goroutine; \<open>Validate\<close> accepts every configuration.\<close>

definition lc_Validate :: "launch_config \<Rightarrow> unit res" where
  "lc_Validate c = Ok ()"

definition Launch :: "'w launcher \<Rightarrow> launch_config \<Rightarrow> ('w, unit) io" where
  "Launch s c =
     (case lc_Validate c of
        Err e \<Rightarrow> io_err (Wrapped ''invalid config'' e)
      | Panic p \<Rightarrow> io_panic p
      | Ok _ \<Rightarrow>
          io_bind (io_try (lockInstance s)) (\<lambda>r.
          case r of Err e \<Rightarrow> io_err (Wrapped ''failed to acquire lock'' e) | _ \<Rightarrow> io_ret ()))"

section \<open>Cleaning up\<close>

definition stop_failed :: "'w launcher \<Rightarrow> ('w, unit) io" where
  "stop_failed s = la_publish s (NewInfoMessage (info_num InfoErrRunnerStop) True)"

text \<open>From the label \<open>out\<close> on.\<close>

definition clean_keys :: "string \<Rightarrow> string list" where
  "clean_keys authKey = [''runner-id:default'', ''runner-info:default'', ''world-info:default'', ''runner:'' @ authKey]"

definition clean_out :: "'w launcher \<Rightarrow> string \<Rightarrow> ('w, unit) io" where
  "clean_out s authKey =
     io_bind (io_try (kvs_Del (la_kvs s) (clean_keys authKey))) (\<lambda>r.
     if is_ok r then
       io_bind (la_publish s (NewStandardMessage (event_num EventStopped) (page_num PageLaunch))) (\<lambda>_.
       io_bind (io_try (ClearSysstat (la_redis s))) (\<lambda>_. io_ret ()))
     else io_ret ())"

definition clean_server :: "'w launcher \<Rightarrow> string \<Rightarrow> string \<Rightarrow> ('w, unit) io" where
  "clean_server s cookie authKey =
     io_bind (la_publish s (NewStandardMessageWithProgress (event_num EventStopRunner) 10 (page_num PageLoading))) (\<lambda>_.
     io_bind (gs_Stop (la_server s) cookie) (\<lambda>stopped.
     if \<not> stopped then stop_failed s
     else
       io_bind (la_publish s (NewStandardMessageWithProgress (event_num EventStopRunner) 60 (page_num PageLoading))) (\<lambda>_.
       io_bind (gs_Delete (la_server s) cookie) (\<lambda>deleted.
       if \<not> deleted then stop_failed s else clean_out s authKey))))"

definition clean_body :: "'w launcher \<Rightarrow> string \<Rightarrow> ('w, unit) io" where
  "clean_body s authKey =
     io_bind (la_publish s (NewStandardMessage (event_num EventStopRunner) (page_num PageLoading))) (\<lambda>_.
     io_bind (io_try (kvs_Get (la_kvs s) ''runner-id:default'' dec_str [])) (\<lambda>r.
     case r of
       Ok cookie \<Rightarrow> if gs_IsAvailable (la_server s) then clean_server s cookie authKey else stop_failed s
     | Err e \<Rightarrow> if e = RedisNil then clean_out s authKey else stop_failed s
     | Panic p \<Rightarrow> io_panic p))"

text \<open>The deferred release runs however the body ends.\<close>

definition Clean :: "'w launcher \<Rightarrow> string \<Rightarrow> ('w, unit) io" where
  "Clean s authKey w =
     (case clean_body s authKey w of (r, w1) \<Rightarrow> (r, snd (releaseInstance s w1)))"

section \<open>The lock\<close>

text \<open>The server operations do not touch the store.\<close>

definition server_frame :: "'w game_server \<Rightarrow> ('w \<Rightarrow> redis_view) \<Rightarrow> bool" where
  "server_frame g view =
     ((\<forall>rc mt. keeps view (gs_Start g rc mt)) \<and> (\<forall>c. keeps view (gs_Stop g c)) \<and> (\<forall>c. keeps view (gs_Delete g c)))"

text \<open>The value of a key after a call: a call that leaves one key alone.\<close>

abbreviation keeps_key :: "('w \<Rightarrow> redis_view) \<Rightarrow> string \<Rightarrow> ('w, 'a) io \<Rightarrow> bool" where
  "keeps_key view k m \<equiv> keeps (\<lambda>w. rv_keys (view w) k) m"

lemma keeps_key_Set:
  assumes "redis_honest R view" "k' \<noteq> k"
  shows "keeps_key view k (kvs_Set (NewRedis R) k' j ttl)"
  unfolding keeps_def
proof
  fix w
  obtain w' where "kvs_Set (NewRedis R) k' j ttl w = (Ok (), w')"
    "view w' = (view w)\<lparr>rv_keys := (rv_keys (view w))(k' \<mapsto> j)\<rparr>" using kvs_Set_honest [OF assms(1)] .
  with assms(2) show "rv_keys (view (snd (kvs_Set (NewRedis R) k' j ttl w))) k = rv_keys (view w) k" by simp
qed

lemma keeps_key_Get:
  assumes "redis_honest R view"
  shows "keeps_key view k (kvs_Get (NewRedis R) k' d old)"
  unfolding keeps_def
proof
  fix w
  obtain w' where "kvs_Get (NewRedis R) k' d old w = (res_bind (found (rv_keys (view w) k')) (d old), w')"
    "view w' = view w" using kvs_Get_honest [OF assms] .
  then show "rv_keys (view (snd (kvs_Get (NewRedis R) k' d old w))) k = rv_keys (view w) k" by simp
qed

lemma keeps_key_Del:
  assumes "redis_honest R view" "k \<notin> set ks"
  shows "keeps_key view k (kvs_Del (NewRedis R) ks)"
  unfolding keeps_def
proof
  fix w
  obtain w' where "kvs_Del (NewRedis R) ks w = (Ok (), w')"
    "view w' = (view w)\<lparr>rv_keys := (\<lambda>k. if k \<in> set ks then None else rv_keys (view w) k)\<rparr>"
    using kvs_Del_honest [OF assms(1)] .
  with assms(2) show "rv_keys (view (snd (kvs_Del (NewRedis R) ks w))) k = rv_keys (view w) k" by simp
qed

lemma keeps_key_publish:
  assumes "redis_honest R view" "k \<noteq> ''current-state''"
  shows "keeps_key view k (PublishEvent R m)"
  unfolding keeps_def
proof
  fix w
  obtain w' where "publishEvent R m w = (Ok (), w')"
    "view w' = (if msg_Type m = EventMessage
       then (view w)\<lparr>rv_keys := (rv_keys (view w))(''current-state'' \<mapsto> msg_Body m)\<rparr> else view w)"
    using publishEvent_honest [OF assms(1)] .
  with assms(2) show "rv_keys (view (snd (PublishEvent R m w))) k = rv_keys (view w) k"
    by (simp add: PublishEvent_def io_simps)
qed

lemma keeps_key_sysstat:
  assumes "redis_honest R view" "k \<noteq> ''sysstat-history''"
  shows "keeps_key view k (ClearSysstat R)"
  unfolding keeps_def
proof
  fix w
  obtain w' where "rds_Del R [''sysstat-history''] w = (Ok (), w')"
    "view w' = (view w)\<lparr>rv_keys := (\<lambda>k. if k \<in> set [''sysstat-history''] then None else rv_keys (view w) k)\<rparr>"
    using honest_Del [OF assms(1)] .
  with assms(2) show "rv_keys (view (snd (ClearSysstat R w))) k = rv_keys (view w) k"
    by (simp add: ClearSysstat_def io_simps)
qed

lemma keeps_view_key: "keeps view m \<Longrightarrow> keeps_key view k m"
  by (simp add: keeps_def)

lemma keeps_case_res:
  "(\<And>x. keeps I (f x)) \<Longrightarrow> (\<And>e. keeps I (g e)) \<Longrightarrow> (\<And>p. keeps I (h p)) \<Longrightarrow>
     keeps I (case r of Ok x \<Rightarrow> f x | Err e \<Rightarrow> g e | Panic p \<Rightarrow> h p)"
  by (cases r) simp_all

text \<open>The launch task writes keys of its own and never the lock, while Redis answers.\<close>

lemma keeps_launch_started:
  assumes "redis_honest (la_redis s) view" "server_frame (la_server s) view"
  shows "keeps_key view ''running'' (launch_started s rnd rc mt)"
proof -
  note facts = keeps_key_Set [OF assms(1)] keeps_key_publish [OF assms(1)]
  have start: "keeps_key view ''running'' (gs_Start (la_server s) rc mt)"
    using assms(2) by (auto simp: server_frame_def intro: keeps_view_key)
  have manual: "keeps_key view ''running'' (manual_setup s rnd rc)"
    by (auto simp: manual_setup_def la_publish_def la_kvs_def Let_def intro!: keeps_intros facts)
  show ?thesis
    unfolding launch_started_def la_publish_def la_kvs_def
    by (auto intro!: keeps_intros facts start manual keeps_case_res)
qed

lemma launchServer_keeps_lock:
  assumes "redis_honest (la_redis s) view" "server_frame (la_server s) view"
  shows "rv_keys (view (snd (launchServer s rk rcode c w))) ''running'' = rv_keys (view w) ''running''"
proof -
  let ?rc = "ToRunnerConfig rk (la_config s) c"
  obtain w' where w': "kvs_Set (la_kvs s) (''runner:'' @ rc_AuthKey ?rc) (JStr ''default'') (-1) w = (Ok (), w')"
    "view w' = (view w)\<lparr>rv_keys := (rv_keys (view w))(''runner:'' @ rc_AuthKey ?rc \<mapsto> JStr ''default'')\<rparr>"
    using kvs_Set_honest [OF assms(1)] unfolding la_kvs_def .
  have "launchServer s rk rcode c w = launch_started s rcode ?rc (lc_MachineType c) w'"
    using w'(1) by (simp add: launchServer_def io_simps Let_def)
  moreover have "rv_keys (view (snd (launch_started s rcode ?rc (lc_MachineType c) w'))) ''running''
      = rv_keys (view w') ''running''"
    using keeps_launch_started [OF assms] by (simp add: keeps_def)
  ultimately show ?thesis using w'(2) by simp
qed

lemma Launch_honest:
  assumes "redis_honest (la_redis s) view"
  shows "\<exists>r w'. Launch s c w = (r, w') \<and> rv_keys (view w') ''running'' = Some (JBool True)
    \<and> (case rv_keys (view w) ''running'' of
         None \<Rightarrow> r = Ok ()
       | Some j \<Rightarrow> (j = JBool False \<or> j = JNull \<longrightarrow> r = Ok ()) \<and> (j = JBool True \<longrightarrow>
            r = Err (Wrapped ''failed to acquire lock'' (Msg ''another server is already running''))))"
proof -
  obtain w' where g: "rds_SetGet (la_redis s) ''running'' (JBool True) (-1) w = (found (rv_keys (view w) ''running''), w')"
    "view w' = (view w)\<lparr>rv_keys := (rv_keys (view w))(''running'' \<mapsto> JBool True)\<rparr>"
    using honest_SetGet [OF assms] .
  then have k: "kvs_GetSet (la_kvs s) ''running'' (JBool True) (-1) dec_bool False w =
      (res_bind (found (rv_keys (view w) ''running'')) (dec_bool False), w')"
    by (simp add: kvs_GetSet_def la_kvs_def io_bind_def io_lift_def kvs_simps found_def split: option.split)
  have "\<exists>r. Launch s c w = (r, w')
    \<and> (case rv_keys (view w) ''running'' of
         None \<Rightarrow> r = Ok ()
       | Some j \<Rightarrow> (j = JBool False \<or> j = JNull \<longrightarrow> r = Ok ()) \<and> (j = JBool True \<longrightarrow>
            r = Err (Wrapped ''failed to acquire lock'' (Msg ''another server is already running''))))"
  proof (cases "rv_keys (view w) ''running''")
    case None
    with k show ?thesis
      by (simp add: Launch_def lc_Validate_def lockInstance_def io_bind_def io_try_def io_ret_def found_def)
  next
    case (Some j)
    with k show ?thesis
      by (cases "dec_bool False j")
        (auto simp: Launch_def lc_Validate_def lockInstance_def io_bind_def io_try_def io_ret_def io_err_def
          io_panic_def found_def dec_bool_def json_mismatch_def json_syntax_def split: json.splits)
  qed
  with g(2) show ?thesis by auto
qed

section \<open>One server at a time\<close>

text \<open>
  The system: the store, how many launches succeeded since the last cleanup, and the launch
  tasks that have not run yet.  Requests, tasks and cleanups come in any order.
\<close>

type_synonym 'w launch_state = "'w \<times> nat \<times> launch_config list"

inductive launcher_step :: "'w launcher \<Rightarrow> 'w launch_state \<Rightarrow> 'w launch_state \<Rightarrow> bool" for s where
  launch_ok: "Launch s c w = (Ok (), w') \<Longrightarrow> launcher_step s (w, n, pend) (w', Suc n, c # pend)"
| launch_refused: "Launch s c w = (r, w') \<Longrightarrow> r \<noteq> Ok () \<Longrightarrow> launcher_step s (w, n, pend) (w', n, pend)"
| launch_task: "c \<in> set pend \<Longrightarrow> launchServer s rk rcode c w = (r, w')
    \<Longrightarrow> launcher_step s (w, n, pend) (w', n, remove1 c pend)"
| launch_clean: "Clean s key w = (r, w') \<Longrightarrow> launcher_step s (w, n, pend) (w', 0, pend)"

lemma launch_count_step:
  assumes "redis_honest (la_redis s) view" "server_frame (la_server s) view"
    and "launcher_step s (w, n, pend) (w', n', pend')"
    and "n \<le> 1" "n = 1 \<longrightarrow> rv_keys (view w) ''running'' = Some (JBool True)"
  shows "n' \<le> 1 \<and> (n' = 1 \<longrightarrow> rv_keys (view w') ''running'' = Some (JBool True))"
  using assms(3)
proof cases
  case (launch_ok c)
  with Launch_honest [OF assms(1), of c w] assms(4,5) show ?thesis
    by (cases "n = 1") auto
next
  case (launch_refused c r)
  with Launch_honest [OF assms(1), of c w] assms(4) show ?thesis by auto
next
  case (launch_task c rk rcode r)
  with launchServer_keeps_lock [OF assms(1,2), of rk rcode c w] assms(4,5) show ?thesis by simp
next
  case (launch_clean key r)
  then show ?thesis by simp
qed

lemma launch_count_steps:
  assumes "redis_honest (la_redis s) view" and "server_frame (la_server s) view"
    and "(launcher_step s)\<^sup>*\<^sup>* (w0, 0, []) (w, n, pend)"
  shows "n \<le> 1"
proof -
  have "n \<le> 1 \<and> (n = 1 \<longrightarrow> rv_keys (view w) ''running'' = Some (JBool True))"
    using assms(3)
  proof (induction "(w, n, pend)" arbitrary: w n pend rule: rtranclp_induct)
    case base
    then show ?case by simp
  next
    case (step st)
    obtain w1 n1 p1 where st: "st = (w1, n1, p1)" by (cases st)
    with step show ?case using launch_count_step [OF assms(1,2)] by blast
  qed
  then show ?thesis by simp
qed

text \<open>
  Property C2: at most one server is launched between two cleanups.  While Redis answers, in
  every interleaving of launch requests, launch tasks and cleanups that begins with a free
  lock, at most one launch has succeeded since the last cleanup.
\<close>

theorem one_launch_at_a_time:
  assumes "redis_honest (la_redis s) view" and "server_frame (la_server s) view"
    and "(launcher_step s)\<^sup>*\<^sup>* (w0, 0, []) (w, n, pend)"
  shows "n \<le> 1"
  by (rule launch_count_steps [OF assms])

definition demo_launcher :: "redis_view launcher" where
  "demo_launcher = \<lparr>la_config = \<lparr>cfg_ConohaUser = [], cfg_ConohaPassword = [], cfg_ConohaTenantID = [],
      cfg_ConohaNameTag = [], cfg_S3Bucket = [], cfg_Operators = [], cfg_Whitelist = [], cfg_Origin = [],
      cfg_GameDomain = [], cfg_IconURL = []\<rparr>, la_redis = mem_redis,
     la_server = \<lparr>gs_IsAvailable = True, gs_Start = (\<lambda>rc mt w. (Ok ''vm'', w)), gs_Find = (\<lambda>w. (Ok ''vm'', w)),
       gs_IsRunning = (\<lambda>c w. (Ok True, w)), gs_Stop = (\<lambda>c w. (Ok True, w)), gs_Delete = (\<lambda>c w. (Ok True, w))\<rparr>,
     la_script = (\<lambda>rc. [])\<rparr>"

lemma demo_launcher_frame: "redis_honest (la_redis demo_launcher) (\<lambda>w. w)"
  "server_frame (la_server demo_launcher) (\<lambda>w. w)"
  by (simp_all add: demo_launcher_def mem_redis_honest server_frame_def keeps_def)

lemma one_launch_at_a_time_witness:
  "\<exists>w'. (launcher_step demo_launcher)\<^sup>*\<^sup>* (empty_view, 0, []) (w', 1, [zero_launch_config]) \<and> (1 :: nat) \<le> 1"
proof -
  obtain r w' where "Launch demo_launcher zero_launch_config empty_view = (r, w')" "r = Ok ()"
    using Launch_honest [OF demo_launcher_frame(1), of zero_launch_config empty_view]
    by (auto simp: empty_view_def)
  then have "launcher_step demo_launcher (empty_view, 0, []) (w', Suc 0, [zero_launch_config])"
    using launch_ok [of demo_launcher zero_launch_config empty_view w' 0 "[]"] by simp
  then have r: "(launcher_step demo_launcher)\<^sup>*\<^sup>* (empty_view, 0, []) (w', 1, [zero_launch_config])" by simp
  from one_launch_at_a_time [OF demo_launcher_frame r] r show ?thesis by blast
qed

text \<open>
  Property C20: a cleanup frees the lock.  However it goes - the server cannot be stopped or
  deleted, is not available, or the runner's id is unknown - the lock is free after
  \<open>Clean\<close>, and the next launch is accepted.
\<close>

theorem Clean_frees_lock:
  assumes "redis_honest (la_redis s) view"
  shows "rv_keys (view (snd (Clean s key w))) ''running'' = None
    \<and> fst (Launch s c (snd (Clean s key w))) = Ok ()"
proof -
  obtain r w1 where b: "clean_body s key w = (r, w1)" by (cases "clean_body s key w")
  obtain w2 where d: "kvs_Del (la_kvs s) [''running''] w1 = (Ok (), w2)"
    "view w2 = (view w1)\<lparr>rv_keys := (\<lambda>k. if k \<in> set [''running''] then None else rv_keys (view w1) k)\<rparr>"
    using kvs_Del_honest [OF assms] unfolding la_kvs_def .
  then have "Clean s key w = (r, w2)" using b by (simp add: Clean_def releaseInstance_def io_simps)
  moreover have f: "rv_keys (view w2) ''running'' = None" using d(2) by simp
  moreover have "fst (Launch s c w2) = Ok ()" using Launch_honest [OF assms, of c w2] f by auto
  ultimately show ?thesis by simp
qed

lemma Clean_frees_lock_witness:
  "rv_keys (snd (Clean demo_launcher ''k'' empty_view)) ''running'' = None
    \<and> fst (Launch demo_launcher zero_launch_config (snd (Clean demo_launcher ''k'' empty_view))) = Ok ()"
  by (rule Clean_frees_lock [OF demo_launcher_frame(1)])

text \<open>
  A cleanup of a running server.  When the runner's id is stored and the cloud
  stops and deletes the server, \<open>Clean\<close> forgets the runner (its id, its information, the
  world's and the runner's key), shows the stopped state to users and frees the lock.
\<close>

lemma Clean_stops_server:
  assumes "redis_honest (la_redis s) view" and "server_frame (la_server s) view"
    and "gs_IsAvailable (la_server s)" and "rv_keys (view w) ''runner-id:default'' = Some (JStr cookie)"
    and "\<And>w. fst (gs_Stop (la_server s) cookie w) = Ok True" and "\<And>w. fst (gs_Delete (la_server s) cookie w) = Ok True"
  shows "\<exists>w'. Clean s key w = (Ok (), w') \<and> rv_keys (view w') ''running'' = None
    \<and> (\<forall>k \<in> set (clean_keys key). rv_keys (view w') k = None)
    \<and> rv_keys (view w') ''current-state'' = Some default_state"
proof -
  let ?R = "la_redis s"
  have pub: "\<exists>w'. la_publish s m w = (Ok (), w') \<and> view w' = (if msg_Type m = EventMessage
       then (view w)\<lparr>rv_keys := (rv_keys (view w))(''current-state'' \<mapsto> msg_Body m)\<rparr> else view w)" for m w
    by (rule publishEvent_honest [OF assms(1), of m w]) (simp add: la_publish_def PublishEvent_def io_simps)
  let ?m0 = "NewStandardMessage (event_num EventStopRunner) (page_num PageLoading)"
  let ?m1 = "NewStandardMessageWithProgress (event_num EventStopRunner) 10 (page_num PageLoading)"
  let ?m2 = "NewStandardMessageWithProgress (event_num EventStopRunner) 60 (page_num PageLoading)"
  let ?m3 = "NewStandardMessage (event_num EventStopped) (page_num PageLaunch)"
  obtain w0 where w0: "la_publish s ?m0 w = (Ok (), w0)" "rv_keys (view w0) ''runner-id:default'' = Some (JStr cookie)"
    using pub [of ?m0 w] assms(4) by (auto simp: NewStandardMessage_def)
  obtain w1 where w1: "kvs_Get (la_kvs s) ''runner-id:default'' dec_str [] w0 = (Ok cookie, w1)" "view w1 = view w0"
    by (rule kvs_Get_honest [OF assms(1), of "''runner-id:default''" dec_str "[]" w0])
      (simp add: w0(2) la_kvs_def found_def dec_str_def)
  obtain w2 where w2: "la_publish s ?m1 w1 = (Ok (), w2)" using pub by blast
  obtain w3 where w3: "gs_Stop (la_server s) cookie w2 = (Ok True, w3)" using assms(5) [of w2] by (metis surjective_pairing)
  obtain w4 where w4: "la_publish s ?m2 w3 = (Ok (), w4)" using pub by blast
  obtain w5 where w5: "gs_Delete (la_server s) cookie w4 = (Ok True, w5)" using assms(6) [of w4] by (metis surjective_pairing)
  obtain w6 where w6: "kvs_Del (la_kvs s) (clean_keys key) w5 = (Ok (), w6)"
    "view w6 = (view w5)\<lparr>rv_keys := (\<lambda>k. if k \<in> set (clean_keys key) then None else rv_keys (view w5) k)\<rparr>"
    using kvs_Del_honest [OF assms(1)] unfolding la_kvs_def .
  obtain w7 where w7: "la_publish s ?m3 w6 = (Ok (), w7)"
    "view w7 = (view w6)\<lparr>rv_keys := (rv_keys (view w6))(''current-state'' \<mapsto> default_state)\<rparr>"
    using pub [of ?m3 w6] by (auto simp: NewStandardMessage_def default_state_def)
  obtain w8 where w8: "rds_Del ?R [''sysstat-history''] w7 = (Ok (), w8)"
    "view w8 = (view w7)\<lparr>rv_keys := (\<lambda>k. if k \<in> set [''sysstat-history''] then None else rv_keys (view w7) k)\<rparr>"
    using honest_Del [OF assms(1)] .
  obtain w9 where w9: "kvs_Del (la_kvs s) [''running''] w8 = (Ok (), w9)"
    "view w9 = (view w8)\<lparr>rv_keys := (\<lambda>k. if k \<in> set [''running''] then None else rv_keys (view w8) k)\<rparr>"
    using kvs_Del_honest [OF assms(1)] unfolding la_kvs_def .
  have "clean_out s key w5 = (Ok (), w8)" using w6 w7 w8 by (simp add: clean_out_def io_simps ClearSysstat_def)
  then have "clean_body s key w = (Ok (), w8)"
    using w0 w1 w2 w3 w4 w5 assms(3) by (simp add: clean_body_def clean_server_def io_simps)
  then have "Clean s key w = (Ok (), w9)" using w9(1) by (simp add: Clean_def releaseInstance_def io_simps)
  moreover have "rv_keys (view w9) ''running'' = None" using w9(2) by simp
  moreover have "\<forall>k \<in> set (clean_keys key). rv_keys (view w9) k = None"
    using w6(2) w7(2) w8(2) w9(2) by (auto simp: clean_keys_def)
  moreover have "rv_keys (view w9) ''current-state'' = Some default_state" using w7(2) w8(2) w9(2) by simp
  ultimately show ?thesis by blast
qed

end
