(* ===== verification/ConohaServer.thy ===== *)
theory ConohaServer
  imports Conoha Retry Launcher
begin

text \<open>
  \<open>src/backend/ctrlplane/common/launcher/server/conoha.go\<close>: the game server on the cloud.
  The state is the client's token beside the rest of the world; waiting between two attempts
  changes only the world.
\<close>

section \<open>Flavors, volumes and servers\<close>

definition availableFlavorsByMemory :: "(int \<times> string) list" where
  "availableFlavorsByMemory =
     [(2, ''g2l-t-c3m2''), (4, ''g2l-t-c4m4''), (12, ''g2l-t-c6m12''), (24, ''g2l-t-c8m24''),
      (48, ''g2l-t-c12m48''), (96, ''g2l-t-c24m96''), (128, ''g2l-t-c40m128'')]"

definition getMemorySize :: "string \<Rightarrow> string res" where
  "getMemorySize machineType =
     (case go_atoi (replace_first ''g'' [] machineType) of
        Err e \<Rightarrow> Err (Wrapped ''invalid memory size'' e)
      | Panic p \<Rightarrow> Panic p
      | Ok memSizeGB \<Rightarrow>
          (case map_of availableFlavorsByMemory memSizeGB of
             None \<Rightarrow> Err (Msg (''unsupported memory size: '' @ fmt_d memSizeGB))
           | Some flavor \<Rightarrow> Ok flavor))"

fun findVolume :: "volume list \<Rightarrow> string \<Rightarrow> string res" where
  "findVolume [] name = Err (Msg ''no matching volume'')"
| "findVolume (v # vs) name = (if vo_Name v = name then Ok (vo_ID v) else findVolume vs name)"

fun findServer :: "server_detail list \<Rightarrow> string \<Rightarrow> string res" where
  "findServer [] nameTag = Err (Msg ''no matching server'')"
| "findServer (s # ss) nameTag = (if sd_NameTag s = nameTag then Ok (sd_ID s) else findServer ss nameTag)"

section \<open>The server\<close>

record 'w conoha_server =
  cv_cfg :: cp_config
  cv_conoha :: "'w conoha_client"
  cv_script :: "runner_config \<Rightarrow> string"
  cv_rnd :: "nat \<Rightarrow> nat"
  cv_sleep :: "int \<Rightarrow> 'w \<Rightarrow> 'w"

definition cv_wait :: "'w conoha_server \<Rightarrow> int \<Rightarrow> 'w conoha \<Rightarrow> 'w conoha" where
  "cv_wait S d = (\<lambda>(t, w). (t, cv_sleep S d w))"

definition cv_IsAvailable :: "'w conoha_server \<Rightarrow> bool" where
  "cv_IsAvailable S = (cfg_ConohaUser (cv_cfg S) \<noteq> [] \<and> cfg_ConohaPassword (cv_cfg S) \<noteq> [])"

definition wrap_err :: "string \<Rightarrow> ('w, 'a) io \<Rightarrow> ('w, 'a) io" where
  "wrap_err msg m w = (case m w of (Err e, w') \<Rightarrow> (Err (Wrapped msg e), w') | r \<Rightarrow> r)"

text \<open>One attempt of waiting for the machine to be created, and one of waiting for it to stop.\<close>

definition created_check :: "'w conoha_server \<Rightarrow> string \<Rightarrow> ('w conoha, unit) io" where
  "created_check S serverID =
     io_bind (GetServerDetail (cv_conoha S) serverID) (\<lambda>d.
       if sd_Status d = ''BUILD'' then io_err (Msg ''VM is building'') else io_ret ())"

definition stopped_check :: "'w conoha_server \<Rightarrow> string \<Rightarrow> ('w conoha, unit) io" where
  "stopped_check S serverID =
     io_bind (GetServerDetail (cv_conoha S) serverID) (\<lambda>d.
       if sd_Status d \<noteq> ''SHUTOFF'' then io_err (Msg ''not yet stopped'') else io_ret ())"

text \<open>
  When no flavor matches, the source wraps an error that is nil: the message ends with what
  \<open>fmt\<close> prints for it and nothing is wrapped.
\<close>

definition cv_Start :: "'w conoha_server \<Rightarrow> runner_config \<Rightarrow> string \<Rightarrow> ('w conoha, string) io" where
  "cv_Start S gameConfig machineType =
     io_bind (wrap_err ''invalid machine type'' (io_lift (getMemorySize machineType))) (\<lambda>flavorName.
     io_bind (wrap_err ''failed to get flavors'' (ListFlavorDetails (cv_conoha S))) (\<lambda>flavors.
     case find (\<lambda>f. fl_Name f = flavorName) flavors of
       None \<Rightarrow> io_err (Msg ''matching flavor not found: %!w(<nil>)'')
     | Some fl \<Rightarrow>
         io_bind (wrap_err ''failed to get volumes'' (ListVolumes (cv_conoha S))) (\<lambda>volumes.
         io_bind (wrap_err ''failed to get volume ID'' (io_lift (findVolume volumes (cfg_ConohaNameTag (cv_cfg S))))) (\<lambda>volumeID.
         io_bind (wrap_err ''failed to create server'' (CreateServer (cv_conoha S)
            \<lparr>cs_FlavorID = fl_ID fl, cs_RootVolumeID = volumeID, cs_NameTag = cfg_ConohaNameTag (cv_cfg S),
             cs_UserData = cv_script S gameConfig\<rparr>)) (\<lambda>serverID.
         io_bind (wrap_err ''timeout creating VM''
            (Retry (cv_rnd S) (cv_wait S) (created_check S serverID) (30 * minute))) (\<lambda>_.
         io_ret serverID))))))"

definition cv_Find :: "'w conoha_server \<Rightarrow> ('w conoha, string) io" where
  "cv_Find S =
     io_bind (ListServerDetails (cv_conoha S)) (\<lambda>servers.
     io_lift (findServer servers (cfg_ConohaNameTag (cv_cfg S))))"

definition cv_IsRunning :: "'w conoha_server \<Rightarrow> string \<Rightarrow> ('w conoha, bool) io" where
  "cv_IsRunning S cookie =
     io_bind (io_try (GetServerDetail (cv_conoha S) cookie)) (\<lambda>r.
     case r of Ok d \<Rightarrow> io_ret (sd_Status d = ''ACTIVE'') | _ \<Rightarrow> io_ret False)"

definition cv_Stop :: "'w conoha_server \<Rightarrow> string \<Rightarrow> ('w conoha, bool) io" where
  "cv_Stop S cookie =
     io_bind (io_try (StopServer (cv_conoha S) cookie)) (\<lambda>r.
     if \<not> is_ok r then io_ret False
     else io_bind (io_try (Retry (cv_rnd S) (cv_wait S) (stopped_check S cookie) (30 * minute))) (\<lambda>r.
       io_ret (is_ok r)))"

definition cv_Delete :: "'w conoha_server \<Rightarrow> string \<Rightarrow> ('w conoha, bool) io" where
  "cv_Delete S cookie =
     io_bind (io_try (DeleteServer (cv_conoha S) cookie)) (\<lambda>r. io_ret (is_ok r))"

definition ConohaServer :: "'w conoha_server \<Rightarrow> 'w conoha game_server" where
  "ConohaServer S =
     \<lparr>gs_IsAvailable = cv_IsAvailable S, gs_Start = cv_Start S, gs_Find = cv_Find S,
      gs_IsRunning = cv_IsRunning S, gs_Stop = cv_Stop S, gs_Delete = cv_Delete S\<rparr>"

section \<open>Machine types\<close>

text \<open>
  Every machine type that validation accepts has a flavor.  When the pending
  configuration validates, its machine type is one the cloud's server can start, and the
  flavor is one the client does not filter out as private.
\<close>

lemma valid_machine_has_flavor:
  assumes "validateAndNormalizeConfig c = (c', True)"
  shows "\<exists>mt flavor. pc_MachineType c' = Some mt \<and> getMemorySize mt = Ok flavor
    \<and> convertToAvailableFlavorList [zero_flavor\<lparr>fl_Name := flavor\<rparr>] = [zero_flavor\<lparr>fl_Name := flavor\<rparr>]"
proof -
  have all: "list_all (\<lambda>mt. case getMemorySize mt of Ok f \<Rightarrow> has_prefix ''g2l-t-'' f | _ \<Rightarrow> False) machine_types"
    by (simp add: machine_types_def getMemorySize_def replace_first_def go_atoi_def has_prefix_def Let_def
        is_digit_def digits_val_def digit_val_def availableFlavorsByMemory_def int64_min_def int64_max_def)
  obtain mt where mt: "pc_MachineType c' = Some mt" "mt \<in> set machine_types"
    using valid_config [OF assms] .
  with all obtain f where "getMemorySize mt = Ok f" "has_prefix ''g2l-t-'' f"
    by (cases "getMemorySize mt") (auto simp: list_all_iff split: res.splits)
  with mt show ?thesis by auto
qed

section \<open>Starting and stopping\<close>

lemma wrap_err_OkD: "wrap_err op m w = (Ok x, w') \<Longrightarrow> m w = (Ok x, w')"
  by (auto simp: wrap_err_def split: prod.splits res.splits)

lemma wrap_err_Ok: "m w = (Ok x, w') \<Longrightarrow> wrap_err op m w = (Ok x, w')"
  by (simp add: wrap_err_def)

lemma keeps_wrap_err [keeps_intros]: "keeps I m \<Longrightarrow> keeps I (wrap_err op m)"
  by (auto simp: keeps_def wrap_err_def split: prod.split res.split) (metis snd_conv)+

text \<open>
  Property C9: a stop is confirmed by the cloud.  \<open>Stop\<close> answers true only when the stop
  request was accepted and the last answer about the server, the one the retry loop ended
  with, gave the status \<open>SHUTOFF\<close>; so the server is not deleted while it still runs.
\<close>

theorem Stop_sees_shutoff:
  assumes "cv_Stop S cookie s = (Ok True, s')"
  shows "(\<exists>s1. StopServer (cv_conoha S) cookie s = (Ok (), s1))
    \<and> (\<exists>s2 d. GetServerDetail (cv_conoha S) cookie s2 = (Ok d, s') \<and> sd_Status d = ''SHUTOFF'')"
proof -
  obtain r s1 where r: "StopServer (cv_conoha S) cookie s = (r, s1)" by (cases "StopServer (cv_conoha S) cookie s")
  with assms have ok: "r = Ok ()" by (cases r) (auto simp: cv_Stop_def io_simps)
  obtain x s2 where x: "Retry (cv_rnd S) (cv_wait S) (stopped_check S cookie) (30 * minute) s1 = (x, s2)"
    by (cases "Retry (cv_rnd S) (cv_wait S) (stopped_check S cookie) (30 * minute) s1")
  with assms r ok have "x = Ok ()" "s2 = s'" by (cases x; simp add: cv_Stop_def io_simps)+
  with x have "Retry (cv_rnd S) (cv_wait S) (stopped_check S cookie) (30 * minute) s1 = (Ok (), s')" by simp
  from Retry_last [OF this] obtain s3 where "stopped_check S cookie s3 = (Ok (), s')" ..
  then obtain d where "GetServerDetail (cv_conoha S) cookie s3 = (Ok d, s')" "sd_Status d = ''SHUTOFF''"
    by (auto simp: stopped_check_def io_run elim!: io_bind_OkE split: if_splits)
  with r ok show ?thesis by blast
qed

text \<open>
  What \<open>Start\<close> creates.  A successful start used the flavor of the machine
  type among the flavors the cloud lists and the volume with the configured name, and gave
  the new server the startup script; it returns that server's id, after an answer about it
  whose status is no longer \<open>BUILD\<close>.
\<close>

lemma Start_creates:
  assumes "cv_Start S gc mt s = (Ok cookie, s')"
  shows "\<exists>flavor fls fl vols vid s1 s2 s3 s4 d.
    getMemorySize mt = Ok flavor \<and> ListFlavorDetails (cv_conoha S) s = (Ok fls, s1)
    \<and> fl \<in> set fls \<and> fl_Name fl = flavor
    \<and> ListVolumes (cv_conoha S) s1 = (Ok vols, s2) \<and> \<lparr>vo_ID = vid, vo_Name = cfg_ConohaNameTag (cv_cfg S)\<rparr> \<in> set vols
    \<and> CreateServer (cv_conoha S) \<lparr>cs_FlavorID = fl_ID fl, cs_RootVolumeID = vid,
         cs_NameTag = cfg_ConohaNameTag (cv_cfg S), cs_UserData = cv_script S gc\<rparr> s2 = (Ok cookie, s3)
    \<and> GetServerDetail (cv_conoha S) cookie s4 = (Ok d, s') \<and> sd_Status d \<noteq> ''BUILD''"
proof -
  have vol: "\<lparr>vo_ID = i, vo_Name = n\<rparr> \<in> set vs" if "findVolume vs n = Ok i" for vs n i
    using that by (induction vs n rule: findVolume.induct) (auto split: if_splits)
  have fl: "f \<in> set fs \<and> P f" if "find P fs = Some f" for P fs and f :: flavor
    using that by (induction fs) (auto split: if_splits)
  from assms obtain flavor s0 fls s1 where a: "getMemorySize mt = Ok flavor" "s0 = s"
    "ListFlavorDetails (cv_conoha S) s0 = (Ok fls, s1)"
    "(case find (\<lambda>f. fl_Name f = flavor) fls of None \<Rightarrow> io_err (Msg ''matching flavor not found: %!w(<nil>)'')
       | Some fl \<Rightarrow>
         io_bind (wrap_err ''failed to get volumes'' (ListVolumes (cv_conoha S))) (\<lambda>volumes.
         io_bind (wrap_err ''failed to get volume ID'' (io_lift (findVolume volumes (cfg_ConohaNameTag (cv_cfg S))))) (\<lambda>volumeID.
         io_bind (wrap_err ''failed to create server'' (CreateServer (cv_conoha S)
            \<lparr>cs_FlavorID = fl_ID fl, cs_RootVolumeID = volumeID, cs_NameTag = cfg_ConohaNameTag (cv_cfg S),
             cs_UserData = cv_script S gc\<rparr>)) (\<lambda>serverID.
         io_bind (wrap_err ''timeout creating VM''
            (Retry (cv_rnd S) (cv_wait S) (created_check S serverID) (30 * minute))) (\<lambda>_.
         io_ret serverID))))) s1 = (Ok cookie, s')"
    unfolding cv_Start_def by (elim io_bind_OkE) (auto dest!: wrap_err_OkD simp: io_run)
  then obtain f where f: "find (\<lambda>f. fl_Name f = flavor) fls = Some f" by (cases "find (\<lambda>f. fl_Name f = flavor) fls") (auto simp: io_run)
  with a(4) obtain vols s2 vid s3 s5 where b: "ListVolumes (cv_conoha S) s1 = (Ok vols, s2)"
    "findVolume vols (cfg_ConohaNameTag (cv_cfg S)) = Ok vid"
    "CreateServer (cv_conoha S) \<lparr>cs_FlavorID = fl_ID f, cs_RootVolumeID = vid,
         cs_NameTag = cfg_ConohaNameTag (cv_cfg S), cs_UserData = cv_script S gc\<rparr> s2 = (Ok cookie, s3)"
    "Retry (cv_rnd S) (cv_wait S) (created_check S cookie) (30 * minute) s3 = (Ok (), s')"
    by (auto elim!: io_bind_OkE dest!: wrap_err_OkD simp: io_run)
  from Retry_last [OF b(4)] obtain s4 where "created_check S cookie s4 = (Ok (), s')" ..
  then obtain d where "GetServerDetail (cv_conoha S) cookie s4 = (Ok d, s')" "sd_Status d \<noteq> ''BUILD''"
    by (auto simp: created_check_def io_run elim!: io_bind_OkE split: if_splits)
  with a b fl [OF f] vol [OF b(2)] show ?thesis by blast
qed

section \<open>A cloud with one machine\<close>

definition demo_vm :: "string \<Rightarrow> http_req \<Rightarrow> http_resp" where
  "demo_vm status req =
     (if rq_Method req = ''POST'' then
        \<lparr>rs_Status = 202, rs_Subject = [], rs_Body = JObj [(''server'', JObj [(''id'', JStr ''vm'')])]\<rparr>
      else if rq_Method req = ''DELETE'' then \<lparr>rs_Status = 204, rs_Subject = [], rs_Body = JObj []\<rparr>
      else \<lparr>rs_Status = 200, rs_Subject = [], rs_Body =
        (if rq_Path req = ''volumes'' then
           JObj [(''volumes'', JArr [JObj [(''id'', JStr ''vol''), (''name'', JStr ''mc'')]])]
         else if rq_Path req = ''flavors/detail'' then
           JObj [(''flavors'', JArr [JObj [(''id'', JStr ''f4''), (''name'', JStr ''g2l-t-c4m4'')]])]
         else JObj [(''server'', JObj [(''id'', JStr ''vm''), (''status'', JStr status)])])\<rparr>)"

definition demo_conoha :: "string \<Rightarrow> unit conoha_server" where
  "demo_conoha status = \<lparr>cv_cfg = \<lparr>cfg_ConohaUser = ''u'', cfg_ConohaPassword = ''p'', cfg_ConohaTenantID = ''t'',
      cfg_ConohaNameTag = ''mc'', cfg_S3Bucket = [], cfg_Operators = [], cfg_Whitelist = [], cfg_Origin = [],
      cfg_GameDomain = [], cfg_IconURL = []\<rparr>,
     cv_conoha = (demo_cloud demo_token)\<lparr>cc_Do := (\<lambda>req w. (Ok (demo_vm status req), w)), cc_Parse := (\<lambda>s. Ok (s, []))\<rparr>,
     cv_script = (\<lambda>rc. ''#!''), cv_rnd = (\<lambda>k. k), cv_sleep = (\<lambda>d w. w)\<rparr>"

definition demo_state :: "unit conoha" where
  "demo_state = (\<lparr>ct_token = ''secret'', ct_expiresAt = 1709262245 * 1000000000\<rparr>, ())"

lemma Retry_Ok: "fn w = (Ok x, w') \<Longrightarrow> Retry rnd sleep fn f w = (Ok x, w')"
  using Retry_loop_stop [of fn w "Ok x" w' "Retry_init f" rnd sleep 0] by (simp add: Retry_def)

lemma demo_paths:
  "path_Join [[], ''volumes''] = ''volumes''" "path_Join [[], ''flavors/detail''] = ''flavors/detail''"
  "path_Join [[], ''servers/'' @ ''vm''] = ''servers/vm''"
  by code_simp+

lemmas demo_defs = demo_conoha_def demo_cloud_def demo_state_def updateToken_def api_call_def api_result_def
  newRequest_def http_Do_def op_err_def io_bind_def io_lift_def io_ret_def

lemma demo_detail:
  "GetServerDetail (cv_conoha (demo_conoha st)) ''vm'' demo_state =
     (Ok (zero_server_detail\<lparr>sd_ID := ''vm'', sd_Status := st\<rparr>), demo_state)"
  using demo_paths(3)
  by (simp add: GetServerDetail_def demo_defs demo_vm_def dec_struct_def dec_server_detail_def
      find_field_def field_def dec_str_def)

lemma demo_list:
  "ListVolumes (cv_conoha (demo_conoha st)) demo_state = (Ok [\<lparr>vo_ID = ''vol'', vo_Name = ''mc''\<rparr>], demo_state)"
  "ListFlavorDetails (cv_conoha (demo_conoha st)) demo_state
     = (Ok [zero_flavor\<lparr>fl_ID := ''f4'', fl_Name := ''g2l-t-c4m4''\<rparr>], demo_state)"
  "CreateServer (cv_conoha (demo_conoha st)) i demo_state = (Ok ''vm'', demo_state)"
  "StopServer (cv_conoha (demo_conoha st)) ''vm'' demo_state = (Ok (), demo_state)"
  by (simp_all add: ListVolumes_def ListFlavorDetails_def CreateServer_def StopServer_def demo_defs demo_vm_def demo_paths
      dec_struct_def dec_list_def dec_volume_def dec_flavors_def dec_flavor_def dec_server_id_def zero_volume_def
      find_field_def field_def dec_str_def has_prefix_def)

lemma demo_stops: "cv_Stop (demo_conoha ''SHUTOFF'') ''vm'' demo_state = (Ok True, demo_state)"
proof -
  have "stopped_check (demo_conoha ''SHUTOFF'') ''vm'' demo_state = (Ok (), demo_state)"
    by (simp add: stopped_check_def io_simps demo_detail)
  from Retry_Ok [where fn = "stopped_check (demo_conoha ''SHUTOFF'') ''vm''", OF this] show ?thesis by (simp add: cv_Stop_def io_simps demo_list)
qed

lemma demo_starts: "cv_Start (demo_conoha ''ACTIVE'') gc ''4g'' demo_state = (Ok ''vm'', demo_state)"
proof -
  have "created_check (demo_conoha ''ACTIVE'') ''vm'' demo_state = (Ok (), demo_state)"
    by (simp add: created_check_def io_simps demo_detail)
  note R = Retry_Ok [where fn = "created_check (demo_conoha ''ACTIVE'') ''vm''", OF this]
  have m: "getMemorySize ''4g'' = Ok ''g2l-t-c4m4''"
    by (simp add: getMemorySize_def replace_first_def go_atoi_def has_prefix_def Let_def
        is_digit_def digits_val_def digit_val_def availableFlavorsByMemory_def int64_min_def int64_max_def)
  have tag: "cfg_ConohaNameTag (cv_cfg (demo_conoha st)) = ''mc''" for st by (simp add: demo_conoha_def)
  show ?thesis
    by (simp add: cv_Start_def wrap_err_def io_bind_def io_lift_def io_ret_def m demo_list tag R)
qed

lemma Stop_sees_shutoff_witness:
  "(\<exists>s1. StopServer (cv_conoha (demo_conoha ''SHUTOFF'')) ''vm'' demo_state = (Ok (), s1))
    \<and> (\<exists>s2 d. GetServerDetail (cv_conoha (demo_conoha ''SHUTOFF'')) ''vm'' s2 = (Ok d, demo_state) \<and> sd_Status d = ''SHUTOFF'')"
  by (rule Stop_sees_shutoff [OF demo_stops])

section \<open>The launcher on the cloud\<close>

text \<open>
  What the launcher relies on: the operations of a game server leave the store alone.  Its
  facts are proved once for such a server.
\<close>

locale server_beside_store =
  fixes srv :: "'w game_server" and view :: "'w \<Rightarrow> redis_view"
  assumes start_keeps: "keeps view (gs_Start srv rc mt)"
    and stop_keeps: "keeps view (gs_Stop srv c)"
    and delete_keeps: "keeps view (gs_Delete srv c)"
begin

lemma frame: "server_frame srv view"
  by (simp add: server_frame_def start_keeps stop_keeps delete_keeps)

lemma one_launch:
  assumes "redis_honest (la_redis s) view" "la_server s = srv"
    and "(launcher_step s)\<^sup>*\<^sup>* (w0, 0, []) (w, n, pend)"
  shows "n \<le> 1"
  using launch_count_steps [OF assms(1) _ assms(3)] frame assms(2) by simp

end

text \<open>
  The cloud and the Redis server are two services: a request to the cloud does not change
  the world the store lives in.
\<close>

definition beside_Do :: "'h conoha_client \<Rightarrow> http_req \<Rightarrow> ('h \<times> 'r, http_resp) io" where
  "beside_Do C req = (\<lambda>(h, r). case cc_Do C req h of (x, h') \<Rightarrow> (x, (h', r)))"

definition beside :: "'h conoha_server \<Rightarrow> ('h \<times> 'r) conoha_server" where
  "beside S =
     \<lparr>cv_cfg = cv_cfg S,
      cv_conoha = \<lparr>cc_identity = cc_identity (cv_conoha S), cc_endpoints = cc_endpoints (cv_conoha S),
        cc_Do = beside_Do (cv_conoha S), cc_Now = (\<lambda>w. cc_Now (cv_conoha S) (fst w)), cc_Parse = cc_Parse (cv_conoha S)\<rparr>,
      cv_script = cv_script S, cv_rnd = cv_rnd S, cv_sleep = (\<lambda>d (h, r). (cv_sleep S d h, r))\<rparr>"

lemma keeps_updateToken:
  fixes C :: "'w conoha_client"
  assumes "\<And>req. keeps I (cc_Do C req)"
  shows "keeps (\<lambda>(t, w). I w) (updateToken C)"
  unfolding keeps_def
proof
  fix s :: "'w conoha"
  have "keeps (\<lambda>(t, w). I w) (conoha_CreateToken C)"
    unfolding conoha_CreateToken_def
    by (intro keeps_intros) (auto simp: keeps_def http_Do_def split: prod.split dest: keepsD [OF assms])
  then have "keeps (\<lambda>(t, w). I w) (io_bind (conoha_CreateToken C) (\<lambda>tok (t, w). (Ok (), (tok, w))))"
    by (intro keeps_intros) (auto simp: keeps_def)
  then show "(case snd (updateToken C s) of (t, w) \<Rightarrow> I w) = (case s of (t, w) \<Rightarrow> I w)"
    unfolding updateToken_def keeps_def by (cases s) simp
qed

lemma keeps_http_Do:
  assumes "\<And>req. keeps I (cc_Do C req)"
  shows "keeps (\<lambda>(t, w). I w) (http_Do C req)"
  by (auto simp: keeps_def http_Do_def split: prod.split dest: keepsD [OF assms])

lemma keeps_api_call:
  assumes "\<And>req. keeps I (cc_Do C req)"
  shows "keeps (\<lambda>(t, w). I w) (api_call C op m b p d e)"
proof -
  have "keeps (\<lambda>(t, w). I w) (io_bind (op_err op (io_lift (newRequest C m b p tok d))) (\<lambda>req.
     io_bind (op_err op (http_Do C req)) (\<lambda>resp.
     if rs_Status resp \<noteq> e then io_err (ClientError op (ErrorFrom resp)) else io_ret resp)))" for tok
    by (intro keeps_intros keeps_http_Do assms)
  then show ?thesis by (simp add: keeps_def api_call_def)
qed

lemmas client_keeps = keeps_intros keeps_updateToken keeps_api_call

lemma keeps_operations:
  assumes "\<And>req. keeps I (cc_Do C req)"
  shows "keeps (\<lambda>(t, w). I w) (ListFlavorDetails C)" "keeps (\<lambda>(t, w). I w) (ListVolumes C)"
    "keeps (\<lambda>(t, w). I w) (CreateServer C i)" "keeps (\<lambda>(t, w). I w) (GetServerDetail C sid)"
    "keeps (\<lambda>(t, w). I w) (StopServer C sid)" "keeps (\<lambda>(t, w). I w) (DeleteServer C sid)"
    "keeps (\<lambda>(t, w). I w) (ListServerDetails C)" "keeps (\<lambda>(t, w). I w) (RenameVolume C v n)"
  unfolding ListFlavorDetails_def ListVolumes_def CreateServer_def GetServerDetail_def StopServer_def
    DeleteServer_def ListServerDetails_def RenameVolume_def api_result_def
  by (intro client_keeps assms)+

lemma keeps_server:
  assumes "\<And>req. keeps I (cc_Do (cv_conoha S) req)" "\<And>d w. I (cv_sleep S d w) = I w"
  shows "keeps (\<lambda>(t, w). I w) (cv_Start S gc mt)" "keeps (\<lambda>(t, w). I w) (cv_Stop S c)"
    "keeps (\<lambda>(t, w). I w) (cv_Delete S c)"
proof -
  have wait: "(case cv_wait S d s of (t, w) \<Rightarrow> I w) = (case s of (t, w) \<Rightarrow> I w)" for d s
    using assms(2) by (simp add: cv_wait_def split: prod.split)
  note ops = keeps_operations [where C = "cv_conoha S", OF assms(1)]
  have check: "keeps (\<lambda>(t, w). I w) (created_check S sid)" "keeps (\<lambda>(t, w). I w) (stopped_check S sid)" for sid
    unfolding created_check_def stopped_check_def by (intro keeps_intros ops)+
  show "keeps (\<lambda>(t, w). I w) (cv_Start S gc mt)"
    unfolding cv_Start_def
    by (intro keeps_intros ops check wait) (auto split: option.split intro!: keeps_intros ops check simp: cv_wait_def assms(2))
  show "keeps (\<lambda>(t, w). I w) (cv_Stop S c)"
    unfolding cv_Stop_def by (intro keeps_intros ops check wait)
  show "keeps (\<lambda>(t, w). I w) (cv_Delete S c)"
    unfolding cv_Delete_def by (intro keeps_intros ops check wait)
qed

interpretation on_cloud: server_beside_store "ConohaServer (beside S)" "\<lambda>(t, w). view (snd w)"
  for S :: "'h conoha_server" and view :: "'r \<Rightarrow> redis_view"
proof -
  have d: "keeps (\<lambda>w. view (snd w)) (cc_Do (cv_conoha (beside S)) req)" for req
    by (auto simp: beside_def beside_Do_def keeps_def split: prod.split)
  have w: "view (snd (cv_sleep (beside S) t w)) = view (snd w)" for t w
    by (simp add: beside_def split: prod.split)
  show "server_beside_store (ConohaServer (beside S)) (\<lambda>(t, w). view (snd w))"
    using keeps_server [where I = "\<lambda>w. view (snd w)", OF d w]
    by unfold_locales (simp_all add: ConohaServer_def)
qed

text \<open>
  One launch at a time on the cloud.  With the cloud's server as the launcher's
  game server, the laws of that interface hold: in every interleaving of launches, launch
  tasks and cleanups at most one launch has succeeded since the last cleanup.
\<close>

lemma one_launch_on_cloud:
  assumes "redis_honest (la_redis s) (\<lambda>(t, w). view (snd w))" and "la_server s = ConohaServer (beside S)"
    and "(launcher_step s)\<^sup>*\<^sup>* (w0, 0, []) (w, n, pend)"
  shows "n \<le> 1"
  by (rule on_cloud.one_launch [OF assms])

text \<open>A launcher on the cloud of one machine, with the store beside it.\<close>

definition beside_store :: "(redis_view, 'a) io \<Rightarrow> ((unit \<times> redis_view) conoha, 'a) io" where
  "beside_store m = (\<lambda>(t, (h, r)). case m r of (x, r') \<Rightarrow> (x, (t, (h, r'))))"

definition demo_store :: "(unit \<times> redis_view) conoha redis" where
  "demo_store = \<lparr>rds_Set = (\<lambda>k v ttl. beside_store (rds_Set mem_redis k v ttl)), rds_Get = (\<lambda>k. beside_store (rds_Get mem_redis k)),
     rds_SetGet = (\<lambda>k v ttl. beside_store (rds_SetGet mem_redis k v ttl)), rds_Del = (\<lambda>ks. beside_store (rds_Del mem_redis ks)),
     rds_RPush = (\<lambda>k v. beside_store (rds_RPush mem_redis k v)), rds_LPop = (\<lambda>k. beside_store (rds_LPop mem_redis k)),
     rds_Publish = (\<lambda>c v. beside_store (rds_Publish mem_redis c v))\<rparr>"

definition demo_cloud_launcher :: "(unit \<times> redis_view) conoha launcher" where
  "demo_cloud_launcher = \<lparr>la_config = cv_cfg (demo_conoha ''ACTIVE''), la_redis = demo_store,
     la_server = ConohaServer (beside (demo_conoha ''ACTIVE'')), la_script = (\<lambda>rc. [])\<rparr>"

lemma demo_store_honest: "redis_honest demo_store (\<lambda>(t, w). snd w)"
  by (auto simp: redis_honest_def demo_store_def beside_store_def mem_redis_def split: prod.split cong: if_cong)

end
