(* ===== verification/Monitor.thy ===== *)
theory Monitor
  imports ConohaServer
begin

text \<open>
  \<open>src/backend/ctrlplane/common/monitor/monitor.go\<close>: what the control plane does with an event
  of a runner, and what it shows of the runner and its world.
\<close>

section \<open>Attaching a runner\<close>

definition GetPageCodeByEventCode :: "int \<Rightarrow> page_code" where
  "GetPageCodeByEventCode event = (if event = event_num EventRunning then PageRunning else PageLoading)"

text \<open>A call beside a client's token, and a call with a client of its own.\<close>

definition beside_token :: "('w, 'a) io \<Rightarrow> ('w conoha, 'a) io" where
  "beside_token m = (\<lambda>(t, w). case m w of (r, w') \<Rightarrow> (r, (t, w')))"

definition with_client :: "('w conoha, 'a) io \<Rightarrow> ('w, 'a) io" where
  "with_client m w = (case m (NewClient, w) of (r, (t, w')) \<Rightarrow> (r, w'))"

text \<open>
  The server with the address: the order in which the addresses of one server are visited
  does not matter, as only the server is remembered.
\<close>

definition has_ipv4 :: "string \<Rightarrow> server_detail \<Rightarrow> bool" where
  "has_ipv4 ip d = list_ex (\<lambda>(_, addrs). list_ex (\<lambda>a. sa_Version a = 4 \<and> sa_Addr a = ip) addrs) (sd_Addresses d)"

definition attach_server :: "'w store \<Rightarrow> 'w conoha_client \<Rightarrow> string \<Rightarrow> ('w conoha, unit) io" where
  "attach_server kvs C ipv4Addr =
     io_bind (ListServerDetails C) (\<lambda>servers.
     case find (has_ipv4 ipv4Addr) servers of
       None \<Rightarrow> io_err (Msg ''no matching server'')
     | Some d \<Rightarrow>
         io_bind (beside_token (kvs_Set kvs ''runner-id:default'' (JStr (sd_ID d)) (-1))) (\<lambda>_.
         case sd_Volumes d of
           [] \<Rightarrow> io_err (Msg ''no volume attached to the VM'')
         | v # _ \<Rightarrow> RenameVolume C v []))"

definition AttachRunner :: "cp_config \<Rightarrow> 'w store \<Rightarrow> 'w conoha_client \<Rightarrow> string \<Rightarrow> ('w, unit) io" where
  "AttachRunner cfg kvs C ipv4Addr =
     (if cfg_ConohaUser cfg = [] \<or> cfg_ConohaPassword cfg = [] then io_ret ()
      else
        io_bind (io_try (kvs_Get kvs ''runner-id:default'' dec_str [])) (\<lambda>r.
        if is_ok r then io_ret () else with_client (attach_server kvs C ipv4Addr)))"

section \<open>Events\<close>

record 'w monitor =
  mo_redis :: "'w redis"
  mo_cfg :: cp_config
  mo_kvs :: "'w store"
  mo_client :: "'w conoha_client"

definition thirty_days :: int where "thirty_days = 30 * 24 * 60 * minute"

definition handle_hello :: "'w monitor \<Rightarrow> string \<Rightarrow> hello_extra \<Rightarrow> ('w, unit) io" where
  "handle_hello M runnerId h =
     io_bind (kvs_Set (mo_kvs M) (''runner-info:'' @ runnerId) (enc_hello_extra h) thirty_days) (\<lambda>_.
     case ad_IPv4 (he_Addr h) of
       [] \<Rightarrow> io_ret ()
     | ip # _ \<Rightarrow> io_bind (io_try (AttachRunner (mo_cfg M) (mo_kvs M) (mo_client M) ip)) (\<lambda>_. io_ret ()))"

definition HandleEvent :: "'w monitor \<Rightarrow> string \<Rightarrow> event \<Rightarrow> ('w, unit) io" where
  "HandleEvent M runnerId ev =
     (if ev_Type ev = event_type_name EventHello then
        (case ev_Hello ev of
           None \<Rightarrow> io_err (Msg ''invalid event message: has no Hello'')
         | Some h \<Rightarrow> handle_hello M runnerId h)
      else if ev_Type ev = event_type_name EventStatus then
        (case ev_Status ev of
           None \<Rightarrow> io_err (Msg ''invalid event message: has no Status'')
         | Some s \<Rightarrow> PublishEvent (mo_redis M) (NewStandardMessageWithProgress (se_EventCode s) (se_Progress s)
             (page_num (GetPageCodeByEventCode (se_EventCode s)))))
      else if ev_Type ev = event_type_name EventInfo then
        (case ev_Info ev of
           None \<Rightarrow> io_err (Msg ''invalid event message: has no Info'')
         | Some i \<Rightarrow> PublishEvent (mo_redis M) (NewInfoMessage (ie_InfoCode i) (ie_IsError i)))
      else if ev_Type ev = event_type_name EventStarted then
        (case ev_Started ev of
           None \<Rightarrow> io_err (Msg ''invalid event message: has no Started'')
         | Some st \<Rightarrow> kvs_Set (mo_kvs M) (''world-info:'' @ runnerId) (enc_started_extra st) thirty_days)
      else io_ret ())"

section \<open>What is shown\<close>

record system_info =
  si_PremisesVersion :: string
  si_HostOS :: string
  si_IPAddress :: "string option"

record world_info =
  wi_Version :: string
  wi_WorldName :: string
  wi_Seed :: string

definition enc_SystemInfo :: "system_info \<Rightarrow> json" where
  "enc_SystemInfo i = JObj [(''premisesVersion'', JStr (si_PremisesVersion i)), (''hostOs'', JStr (si_HostOS i)),
     (''ipAddr'', enc_ptr JStr (si_IPAddress i))]"

definition enc_WorldInfo :: "world_info \<Rightarrow> json" where
  "enc_WorldInfo i = JObj [(''version'', JStr (wi_Version i)), (''worldName'', JStr (wi_WorldName i)),
     (''seed'', JStr (wi_Seed i))]"

definition GetSystemInfo :: "'w store \<Rightarrow> ('w, system_info) io" where
  "GetSystemInfo kvs =
     io_bind (kvs_Get kvs ''runner-info:default'' dec_hello_extra zero_hello_extra) (\<lambda>h.
     io_ret \<lparr>si_PremisesVersion = he_Version h, si_HostOS = he_Host h,
       si_IPAddress = first_of (ad_IPv4 (he_Addr h))\<rparr>)"

definition GetWorldInfo :: "'w store \<Rightarrow> ('w, world_info) io" where
  "GetWorldInfo kvs =
     io_bind (kvs_Get kvs ''world-info:default'' dec_started_extra zero_started_extra) (\<lambda>s.
     io_ret \<lparr>wi_Version = sx_ServerVersion s, wi_WorldName = sw_Name (sx_World s), wi_Seed = sw_Seed (sx_World s)\<rparr>)"

section \<open>What is reported is shown\<close>

lemma keeps_beside_token: "keeps I m \<Longrightarrow> keeps (\<lambda>(t, w). I w) (beside_token m)"
  by (auto simp: keeps_def beside_token_def split: prod.split) (metis snd_conv)

lemma keeps_with_client: "keeps (\<lambda>(t, w). I w) m \<Longrightarrow> keeps I (with_client m)"
  by (auto simp: keeps_def with_client_def split: prod.split) (metis case_prod_conv snd_conv)

lemma keeps_AttachRunner:
  assumes "redis_honest R view" "k \<noteq> ''runner-id:default''" "\<And>req. keeps_key view k (cc_Do C req)"
  shows "keeps_key view k (AttachRunner cfg (NewRedis R) C ip)"
proof -
  note ops = keeps_operations(7,8) [where C = C and I = "\<lambda>w. rv_keys (view w) k", OF assms(3)]
  have set: "keeps (\<lambda>(t, w). rv_keys (view w) k) (beside_token (kvs_Set (NewRedis R) ''runner-id:default'' j ttl))" for j ttl
    using assms(2) by (intro keeps_beside_token keeps_key_Set [OF assms(1)]) simp
  have "keeps (\<lambda>(t, w). rv_keys (view w) k) (attach_server (NewRedis R) C ip)"
    unfolding attach_server_def
    by (intro keeps_intros ops) (auto intro!: keeps_intros set ops split: option.split list.split)
  then show ?thesis
    unfolding AttachRunner_def
    by (intro keeps_intros keeps_key_Get [OF assms(1)] keeps_with_client)
qed

text \<open>
  A runner's greeting is shown.  After the event with which a runner introduces
  itself, whatever becomes of looking for its server in the cloud, the system information
  has its version, its host and its first IPv4 address.
\<close>

lemma hello_is_shown:
  assumes "redis_honest (mo_redis M) view" and "mo_kvs M = NewRedis (mo_redis M)"
    and "\<And>req. keeps view (cc_Do (mo_client M) req)" and "ok_hello_extra h"
    and "HandleEvent M ''default'' (zero_event\<lparr>ev_Type := event_type_name EventHello, ev_Hello := Some h\<rparr>) w = (Ok (), w')"
  shows "\<exists>w''. GetSystemInfo (NewRedis (mo_redis M)) w' =
    (Ok \<lparr>si_PremisesVersion = he_Version h, si_HostOS = he_Host h, si_IPAddress = first_of (ad_IPv4 (he_Addr h))\<rparr>, w'')"
proof -
  let ?k = "''runner-info:default''"
  obtain w1 where 1: "kvs_Set (mo_kvs M) ?k (enc_hello_extra h) thirty_days w = (Ok (), w1)"
    "view w1 = (view w)\<lparr>rv_keys := (rv_keys (view w))(?k \<mapsto> enc_hello_extra h)\<rparr>"
    using kvs_Set_honest [OF assms(1)] unfolding assms(2) .
  have do: "keeps_key view ?k (cc_Do (mo_client M) req)" for req using assms(3) by (rule keeps_view_key)
  have "keeps_key view ?k (io_bind (io_try (AttachRunner (mo_cfg M) (mo_kvs M) (mo_client M) ip)) (\<lambda>_. io_ret ()))" for ip
    unfolding assms(2) by (intro keeps_intros keeps_AttachRunner [OF assms(1) _ do]) simp
  then have "rv_keys (view w2) ?k = rv_keys (view w1) ?k"
    if "io_bind (io_try (AttachRunner (mo_cfg M) (mo_kvs M) (mo_client M) ip)) (\<lambda>_. io_ret ()) w1 = (Ok (), w2)" for ip w2
    using that by (rule keepsD)
  with assms(5) 1 have "rv_keys (view w') ?k = Some (enc_hello_extra h)"
    by (cases "ad_IPv4 (he_Addr h)") (simp_all add: HandleEvent_def handle_hello_def io_simps)
  moreover obtain w'' where "kvs_Get (NewRedis (mo_redis M)) ?k dec_hello_extra zero_hello_extra w' =
      (res_bind (found (rv_keys (view w') ?k)) (dec_hello_extra zero_hello_extra), w'')"
    using kvs_Get_honest [OF assms(1)] .
  ultimately show ?thesis
    using rt_hello_extra [OF assms(4)] by (simp add: GetSystemInfo_def io_simps found_def)
qed

definition demo_monitor :: "redis_view monitor" where
  "demo_monitor = \<lparr>mo_redis = mem_redis, mo_cfg = cv_cfg (demo_conoha ''ACTIVE''), mo_kvs = NewRedis mem_redis,
     mo_client = \<lparr>cc_identity = cc_identity (demo_cloud demo_token), cc_endpoints = cc_endpoints (demo_cloud demo_token),
       cc_Do = (\<lambda>req w. (Ok (demo_vm ''ACTIVE'' req), w)), cc_Now = (\<lambda>w. 0), cc_Parse = (\<lambda>s. Ok (s, []))\<rparr>\<rparr>"

definition demo_hello :: hello_extra where
  "demo_hello = \<lparr>he_Version = ''1.2.3'', he_Host = ''debian'', he_Addr = \<lparr>ad_IPv4 = [], ad_IPv6 = [''::1'']\<rparr>\<rparr>"

end
