(* ===== verification/WebBase.thy ===== *)
theory WebBase
  imports Monitor World
begin

text \<open>
  What the HTTP handlers of \<open>src/backend/ctrlplane/common/handler\<close> share: responses, the
  services of the handler, the table of users with the queries the handlers make, and the
  password rule.  The web framework is not under \<open>src/\<close>: a handler is a function of the
  values it reads from the request.
\<close>

section \<open>Responses\<close>

datatype resp_body = RJson json | RText string | RNone

record response =
  rp_Status :: int
  rp_Body :: resp_body

text \<open>A handler may start work in the background: a launch, or a cleanup with a runner's key.\<close>

datatype job = JobLaunch launch_config | JobClean string

type_synonym ('w, 'x) handling = "('w, response \<times> 'x) io"
type_synonym 'w api_handling = "('w, response \<times> job list) io"

definition error_response :: "error_code \<Rightarrow> json" where
  "error_response code = JObj [(''success'', JBool False), (''errorCode'', JInt (error_num code))]"

definition success_response :: "json \<Rightarrow> json" where
  "success_response d = JObj [(''success'', JBool True), (''data'', d)]"

definition reply :: "int \<Rightarrow> resp_body \<Rightarrow> 'w api_handling" where
  "reply status body = io_ret (\<lparr>rp_Status = status, rp_Body = body\<rparr>, [])"

abbreviation reply_error :: "int \<Rightarrow> error_code \<Rightarrow> 'w api_handling" where
  "reply_error status code \<equiv> reply status (RJson (error_response code))"

abbreviation reply_ok :: "int \<Rightarrow> json \<Rightarrow> 'w api_handling" where
  "reply_ok status d \<equiv> reply status (RJson (success_response d))"

text \<open>\<open>on_ok m f g\<close>: the handler goes on with the value, or answers the error with \<open>g\<close>; a panic ends it.\<close>

definition on_ok :: "('w, 'a) io \<Rightarrow> ('a \<Rightarrow> ('w, 'b) io) \<Rightarrow> (go_error \<Rightarrow> ('w, 'b) io) \<Rightarrow> ('w, 'b) io" where
  "on_ok m f g w =
     (case m w of (Ok x, w') \<Rightarrow> f x w' | (Err e, w') \<Rightarrow> g e w' | (Panic p, w') \<Rightarrow> (Panic p, w'))"

lemma on_ok_simps [io_simps]:
  "m w = (Ok x, w') \<Longrightarrow> on_ok m f g w = f x w'"
  "m w = (Err e, w') \<Longrightarrow> on_ok m f g w = g e w'"
  "m w = (Panic p, w') \<Longrightarrow> on_ok m f g w = (Panic p, w')"
  by (simp_all add: on_ok_def)

lemma keeps_on_ok [keeps_intros]:
  assumes "keeps I m" "\<And>x. keeps I (f x)" "\<And>e. keeps I (g e)"
  shows "keeps I (on_ok m f g)"
  using assms by (auto simp: keeps_def on_ok_def split: prod.split res.split) (metis snd_conv)+

lemma keeps_reply [keeps_intros]: "keeps I (reply s b)"
  by (simp add: reply_def keeps_def io_run)

section \<open>Users\<close>

record user =
  us_ID :: int
  us_Name :: string
  us_Password :: string
  us_AddedByUserID :: "int option"
  us_Initialized :: bool
  us_Deleted :: bool

text \<open>
  The queries: a condition on the name or the id, always with \<open>deleted_at IS NULL\<close>.  The
  database runs them (a field of \<open>user_db\<close> per statement); \<open>db_honest\<close> states what they do to
  the rows of a database that answers, the name being unique among all rows.
\<close>

definition active_user :: "(user \<Rightarrow> bool) \<Rightarrow> user list \<Rightarrow> user option" where
  "active_user P us = find (\<lambda>u. P u \<and> \<not> us_Deleted u) us"

record 'w user_db =
  ud_SelectByName :: "string \<Rightarrow> ('w, int \<times> string \<times> bool) io"
  ud_SelectPassword :: "int \<Rightarrow> ('w, string) io"
  ud_UpdatePassword :: "int \<Rightarrow> string \<Rightarrow> ('w, unit) io"
  ud_Insert :: "user \<Rightarrow> ('w, unit) io"

definition set_password :: "int \<Rightarrow> string \<Rightarrow> user list \<Rightarrow> user list" where
  "set_password i h us =
     map (\<lambda>u. if us_ID u = i \<and> \<not> us_Deleted u then u\<lparr>us_Password := h, us_Initialized := True\<rparr> else u) us"

definition no_rows :: "'a res" where "no_rows = Err (Ext ''sql: no rows in result set'')"

definition db_honest :: "'w user_db \<Rightarrow> ('w \<Rightarrow> user list) \<Rightarrow> bool" where
  "db_honest db rows =
     ((\<forall>w n. \<exists>w'. ud_SelectByName db n w =
          ((case active_user (\<lambda>u. us_Name u = n) (rows w) of
              None \<Rightarrow> no_rows | Some u \<Rightarrow> Ok (us_ID u, us_Password u, us_Initialized u)), w') \<and> rows w' = rows w)
    \<and> (\<forall>w i. \<exists>w'. ud_SelectPassword db i w =
          ((case active_user (\<lambda>u. us_ID u = i) (rows w) of
              None \<Rightarrow> no_rows | Some u \<Rightarrow> Ok (us_Password u)), w') \<and> rows w' = rows w)
    \<and> (\<forall>w i h. \<exists>w'. ud_UpdatePassword db i h w = (Ok (), w') \<and> rows w' = set_password i h (rows w))
    \<and> (\<forall>w u. \<exists>r w'. ud_Insert db u w = (r, w') \<and>
          (if us_Name u \<in> us_Name ` set (rows w) then (\<exists>e. r = Err e) \<and> rows w' = rows w
           else r = Ok () \<and> (\<exists>i. i \<notin> us_ID ` set (rows w) \<and> rows w' = rows w @ [u\<lparr>us_ID := i\<rparr>]))))"

text \<open>bcrypt: a hash it generates is accepted for its password.\<close>

record 'w bcrypt =
  bc_Generate :: "string \<Rightarrow> ('w, string) io"
  bc_Compare :: "string \<Rightarrow> string \<Rightarrow> bool"

definition bcrypt_honest :: "'w bcrypt \<Rightarrow> bool" where
  "bcrypt_honest b = (\<forall>p w h w'. bc_Generate b p w = (Ok h, w') \<longrightarrow> bc_Compare b h p)"

definition isAllowedPassword :: "string \<Rightarrow> bool" where
  "isAllowedPassword password =
     (if length password < 8 then False
      else if \<not> contains_any password ''ABCDEFGHIJKLMNOPQRSTUVWXYZabcdefghijklmnopqrstuvwxyz'' then False
      else if \<not> contains_any password ''0123456789'' then False
      else True)"

section \<open>The handler\<close>

text \<open>
  The services; \<open>hd_client\<close> is the cloud client that attaching a runner builds, and the two
  sorting functions are those of \<open>sort.Slice\<close> in the world service.
\<close>

record 'w handler =
  hd_cfg :: cp_config
  hd_redis :: "'w redis"
  hd_KVS :: "'w store"
  hd_MCVersions :: "'w mcversions"
  hd_world :: "'w world_service"
  hd_launcher :: "'w launcher"
  hd_client :: "'w conoha_client"
  hd_db :: "'w user_db"
  hd_bcrypt :: "'w bcrypt"
  hd_sortGens :: "world_gen list \<Rightarrow> world_gen list"
  hd_sortObjs :: "s3obj list \<Rightarrow> s3obj list"

definition action_key :: string where "action_key = ''runner-action''"

definition push_action :: "'w handler \<Rightarrow> action \<Rightarrow> ('w, unit) io" where
  "push_action H a = lp_Push (hd_redis H) action_key ''default'' (enc_action a)"

definition hd_monitor :: "'w handler \<Rightarrow> 'w monitor" where
  "hd_monitor H = \<lparr>mo_redis = hd_redis H, mo_cfg = hd_cfg H, mo_kvs = hd_KVS H, mo_client = hd_client H\<rparr>"

end
