(* ===== verification/ApiHandlers.thy ===== *)
theory ApiHandlers
  imports WebBase
begin

text \<open>
  \<open>src/backend/ctrlplane/common/handler/api.go\<close>: the API behind access tokens.  A handler is a
  function of the token, of what the framework bound from the request (an error when it
  could not), and of the state; its result is a response and the work it started.
\<close>

section \<open>Event streaming\<close>

text \<open>The user who triggered a message: the member \<open>actor\<close>, 0 when there is none.\<close>

definition actor_of :: "json \<Rightarrow> int" where
  "actor_of j =
     (case dec_struct [field ''actor'' dec_int (\<lambda>n. n) (\<lambda>v n. v)] 0 j of Ok n \<Rightarrow> n | _ \<Rightarrow> 0)"

definition writeEvent :: "int \<Rightarrow> string \<times> json \<Rightarrow> string" where
  "writeEvent userID = (\<lambda>(eventName, message).
     if actor_of message \<noteq> 0 \<and> actor_of message \<noteq> userID then []
     else ''event: '' @ eventName @ [CHR 0x0A] @ ''data: '' @ json_text message @ [CHR 0x0A, CHR 0x0A])"

text \<open>The stream until the client leaves, for the messages \<open>events\<close> that arrived.\<close>

definition handleStream :: "'w handler \<Rightarrow> token \<Rightarrow> bool \<Rightarrow> message list \<Rightarrow> 'w api_handling" where
  "handleStream H token jsonMode events =
     on_ok (SubscribeEvent (hd_redis H))
       (\<lambda>current.
          if jsonMode then reply 200 (RJson current)
          else reply 200 (RText (concat (map (writeEvent (tk_UserID token))
            ((message_type_string EventMessage, current)
             # map (\<lambda>m. (message_type_string (msg_Type m), msg_Body m)) events)))))
       (\<lambda>e. reply 500 (RText []))"

section \<open>Launching and stopping\<close>

definition pending_key :: string where "pending_key = ''pending-config''"

definition handleApiLaunch :: "'w handler \<Rightarrow> 'w api_handling" where
  "handleApiLaunch H =
     on_ok (kvs_Get (hd_KVS H) pending_key dec_pending_config zero_pending_config)
       (\<lambda>config.
          on_ok (convertToLaunchConfig (hd_MCVersions H) (hd_cfg H) config)
            (\<lambda>lc.
               on_ok (Launch (hd_launcher H) lc)
                 (\<lambda>_. io_ret (\<lparr>rp_Status = 202, rp_Body = RJson (success_response JNull)\<rparr>, [JobLaunch lc]))
                 (\<lambda>e. reply_error 500 ErrInternal))
            (\<lambda>e. reply_error 400 ErrBadRequest))
       (\<lambda>e. reply_error 400 ErrBadRequest)"

definition handleApiStop :: "'w handler \<Rightarrow> string \<Rightarrow> 'w api_handling" where
  "handleApiStop H traceparent =
     on_ok (push_action H (zero_action\<lparr>ac_Type := action_type_name ActionStop,
          ac_Metadata := \<lparr>rm_Traceparent = traceparent\<rparr>\<rparr>))
       (\<lambda>_. reply_ok 202 JNull) (\<lambda>e. reply_error 500 ErrRemote)"

section \<open>Worlds\<close>

definition enc_World :: "world \<Rightarrow> json" where
  "enc_World x = JObj [(''worldName'', JStr (wd_WorldName x)),
     (''generations'', JArr (map (\<lambda>g. JObj [(''gen'', JStr (wg_Gen g)), (''id'', JStr (wg_ID g)),
        (''timestamp'', JInt (wg_Timestamp g))]) (wd_Generations x)))]"

text \<open>
  The list of worlds is kept for five seconds under \<open>worlds\<close>; listing may not return, like
  the listing of the object store.
\<close>

definition list_worlds :: "'w handler \<Rightarrow> world list res \<Rightarrow> 'w api_handling" where
  "list_worlds H r =
     (case r of
        Err e \<Rightarrow> reply_error 500 ErrBackup
      | Panic p \<Rightarrow> io_panic p
      | Ok worlds \<Rightarrow>
          io_bind (io_try (rds_Set (hd_redis H) ''worlds'' (success_response (JArr (map enc_World worlds))) (5 * second))) (\<lambda>_.
          reply_ok 200 (JArr (map enc_World worlds))))"

definition handleApiListWorlds :: "'w handler \<Rightarrow> 'w \<Rightarrow> ((response \<times> job list) res \<times> 'w) option" where
  "handleApiListWorlds H w =
     (case rds_Get (hd_redis H) ''worlds'' w of
        (Ok val, w1) \<Rightarrow> Some (reply 200 (RJson val) w1)
      | (Panic p, w1) \<Rightarrow> Some (Panic p, w1)
      | (Err e, w1) \<Rightarrow>
          map_option (\<lambda>(r, w2). list_worlds H r w2) (GetWorlds (hd_sortGens H) (hd_world H) w1))"

definition handleApiDeleteWorld :: "'w handler \<Rightarrow> string res \<Rightarrow> 'w api_handling" where
  "handleApiDeleteWorld H req =
     on_ok (io_lift req)
       (\<lambda>i. on_ok (DeleteWorld (hd_world H) i) (\<lambda>_. reply_ok 204 JNull) (\<lambda>e. reply_error 500 ErrInternal))
       (\<lambda>e. reply_error 400 ErrBadRequest)"

definition handleApiCreateWorldDownloadLink :: "'w handler \<Rightarrow> string res \<Rightarrow> 'w api_handling" where
  "handleApiCreateWorldDownloadLink H req =
     on_ok (io_lift req)
       (\<lambda>i. on_ok (GetPresignedGetURLWithLifetime (hd_world H) i minute)
              (\<lambda>url. reply_ok 201 (JObj [(''url'', JStr url)])) (\<lambda>e. reply_error 500 ErrInternal))
       (\<lambda>e. reply_error 400 ErrBadRequest)"

definition upload_ext :: "string \<Rightarrow> string option" where
  "upload_ext mimeType =
     (if mimeType = ''application/zip'' then Some ''.zip''
      else if mimeType = ''application/x-gzip'' \<or> mimeType = ''application/gzip'' then Some ''.tar.gz''
      else if mimeType = ''application/zstd'' then Some ''.tar.zst''
      else None)"

definition handleApiCreateWorldUploadLink :: "'w handler \<Rightarrow> (string \<times> string) res \<Rightarrow> 'w api_handling" where
  "handleApiCreateWorldUploadLink H req =
     on_ok (io_lift req)
       (\<lambda>(worldName, mimeType).
          if contains_any worldName [CHR ''@'', CHR ''/'', CHR 0x5C] then reply_error 400 ErrBadRequest
          else (case upload_ext mimeType of
              None \<Rightarrow> reply_error 400 ErrBadRequest
            | Some ext \<Rightarrow>
                on_ok (GetPresignedPutURLWithLifetime (hd_world H) (worldName @ ''/user_uploaded_world'' @ ext) minute)
                  (\<lambda>url. reply_ok 200 (JObj [(''url'', JStr url)])) (\<lambda>e. reply_error 500 ErrInternal)))
       (\<lambda>e. reply_error 400 ErrBadRequest)"

section \<open>Versions and information\<close>

definition version_channel :: "string \<Rightarrow> string" where
  "version_channel t =
     (if t = ''release'' then ''stable'' else if t = ''snapshot'' then ''snapshot''
      else if t = ''old_beta'' then ''beta'' else if t = ''old_alpha'' then ''alpha'' else ''unknown'')"

definition enc_MCVersion :: "version_info \<Rightarrow> json" where
  "enc_MCVersion v = JObj [(''name'', JStr (vi_ID v)), (''isStable'', JBool (vi_Type v = ''release'')),
     (''channel'', JStr (version_channel (vi_Type v))), (''releaseDate'', JStr (vi_ReleaseTime v))]"

definition handleApiMcversions :: "'w handler \<Rightarrow> 'w api_handling" where
  "handleApiMcversions H =
     on_ok (GetVersions (hd_MCVersions H))
       (\<lambda>versions. reply_ok 200 (JArr (map enc_MCVersion versions))) (\<lambda>e. reply_error 200 ErrInternal)"

definition handleApiSystemInfo :: "'w handler \<Rightarrow> 'w api_handling" where
  "handleApiSystemInfo H =
     on_ok (GetSystemInfo (hd_KVS H)) (\<lambda>d. reply_ok 200 (enc_SystemInfo d)) (\<lambda>e. reply_error 500 ErrInternal)"

definition handleApiWorldInfo :: "'w handler \<Rightarrow> 'w api_handling" where
  "handleApiWorldInfo H =
     on_ok (GetWorldInfo (hd_KVS H)) (\<lambda>d. reply_ok 200 (enc_WorldInfo d)) (\<lambda>e. reply_error 500 ErrInternal)"

section \<open>The pending configuration\<close>

definition default_pending_config :: pending_config where
  "default_pending_config = zero_pending_config
     \<lparr>pc_MachineType := Some ''4g'', pc_GuessVersion := Some True, pc_InactiveTimeout := Some 30\<rparr>"

definition enc_ConfigAndValidity :: "pending_config \<times> bool \<Rightarrow> json" where
  "enc_ConfigAndValidity = (\<lambda>(config, isValid). JObj [(''isValid'', JBool isValid), (''config'', enc_pending_config config)])"

text \<open>Both handlers end by validating, storing and returning the configuration.\<close>

definition store_config :: "'w handler \<Rightarrow> pending_config \<Rightarrow> 'w api_handling" where
  "store_config H config =
     (let v = validateAndNormalizeConfig config in
      on_ok (kvs_Set (hd_KVS H) pending_key (enc_pending_config (fst v)) thirty_days)
        (\<lambda>_. reply_ok 200 (enc_ConfigAndValidity v)) (\<lambda>e. reply_error 500 ErrInternal))"

definition handleApiGetConfig :: "'w handler \<Rightarrow> 'w api_handling" where
  "handleApiGetConfig H =
     on_ok (kvs_Get (hd_KVS H) pending_key dec_pending_config zero_pending_config)
       (store_config H) (\<lambda>e. store_config H default_pending_config)"

text \<open>\<open>mergo.Merge\<close> with override is the parameter \<open>merge\<close>.\<close>

definition handleApiUpdateConfig ::
  "'w handler \<Rightarrow> (pending_config \<Rightarrow> pending_config \<Rightarrow> pending_config res) \<Rightarrow> pending_config res \<Rightarrow> 'w api_handling" where
  "handleApiUpdateConfig H merge req =
     on_ok (io_lift req)
       (\<lambda>newConfig.
          on_ok (kvs_Get (hd_KVS H) pending_key dec_pending_config zero_pending_config)
            (\<lambda>config. on_ok (io_lift (merge config newConfig)) (store_config H) (\<lambda>e. reply_error 500 ErrInternal))
            (\<lambda>e. reply_error 400 ErrBadRequest))
       (\<lambda>e. reply_error 400 ErrBadRequest)"

section \<open>Quick undo\<close>

definition quick_undo :: "action_type \<Rightarrow> 'w handler \<Rightarrow> token \<Rightarrow> string \<Rightarrow> int res \<Rightarrow> 'w api_handling" where
  "quick_undo ty H token traceparent req =
     on_ok (io_lift req)
       (\<lambda>slot.
          if slot < 0 \<or> 10 \<le> slot then reply_error 400 ErrBadRequest
          else on_ok (push_action H (zero_action\<lparr>ac_Type := action_type_name ty,
                 ac_Metadata := \<lparr>rm_Traceparent = traceparent\<rparr>, ac_Actor := tk_UserID token,
                 ac_Snapshot := Some \<lparr>sn_Slot = slot\<rparr>\<rparr>))
              (\<lambda>_. reply_ok 202 JNull) (\<lambda>e. reply_error 500 ErrRemote))
       (\<lambda>e. reply_error 400 ErrBadRequest)"

definition handleApiQuickUndoSnapshot :: "'w handler \<Rightarrow> token \<Rightarrow> string \<Rightarrow> int res \<Rightarrow> 'w api_handling" where
  "handleApiQuickUndoSnapshot = quick_undo ActionSnapshot"

definition handleApiQuickUndoUndo :: "'w handler \<Rightarrow> token \<Rightarrow> string \<Rightarrow> int res \<Rightarrow> 'w api_handling" where
  "handleApiQuickUndoUndo = quick_undo ActionUndo"

section \<open>Users\<close>

definition handleApiUsersChangePassword :: "'w handler \<Rightarrow> token \<Rightarrow> (string \<times> string) res \<Rightarrow> 'w api_handling" where
  "handleApiUsersChangePassword H token req =
     on_ok (io_lift req)
       (\<lambda>(password, newPassword).
          if \<not> isAllowedPassword newPassword then reply_error 400 ErrPasswordRule
          else
            on_ok (ud_SelectPassword (hd_db H) (tk_UserID token))
              (\<lambda>hash.
                 if \<not> bc_Compare (hd_bcrypt H) hash password then reply_error 401 ErrCredential
                 else
                   on_ok (bc_Generate (hd_bcrypt H) newPassword)
                     (\<lambda>newHash. on_ok (ud_UpdatePassword (hd_db H) (tk_UserID token) newHash)
                        (\<lambda>_. reply_ok 200 JNull) (\<lambda>e. reply_error 500 ErrInternal))
                     (\<lambda>e. reply_error 500 ErrInternal))
              (\<lambda>e. reply_error 500 ErrInternal))
       (\<lambda>e. reply_error 400 ErrBadRequest)"

definition handleApiUsersAdd :: "'w handler \<Rightarrow> token \<Rightarrow> (string \<times> string) res \<Rightarrow> 'w api_handling" where
  "handleApiUsersAdd H token req =
     on_ok (io_lift req)
       (\<lambda>(userName, password).
          if length userName = 0 \<or> 32 < length userName then reply_error 400 ErrBadRequest
          else if \<not> isAllowedPassword password then reply_error 400 ErrPasswordRule
          else
            on_ok (bc_Generate (hd_bcrypt H) password)
              (\<lambda>hash. on_ok (ud_Insert (hd_db H) \<lparr>us_ID = 0, us_Name = userName, us_Password = hash,
                    us_AddedByUserID = Some (tk_UserID token), us_Initialized = False, us_Deleted = False\<rparr>)
                 (\<lambda>_. reply_ok 201 JNull) (\<lambda>e. reply_error 400 ErrDupUserName))
              (\<lambda>e. reply_error 500 ErrInternal))
       (\<lambda>e. reply_error 400 ErrBadRequest)"

section \<open>Routes and middleware\<close>

text \<open>The requests, each with what the framework binds; the trace context comes with each.\<close>

datatype api_request =
    ReqStreaming bool "message list"
  | ReqLaunch
  | ReqStop
  | ReqListWorlds
  | ReqDeleteWorld "string res"
  | ReqMcversions
  | ReqSystemInfo
  | ReqWorldInfo
  | ReqGetConfig
  | ReqUpdateConfig "pending_config res"
  | ReqDownloadLink "string res"
  | ReqUploadLink "(string \<times> string) res"
  | ReqSnapshot "int res"
  | ReqUndo "int res"
  | ReqChangePassword "(string \<times> string) res"
  | ReqAddUser "(string \<times> string) res"

type_synonym 'w api_run = "'w \<Rightarrow> ((response \<times> job list) res \<times> 'w) option"

definition api_route ::
  "'w handler \<Rightarrow> (pending_config \<Rightarrow> pending_config \<Rightarrow> pending_config res) \<Rightarrow> string \<Rightarrow> api_request \<Rightarrow> token \<Rightarrow> 'w api_run" where
  "api_route H merge tp req token w =
     (case req of
        ReqStreaming j evs \<Rightarrow> Some (handleStream H token j evs w)
      | ReqLaunch \<Rightarrow> Some (handleApiLaunch H w)
      | ReqStop \<Rightarrow> Some (handleApiStop H tp w)
      | ReqListWorlds \<Rightarrow> handleApiListWorlds H w
      | ReqDeleteWorld r \<Rightarrow> Some (handleApiDeleteWorld H r w)
      | ReqMcversions \<Rightarrow> Some (handleApiMcversions H w)
      | ReqSystemInfo \<Rightarrow> Some (handleApiSystemInfo H w)
      | ReqWorldInfo \<Rightarrow> Some (handleApiWorldInfo H w)
      | ReqGetConfig \<Rightarrow> Some (handleApiGetConfig H w)
      | ReqUpdateConfig r \<Rightarrow> Some (handleApiUpdateConfig H merge r w)
      | ReqDownloadLink r \<Rightarrow> Some (handleApiCreateWorldDownloadLink H r w)
      | ReqUploadLink r \<Rightarrow> Some (handleApiCreateWorldUploadLink H r w)
      | ReqSnapshot r \<Rightarrow> Some (handleApiQuickUndoSnapshot H token tp r w)
      | ReqUndo r \<Rightarrow> Some (handleApiQuickUndoUndo H token tp r w)
      | ReqChangePassword r \<Rightarrow> Some (handleApiUsersChangePassword H token r w)
      | ReqAddUser r \<Rightarrow> Some (handleApiUsersAdd H token r w))"

definition scope :: "string list \<Rightarrow> (token \<Rightarrow> 'w api_run) \<Rightarrow> token \<Rightarrow> 'w api_run" where
  "scope scopes next token w =
     (if list_all (HasScope token) scopes then next token w
      else Some (reply_error 403 ErrCredential w))"

text \<open>The middleware takes the header, or the query parameter \<open>x-auth\<close> when there is none.\<close>

definition accessTokenMiddleware :: "'w handler \<Rightarrow> string \<Rightarrow> string \<Rightarrow> (token \<Rightarrow> 'w api_run) \<Rightarrow> 'w api_run" where
  "accessTokenMiddleware H authorization xauth next w =
     (case GetFromRequest (hd_KVS H) (if authorization = [] then xauth else authorization) w of
        (Ok token, w1) \<Rightarrow> next token w1
      | (Err e, w1) \<Rightarrow> Some (reply_error 401 ErrRequiresAuth w1)
      | (Panic p, w1) \<Rightarrow> Some (Panic p, w1))"

text \<open>Every route of the API is behind the middleware and needs the admin scope.\<close>

definition api_serve ::
  "'w handler \<Rightarrow> (pending_config \<Rightarrow> pending_config \<Rightarrow> pending_config res) \<Rightarrow> string \<Rightarrow> string \<Rightarrow> string
    \<Rightarrow> api_request \<Rightarrow> 'w api_run" where
  "api_serve H merge tp authorization xauth req =
     accessTokenMiddleware H authorization xauth (scope [ScopeAdmin] (api_route H merge tp req))"

end
