(* ===== verification/ApiProps.thy ===== *)
theory ApiProps
  imports ApiHandlers
begin

text \<open>What the API guarantees: who may call it, that a configuration it calls valid can be launched, and who is told of what.\<close>

section \<open>Access\<close>

lemma total_dec_Token: "total_dec dec_Token"
  unfolding dec_Token_def Token_fields_def
  by (intro total_intros) (auto intro: total_intros)

text \<open>
  Property C5: nothing happens without an admin token.  When the request's header (or query
  parameter) is no bearer of a stored token with the admin scope, every request to the API
  is answered with 401 or 403; no background work is started and the store is untouched.
\<close>

theorem api_requires_admin:
  assumes "redis_honest (hd_redis H) view" and "hd_KVS H = NewRedis (hd_redis H)"
    and "\<And>tok t. (if authorization = [] then xauth else authorization) = ''Bearer '' @ tok
      \<Longrightarrow> res_bind (found (rv_keys (view w) (token_key tok))) (dec_Token zero_token) = Ok t
      \<Longrightarrow> ScopeAdmin \<notin> set (tk_Scopes t)"
  shows "\<exists>status code w'. api_serve H merge tp authorization xauth req w =
      Some (Ok (\<lparr>rp_Status = status, rp_Body = RJson (error_response code)\<rparr>, []), w')
    \<and> (status = 401 \<and> code = ErrRequiresAuth \<or> status = 403 \<and> code = ErrCredential) \<and> view w' = view w"
proof -
  let ?h = "if authorization = [] then xauth else authorization"
  show ?thesis
  proof (cases "has_prefix ''Bearer '' ?h")
    case False
    then have "GetFromRequest (hd_KVS H) ?h w = (Err ErrNoAuthorization, w)"
      by (simp add: GetFromRequest_def io_run)
    then show ?thesis by (simp add: api_serve_def accessTokenMiddleware_def reply_def io_run)
  next
    case True
    then obtain tok where tok: "?h = ''Bearer '' @ tok" by (rule has_prefixE)
    obtain w1 where g: "auth_Get (hd_KVS H) tok w =
      (map_res (\<lambda>t. t\<lparr>tk_scopeMap := set (filter (\<lambda>s. s \<noteq> NoScope) (tk_Scopes t))\<rparr>)
        (res_bind (found (rv_keys (view w) (token_key tok))) (dec_Token zero_token)), w1)" "view w1 = view w"
      using auth_Get_honest [OF assms(1)] unfolding assms(2) .
    have r: "GetFromRequest (hd_KVS H) ?h w = auth_Get (hd_KVS H) tok w"
      unfolding tok by (rule fun_cong [OF GetFromRequest_bearer])
    show ?thesis
    proof (cases "res_bind (found (rv_keys (view w) (token_key tok))) (dec_Token zero_token)")
      case (Ok t)
      with assms(3) tok have "ScopeAdmin \<notin> set (tk_Scopes t)" by blast
      with Ok g r show ?thesis
        by (simp add: api_serve_def accessTokenMiddleware_def scope_def HasScope_def ScopeAdmin_def NoScope_def
            reply_def io_run)
    next
      case (Err e)
      with g r show ?thesis by (simp add: api_serve_def accessTokenMiddleware_def reply_def io_run)
    next
      case (Panic p)
      with total_dec_Token have False
        by (cases "rv_keys (view w) (token_key tok)") (auto simp: found_def total_dec_def)
      then show ?thesis ..
    qed
  qed
qed

definition demo_handler :: "redis_view handler" where
  "demo_handler = \<lparr>hd_cfg = la_config demo_launcher, hd_redis = mem_redis, hd_KVS = NewRedis mem_redis,
     hd_MCVersions = \<lparr>mv_http = (\<lambda>url w. (Ok (200, enc_Manifest demo_manifest), w)), mv_url = [],
       mv_kvs = NewRedis mem_redis, mv_overridenURL = []\<rparr>,
     hd_world = \<lparr>ws_s3 = \<lparr>s3_List = (\<lambda>b p t w. (Ok ([], None), w)), s3_DeleteMany = (\<lambda>b ks w. (Ok [], w)),
         s3_DeleteOne = (\<lambda>b k w. (Ok (), w)), s3_Get = (\<lambda>b k w. (Err NotExist, w)), s3_Put = (\<lambda>b k v w. (Ok (), w)),
         s3_PresignGet = (\<lambda>b k d w. (Ok (''https://s3/'' @ k), w)), s3_PresignPut = (\<lambda>b k d w. (Ok (''https://s3/'' @ k), w))\<rparr>,
       ws_bucket = ''b''\<rparr>,
     hd_launcher = demo_launcher, hd_client = mo_client demo_monitor,
     hd_db = \<lparr>ud_SelectByName = (\<lambda>n w. (no_rows, w)), ud_SelectPassword = (\<lambda>i w. (no_rows, w)),
       ud_UpdatePassword = (\<lambda>i h w. (Ok (), w)), ud_Insert = (\<lambda>u w. (Ok (), w))\<rparr>,
     hd_bcrypt = \<lparr>bc_Generate = (\<lambda>p w. (Ok p, w)), bc_Compare = (\<lambda>h p. h = p)\<rparr>,
     hd_sortGens = (\<lambda>xs. xs), hd_sortObjs = (\<lambda>xs. xs)\<rparr>"

lemma demo_handler_simps:
  "hd_redis demo_handler = mem_redis" "hd_KVS demo_handler = NewRedis mem_redis" "hd_launcher demo_handler = demo_launcher"
  by (simp_all add: demo_handler_def)

lemma api_requires_admin_witness:
  "\<exists>status code w'. api_serve demo_handler (\<lambda>a b. Ok b) [] ''Bearer guess'' [] ReqLaunch empty_view =
      Some (Ok (\<lparr>rp_Status = status, rp_Body = RJson (error_response code)\<rparr>, []), w')
    \<and> (status = 401 \<and> code = ErrRequiresAuth \<or> status = 403 \<and> code = ErrCredential) \<and> w' = empty_view"
  by (rule api_requires_admin [where view = "\<lambda>w. w"])
    (simp_all add: demo_handler_simps mem_redis_honest empty_view_def found_def)

section \<open>Configuration and launch\<close>

lemma ok_validate: "ok_pending_config c \<Longrightarrow> ok_pending_config (fst (validateAndNormalizeConfig c))"
  by (cases "pc_MachineType c"; cases "pc_GuessVersion c"; cases "pc_WorldSource c"; cases "pc_WorldName c")
    (simp_all add: validateAndNormalizeConfig_def Let_def validate_world_def ok_pending_config_def)

lemma store_config_honest:
  assumes "redis_honest (hd_redis H) view" and "hd_KVS H = NewRedis (hd_redis H)"
  obtains w' where "store_config H c w =
      (Ok (\<lparr>rp_Status = 200, rp_Body = RJson (success_response (enc_ConfigAndValidity (validateAndNormalizeConfig c)))\<rparr>, []), w')"
    "view w' = (view w)\<lparr>rv_keys := (rv_keys (view w))(pending_key \<mapsto> enc_pending_config (fst (validateAndNormalizeConfig c)))\<rparr>"
proof -
  obtain w' where "kvs_Set (hd_KVS H) pending_key (enc_pending_config (fst (validateAndNormalizeConfig c))) thirty_days w = (Ok (), w')"
    "view w' = (view w)\<lparr>rv_keys := (rv_keys (view w))(pending_key \<mapsto> enc_pending_config (fst (validateAndNormalizeConfig c)))\<rparr>"
    using kvs_Set_honest [OF assms(1)] unfolding assms(2) .
  then show thesis by (intro that [of w']) (simp_all add: store_config_def Let_def io_simps reply_def)
qed

lemma get_pending_honest:
  assumes "redis_honest (hd_redis H) view" and "hd_KVS H = NewRedis (hd_redis H)"
    and "rv_keys (view w) pending_key = Some (enc_pending_config c)" and "ok_pending_config c"
  obtains w' where "kvs_Get (hd_KVS H) pending_key dec_pending_config zero_pending_config w = (Ok c, w')" "view w' = view w"
proof -
  obtain w' where "kvs_Get (hd_KVS H) pending_key dec_pending_config zero_pending_config w =
      (res_bind (found (rv_keys (view w) pending_key)) (dec_pending_config zero_pending_config), w')" "view w' = view w"
    using kvs_Get_honest [OF assms(1)] unfolding assms(2) .
  with assms(3,4) show thesis by (intro that [of w']) (simp_all add: found_def rt_pending_config)
qed

text \<open>
  Property C7: the verdict of the configuration API is kept by the launch API.  For a stored
  configuration that validates, \<open>GET /config\<close> answers that it is valid, and \<open>POST /launch\<close>
  after it is accepted: the launch that is started has the configuration's machine type,
  version and world, provided that no server runs and the version's server is found.
\<close>

theorem config_verdict_launches:
  assumes "redis_honest (hd_redis H) view" and "hd_KVS H = NewRedis (hd_redis H)"
    and "la_redis (hd_launcher H) = hd_redis H"
    and "rv_keys (view w) pending_key = Some (enc_pending_config c)" and "ok_pending_config c"
    and "validateAndNormalizeConfig c = (c', True)" and "rv_keys (view w) ''running'' = None"
    and "\<And>w1. rv_keys (view w1) versions_key = rv_keys (view w) versions_key
      \<Longrightarrow> \<exists>info w'. GetServerInfo (hd_MCVersions H) (the (pc_ServerVersion c')) w1 = (Ok info, w')
        \<and> rv_keys (view w') ''running'' = rv_keys (view w1) ''running''"
  shows "\<exists>w1 lc w2.
    handleApiGetConfig H w = (Ok (\<lparr>rp_Status = 200, rp_Body = RJson (success_response (enc_ConfigAndValidity (c', True)))\<rparr>, []), w1)
    \<and> handleApiLaunch H w1 = (Ok (\<lparr>rp_Status = 202, rp_Body = RJson (success_response JNull)\<rparr>, [JobLaunch lc]), w2)
    \<and> Some (lc_MachineType lc) = pc_MachineType c' \<and> Some (ls_Version (lc_Server lc)) = pc_ServerVersion c'
    \<and> Some (lw_Name (lc_World lc)) = pc_WorldName c' \<and> rv_keys (view w2) ''running'' = Some (JBool True)"
proof -
  obtain w0 where w0: "kvs_Get (hd_KVS H) pending_key dec_pending_config zero_pending_config w = (Ok c, w0)" "view w0 = view w"
    using get_pending_honest [OF assms(1,2,4,5)] .
  obtain w1 where w1: "store_config H c w0 = (Ok (\<lparr>rp_Status = 200,
      rp_Body = RJson (success_response (enc_ConfigAndValidity (c', True)))\<rparr>, []), w1)"
    "view w1 = (view w0)\<lparr>rv_keys := (rv_keys (view w0))(pending_key \<mapsto> enc_pending_config c')\<rparr>"
    by (rule store_config_honest [OF assms(1,2), of c w0]) (simp add: assms(6))
  have get: "handleApiGetConfig H w = (Ok (\<lparr>rp_Status = 200,
      rp_Body = RJson (success_response (enc_ConfigAndValidity (c', True)))\<rparr>, []), w1)"
    using w0 w1 by (simp add: handleApiGetConfig_def io_simps)
  have ok': "ok_pending_config c'" using ok_validate [OF assms(5)] assms(6) by simp
  have free: "rv_keys (view w1) ''running'' = None" using w1(2) w0(2) assms(7) by (simp add: pending_key_def)
  obtain w2 where w2: "kvs_Get (hd_KVS H) pending_key dec_pending_config zero_pending_config w1 = (Ok c', w2)" "view w2 = view w1"
    by (rule get_pending_honest [OF assms(1,2) _ ok', of w1]) (simp_all add: w1(2))
  have "rv_keys (view w2) versions_key = rv_keys (view w) versions_key"
    using w0(2) w1(2) w2(2) by (simp add: pending_key_def versions_key_def)
  then obtain info w3 where w3: "GetServerInfo (hd_MCVersions H) (the (pc_ServerVersion c')) w2 = (Ok info, w3)"
    "rv_keys (view w3) ''running'' = rv_keys (view w2) ''running''" using assms(8) by blast
  obtain lc where lc: "convertToLaunchConfig (hd_MCVersions H) (hd_cfg H) c' w2 = (Ok lc, w3)"
    and mt: "Some (lc_MachineType lc) = pc_MachineType c'"
    and rest: "Some (ls_Version (lc_Server lc)) = pc_ServerVersion c'" "Some (lw_Name (lc_World lc)) = pc_WorldName c'"
    using valid_config_converts_all [OF assms(6) w3(1), of "hd_cfg H"] by blast
  obtain w4 where w4: "Launch (hd_launcher H) lc w3 = (Ok (), w4)" "rv_keys (view w4) ''running'' = Some (JBool True)"
    using Launch_honest [of "hd_launcher H" view lc w3] assms(1,3) w3(2) w2(2) free by auto
  have "handleApiLaunch H w1 = (Ok (\<lparr>rp_Status = 202, rp_Body = RJson (success_response JNull)\<rparr>, [JobLaunch lc]), w4)"
    using w2(1) lc w4(1) by (simp add: handleApiLaunch_def io_simps)
  with get mt rest w4(2) show ?thesis by blast
qed

definition demo_view :: redis_view where
  "demo_view = empty_view\<lparr>rv_keys := [pending_key \<mapsto> enc_pending_config demo_config, versions_key \<mapsto> enc_Manifest demo_manifest]\<rparr>"

lemma demo_handler_info:
  assumes "rv_keys w versions_key = Some (enc_Manifest demo_manifest)"
  shows "GetServerInfo (hd_MCVersions demo_handler) ''1.21'' w =
    (Ok \<lparr>si_DownloadURL = [], si_LaunchCommand = [], si_JavaVersion = 0\<rparr>, w)"
proof -
  obtain w' where "kvs_Get (NewRedis mem_redis) versions_key dec_Manifest zero_manifest w = (Ok demo_manifest, w')" "w' = w"
    by (rule kvs_Get_honest [OF mem_redis_honest, of versions_key dec_Manifest zero_manifest w])
      (simp add: assms found_def dec_enc_Manifest)
  then have "GetVersions (hd_MCVersions demo_handler) w = (Ok (vm_Versions demo_manifest), w)"
    by (simp add: GetVersions_def cached_manifest_def io_bind_def io_try_def io_ret_def demo_handler_def)
  then show ?thesis
    by (simp add: GetServerInfo_def io_bind_def io_ret_def io_lift_def demo_manifest_def GetVersionMetaData_def
        dec_VersionMeta_def dec_struct_def zero_version_meta_def enc_Manifest_def demo_handler_def find_field_def
        equal_fold_def lower_char_def)
qed

lemma config_verdict_launches_witness:
  "\<exists>w1 lc w2 resp. handleApiGetConfig demo_handler demo_view = (Ok (resp, []), w1)
    \<and> handleApiLaunch demo_handler w1 = (Ok (\<lparr>rp_Status = 202, rp_Body = RJson (success_response JNull)\<rparr>, [JobLaunch lc]), w2)
    \<and> rv_keys w2 ''running'' = Some (JBool True)"
proof -
  have v: "validateAndNormalizeConfig demo_config = (demo_config\<lparr>pc_GuessVersion := Some False\<rparr>, True)"
    by (simp add: validateAndNormalizeConfig_def validate_world_def demo_config_def zero_pending_config_def machine_types_def
        slices_contains_def empty_opt_def)
  have pre: "rv_keys demo_view pending_key = Some (enc_pending_config demo_config)" "ok_pending_config demo_config"
    "rv_keys demo_view ''running'' = None" "rv_keys demo_view versions_key = Some (enc_Manifest demo_manifest)"
    "the (pc_ServerVersion (demo_config\<lparr>pc_GuessVersion := Some False\<rparr>)) = ''1.21''"
    by (simp_all add: demo_view_def pending_key_def versions_key_def empty_view_def ok_pending_config_def demo_config_def
        zero_pending_config_def)
  have la: "la_redis (hd_launcher demo_handler) = hd_redis demo_handler" by (simp add: demo_handler_simps demo_launcher_def)
  have h: "redis_honest (hd_redis demo_handler) (\<lambda>w. w)" "hd_KVS demo_handler = NewRedis (hd_redis demo_handler)"
    by (simp_all add: demo_handler_simps mem_redis_honest)
  show ?thesis
    using config_verdict_launches [OF h la pre(1,2) v pre(3)] demo_handler_info pre(4,5) by fastforce
qed

section \<open>Who is told\<close>

text \<open>
  A notification goes to every user.  The stream skips messages of another actor,
  but the message published for an information event of a runner has no actor, whatever
  actor the event names: each subscriber, whoever they are, is sent it.
\<close>

lemma info_events_not_filtered:
  "HandleEvent M rid (zero_event\<lparr>ev_Type := event_type_name EventInfo, ev_Info := Some i\<rparr>)
      = PublishEvent (mo_redis M) (NewInfoMessage (ie_InfoCode i) (ie_IsError i))
    \<and> writeEvent userID (message_type_string NotifyMessage, msg_Body (NewInfoMessage (ie_InfoCode i) (ie_IsError i))) \<noteq> []"
proof
  show "HandleEvent M rid (zero_event\<lparr>ev_Type := event_type_name EventInfo, ev_Info := Some i\<rparr>)
      = PublishEvent (mo_redis M) (NewInfoMessage (ie_InfoCode i) (ie_IsError i))"
    by (simp add: HandleEvent_def)
  have "actor_of (msg_Body (NewInfoMessage c e)) = 0" for c e
    by (simp add: actor_of_def NewInfoMessage_def enc_InfoMessage_def dec_struct_def find_field_def field_def
        equal_fold_def lower_char_def)
  then show "writeEvent userID (message_type_string NotifyMessage, msg_Body (NewInfoMessage (ie_InfoCode i) (ie_IsError i))) \<noteq> []"
    by (simp add: writeEvent_def)
qed

end
