(* ===== verification/RunnerHandlers.thy ===== *)
theory RunnerHandlers
  imports ApiProps
begin

text \<open>
  \<open>src/backend/ctrlplane/common/handler/runner.go\<close>: what runners ask of the control plane, behind
  the key each runner was given.  The text of a posted event is parsed by \<open>encoding/json\<close>,
  the parameter \<open>parse\<close>; the text of the install script is left out.
\<close>

section \<open>Actions and events\<close>

text \<open>
  An empty action is not valid JSON: encoding the response fails and the framework gets the
  error.
\<close>

definition handleRunnerPoll :: "'w handler \<Rightarrow> string \<Rightarrow> ('w \<Rightarrow> wake \<times> 'w) \<Rightarrow> 'w api_handling" where
  "handleRunnerPoll H runnerId block =
     (if runnerId = [] then reply_error 200 ErrInternal
      else
        on_ok (lp_Wait (hd_redis H) action_key runnerId block)
          (\<lambda>action. case action of
             None \<Rightarrow> io_err (Ext ''json: error calling MarshalJSON for type json.RawMessage: unexpected end of JSON input'')
           | Some a \<Rightarrow> reply_ok 200 a)
          (\<lambda>e. if e = ErrCancelled then reply_error 204 ErrAgain else reply_error 200 ErrInternal))"

text \<open>
  The events of one request.  An event of type \<open>status\<close> is looked into before
  \<open>HandleEvent\<close>, without a check that it has a status.
\<close>

fun post_events :: "'w handler \<Rightarrow> string \<Rightarrow> string \<Rightarrow> json list \<Rightarrow> 'w api_handling" where
  "post_events H runnerId authorization [] = reply_ok 200 JNull"
| "post_events H runnerId authorization (j # js) =
     (case dec_event zero_event j of
        Err e \<Rightarrow> reply_ok 200 JNull
      | Panic p \<Rightarrow> io_panic p
      | Ok ev \<Rightarrow>
          if ev_Type ev = event_type_name EventStatus \<and> ev_Status ev = None then io_panic nil_panic
          else if ev_Type ev = event_type_name EventStatus
            \<and> map_option se_EventCode (ev_Status ev) = Some (event_num EventShutdown) then
            io_ret (\<lparr>rp_Status = 200, rp_Body = RJson (success_response JNull)\<rparr>, [JobClean authorization])
          else
            on_ok (HandleEvent (hd_monitor H) runnerId ev)
              (\<lambda>_. post_events H runnerId authorization js) (\<lambda>e. reply_error 200 ErrInternal))"

definition handlePostStatus ::
  "'w handler \<Rightarrow> (string \<Rightarrow> json) \<Rightarrow> string \<Rightarrow> string \<Rightarrow> string res \<Rightarrow> 'w api_handling" where
  "handlePostStatus H parse runnerId authorization body =
     (if runnerId = [] then reply_error 200 ErrInternal
      else
        on_ok (io_lift body)
          (\<lambda>b. post_events H runnerId authorization
             (map parse (filter (\<lambda>e. e \<noteq> []) (str_split [CHR 0x00] b))))
          (\<lambda>e. reply_error 200 ErrInternal))"

section \<open>Setup\<close>

definition handleGetStartupScript :: "'w handler \<Rightarrow> string \<Rightarrow> 'w api_handling" where
  "handleGetStartupScript H authorization =
     (if \<not> has_prefix ''Setup-Code '' authorization then reply 400 RNone
      else
        on_ok (kvs_Get (hd_KVS H) (''startup:'' @ trim_prefix ''Setup-Code '' authorization) dec_str [])
          (\<lambda>script. reply 200 (RText script)) (\<lambda>e. reply 400 RNone))"

section \<open>Worlds\<close>

definition handleGetLatestWorldID :: "'w handler \<Rightarrow> string \<Rightarrow> 'w api_run" where
  "handleGetLatestWorldID H worldName w =
     (if worldName = [] then Some (reply_error 200 ErrBadRequest w)
      else map_option (\<lambda>(r, w1). case r of
             Ok key \<Rightarrow> reply_ok 200 (JObj [(''worldId'', JStr key)]) w1
           | Err e \<Rightarrow> reply_error 200 ErrInternal w1
           | Panic p \<Rightarrow> (Panic p, w1))
         (GetLatestWorldKey (hd_sortObjs H) (hd_world H) worldName w))"

definition handleCreateWorldDownloadURL :: "'w handler \<Rightarrow> string res \<Rightarrow> 'w api_handling" where
  "handleCreateWorldDownloadURL H req =
     on_ok (io_lift req)
       (\<lambda>i. on_ok (GetPresignedGetURL (hd_world H) i)
          (\<lambda>url. reply_ok 200 (JObj [(''url'', JStr url)])) (\<lambda>e. reply_error 200 ErrInternal))
       (\<lambda>e. reply_error 200 ErrBadRequest)"

text \<open>\<open>now\<close> is the current date and time as \<open>time.DateTime\<close> writes it.\<close>

definition upload_key :: "string \<Rightarrow> string \<Rightarrow> string" where
  "upload_key worldName now = worldName @ ''/'' @ now @ ''.tar.zst''"

definition handleCreateWorldUploadURL :: "'w handler \<Rightarrow> string \<Rightarrow> string res \<Rightarrow> 'w api_handling" where
  "handleCreateWorldUploadURL H now req =
     on_ok (io_lift req)
       (\<lambda>worldName.
          if contains_any worldName ''/'' then reply_error 200 ErrBadRequest
          else
            on_ok (GetPresignedPutURL (hd_world H) (upload_key worldName now))
              (\<lambda>url. reply_ok 200 (JObj [(''url'', JStr url), (''worldId'', JStr (upload_key worldName now))]))
              (\<lambda>e. reply_error 200 ErrInternal))
       (\<lambda>e. reply_error 200 ErrBadRequest)"

section \<open>Routes and middleware\<close>

datatype 'w runner_request =
    RunPoll "'w \<Rightarrow> wake \<times> 'w"
  | RunStatus "string res"
  | RunLatestID string
  | RunDownloadURL "string res"
  | RunUploadURL string "string res"

definition runner_route ::
  "'w handler \<Rightarrow> (string \<Rightarrow> json) \<Rightarrow> string \<Rightarrow> 'w runner_request \<Rightarrow> string \<Rightarrow> 'w api_run" where
  "runner_route H parse authorization req runnerId w =
     (case req of
        RunPoll block \<Rightarrow> Some (handleRunnerPoll H runnerId block w)
      | RunStatus body \<Rightarrow> Some (handlePostStatus H parse runnerId authorization body w)
      | RunLatestID name \<Rightarrow> handleGetLatestWorldID H name w
      | RunDownloadURL r \<Rightarrow> Some (handleCreateWorldDownloadURL H r w)
      | RunUploadURL now r \<Rightarrow> Some (handleCreateWorldUploadURL H now r w))"

definition authKeyMiddleware :: "'w handler \<Rightarrow> string \<Rightarrow> (string \<Rightarrow> 'w api_run) \<Rightarrow> 'w api_run" where
  "authKeyMiddleware H authorization next w =
     (case kvs_Get (hd_KVS H) (''runner:'' @ authorization) dec_str [] w of
        (Ok runnerId, w1) \<Rightarrow> next runnerId w1
      | (Err e, w1) \<Rightarrow> Some (reply_error 200 ErrBadRequest w1)
      | (Panic p, w1) \<Rightarrow> Some (Panic p, w1))"

definition runner_serve :: "'w handler \<Rightarrow> (string \<Rightarrow> json) \<Rightarrow> string \<Rightarrow> 'w runner_request \<Rightarrow> 'w api_run" where
  "runner_serve H parse authorization req =
     authKeyMiddleware H authorization (runner_route H parse authorization req)"

section \<open>Properties\<close>

text \<open>
  An upload is listed.  When a runner is given a URL to upload a world, the key it
  is told is read back by the listing as that world with the time as the generation's name;
  a name with a slash, which would end up under another world, is refused.
\<close>

lemma upload_key_listed:
  assumes "handleCreateWorldUploadURL H now (Ok worldName) w = (Ok (\<lparr>rp_Status = 200,
      rp_Body = RJson (success_response (JObj [(''url'', JStr url), (''worldId'', JStr key)]))\<rparr>, jobs), w')"
  shows "extractWorldInfoFromKey key = Ok (worldName, now)"
proof -
  have ns: "CHR ''/'' \<notin> set worldName"
  proof
    assume "CHR ''/'' \<in> set worldName"
    then have "contains_any worldName ''/''" by (simp add: contains_any_def list_ex_iff)
    with assms show False
      by (simp add: handleCreateWorldUploadURL_def on_ok_def io_lift_def reply_def io_ret_def error_response_def
          success_response_def)
  qed
  then have "\<not> contains_any worldName ''/''" by (auto simp: contains_any_def list_ex_iff)
  with assms have "key = upload_key worldName now"
    by (auto simp: handleCreateWorldUploadURL_def on_ok_def io_lift_def reply_def io_ret_def error_response_def
        success_response_def split: prod.splits res.splits)
  with str_index_char [OF ns] show ?thesis
    by (simp add: upload_key_def extractWorldInfoFromKey_def trim_backup_ext_def)
qed

text \<open>
  A status event without a status crashes the request.  Although \<open>HandleEvent\<close>
  refuses such an event with an error, the handler dereferences the missing status first:
  the request ends in a panic, and the events after it are not handled.
\<close>

lemma status_without_status_panics:
  assumes "dec_event zero_event j = Ok ev" and "ev_Type ev = event_type_name EventStatus" and "ev_Status ev = None"
  shows "post_events H rid authorization (j # js) w = (Panic nil_panic, w)
    \<and> HandleEvent (hd_monitor H) rid ev w = (Err (Msg ''invalid event message: has no Status''), w)"
  using assms by (simp add: HandleEvent_def io_run)

text \<open>
  The setup code gives the script.  In a manual setup the user is shown a code;
  whoever asks for the startup script with that code gets the script of the launched
  configuration.
\<close>

lemma setup_code_gives_script:
  assumes "redis_honest (hd_redis H) view" and "hd_KVS H = NewRedis (hd_redis H)" and "la_redis s = hd_redis H"
  shows "\<exists>w1 w2 w3. manual_setup s rnd rc w = (Ok (), w1)
    \<and> handleGetStartupScript H (''Setup-Code '' @ base32 rnd) w1
        = (Ok (\<lparr>rp_Status = 200, rp_Body = RText (la_script s rc)\<rparr>, []), w2)
    \<and> SubscribeEvent (hd_redis H) w1 = (Ok (enc_StandardMessage \<lparr>sm_EventCode = event_num EventManualSetup,
         sm_PageCode = page_num PageManualSetup, sm_Progress = 0, sm_TextData = base32 rnd\<rparr>), w3)"
proof -
  let ?m = "NewStandardMessageWithTextData (event_num EventManualSetup) (base32 rnd) (page_num PageManualSetup)"
  let ?k = "''startup:'' @ base32 rnd"
  obtain w0 where w0: "publishEvent (hd_redis H) ?m w = (Ok (), w0)"
    "view w0 = (view w)\<lparr>rv_keys := (rv_keys (view w))(''current-state'' \<mapsto> msg_Body ?m)\<rparr>"
    by (rule publishEvent_honest [OF assms(1), of ?m w]) (simp add: NewStandardMessageWithTextData_def)
  obtain w1 where w1: "kvs_Set (hd_KVS H) ?k (JStr (la_script s rc)) (3600 * 1000000000) w0 = (Ok (), w1)"
    "view w1 = (view w0)\<lparr>rv_keys := (rv_keys (view w0))(?k \<mapsto> JStr (la_script s rc))\<rparr>"
    using kvs_Set_honest [OF assms(1)] unfolding assms(2) .
  have m: "manual_setup s rnd rc w = (Ok (), w1)"
    using w0(1) w1(1) assms(2,3)
    by (simp add: manual_setup_def la_publish_def la_kvs_def PublishEvent_def io_simps Let_def)
  obtain w2 where w2: "kvs_Get (hd_KVS H) ?k dec_str [] w1 =
      (res_bind (found (rv_keys (view w1) ?k)) (dec_str []), w2)"
    using kvs_Get_honest [OF assms(1)] unfolding assms(2) .
  have "handleGetStartupScript H (''Setup-Code '' @ base32 rnd) w1
      = (Ok (\<lparr>rp_Status = 200, rp_Body = RText (la_script s rc)\<rparr>, []), w2)"
    using w2 has_prefix_append [of "''Setup-Code ''" "base32 rnd"] trim_prefix_append [of "''Setup-Code ''" "base32 rnd"]
    by (simp add: handleGetStartupScript_def w1(2) found_def dec_str_def on_ok_def reply_def io_ret_def)
  moreover have "rv_keys (view w1) ''current-state'' = Some (msg_Body ?m)" using w0(2) w1(2) by simp
  then have "\<exists>w3. SubscribeEvent (hd_redis H) w1 = (Ok (msg_Body ?m), w3)"
    using SubscribeEvent_honest [OF assms(1), of w1] by simp
  ultimately show ?thesis using m by (auto simp: NewStandardMessageWithTextData_def)
qed

end
