(* ===== verification/RunnerApi.thy ===== *)
theory RunnerApi
  imports RunnerHandlers JsonText
begin

text \<open>
  \<open>src/backend/runner/api\<close>: the runner's client of the control plane.  An HTTP exchange is a
  parameter (\<open>ap_Do\<close>), as is joining an endpoint with a path (\<open>net/url\<close>); the last section
  instantiates both with the control plane's own handlers, so that what one side sends is
  what the other side gets.
\<close>

section \<open>Transport\<close>

record api_http =
  hr_Method :: string
  hr_URL :: string
  hr_Authorization :: string
  hr_ContentType :: string
  hr_Body :: string

record 'w api_client =
  ap_endpoint :: string
  ap_authKey :: string
  ap_Do :: "api_http \<Rightarrow> ('w, int \<times> string) run"
  ap_buildURL :: "string \<Rightarrow> string \<Rightarrow> string res"

datatype api_body = NilBody | ByteBody string | JsonBody json

record generic_response =
  gr_Success :: bool
  gr_ErrorCode :: int
  gr_Data :: json

definition zero_generic_response :: generic_response where
  "zero_generic_response = \<lparr>gr_Success = False, gr_ErrorCode = 0, gr_Data = JBad\<rparr>"

definition dec_GenericResponse :: "generic_response dec" where
  "dec_GenericResponse = dec_struct
     [field ''success'' dec_bool gr_Success (\<lambda>v r. r\<lparr>gr_Success := v\<rparr>),
      field ''errorCode'' dec_int gr_ErrorCode (\<lambda>v r. r\<lparr>gr_ErrorCode := v\<rparr>),
      field ''data'' (\<lambda>old j. case j of JBad \<Rightarrow> json_syntax | _ \<Rightarrow> Ok j) gr_Data (\<lambda>v r. r\<lparr>gr_Data := v\<rparr>)]"

definition http_of :: "'w api_client \<Rightarrow> string \<Rightarrow> string \<Rightarrow> api_body \<Rightarrow> api_http" where
  "http_of C meth url body =
     \<lparr>hr_Method = meth, hr_URL = url, hr_Authorization = ap_authKey C,
      hr_ContentType = (case body of JsonBody j \<Rightarrow> ''application/json'' | _ \<Rightarrow> ''application/octet-stream''),
      hr_Body = (case body of NilBody \<Rightarrow> [] | ByteBody b \<Rightarrow> b | JsonBody j \<Rightarrow> json_text j)\<rparr>"

text \<open>What a response body says; its status is not looked at.\<close>

definition response_data :: "string \<Rightarrow> json res" where
  "response_data b =
     (case dec_GenericResponse zero_generic_response (json_parse b) of
        Err e \<Rightarrow> Err (Wrapped ''failed to unmarshal response'' e)
      | Panic p \<Rightarrow> Panic p
      | Ok r \<Rightarrow> if \<not> gr_Success r then Err (TransportError (gr_ErrorCode r)) else Ok (gr_Data r))"

definition xp_request :: "'w api_client \<Rightarrow> string \<Rightarrow> string \<Rightarrow> api_body \<Rightarrow> ('w, json) run" where
  "xp_request C meth url body w =
     map_option (\<lambda>(r, w1). (res_bind r (\<lambda>(status, b). response_data b), w1)) (ap_Do C (http_of C meth url body) w)"

text \<open>The request is repeated for as long as the control plane asks for it.\<close>

partial_function (option) xp_Request :: "'w api_client \<Rightarrow> string \<Rightarrow> string \<Rightarrow> api_body \<Rightarrow> 'w \<Rightarrow> (json res \<times> 'w) option" where
  "xp_Request C meth url body w =
     (case xp_request C meth url body w of
        None \<Rightarrow> None
      | Some (r, w1) \<Rightarrow>
          if r = Err (TransportError (error_num ErrAgain)) then xp_Request C meth url body w1 else Some (r, w1))"

declare xp_Request.simps [code]

section \<open>Operations\<close>

text \<open>Every operation builds its URL, makes the request and decodes the data.\<close>

definition api_call :: "'w api_client \<Rightarrow> string \<Rightarrow> string \<Rightarrow> api_body \<Rightarrow> (json \<Rightarrow> 'a res) \<Rightarrow> ('w, 'a) run" where
  "api_call C meth path body decode w =
     (case ap_buildURL C (ap_endpoint C) path of
        Err e \<Rightarrow> Some (Err e, w)
      | Panic p \<Rightarrow> Some (Panic p, w)
      | Ok url \<Rightarrow> map_option (\<lambda>(r, w1). (res_bind r decode, w1)) (xp_Request C meth url body w))"

definition dec_one :: "string \<Rightarrow> json \<Rightarrow> string res" where
  "dec_one name = dec_struct [field name dec_str (\<lambda>s. s) (\<lambda>v s. v)] []"

definition dec_upload :: "json \<Rightarrow> (string \<times> string) res" where
  "dec_upload = dec_struct [field ''url'' dec_str fst (\<lambda>v s. (v, snd s)), field ''worldId'' dec_str snd (\<lambda>v s. (fst s, v))] ([], [])"

definition CreateWorldDownloadURL :: "'w api_client \<Rightarrow> string \<Rightarrow> ('w, string) run" where
  "CreateWorldDownloadURL C worldID =
     api_call C ''POST'' ''/_/world/download-url'' (JsonBody (JObj [(''worldId'', JStr worldID)])) (dec_one ''url'')"

definition CreateWorldUploadURL :: "'w api_client \<Rightarrow> string \<Rightarrow> ('w, string \<times> string) run" where
  "CreateWorldUploadURL C worldName =
     api_call C ''POST'' ''/_/world/upload-url'' (JsonBody (JObj [(''worldName'', JStr worldName)])) dec_upload"

definition GetLatestWorldID :: "'w api_client \<Rightarrow> string \<Rightarrow> ('w, string) run" where
  "GetLatestWorldID C worldName =
     api_call C ''GET'' (''/_/world/latest-id/'' @ worldName) NilBody (dec_one ''worldId'')"

definition PostStatus :: "'w api_client \<Rightarrow> string \<Rightarrow> ('w, unit) run" where
  "PostStatus C statuses = api_call C ''POST'' ''/_/status'' (ByteBody statuses) (\<lambda>_. Ok ())"

definition PollAction :: "'w api_client \<Rightarrow> ('w, action) run" where
  "PollAction C = api_call C ''GET'' ''/_/poll'' NilBody (dec_action zero_action)"

section \<open>Against the control plane\<close>

text \<open>
  The routes of the runner API by method and path.  \<open>now\<close> is the time an upload is named after,
  and \<open>block\<close> what happens while a poll blocks.
\<close>

definition bound_field :: "string \<Rightarrow> string \<Rightarrow> string res" where
  "bound_field name body = dec_one name (json_parse body)"

definition runner_route_of :: "string \<Rightarrow> string \<Rightarrow> ('w \<Rightarrow> wake \<times> 'w) \<Rightarrow> api_http \<Rightarrow> 'w runner_request option" where
  "runner_route_of ep now block req =
     (let path = trim_prefix ep (hr_URL req) in
      if hr_Method req = ''GET'' then
        (if path = ''/_/poll'' then Some (RunPoll block)
         else if has_prefix ''/_/world/latest-id/'' path then Some (RunLatestID (trim_prefix ''/_/world/latest-id/'' path))
         else None)
      else if path = ''/_/status'' then Some (RunStatus (Ok (hr_Body req)))
      else if path = ''/_/world/download-url'' then Some (RunDownloadURL (bound_field ''worldId'' (hr_Body req)))
      else if path = ''/_/world/upload-url'' then Some (RunUploadURL now (bound_field ''worldName'' (hr_Body req)))
      else None)"

text \<open>
  The text of a response.  The server does not send a body with the status 204
  (\<open>net/http\<close>: the response writer refuses it).
\<close>

definition http_body :: "response \<Rightarrow> string" where
  "http_body rp =
     (if rp_Status rp = 204 then []
      else case rp_Body rp of RJson j \<Rightarrow> json_text j | RText t \<Rightarrow> t | RNone \<Rightarrow> [])"

text \<open>
  An error of a handler is answered by the framework with the status 500 and a message; after a
  panic the server closes the connection.
\<close>

definition http_exchange ::
  "'w handler \<Rightarrow> string \<Rightarrow> string \<Rightarrow> ('w \<Rightarrow> wake \<times> 'w) \<Rightarrow> api_http \<Rightarrow> ('w, int \<times> string) run" where
  "http_exchange H ep now block req w =
     (case runner_route_of ep now block req of
        None \<Rightarrow> Some (Ok (404, json_text (JObj [(''message'', JStr ''Not Found'')])), w)
      | Some rr \<Rightarrow>
          map_option (\<lambda>(r, w1). (case r of
                Ok (rp, jobs) \<Rightarrow> Ok (rp_Status rp, http_body rp)
              | Err e \<Rightarrow> Ok (500, json_text (JObj [(''message'', JStr ''Internal Server Error'')]))
              | Panic p \<Rightarrow> Err EOF, w1))
            (runner_serve H json_parse (hr_Authorization req) rr w))"

definition connected_client ::
  "'w handler \<Rightarrow> string \<Rightarrow> string \<Rightarrow> string \<Rightarrow> ('w \<Rightarrow> wake \<times> 'w) \<Rightarrow> 'w api_client" where
  "connected_client H ep key now block =
     \<lparr>ap_endpoint = ep, ap_authKey = key, ap_Do = http_exchange H ep now block, ap_buildURL = (\<lambda>ep path. Ok (ep @ path))\<rparr>"

section \<open>The round trip of a poll\<close>

lemma response_data_success:
  assumes "json_ok d"
  shows "response_data (json_text (success_response d)) = Ok d"
proof -
  have "json_parse (json_text (success_response d)) = success_response d"
    using assms by (intro json_parse_text) (simp add: success_response_def)
  then show ?thesis using assms
    by (cases d) (simp_all add: response_data_def success_response_def dec_GenericResponse_def dec_struct_def field_def
        zero_generic_response_def json_simps)
qed

lemma response_data_error: "response_data (json_text (error_response code)) = Err (TransportError (error_num code))"
proof -
  have "json_parse (json_text (error_response code)) = error_response code"
    by (intro json_parse_text) (simp add: error_response_def)
  then show ?thesis
    by (cases code) (simp_all add: response_data_def error_response_def dec_GenericResponse_def dec_struct_def field_def
        zero_generic_response_def json_simps int64_min_def int64_max_def)
qed

lemma response_data_message: "response_data (json_text (JObj [(''message'', JStr m)])) = Err (TransportError 0)"
proof -
  have "json_parse (json_text (JObj [(''message'', JStr m)])) = JObj [(''message'', JStr m)]"
    by (intro json_parse_text) simp
  moreover have "\<not> equal_fold ''success'' ''message''" "\<not> equal_fold ''errorCode'' ''message''" "\<not> equal_fold ''data'' ''message''"
    by code_simp+
  ultimately show ?thesis
    by (simp add: response_data_def dec_GenericResponse_def dec_struct_def field_def find_field_def
        zero_generic_response_def)
qed

lemma json_parse_Nil: "json_parse [] = JBad"
  by code_simp

lemma response_data_empty: "response_data [] = Err (Wrapped ''failed to unmarshal response'' (Ext ''invalid JSON''))"
  by (simp add: response_data_def json_parse_Nil dec_GenericResponse_def dec_struct_def json_syntax_def)

lemma xp_Request_done:
  assumes "xp_request C meth url body w = Some (r, w1)" and "r \<noteq> Err (TransportError (error_num ErrAgain))"
  shows "xp_Request C meth url body w = Some (r, w1)"
  using assms by (subst xp_Request.simps) simp

lemma connected_client_simps [simp]:
  "ap_endpoint (connected_client H ep key now block) = ep" "ap_authKey (connected_client H ep key now block) = key"
  "ap_Do (connected_client H ep key now block) = http_exchange H ep now block"
  "ap_buildURL (connected_client H ep key now block) = (\<lambda>ep path. Ok (ep @ path))"
  by (simp_all add: connected_client_def)

text \<open>What the runner makes of the end of a poll.\<close>

definition poll_outcome :: "json option res \<Rightarrow> action res" where
  "poll_outcome r =
     (case r of
        Ok (Some a) \<Rightarrow> dec_action zero_action a
      | Ok None \<Rightarrow> Err (TransportError 0)
      | Err e \<Rightarrow> Err (if e = ErrCancelled then Wrapped ''failed to unmarshal response'' (Ext ''invalid JSON'')
                   else TransportError (error_num ErrInternal))
      | Panic p \<Rightarrow> Err EOF)"

lemma PollAction_run:
  assumes "redis_honest (hd_redis H) view" and "hd_KVS H = NewRedis (hd_redis H)"
    and "rv_keys (view w) (''runner:'' @ key) = Some (JStr rid)" and "rid \<noteq> []"
    and "\<And>w0 a w1. lp_Wait (hd_redis H) action_key rid block w0 = (Ok (Some a), w1) \<Longrightarrow> view w0 = view w \<Longrightarrow> json_ok a"
  obtains w0 where "view w0 = view w"
    and "PollAction (connected_client H ep key now block) w =
      (case lp_Wait (hd_redis H) action_key rid block w0 of (r, w1) \<Rightarrow> Some (poll_outcome r, w1))"
proof -
  obtain w0 where g: "kvs_Get (NewRedis (hd_redis H)) (''runner:'' @ key) dec_str [] w =
      (res_bind (found (rv_keys (view w) (''runner:'' @ key))) (dec_str []), w0)" "view w0 = view w"
    using kvs_Get_honest [OF assms(1)] .
  then have key: "kvs_Get (hd_KVS H) (''runner:'' @ key) dec_str [] w = (Ok rid, w0)"
    unfolding assms(2,3) by (simp add: found_def dec_str_def)
  let ?C = "connected_client H ep key now block"
  let ?req = "http_of ?C ''GET'' (ep @ ''/_/poll'') NilBody"
  obtain r w1 where l: "lp_Wait (hd_redis H) action_key rid block w0 = (r, w1)" by (cases "lp_Wait (hd_redis H) action_key rid block w0")
  have route: "runner_route_of ep now block ?req = Some (RunPoll block)"
    by (simp add: runner_route_of_def http_of_def)
  have auth: "hr_Authorization ?req = key" by (simp add: http_of_def)
  have serve: "runner_serve H json_parse (hr_Authorization ?req) (RunPoll block) w = Some (handleRunnerPoll H rid block w0)"
    unfolding runner_serve_def authKeyMiddleware_def auth key by (simp add: runner_route_def)
  have exch: "http_exchange H ep now block ?req w = map_option (\<lambda>(r, w1). (case r of
                Ok (rp, jobs) \<Rightarrow> Ok (rp_Status rp, http_body rp)
              | Err e \<Rightarrow> Ok (500, json_text (JObj [(''message'', JStr ''Internal Server Error'')]))
              | Panic p \<Rightarrow> Err EOF, w1)) (Some (handleRunnerPoll H rid block w0))"
    using serve by (simp add: http_exchange_def route)
  have req: "xp_request ?C ''GET'' (ep @ ''/_/poll'') NilBody w =
      Some ((case r of Ok (Some a) \<Rightarrow> Ok a | Ok None \<Rightarrow> Err (TransportError 0)
         | Err e \<Rightarrow> Err (if e = ErrCancelled then Wrapped ''failed to unmarshal response'' (Ext ''invalid JSON'')
                   else TransportError (error_num ErrInternal))
         | Panic p \<Rightarrow> Err EOF), w1)"
  proof (cases r)
    case (Ok x)
    show ?thesis
    proof (cases x)
      case None
      then show ?thesis using assms(4)
        by (simp add: xp_request_def exch handleRunnerPoll_def on_ok_def l Ok io_err_def response_data_message del: json_text.simps)
    next
      case (Some a)
      then have "json_ok a" using assms(5) l Ok g(2) by blast
      then show ?thesis using assms(4) Some
        by (simp add: xp_request_def exch handleRunnerPoll_def on_ok_def l Ok reply_def io_ret_def http_body_def
            response_data_success)
    qed
  next
    case (Err e)
    then show ?thesis using assms(4)
      by (simp add: xp_request_def exch handleRunnerPoll_def on_ok_def l reply_def io_ret_def http_body_def
          response_data_empty response_data_error)
  next
    case (Panic p)
    then show ?thesis using assms(4)
      by (simp add: xp_request_def exch handleRunnerPoll_def on_ok_def l)
  qed
  have again: "(case r of Ok (Some a) \<Rightarrow> Ok a | Ok None \<Rightarrow> Err (TransportError 0)
         | Err e \<Rightarrow> Err (if e = ErrCancelled then Wrapped ''failed to unmarshal response'' (Ext ''invalid JSON'')
                   else TransportError (error_num ErrInternal))
         | Panic p \<Rightarrow> Err EOF) \<noteq> Err (TransportError (error_num ErrAgain))"
    by (simp split: res.split option.split)
  have "PollAction ?C w = Some (poll_outcome r, w1)"
    using xp_Request_done [OF req again]
    by (simp add: PollAction_def api_call_def poll_outcome_def split: res.split option.split)
  then show thesis using that [OF g(2)] l by simp
qed

lemmas enc_defs = enc_request_meta_def enc_server_config_def enc_world_config_def enc_game_config_def
  enc_snapshot_config_def enc_conn_req_info_def enc_status_extra_def enc_info_extra_def enc_addr_extra_def
  enc_hello_extra_def enc_started_world_def enc_started_extra_def omit_nil_def omit_empty_def enc_map_def

lemma json_ok_enc_action: "json_ok (enc_action a)"
  by (auto simp: enc_action_def enc_defs split: option.splits)

text \<open>
  Property C8: what the control plane asks of a runner reaches it.  When an action is pushed
  while the runner polls with its key, the poll - from the runner's HTTP client through the
  routes, the key check, the long poll on Redis and both JSON codecs - returns exactly that
  action, and the queue is empty again.
\<close>

theorem action_reaches_runner:
  assumes "redis_honest (hd_redis H) view" and "hd_KVS H = NewRedis (hd_redis H)"
    and "rv_keys (view w) (''runner:'' @ key) = Some (JStr ''default'')"
    and "rv_lists (view w) (lp_queue action_key ''default'') = []" and "ok_action a"
  shows "\<exists>w'. PollAction (connected_client H ep key now (\<lambda>w1. (Notified, snd (push_action H a w1)))) w = Some (Ok a, w')
    \<and> rv_lists (view w') (lp_queue action_key ''default'') = []"
proof -
  let ?block = "\<lambda>w1. (Notified, snd (push_action H a w1))"
  have deliver: "\<exists>w1. lp_Wait (hd_redis H) action_key ''default'' ?block w0 = (Ok (Some (enc_action a)), w1)
      \<and> rv_lists (view w1) (lp_queue action_key ''default'') = []" if "view w0 = view w" for w0
    using Wait_delivers [OF assms(1), of w0 action_key "''default''" "enc_action a"] assms(4) that
    by (simp add: push_action_def)
  have ok: "json_ok b" if "lp_Wait (hd_redis H) action_key ''default'' ?block w0 = (Ok (Some b), w1)" "view w0 = view w" for w0 b w1
    using deliver [OF that(2)] that(1) json_ok_enc_action by auto
  have ne: "''default'' \<noteq> []" by simp
  obtain w0 where w0: "view w0 = view w" "PollAction (connected_client H ep key now ?block) w =
      (case lp_Wait (hd_redis H) action_key ''default'' ?block w0 of (r, w1) \<Rightarrow> Some (poll_outcome r, w1))"
    by (rule PollAction_run [where block = ?block and w = w and ep = ep and now = now, OF assms(1-3) ne ok])
  obtain w1 where "lp_Wait (hd_redis H) action_key ''default'' ?block w0 = (Ok (Some (enc_action a)), w1)"
    "rv_lists (view w1) (lp_queue action_key ''default'') = []" using deliver [OF w0(1)] by blast
  then show ?thesis using w0(2) assms(5) by (simp add: poll_outcome_def rt_action)
qed

definition runner_view :: redis_view where
  "runner_view = empty_view\<lparr>rv_keys := [''runner:k'' \<mapsto> JStr ''default'']\<rparr>"

definition stop_action :: action where
  "stop_action = zero_action\<lparr>ac_Type := action_type_name ActionStop\<rparr>"

lemma action_reaches_runner_witness:
  "\<exists>w'. PollAction (connected_client demo_handler ''https://cp'' ''k'' []
        (\<lambda>w1. (Notified, snd (push_action demo_handler stop_action w1)))) runner_view = Some (Ok stop_action, w')
    \<and> rv_lists w' (lp_queue action_key ''default'') = []"
  by (rule action_reaches_runner [where view = "\<lambda>w. w"])
    (simp_all add: demo_handler_simps mem_redis_honest runner_view_def empty_view_def stop_action_def ok_action_def
      zero_action_def fits_int_def int64_min_def int64_max_def ok_request_meta_def)

text \<open>
  Property C28: an action is lost in the pause after a poll.  A poll that times out is answered
  with the status 204, whose body is not sent, so the client fails instead of polling again and
  the runner pauses.  An action that is queued in the pause never arrives: the next poll takes
  it from the queue before it blocks and does not return it.
\<close>

theorem action_lost_between_polls:
  assumes "redis_honest (hd_redis H) view" and "hd_KVS H = NewRedis (hd_redis H)"
    and "rv_keys (view w) (''runner:'' @ key) = Some (JStr ''default'')"
    and "rv_lists (view w) (lp_queue action_key ''default'') = []" and "\<And>w1. view (snd (block w1)) = view w1"
  shows "\<exists>e w1 w2 e' w3.
      PollAction (connected_client H ep key now (\<lambda>w. (CtxDone, w))) w = Some (Err e, w1)
    \<and> push_action H a w1 = (Ok (), w2)
    \<and> PollAction (connected_client H ep key now block) w2 = Some (Err e', w3)
    \<and> rv_lists (view w3) (lp_queue action_key ''default'') = []"
proof -
  let ?q = "lp_queue action_key ''default''"
  let ?done = "\<lambda>w. (CtxDone, w)"
  have ne: "''default'' \<noteq> []" by simp
  have wait: "\<exists>w1. lp_Wait (hd_redis H) action_key ''default'' ?done w0 = (Err ErrCancelled, w1)
      \<and> view w1 = (view w0)\<lparr>rv_lists := (rv_lists (view w0))(?q := [])\<rparr>" if "view w0 = view w" for w0
  proof -
    obtain w1 where "getAction (hd_redis H) action_key ''default'' w0 = (Ok (first_of (rv_lists (view w0) ?q)), w1)"
      "view w1 = (view w0)\<lparr>rv_lists := (rv_lists (view w0))(?q := tl (rv_lists (view w0) ?q))\<rparr>"
      using getAction_honest [OF assms(1)] .
    then show ?thesis using assms(4) that by (simp add: lp_Wait_def)
  qed
  have ok: "json_ok b" if "lp_Wait (hd_redis H) action_key ''default'' ?done w0 = (Ok (Some b), w1)" "view w0 = view w" for w0 b w1
    using wait [OF that(2)] that(1) by auto
  obtain w0 where w0: "view w0 = view w" "PollAction (connected_client H ep key now ?done) w =
      (case lp_Wait (hd_redis H) action_key ''default'' ?done w0 of (r, w1) \<Rightarrow> Some (poll_outcome r, w1))"
    by (rule PollAction_run [where block = ?done and w = w and ep = ep and now = now, OF assms(1-3) ne ok])
  obtain w1 where w1: "lp_Wait (hd_redis H) action_key ''default'' ?done w0 = (Err ErrCancelled, w1)"
    "view w1 = (view w0)\<lparr>rv_lists := (rv_lists (view w0))(?q := [])\<rparr>" using wait [OF w0(1)] by blast
  obtain w2 where w2: "push_action H a w1 = (Ok (), w2)"
    "view w2 = (view w1)\<lparr>rv_lists := (rv_lists (view w1))(?q := rv_lists (view w1) ?q @ [enc_action a])\<rparr>"
    unfolding push_action_def by (rule lp_Push_honest [OF assms(1), of action_key "''default''" "enc_action a" w1])
  have key: "rv_keys (view w2) (''runner:'' @ key) = Some (JStr ''default'')" using w2(2) w1(2) w0(1) assms(3) by simp
  have q2: "rv_lists (view v) ?q = [enc_action a]" if "view v = view w2" for v using that w2(2) w1(2) by simp
  have drop: "\<exists>b w'. lp_Wait (hd_redis H) action_key ''default'' block v =
      (case b of CtxDone \<Rightarrow> (Err ErrCancelled, w') | Notified \<Rightarrow> (Ok None, w')) \<and> rv_lists (view w') ?q = []"
    if r: "view v = view w2" for v
  proof -
    obtain b w' where "lp_Wait (hd_redis H) action_key ''default'' block v =
        (case b of CtxDone \<Rightarrow> (Err ErrCancelled, w') | Notified \<Rightarrow> (Ok (first_of []), w'))"
      "rv_lists (view w') ?q = (case b of CtxDone \<Rightarrow> [] | Notified \<Rightarrow> tl [])"
      using Wait_drops_queued [OF assms(1) q2 [OF r] assms(5)] by blast
    then show ?thesis by (intro exI [of _ b] exI [of _ w']) (cases b; simp add: first_of_def)
  qed
  have ok': "json_ok b"
    if r: "lp_Wait (hd_redis H) action_key ''default'' block v = (Ok (Some b), w')" "view v = view w2" for v b w'
  proof -
    obtain c v' where "lp_Wait (hd_redis H) action_key ''default'' block v =
        (case c of CtxDone \<Rightarrow> (Err ErrCancelled, v') | Notified \<Rightarrow> (Ok None, v'))"
      using drop [OF r(2)] by blast
    with r(1) show ?thesis by (cases c) simp_all
  qed
  obtain v where v: "view v = view w2" "PollAction (connected_client H ep key now block) w2 =
      (case lp_Wait (hd_redis H) action_key ''default'' block v of (r, w1) \<Rightarrow> Some (poll_outcome r, w1))"
    by (rule PollAction_run [where block = block and w = w2 and ep = ep and now = now, OF assms(1,2) key ne ok'])
  obtain b w3 where w3: "lp_Wait (hd_redis H) action_key ''default'' block v =
      (case b of CtxDone \<Rightarrow> (Err ErrCancelled, w3) | Notified \<Rightarrow> (Ok None, w3))" "rv_lists (view w3) ?q = []"
    using drop [OF v(1)] by blast
  have "\<exists>e'. PollAction (connected_client H ep key now block) w2 = Some (Err e', w3)"
    using v(2) w3(1) by (cases b) (simp_all add: poll_outcome_def)
  moreover have "\<exists>e. PollAction (connected_client H ep key now ?done) w = Some (Err e, w1)"
    using w0(2) w1(1) by (simp add: poll_outcome_def)
  ultimately show ?thesis using w2(1) w3(2) by blast
qed

lemma action_lost_between_polls_witness:
  "\<exists>e w1 w2 e' w3.
      PollAction (connected_client demo_handler ''https://cp'' ''k'' [] (\<lambda>w. (CtxDone, w))) runner_view = Some (Err e, w1)
    \<and> push_action demo_handler stop_action w1 = (Ok (), w2)
    \<and> PollAction (connected_client demo_handler ''https://cp'' ''k'' [] (\<lambda>w. (CtxDone, w))) w2 = Some (Err e', w3)
    \<and> rv_lists w3 (lp_queue action_key ''default'') = []"
  by (rule action_lost_between_polls [where view = "\<lambda>w. w"])
    (simp_all add: demo_handler_simps mem_redis_honest runner_view_def empty_view_def)


end
