(* ===== verification/Outbound.thy ===== *)
theory Outbound
  imports RunnerApi Exteriord
begin

text \<open>
  \<open>src/backend/runner/commands/exteriord/outbound/outbound.go\<close>: the events of the runner's
  processes are collected and posted to the control plane, and its actions are handed to the
  processes.  The clock and the channel are the inputs of the loop, in the order in which
  \<open>select\<close> takes them.
\<close>

section \<open>Posting events\<close>

datatype monitor_input = Tick | FromChan outbound_message

definition event_text :: "event \<Rightarrow> string" where
  "event_text e = json_text (enc_event e) @ [CHR 0x00]"

text \<open>\<open>sendStatus\<close>: the buffer is emptied whatever the control plane answers.\<close>

definition sendStatus :: "'w api_client \<Rightarrow> string \<Rightarrow> ('w, string) run" where
  "sendStatus C buf w =
     map_option (\<lambda>(r, w1). (case r of Panic p \<Rightarrow> Panic p | _ \<Rightarrow> Ok [], w1)) (PostStatus C buf w)"

definition monitor_input :: "'w api_client \<Rightarrow> monitor_input \<Rightarrow> string \<Rightarrow> ('w, string) run" where
  "monitor_input C i buf w =
     (case i of
        Tick \<Rightarrow> if buf = [] then Some (Ok [], w) else sendStatus C buf w
      | FromChan m \<Rightarrow>
          if om_Dispatch m then sendStatus C (buf @ event_text (om_Event m)) w
          else Some (Ok (buf @ event_text (om_Event m)), w))"

fun HandleMonitor :: "'w api_client \<Rightarrow> monitor_input list \<Rightarrow> string \<Rightarrow> ('w, string) run" where
  "HandleMonitor C [] buf w = Some (Ok buf, w)"
| "HandleMonitor C (i # is) buf w =
     (case monitor_input C i buf w of
        Some (Ok buf', w1) \<Rightarrow> HandleMonitor C is buf' w1
      | r \<Rightarrow> r)"

section \<open>Handing out actions\<close>

text \<open>The notification of the launcher and of the connector: a method and its parameters.\<close>

record 'w outbound =
  ob_client :: "'w api_client"
  ob_ToLauncher :: "string \<Rightarrow> json \<Rightarrow> ('w, unit) io"
  ob_ToConnector :: "string \<Rightarrow> json \<Rightarrow> ('w, unit) io"

definition enc_SnapshotInput :: "int \<Rightarrow> int \<Rightarrow> json" where
  "enc_SnapshotInput slot actor = JObj [(''slot'', JInt slot), (''actor'', JInt actor)]"

definition HandleActionStop :: "'w outbound \<Rightarrow> action \<Rightarrow> ('w, unit) io" where
  "HandleActionStop B a = ob_ToLauncher B ''game/stop'' JNull"

definition HandleActionSnapshot :: "'w outbound \<Rightarrow> action \<Rightarrow> ('w, unit) io" where
  "HandleActionSnapshot B a =
     (case ac_Snapshot a of
        None \<Rightarrow> io_err (Msg ''missing snapshot config'')
      | Some sn \<Rightarrow> ob_ToLauncher B ''snapshot/create'' (enc_SnapshotInput (sn_Slot sn) (ac_Actor a)))"

definition HandleActionUndo :: "'w outbound \<Rightarrow> action \<Rightarrow> ('w, unit) io" where
  "HandleActionUndo B a =
     (case ac_Snapshot a of
        None \<Rightarrow> io_err (Msg ''missing snapshot config'')
      | Some sn \<Rightarrow> ob_ToLauncher B ''snapshot/undo'' (enc_SnapshotInput (sn_Slot sn) (ac_Actor a)))"

definition HandleActionReconfigure :: "'w outbound \<Rightarrow> action \<Rightarrow> ('w, unit) io" where
  "HandleActionReconfigure B a =
     (case ac_Config a of
        None \<Rightarrow> io_err (Msg ''missing config'')
      | Some c \<Rightarrow> ob_ToLauncher B ''game/reconfigure'' (enc_game_config c))"

definition HandleActionConnRequest :: "'w outbound \<Rightarrow> action \<Rightarrow> ('w, unit) io" where
  "HandleActionConnRequest B a =
     (case ac_ConnReq a of
        None \<Rightarrow> io_err (Msg ''missing request info'')
      | Some c \<Rightarrow> ob_ToConnector B ''proxy/open'' (enc_conn_req_info c))"

definition actionMappers :: "'w outbound \<Rightarrow> string \<Rightarrow> (action \<Rightarrow> ('w, unit) io) option" where
  "actionMappers B = map_of
     [(action_type_name ActionStop, HandleActionStop B),
      (action_type_name ActionSnapshot, HandleActionSnapshot B),
      (action_type_name ActionUndo, HandleActionUndo B),
      (action_type_name ActionReconfigure, HandleActionReconfigure B),
      (action_type_name ActionConnReq, HandleActionConnRequest B)]"

text \<open>One round of polling: a pause after an error, nothing, or the work that is started.\<close>

datatype 'w poll_round = PollPause | PollUnknown | PollWork "('w, unit) io"

definition outbound_poll :: "'w outbound \<Rightarrow> ('w, 'w poll_round) run" where
  "outbound_poll B w =
     map_option (\<lambda>(r, w1).
       (case r of
          Err e \<Rightarrow> Ok PollPause
        | Panic p \<Rightarrow> Panic p
        | Ok a \<Rightarrow>
            (case actionMappers B (ac_Type a) of None \<Rightarrow> Ok PollUnknown | Some f \<Rightarrow> Ok (PollWork (f a))), w1))
       (PollAction (ob_client B) w)"

section \<open>The events arrive\<close>

lemma json_ok_enc_event: "json_ok (enc_event e)"
  by (auto simp: enc_event_def enc_defs split: option.splits)

lemma split_events:
  "filter (\<lambda>x. x \<noteq> []) (str_split [CHR 0x00] (concat (map event_text es))) = map (\<lambda>e. json_text (enc_event e)) es"
proof (induction es)
  case (Cons e es)
  have "CHR 0x00 \<notin> set (json_text (enc_event e))" by (rule json_text_not_zero [OF json_ok_enc_event])
  then show ?case
    using Cons json_text_not_Nil [OF json_ok_enc_event [of e]]
    by (simp add: event_text_def str_split_cut del: json_text.simps)
qed (simp add: str_split_Nil)

lemma parse_events: "map json_parse (map (\<lambda>e. json_text (enc_event e)) es) = map enc_event es"
  by (simp add: json_parse_text json_ok_enc_event comp_def)

text \<open>The control plane's handling of events, one after the other.\<close>

fun handle_events :: "'w monitor \<Rightarrow> string \<Rightarrow> event list \<Rightarrow> ('w, unit) io" where
  "handle_events M runnerId [] = io_ret ()"
| "handle_events M runnerId (e # es) = io_bind (HandleEvent M runnerId e) (\<lambda>_. handle_events M runnerId es)"

text \<open>An event of a running server: a status has its code, and the server is not shut down.\<close>

definition live_event :: "event \<Rightarrow> bool" where
  "live_event e =
     (ok_event e \<and> (ev_Type e = event_type_name EventStatus \<longrightarrow>
        (\<exists>s. ev_Status e = Some s \<and> se_EventCode s \<noteq> event_num EventShutdown)))"

lemma post_events_handle:
  "list_all live_event es \<Longrightarrow>
   post_events H rid auth (map enc_event es) w =
    (case handle_events (hd_monitor H) rid es w of
       (Ok _, w') \<Rightarrow> reply_ok 200 JNull w'
     | (Err e, w') \<Rightarrow> reply_error 200 ErrInternal w'
     | (Panic p, w') \<Rightarrow> (Panic p, w'))"
proof (induction es arbitrary: w)
  case (Cons e es)
  have e: "dec_event zero_event (enc_event e) = Ok e" using Cons.prems by (simp add: live_event_def rt_event)
  have live: "\<not> (ev_Type e = event_type_name EventStatus \<and> ev_Status e = None)"
    "\<not> (ev_Type e = event_type_name EventStatus \<and> map_option se_EventCode (ev_Status e) = Some (event_num EventShutdown))"
    using Cons.prems by (auto simp: live_event_def)
  have "post_events H rid auth (map enc_event (e # es)) w =
    on_ok (HandleEvent (hd_monitor H) rid e) (\<lambda>_. post_events H rid auth (map enc_event es)) (\<lambda>e. reply_error 200 ErrInternal) w"
    by (simp only: list.map post_events.simps e res.case live if_False)
  then show ?case using Cons.IH Cons.prems
    by (simp add: on_ok_def io_bind_def split: prod.split res.split)
qed (simp add: io_run)

text \<open>What posting a batch of events does to the control plane.\<close>

lemma PostStatus_handles:
  assumes "redis_honest (hd_redis H) view" and "hd_KVS H = NewRedis (hd_redis H)"
    and "rv_keys (view w) (''runner:'' @ key) = Some (JStr rid)" and "rid \<noteq> []" and "list_all live_event es"
  obtains w0 where "view w0 = view w"
    and "PostStatus (connected_client H ep key now block) (concat (map event_text es)) w =
      (case handle_events (hd_monitor H) rid es w0 of
         (Ok _, w') \<Rightarrow> Some (Ok (), w')
       | (Err e, w') \<Rightarrow> Some (Err (TransportError (error_num ErrInternal)), w')
       | (Panic p, w') \<Rightarrow> Some (Err EOF, w'))"
proof -
  let ?C = "connected_client H ep key now block" and ?b = "concat (map event_text es)"
  let ?req = "http_of ?C ''POST'' (ep @ ''/_/status'') (ByteBody ?b)"
  obtain w0 where g: "kvs_Get (NewRedis (hd_redis H)) (''runner:'' @ key) dec_str [] w =
      (res_bind (found (rv_keys (view w) (''runner:'' @ key))) (dec_str []), w0)" "view w0 = view w"
    using kvs_Get_honest [OF assms(1)] .
  then have key: "kvs_Get (hd_KVS H) (''runner:'' @ key) dec_str [] w = (Ok rid, w0)"
    unfolding assms(2,3) by (simp add: found_def dec_str_def)
  have route: "runner_route_of ep now block ?req = Some (RunStatus (Ok ?b))"
    by (simp add: runner_route_of_def http_of_def)
  have auth: "hr_Authorization ?req = key" by (simp add: http_of_def)
  have serve: "runner_serve H json_parse key (RunStatus (Ok ?b)) w = Some (post_events H rid key (map enc_event es) w0)"
    unfolding runner_serve_def authKeyMiddleware_def key
    by (simp add: runner_route_def handlePostStatus_def assms(4) on_ok_def io_run split_events parse_events
        del: map_map json_text.simps)
  obtain r w' where h: "handle_events (hd_monitor H) rid es w0 = (r, w')" by (cases "handle_events (hd_monitor H) rid es w0")
  let ?r = "case r of Ok _ \<Rightarrow> Ok () | Err e \<Rightarrow> Err (TransportError (error_num ErrInternal)) | Panic p \<Rightarrow> Err EOF"
  have "xp_request ?C ''POST'' (ep @ ''/_/status'') (ByteBody ?b) w = Some (map_res (\<lambda>_. JNull) ?r, w')"
    unfolding xp_request_def
    by (cases r) (simp_all add: http_exchange_def route auth serve post_events_handle [OF assms(5)] h reply_def io_run
        http_body_def response_data_success response_data_error del: json_text.simps error_num.simps)
  then have "xp_Request ?C ''POST'' (ep @ ''/_/status'') (ByteBody ?b) w = Some (map_res (\<lambda>_. JNull) ?r, w')"
    by (rule xp_Request_done) (cases r; simp)
  then have "PostStatus ?C ?b w = Some (?r, w')"
    by (cases r) (simp_all add: PostStatus_def api_call_def)
  then show thesis using that [OF g(2)] h by (cases r) simp_all
qed

section \<open>Properties\<close>

fun input_events :: "monitor_input list \<Rightarrow> event list" where
  "input_events [] = []"
| "input_events (Tick # is) = input_events is"
| "input_events (FromChan m # is) = om_Event m # input_events is"

text \<open>One request per batch; \<open>buf\<close> is what is left in the buffer.\<close>

fun post_batches :: "'w api_client \<Rightarrow> event list list \<Rightarrow> string \<Rightarrow> ('w, string) run" where
  "post_batches C [] buf w = Some (Ok buf, w)"
| "post_batches C (b # bs) buf w =
     (case sendStatus C (concat (map event_text b)) w of
        Some (Ok _, w1) \<Rightarrow> post_batches C bs buf w1
      | r \<Rightarrow> r)"

lemma sendStatus_empties: "sendStatus C buf w = Some (Ok x, w1) \<Longrightarrow> x = []"
  by (auto simp: sendStatus_def) (case_tac a; simp)

lemma event_text_not_Nil: "event_text e \<noteq> []"
  by (simp add: event_text_def)

lemma texts_Nil: "concat (map event_text es) = [] \<longleftrightarrow> es = []"
  using event_text_not_Nil by (cases es) auto

lemma HandleMonitor_batches:
  "\<exists>batches rest. concat batches @ rest = acc @ input_events is \<and> [] \<notin> set batches
    \<and> (\<forall>(C :: 'w api_client) w. HandleMonitor C is (concat (map event_text acc)) w = post_batches C batches (concat (map event_text rest)) w)"
proof (induction "is" arbitrary: acc)
  case Nil
  show ?case by (intro exI [of _ "[]"] exI [of _ acc]) simp
next
  case (Cons i "is")
  have flush: "\<exists>batches rest. concat batches @ rest = acc' @ input_events is \<and> [] \<notin> set batches
      \<and> (\<forall>(C :: 'w api_client) w. (case sendStatus C (concat (map event_text acc')) w of
             Some (Ok buf', w1) \<Rightarrow> HandleMonitor C is buf' w1 | r \<Rightarrow> r)
           = post_batches C batches (concat (map event_text rest)) w)" if ne: "acc' \<noteq> []" for acc'
  proof -
    obtain bs rest where b: "concat bs @ rest = input_events is" "[] \<notin> set bs"
      "\<forall>(C :: 'w api_client) w. HandleMonitor C is [] w = post_batches C bs (concat (map event_text rest)) w"
      using Cons.IH [of "[]"] unfolding append_Nil list.map concat.simps by blast
    have "(case sendStatus C (concat (map event_text acc')) w of
             Some (Ok buf', w1) \<Rightarrow> HandleMonitor C is buf' w1 | r \<Rightarrow> r)
           = post_batches C (acc' # bs) (concat (map event_text rest)) w" for C :: "'w api_client" and w
      using b(3) by (auto split: option.split res.split dest: sendStatus_empties)
    then show ?thesis using b ne by (intro exI [of _ "acc' # bs"] exI [of _ rest]) simp
  qed
  show ?case
  proof (cases i)
    case Tick
    then show ?thesis using Cons.IH [of "[]"] flush [of acc] by (cases "acc = []") (simp_all add: monitor_input_def texts_Nil del: concat_eq_Nil_conv)
  next
    case (FromChan m)
    then show ?thesis
      using Cons.IH [of "acc @ [om_Event m]"] flush [of "acc @ [om_Event m]"]
      by (cases "om_Dispatch m") (simp_all add: monitor_input_def)
  qed
qed

text \<open>
  Property C24: every event is posted at most once and in the order of the channel.  Whatever
  the messages, their flags and the clock, the loop makes one request per batch, the batches
  and the rest of the buffer are together the events in order, no batch is empty, and this
  does not depend on what the control plane answers.
\<close>

theorem events_posted_in_order:
  "\<exists>batches rest. concat batches @ rest = input_events is \<and> [] \<notin> set batches
    \<and> (\<forall>(C :: 'w api_client) w. HandleMonitor C is [] w = post_batches C batches (concat (map event_text rest)) w)"
  using HandleMonitor_batches [of "[]" "is"] by simp

text \<open>
  Property C17: a batch of events is handled.  When the runner posts live events (well formed, not
  the shutdown, and with a status where the type needs one) with its key, the control plane handles exactly these events in this order, for the runner with that key; the
  client fails if and only if one of them does.  This covers the texts of the events with
  their separators, the HTTP client, the routes, the key check and the parser.
\<close>

theorem posted_events_handled:
  assumes "redis_honest (hd_redis H) view" and "hd_KVS H = NewRedis (hd_redis H)"
    and "rv_keys (view w) (''runner:'' @ key) = Some (JStr rid)" and "rid \<noteq> []" and "list_all live_event es"
  shows "\<exists>w0. view w0 = view w \<and>
    PostStatus (connected_client H ep key now block) (concat (map event_text es)) w =
      (case handle_events (hd_monitor H) rid es w0 of
         (Ok _, w') \<Rightarrow> Some (Ok (), w')
       | (Err e, w') \<Rightarrow> Some (Err (TransportError (error_num ErrInternal)), w')
       | (Panic p, w') \<Rightarrow> Some (Err EOF, w'))"
  using PostStatus_handles [OF assms] by blast

definition running_event :: event where
  "running_event = zero_event\<lparr>ev_Type := event_type_name EventStatus,
     ev_Status := Some \<lparr>se_EventCode = event_num EventRunning, se_Progress = 0\<rparr>\<rparr>"

lemma posted_events_handled_witness:
  "\<exists>w0. w0 = runner_view \<and>
    PostStatus (connected_client demo_handler ''https://cp'' ''k'' [] (\<lambda>w. (CtxDone, w)))
        (concat (map event_text [running_event, running_event])) runner_view =
      (case handle_events (hd_monitor demo_handler) ''default'' [running_event, running_event] w0 of
         (Ok _, w') \<Rightarrow> Some (Ok (), w')
       | (Err e, w') \<Rightarrow> Some (Err (TransportError (error_num ErrInternal)), w')
       | (Panic p, w') \<Rightarrow> Some (Err EOF, w'))"
  by (rule posted_events_handled [where view = "\<lambda>w. w"])
    (simp_all add: demo_handler_simps mem_redis_honest runner_view_def empty_view_def running_event_def live_event_def
      ok_event_def zero_event_def ok_request_meta_def ok_status_extra_def fits_int_def int64_min_def int64_max_def)

end
