(* ===== verification/McApis.thy ===== *)
theory McApis
  imports McCore Rcon Outbound
begin

text \<open>
  Requests to the launcher and to the snapshot helper: \<open>mclauncher/apis.go\<close>, \<open>mclauncher/quickundo\<close>
  and \<open>commands/snapshot\<close>, two processes that call each other over RPC.  The file system and the way a goroutine is run beside the
  rest are parameters.
\<close>

section \<open>The snapshot helper\<close>

record snapshot_output =
  so_ID :: string
  so_Path :: string

definition enc_SnapshotHelperOutput :: "snapshot_output \<Rightarrow> json" where
  "enc_SnapshotHelperOutput x = JObj [(''id'', JStr (so_ID x)), (''path'', JStr (so_Path x))]"

definition dec_SnapshotHelperOutput :: "snapshot_output dec" where
  "dec_SnapshotHelperOutput = dec_struct
     [field ''id'' dec_str so_ID (\<lambda>v x. x\<lparr>so_ID := v\<rparr>), field ''path'' dec_str so_Path (\<lambda>v x. x\<lparr>so_Path := v\<rparr>)]"

definition enc_SnapshotHelperInput :: "int \<Rightarrow> json" where
  "enc_SnapshotHelperInput slot = JObj [(''slot'', JInt slot)]"

definition dec_SnapshotHelperInput :: "int dec" where
  "dec_SnapshotHelperInput = dec_struct [field ''slot'' dec_int (\<lambda>s. s) (\<lambda>v s. v)]"

text \<open>Whether a path exists, and where the data of the runner is.\<close>

record 'w snapshot_ops =
  ss_processes :: "'w processes"
  ss_Stat :: "string \<Rightarrow> ('w, unit) io"
  ss_DataPath :: "string \<Rightarrow> string"
  ss_cancel :: "('w, unit) io"

definition deleteFsSnapshot :: "'w snapshot_ops \<Rightarrow> string \<Rightarrow> ('w, unit) io" where
  "deleteFsSnapshot B i =
     (if str_contains i ''/'' then io_err (Msg ''invalid snapshot ID'')
      else
        io_bind (Simple_Run (ss_processes B) ''btrfs'' [''subvolume'', ''delete'', ''ss@'' @ i] (ss_DataPath B ''gamedata'')) (\<lambda>_.
        Simple_Run (ss_processes B) ''btrfs'' [''balance'', ''.''] (ss_DataPath B ''gamedata'')))"

definition takeFsSnapshot :: "'w snapshot_ops \<Rightarrow> string \<Rightarrow> ('w, snapshot_output) io" where
  "takeFsSnapshot B snapshotId =
     (let path = ss_DataPath B (''gamedata/ss@'' @ snapshotId) in
      io_bind (io_try (ss_Stat B path)) (\<lambda>r.
      io_bind (if r = Ok () then io_bind (io_try (deleteFsSnapshot B snapshotId)) (\<lambda>_. io_ret ()) else io_ret ()) (\<lambda>_.
      io_bind (Simple_Run (ss_processes B) ''btrfs'' [''subvolume'', ''snapshot'', ''-r'', ''.'', path] (ss_DataPath B ''gamedata'')) (\<lambda>_.
      io_ret \<lparr>so_ID = snapshotId, so_Path = path\<rparr>))))"

definition snapshot_create :: "'w snapshot_ops \<Rightarrow> rpc_request \<Rightarrow> ('w, json option) io" where
  "snapshot_create B q =
     io_bind (io_lift (rpc_Bind dec_SnapshotHelperInput 0 q)) (\<lambda>slot.
     io_bind (takeFsSnapshot B (''quick'' @ fmt_d slot)) (\<lambda>info. io_ret (Some (enc_SnapshotHelperOutput info))))"

definition snapshot_stat :: "'w snapshot_ops \<Rightarrow> rpc_request \<Rightarrow> ('w, json option) io" where
  "snapshot_stat B q =
     io_bind (io_lift (rpc_Bind dec_SnapshotHelperInput 0 q)) (\<lambda>slot.
     io_bind (ss_Stat B (ss_DataPath B (''gamedata/ss@quick'' @ fmt_d slot @ ''/world''))) (\<lambda>_.
     io_ret (Some (enc_SnapshotHelperOutput
       \<lparr>so_ID = ''quick'' @ fmt_d slot, so_Path = ss_DataPath B (''gamedata/ss@quick'' @ fmt_d slot)\<rparr>))))"

definition snapshot_server :: "'w snapshot_ops \<Rightarrow> 'w rpc_server" where
  "snapshot_server B =
     RegisterNotifyMethod ''base/stop'' (\<lambda>q. ss_cancel B)
     (RegisterMethod ''snapshot/stat'' (snapshot_stat B)
     (RegisterMethod ''snapshot/create'' (snapshot_create B) NewServer))"

section \<open>Quick undo\<close>

text \<open>The file operations of a restore, and the connection to the snapshot helper.\<close>

record 'w undo_ops =
  un_processes :: "'w processes"
  un_RemoveAll :: "string \<Rightarrow> ('w, unit) io"
  un_Mkdir :: "string \<Rightarrow> ('w, unit) io"
  un_CopyAll :: "string \<Rightarrow> string \<Rightarrow> ('w, unit) io"
  un_DataPath :: "string \<Rightarrow> string"
  un_helper :: "'w rpc_server"
  un_msg :: "go_error \<Rightarrow> string"
  un_trace :: string

definition BeforeLaunch :: "'w undo_ops \<Rightarrow> ('w launching, unit) io" where
  "BeforeLaunch U s =
     (if lx_restorePath s = [] then (Ok (), s)
      else
        (let worldDir = un_DataPath U ''gamedata/world'' in
         outside (io_bind (un_RemoveAll U worldDir) (\<lambda>_.
           io_bind (un_Mkdir U worldDir) (\<lambda>_.
           un_CopyAll U (path_Join [lx_restorePath s, ''world'']) worldDir)))
           (s\<lparr>lx_restorePath := []\<rparr>)))"

definition undo_Register :: "'w undo_ops \<Rightarrow> 'w launch_ops \<Rightarrow> 'w launcher_core \<Rightarrow> 'w launch_ops \<times> 'w launcher_core" where
  "undo_Register U P L =
     (P\<lparr>lo_Start := Killable_Start (un_processes U)\<rparr>, AddBeforeLaunchListener (BeforeLaunch U) L)"

definition CreateSnapshot :: "'w undo_ops \<Rightarrow> int \<Rightarrow> ('w launching, unit) io" where
  "CreateSnapshot U slot =
     outside (rpc_Call (un_msg U) (un_helper U) (un_trace U) ''snapshot/create'' (enc_SnapshotHelperInput slot) (\<lambda>_. Ok ()))"

definition RestartWithSnapshot :: "'w undo_ops \<Rightarrow> int \<Rightarrow> ('w launching, unit) io" where
  "RestartWithSnapshot U slot =
     io_bind (outside (rpc_Call (un_msg U) (un_helper U) (un_trace U) ''snapshot/stat'' (enc_SnapshotHelperInput slot)
       (dec_SnapshotHelperOutput \<lparr>so_ID = [], so_Path = []\<rparr>))) (\<lambda>info s.
     Killable_Kill (un_processes U) (s\<lparr>lx_restorePath := so_Path info\<rparr>))"

section \<open>The requests of the launcher\<close>

text \<open>
  What a handler works with: the RCON client, the undo service, the notification of the runner
  process, and how a goroutine is run.
\<close>

record 'w launcher_apis =
  la_rcon :: "'w rcon"
  la_undo :: "'w undo_ops"
  la_notify :: "string \<Rightarrow> json \<Rightarrow> ('w, unit) io"
  la_go :: "('w launching, unit) io \<Rightarrow> ('w launching, unit) io"

definition info_event :: "info_code \<Rightarrow> int \<Rightarrow> bool \<Rightarrow> event" where
  "info_event c actor isError = zero_event\<lparr>ev_Type := event_type_name EventInfo,
     ev_Info := Some \<lparr>ie_InfoCode = info_num c, ie_Actor = actor, ie_IsError = isError\<rparr>\<rparr>"

definition stopping_event :: event where
  "stopping_event = zero_event\<lparr>ev_Type := event_type_name EventStatus,
     ev_Status := Some \<lparr>se_EventCode = event_num EventStopping, se_Progress = 0\<rparr>\<rparr>"

definition dec_SnapshotInput :: "(int \<times> int) dec" where
  "dec_SnapshotInput = dec_struct [field ''slot'' dec_int fst (\<lambda>v s. (v, snd s)), field ''actor'' dec_int snd (\<lambda>v s. (fst s, v))]"

definition dispatch :: "'w launcher_apis \<Rightarrow> rpc_request \<Rightarrow> event \<Rightarrow> ('w launching, unit) io" where
  "dispatch A q ev = outside (DispatchEvent (jq_Traceparent q) (la_notify A) ev)"

definition HandleGameStop :: "'w launcher_apis \<Rightarrow> rpc_request \<Rightarrow> ('w launching, unit) io" where
  "HandleGameStop A q = io_bind (outside (rcon_Stop (la_rcon A))) (\<lambda>_. dispatch A q stopping_event)"

definition snapshot_job :: "'w launcher_apis \<Rightarrow> rpc_request \<Rightarrow> int \<Rightarrow> int \<Rightarrow> ('w launching, unit) io" where
  "snapshot_job A q slot actor =
     io_bind (io_try (outside (SaveAll (la_rcon A)))) (\<lambda>saved.
     if saved \<noteq> Ok () then io_ret ()
     else io_bind (io_try (CreateSnapshot (la_undo A) slot)) (\<lambda>r.
       dispatch A q (if r = Ok () then info_event InfoSnapshotDone actor False
                     else info_event InfoSnapshotError actor True)))"

definition HandleSnapshotCreate :: "'w launcher_apis \<Rightarrow> rpc_request \<Rightarrow> ('w launching, unit) io" where
  "HandleSnapshotCreate A q =
     io_bind (io_lift (rpc_Bind dec_SnapshotInput (0, 0) q)) (\<lambda>(slot, actor).
     la_go A (snapshot_job A q slot actor))"

definition HandleSnapshotUndo :: "'w launcher_apis \<Rightarrow> rpc_request \<Rightarrow> ('w launching, unit) io" where
  "HandleSnapshotUndo A q =
     io_bind (io_lift (rpc_Bind dec_SnapshotInput (0, 0) q)) (\<lambda>(slot, actor).
     la_go A (io_bind (io_try (RestartWithSnapshot (la_undo A) slot)) (\<lambda>_. io_ret ())))"

definition mclauncher_Bind :: "'w launcher_apis \<Rightarrow> 'w launching rpc_server \<Rightarrow> 'w launching rpc_server" where
  "mclauncher_Bind A S =
     RegisterNotifyMethod ''snapshot/undo'' (HandleSnapshotUndo A)
     (RegisterNotifyMethod ''snapshot/create'' (HandleSnapshotCreate A)
     (RegisterNotifyMethod ''game/stop'' (HandleGameStop A) S))"

section \<open>An undo never ends the server\<close>

text \<open>
  What the launcher does to its state while it runs: starting the server, restoring before it,
  the jobs of its requests, and anything that changes the settings or the world outside.
\<close>

inductive undo_reach :: "'w launcher_apis \<Rightarrow> 'w launching \<Rightarrow> bool" for A where
  fresh: "lx_pid s = 0 \<Longrightarrow> lx_restorePath s = [] \<Longrightarrow> undo_reach A s"
| launch: "undo_reach A s \<Longrightarrow> Killable_Start (un_processes (la_undo A)) path args dir s = (r, s') \<Longrightarrow> undo_reach A s'"
| restore: "undo_reach A s \<Longrightarrow> BeforeLaunch (la_undo A) s = (r', s') \<Longrightarrow> undo_reach A s'"
| snapshot: "undo_reach A s \<Longrightarrow> snapshot_job A q slot actor s = (r', s') \<Longrightarrow> undo_reach A s'"
| undo: "undo_reach A s \<Longrightarrow> RestartWithSnapshot (la_undo A) slot s = (r', s') \<Longrightarrow> undo_reach A s'"
| stop: "undo_reach A s \<Longrightarrow> HandleGameStop A q s = (r', s') \<Longrightarrow> undo_reach A s'"
| other: "undo_reach A s \<Longrightarrow> undo_reach A (s\<lparr>lx_settings := c, lx_world := w\<rparr>)"

lemma keeps_outside [keeps_intros]: "keeps lx_pid (outside m)"
  by (simp add: keeps_def outside_def split: prod.split)

lemma keeps_undo_parts:
  "keeps lx_pid (Killable_Start P path args dir)" "keeps lx_pid (BeforeLaunch U)" "keeps lx_pid (snapshot_job A q slot actor)"
  "keeps lx_pid (HandleGameStop A q)"
proof -
  show "keeps lx_pid (Killable_Start P path args dir)"
    using keeps_outside [of "op_Start P path args dir"] by (simp add: keeps_def Killable_Start_def)
  show "keeps lx_pid (BeforeLaunch U)"
    by (auto simp: keeps_def BeforeLaunch_def outside_def Let_def split: prod.split)
  show "keeps lx_pid (snapshot_job A q slot actor)"
    by (auto simp: snapshot_job_def CreateSnapshot_def dispatch_def intro!: keeps_intros)
  show "keeps lx_pid (HandleGameStop A q)"
    by (auto simp: HandleGameStop_def dispatch_def intro!: keeps_intros)
qed

lemma undo_no_kill:
  assumes "lx_pid s = 0"
  shows "RestartWithSnapshot U slot s =
    io_bind (outside (rpc_Call (un_msg U) (un_helper U) (un_trace U) ''snapshot/stat'' (enc_SnapshotHelperInput slot)
       (dec_SnapshotHelperOutput \<lparr>so_ID = [], so_Path = []\<rparr>)))
      (\<lambda>info s. (Ok (), s\<lparr>lx_restorePath := so_Path info\<rparr>)) s"
  using assms by (simp add: RestartWithSnapshot_def io_bind_def outside_def Killable_Kill_def split: prod.split res.split)

lemma undo_reach_pid: "undo_reach A s \<Longrightarrow> lx_pid s = 0"
proof (induction rule: undo_reach.induct)
  case (undo s slot r' s')
  then show ?case
    by (auto simp: undo_no_kill io_bind_def outside_def split: prod.splits res.splits)
qed (auto dest: keepsD [OF keeps_undo_parts(1)] keepsD [OF keeps_undo_parts(2)] keepsD [OF keeps_undo_parts(3)]
    keepsD [OF keeps_undo_parts(4)])

text \<open>
  Property C18: an undo never ends the server.  The executor that is to be killed keeps the process
  only in \<open>Run\<close>, and the launcher uses \<open>Start\<close>: in every state the launcher reaches, whatever was
  started, snapshotted or undone before, an undo asks for the snapshot, notes its path and does
  nothing else, so the game goes on and nothing is restored.
\<close>

theorem undo_never_kills:
  assumes "undo_reach A s"
  shows "RestartWithSnapshot (la_undo A) slot s =
    io_bind (outside (rpc_Call (un_msg (la_undo A)) (un_helper (la_undo A)) (un_trace (la_undo A)) ''snapshot/stat''
        (enc_SnapshotHelperInput slot) (dec_SnapshotHelperOutput \<lparr>so_ID = [], so_Path = []\<rparr>)))
      (\<lambda>info s. (Ok (), s\<lparr>lx_restorePath := so_Path info\<rparr>)) s"
  by (rule undo_no_kill) (rule undo_reach_pid [OF assms])

section \<open>A failed snapshot is reported as done\<close>

lemma Simple_Run_any:
  assumes "\<And>w. \<exists>pid w'. op_Start P path args dir w = (Ok pid, w')" and "\<And>pid w. \<exists>status w'. op_Wait P pid w = (Ok status, w')"
  shows "\<exists>w'. Simple_Run P path args dir w = (Ok (), w')"
proof -
  obtain pid w1 where "op_Start P path args dir w = (Ok pid, w1)" using assms(1) by blast
  moreover obtain status w2 where "op_Wait P pid w1 = (Ok status, w2)" using assms(2) by blast
  ultimately show ?thesis by (simp add: Simple_Run_def Simple_Start_def CommandHandle_Wait_def io_bind_def io_ret_def)
qed

lemma takeFsSnapshot_any:
  assumes start: "\<And>p a d w. \<exists>pid w'. op_Start (ss_processes B) p a d w = (Ok pid, w')"
    and wait: "\<And>pid w. \<exists>status w'. op_Wait (ss_processes B) pid w = (Ok status, w')"
    and stat: "\<And>p w m. fst (ss_Stat B p w) \<noteq> Panic m"
  shows "\<exists>w'. takeFsSnapshot B i w = (Ok \<lparr>so_ID = i, so_Path = ss_DataPath B (''gamedata/ss@'' @ i)\<rparr>, w')"
proof -
  let ?path = "ss_DataPath B (''gamedata/ss@'' @ i)"
  have run: "\<exists>w'. Simple_Run (ss_processes B) p a d w = (Ok (), w')" for p a d w
    using start wait by (rule Simple_Run_any)
  obtain r w1 where r: "ss_Stat B ?path w = (r, w1)" by fastforce
  have del: "\<exists>x w'. io_try (deleteFsSnapshot B i) w = (Ok x, w')" for w
  proof (cases "str_contains i ''/''")
    case False
    obtain w2 where "Simple_Run (ss_processes B) ''btrfs'' [''subvolume'', ''delete'', ''ss@'' @ i] (ss_DataPath B ''gamedata'') w = (Ok (), w2)"
      using run by blast
    with False run [of "''btrfs''" "[''balance'', ''.'']" "ss_DataPath B ''gamedata''" w2] show ?thesis
      by (auto simp: io_try_def deleteFsSnapshot_def io_bind_def)
  qed (simp add: io_try_def deleteFsSnapshot_def io_err_def)
  have "\<exists>w2. (if r = Ok () then io_bind (io_try (deleteFsSnapshot B i)) (\<lambda>_. io_ret ()) else io_ret ()) w1 = (Ok (), w2)"
    using del [of w1] by (auto simp: io_bind_def io_ret_def)
  then obtain w2 where
    w2: "(if r = Ok () then io_bind (io_try (deleteFsSnapshot B i)) (\<lambda>_. io_ret ()) else io_ret ()) w1 = (Ok (), w2)" ..
  obtain w3 where w3: "Simple_Run (ss_processes B) ''btrfs'' [''subvolume'', ''snapshot'', ''-r'', ''.'', ?path]
      (ss_DataPath B ''gamedata'') w2 = (Ok (), w3)"
    using run by blast
  have "io_try (ss_Stat B ?path) w = (Ok r, w1)"
    using stat [of ?path w "case r of Panic p \<Rightarrow> p | _ \<Rightarrow> []"] r by (cases r) (simp_all add: io_try_def)
  then have "takeFsSnapshot B i w = (Ok \<lparr>so_ID = i, so_Path = ?path\<rparr>, w3)"
    using w2 w3 unfolding takeFsSnapshot_def Let_def by - ((subst io_bind_simps(1), assumption)+, simp add: io_ret_def)
  then show ?thesis ..
qed

lemma snapshot_create_any:
  assumes start: "\<And>p a d w. \<exists>pid w'. op_Start (ss_processes B) p a d w = (Ok pid, w')"
    and wait: "\<And>pid w. \<exists>status w'. op_Wait (ss_processes B) pid w = (Ok status, w')"
    and stat: "\<And>p w m. fst (ss_Stat B p w) \<noteq> Panic m" and slot: "fits_int slot"
  shows "\<exists>w'. snapshot_create B ((call_request m (enc_SnapshotHelperInput slot))\<lparr>jq_Traceparent := tp\<rparr>) w =
    (Ok (Some (enc_SnapshotHelperOutput \<lparr>so_ID = ''quick'' @ fmt_d slot,
       so_Path = ss_DataPath B (''gamedata/ss@'' @ ''quick'' @ fmt_d slot)\<rparr>)), w')"
proof -
  have "rpc_Bind dec_SnapshotHelperInput 0 ((call_request m (enc_SnapshotHelperInput slot))\<lparr>jq_Traceparent := tp\<rparr>) = Ok slot"
    using slot by (simp add: rpc_Bind_def call_request_def dec_SnapshotHelperInput_def enc_SnapshotHelperInput_def dec_struct_def
        field_def fits_int_def json_simps)
  moreover obtain w' where "takeFsSnapshot B (''quick'' @ fmt_d slot) w =
      (Ok \<lparr>so_ID = ''quick'' @ fmt_d slot, so_Path = ss_DataPath B (''gamedata/ss@'' @ ''quick'' @ fmt_d slot)\<rparr>, w')"
    using takeFsSnapshot_any [OF start wait stat] by blast
  ultimately show ?thesis by (simp add: snapshot_create_def io_bind_def io_run)
qed

lemma snapshot_answer_fits:
  assumes "length (so_ID x) < 2 ^ 30" and "length (so_Path x) < 2 ^ 30"
  shows "answers_fit msg (Ok (Some (enc_SnapshotHelperOutput x)))"
  using assms quote_lengths json_quote_bound [of "so_ID x"] json_quote_bound [of "so_Path x"] json_quote_bound [of "''path''"]
  by (simp add: answers_fit_def sendable_def enc_Response_def enc_SnapshotHelperOutput_def omit_nil_def fmt_d_def nat_digits.simps)

lemma slot_name_short:
  assumes "fits_int slot"
  shows "length (''quick'' @ fmt_d slot) < 2 ^ 30"
proof -
  have "length (nat_digits n) \<le> 20" if "n < 10 ^ 20" for n using nat_digits_length [of 20 n] that by simp
  moreover have "nat (- slot) < 10 ^ 20" "nat slot < 10 ^ 20" using assms by (auto simp: fits_int_def int64_min_def int64_max_def)
  ultimately have "length (nat_digits (nat (- slot))) \<le> 20" "length (nat_digits (nat slot)) \<le> 20" by blast+
  then have "length (fmt_d slot) \<le> 21" by (simp add: fmt_d_def)
  then show ?thesis by simp
qed

text \<open>
  Property C37: a snapshot that fails is reported as done.  The commands of the snapshot helper are
  waited for, but their exit status is dropped: when the server has saved its world and every
  \<open>btrfs\<close> command ends with a failure, the request, through RPC, the helper and its commands, still
  sends the user the message that the snapshot is done.
\<close>

theorem failed_snapshot_reported_done:
  assumes helper: "un_helper (la_undo A) = snapshot_server B" and tp: "ok_trace (un_trace (la_undo A))" and slot: "fits_int slot"
    and start: "\<And>p a d w. \<exists>pid w'. op_Start (ss_processes B) p a d w = (Ok pid, w')"
    and fails: "\<And>pid w. \<exists>status w'. status \<noteq> 0 \<and> op_Wait (ss_processes B) pid w = (Ok status, w')"
    and stat: "\<And>p w m. fst (ss_Stat B p w) \<noteq> Panic m"
    and path: "length (ss_DataPath B (''gamedata/ss@'' @ ''quick'' @ fmt_d slot)) < 2 ^ 30"
    and saved: "SaveAll (la_rcon A) (lx_world s) = (Ok (), w)"
  shows "\<exists>w'. snapshot_job A q slot actor s = dispatch A q (info_event InfoSnapshotDone actor False) (s\<lparr>lx_world := w'\<rparr>)"
proof -
  let ?U = "la_undo A"
  let ?q = "(call_request ''snapshot/create'' (enc_SnapshotHelperInput slot))\<lparr>jq_Traceparent := un_trace ?U\<rparr>"
  have wait: "\<exists>status w'. op_Wait (ss_processes B) pid w = (Ok status, w')" for pid w using fails by blast
  obtain w' where w': "snapshot_create B ?q w = (Ok (Some (enc_SnapshotHelperOutput \<lparr>so_ID = ''quick'' @ fmt_d slot,
      so_Path = ss_DataPath B (''gamedata/ss@'' @ ''quick'' @ fmt_d slot)\<rparr>)), w')"
    using snapshot_create_any [OF start wait stat slot] by blast
  have served: "sv_methods (snapshot_server B) ''snapshot/create'' = Some (snapshot_create B)"
    by (simp add: snapshot_server_def RegisterMethod_def RegisterNotifyMethod_def)
  have fit: "sendable (enc_Request (call_request ''snapshot/create'' (enc_SnapshotHelperInput slot)))"
    by (rule call_sendable) (use slot_name_short [OF slot] json_quote_bound [of "''slot''"] in \<open>simp_all add: enc_SnapshotHelperInput_def\<close>)
  have ans: "answers_fit msg (Ok (Some (enc_SnapshotHelperOutput \<lparr>so_ID = ''quick'' @ fmt_d slot,
      so_Path = ss_DataPath B (''gamedata/ss@'' @ ''quick'' @ fmt_d slot)\<rparr>)))" for msg
    by (rule snapshot_answer_fits) (use slot_name_short [OF slot] path in simp_all)
  have fits: "answers_fit (un_msg ?U) (fst (fn ?q w))" if "sv_methods (snapshot_server B) ''snapshot/create'' = Some fn" for fn
    using that ans w' by (simp add: served)
  have "rpc_Call (un_msg ?U) (snapshot_server B) (un_trace ?U) ''snapshot/create'' (enc_SnapshotHelperInput slot) (\<lambda>_. Ok ()) w =
      (case sv_methods (snapshot_server B) ''snapshot/create'' of
         None \<Rightarrow> (Err (RPCErr MethodNotFound ''Method not found'' []), w)
       | Some fn \<Rightarrow> (case fn ?q w of (r, w') \<Rightarrow> (call_outcome (un_msg ?U) (\<lambda>_. Ok ()) r, w')))"
    by (rule rpc_Call_run [OF tp _ fit]) (simp add: enc_SnapshotHelperInput_def, erule fits)
  then have "rpc_Call (un_msg ?U) (snapshot_server B) (un_trace ?U) ''snapshot/create'' (enc_SnapshotHelperInput slot) (\<lambda>_. Ok ()) w = (Ok (), w')"
    by (simp only: served w' option.case prod.case call_outcome_def res.case)
  then have "CreateSnapshot ?U slot (s\<lparr>lx_world := w\<rparr>) = (Ok (), s\<lparr>lx_world := w'\<rparr>)"
    by (simp add: CreateSnapshot_def helper outside_def)
  then show ?thesis
    by (intro exI [of _ w']) (simp add: snapshot_job_def io_bind_def io_try_def outside_def saved)
qed

text \<open>A helper on a machine whose commands all fail, and a launcher that answers.\<close>

definition failing_helper :: "unit snapshot_ops" where
  "failing_helper =
     \<lparr>ss_processes = \<lparr>op_Start = \<lambda>p a d. io_ret 7, op_Wait = \<lambda>pid. io_ret 1, op_Kill = \<lambda>pid. io_ret ()\<rparr>,
      ss_Stat = \<lambda>p. io_err NotExist, ss_DataPath = \<lambda>p. ''/opt/'' @ p, ss_cancel = io_ret ()\<rparr>"

definition demo_apis :: "unit launcher_apis" where
  "demo_apis =
     \<lparr>la_rcon = \<lparr>rn_Exec = \<lambda>c. io_ret []\<rparr>,
      la_undo = \<lparr>un_processes = ss_processes failing_helper, un_RemoveAll = \<lambda>p. io_ret (), un_Mkdir = \<lambda>p. io_ret (),
        un_CopyAll = \<lambda>p q. io_ret (), un_DataPath = \<lambda>p. ''/opt/'' @ p, un_helper = snapshot_server failing_helper,
        un_msg = \<lambda>e. ''error'', un_trace = ''00-ab-01''\<rparr>,
      la_notify = \<lambda>m p. io_ret (), la_go = \<lambda>m. m\<rparr>"

definition demo_launch :: "unit launching" where
  "demo_launch = \<lparr>lx_settings = NewConfigJSONSettingsRepository zero_runner_config, lx_pid = 0, lx_restorePath = [], lx_world = ()\<rparr>"

lemma failed_snapshot_reported_done_witness:
  "\<exists>w'. snapshot_job demo_apis zero_request 1 5 demo_launch
     = dispatch demo_apis zero_request (info_event InfoSnapshotDone 5 False) (demo_launch\<lparr>lx_world := w'\<rparr>)"
  by (rule failed_snapshot_reported_done [of _ failing_helper])
    (simp_all add: demo_apis_def failing_helper_def ok_trace_def fits_int_def int64_min_def int64_max_def io_ret_def io_err_def
      SaveAll_def rcon_do_def io_bind_def fmt_d_def nat_digits.simps)

lemma undo_never_kills_witness:
  "RestartWithSnapshot (la_undo demo_apis) 1 demo_launch =
    io_bind (outside (rpc_Call (un_msg (la_undo demo_apis)) (un_helper (la_undo demo_apis)) (un_trace (la_undo demo_apis))
        ''snapshot/stat'' (enc_SnapshotHelperInput 1) (dec_SnapshotHelperOutput \<lparr>so_ID = [], so_Path = []\<rparr>)))
      (\<lambda>info s. (Ok (), s\<lparr>lx_restorePath := so_Path info\<rparr>)) demo_launch"
  by (rule undo_never_kills) (rule undo_reach.fresh; simp add: demo_launch_def)

end
