(* ===== verification/Disk.thy ===== *)
theory Disk
  imports GoTime
begin

text \<open>
  Files: what the program uses of \<open>os\<close>, \<open>io/fs\<close> and \<open>path/filepath\<close>, on a disk that is a table of
  absolute paths, and \<open>src/backend/runner/fs\<close> on top of it.  A path is resolved by its names:
  there are no symbolic links.  Any path may refuse an access with an error of its own, and
  renaming may fail because the two paths are on different devices.
\<close>

section \<open>Paths\<close>

text \<open>The names of an absolute path, the dots resolved.\<close>

definition path_comps :: "string \<Rightarrow> string list" where
  "path_comps s = rev (foldl (clean_push True) [] (str_split ''/'' s))"

text \<open>The name of a file or a directory.\<close>

definition plain_name :: "string \<Rightarrow> bool" where
  "plain_name s = (s \<noteq> [] \<and> s \<noteq> ''.'' \<and> s \<noteq> ''..'' \<and> CHR ''/'' \<notin> set s)"

definition rooted :: "string \<Rightarrow> bool" where
  "rooted p = has_prefix ''/'' p"

lemma clean_push_names: "list_all plain_name ns \<Longrightarrow> foldl (clean_push b) st ns = rev ns @ st"
  by (induction ns arbitrary: st) (auto simp: clean_push_def plain_name_def)

lemma split_slash_join:
  "ns \<noteq> [] \<Longrightarrow> list_all plain_name ns \<Longrightarrow> str_split ''/'' (slash_join ns) = ns"
proof (induction ns rule: slash_join.induct)
  case (2 x)
  then show ?case by (simp add: str_split_one plain_name_def)
next
  case (3 x y r)
  then show ?case by (simp add: str_split_cut plain_name_def)
qed simp

lemma clean_push_plain:
  "list_all plain_name st \<Longrightarrow> list_all (\<lambda>s. CHR ''/'' \<notin> set s) ns \<Longrightarrow> list_all plain_name (foldl (clean_push True) st ns)"
proof (induction ns arbitrary: st)
  case (Cons n ns)
  have "list_all plain_name (clean_push True st n)"
    using Cons.prems by (cases st) (auto simp: clean_push_def plain_name_def [of n])
  then show ?case using Cons by simp
qed simp

lemma split_no_sep: "list_all (\<lambda>s. c \<notin> set s) (str_split [c] x)"
proof (induction "length x" arbitrary: x rule: less_induct)
  case less
  show ?case
  proof (cases "c \<in> set x")
    case True
    then obtain y z where x: "x = y @ c # z" "c \<notin> set y" by (meson split_list_first)
    then show ?thesis using less [of z] by (simp add: str_split_cut)
  qed (simp add: str_split_one)
qed

lemma path_comps_plain: "list_all plain_name (path_comps s)"
  unfolding path_comps_def list_all_rev by (rule clean_push_plain) (simp_all add: split_no_sep)

lemma path_comps_names:
  assumes "list_all plain_name ns"
  shows "path_comps (''/'' @ slash_join ns) = ns"
proof (cases "ns = []")
  case False
  have "str_split ''/'' (''/'' @ slash_join ns) = [] # ns"
    using str_split_cut [of "CHR ''/''" "[]" "slash_join ns"] split_slash_join [OF False assms] by simp
  then show ?thesis using clean_push_names [OF assms, of True "[]"] by (simp add: path_comps_def clean_push_def)
qed (simp add: path_comps_def clean_push_def str_split.simps has_prefix_def str_split_Nil)

lemma Clean_rooted: "rooted s \<Longrightarrow> path_Clean s = ''/'' @ slash_join (path_comps s)"
  by (simp add: path_Clean_def rooted_def path_comps_def Let_def)

lemma comps_Clean: "rooted s \<Longrightarrow> path_comps (path_Clean s) = path_comps s"
  using Clean_rooted path_comps_names [OF path_comps_plain [of s]] by simp

lemma rooted_append: "rooted d \<Longrightarrow> rooted (d @ x)"
  by (cases d) (auto simp: rooted_def has_prefix_def)

lemma comps_slash: "path_comps (d @ ''/'' @ r) = rev (foldl (clean_push True) (rev (path_comps d)) (str_split ''/'' r))"
  using str_split_append [of "CHR ''/''" d r] by (simp add: path_comps_def)

lemma Join_two: "d \<noteq> [] \<Longrightarrow> path_Join [d, r] = (if r = [] then path_Clean d else path_Clean (d @ ''/'' @ r))"
  by (simp add: path_Join_def Let_def)

lemma comps_Join:
  assumes "rooted d"
  shows "path_comps (path_Join [d, r]) = rev (foldl (clean_push True) (rev (path_comps d)) (str_split ''/'' r))"
proof -
  have d: "d \<noteq> []" using assms by (auto simp: rooted_def has_prefix_def)
  show ?thesis
  proof (cases "r = []")
    case True
    then show ?thesis using d comps_Clean [OF assms] by (simp add: Join_two str_split_Nil clean_push_def)
  next
    case False
    then show ?thesis using d comps_Clean [OF rooted_append [OF assms]] by (simp add: Join_two comps_slash [simplified])
  qed
qed

text \<open>Joining a directory and the path of something in it.\<close>

lemma comps_Join_names:
  "rooted d \<Longrightarrow> ns \<noteq> [] \<Longrightarrow> list_all plain_name ns \<Longrightarrow> path_comps (path_Join [d, slash_join ns]) = path_comps d @ ns"
  by (simp add: comps_Join split_slash_join clean_push_names)

lemma rooted_Join: "rooted d \<Longrightarrow> rooted (path_Join [d, r])"
  using Clean_rooted [of d] Clean_rooted [OF rooted_append, of d "''/'' @ r"]
  by (cases "d = []") (auto simp: Join_two rooted_def has_prefix_def)

section \<open>The disk\<close>

datatype file_node = DirNode | FileNode string | OtherNode

record disk =
  dk_nodes :: "(string list \<times> file_node) list"
  dk_fault :: "string list \<Rightarrow> go_error option"
  dk_crossdev :: bool

definition dk_look :: "disk \<Rightarrow> string list \<Rightarrow> file_node option" where
  "dk_look d p = (if p = [] then Some DirNode else map_of (dk_nodes d) p)"

definition dk_put :: "string list \<Rightarrow> file_node \<Rightarrow> disk \<Rightarrow> disk" where
  "dk_put p n d = d\<lparr>dk_nodes := (p, n) # filter (\<lambda>x. fst x \<noteq> p) (dk_nodes d)\<rparr>"

definition dk_drop :: "string list \<Rightarrow> disk \<Rightarrow> disk" where
  "dk_drop p d = d\<lparr>dk_nodes := filter (\<lambda>x. \<not> has_prefix p (fst x)) (dk_nodes d)\<rparr>"

definition dk_move :: "string list \<Rightarrow> string list \<Rightarrow> disk \<Rightarrow> disk" where
  "dk_move old new d = d\<lparr>dk_nodes :=
     map (\<lambda>(q, n). (if has_prefix old q then new @ drop (length old) q else q, n))
       (filter (\<lambda>x. \<not> has_prefix new (fst x)) (dk_nodes d))\<rparr>"

definition NotDir :: go_error where
  "NotDir = Ext ''not a directory''"

definition dk_access :: "string list \<Rightarrow> (disk, unit) io" where
  "dk_access p d = (case dk_fault d p of Some e \<Rightarrow> (Err e, d) | None \<Rightarrow> (Ok (), d))"

text \<open>Everything above a path has to be a directory.\<close>

definition dk_parents :: "string list \<Rightarrow> (disk, unit) io" where
  "dk_parents p d =
     (case find (\<lambda>q. dk_look d q \<noteq> Some DirNode) (map (\<lambda>i. take i p) [0..<length p]) of
        None \<Rightarrow> (Ok (), d)
      | Some q \<Rightarrow> (Err (if dk_look d q = None then NotExist else NotDir), d))"

definition os_Stat :: "string \<Rightarrow> (disk, file_node) io" where
  "os_Stat path =
     io_bind (dk_access (path_comps path)) (\<lambda>_.
     io_bind (dk_parents (path_comps path)) (\<lambda>_ d.
     case dk_look d (path_comps path) of None \<Rightarrow> (Err NotExist, d) | Some n \<Rightarrow> (Ok n, d)))"

definition os_mkdir_one :: "string list \<Rightarrow> (disk, unit) io" where
  "os_mkdir_one q d =
     (case dk_look d q of
        None \<Rightarrow> io_bind (dk_access q) (\<lambda>_ d. (Ok (), dk_put q DirNode d)) d
      | Some n \<Rightarrow> if n = DirNode then (Ok (), d) else (Err NotDir, d))"

fun os_mkdirs :: "string list list \<Rightarrow> (disk, unit) io" where
  "os_mkdirs [] = io_ret ()"
| "os_mkdirs (q # qs) = io_bind (os_mkdir_one q) (\<lambda>_. os_mkdirs qs)"

definition os_MkdirAll :: "string \<Rightarrow> (disk, unit) io" where
  "os_MkdirAll path =
     (let p = path_comps path in os_mkdirs (map (\<lambda>i. take (Suc i) p) [0..<length p]))"

text \<open>What is read from a file or a stream: bytes, and the error they end with.\<close>

type_synonym content = "string \<times> go_error option"

definition os_Create :: "string \<Rightarrow> (disk, unit) io" where
  "os_Create path =
     (let p = path_comps path in
      io_bind (dk_parents p) (\<lambda>_.
      io_bind (dk_access p) (\<lambda>_ d.
      if dk_look d p = Some DirNode then (Err (Ext ''is a directory''), d) else (Ok (), dk_put p (FileNode []) d))))"

definition io_Copy :: "string \<Rightarrow> content \<Rightarrow> (disk, unit) io" where
  "io_Copy path c d =
     ((case snd c of None \<Rightarrow> Ok () | Some e \<Rightarrow> Err e), dk_put (path_comps path) (FileNode (fst c)) d)"

definition os_Open :: "string \<Rightarrow> (disk, content) io" where
  "os_Open path =
     io_bind (os_Stat path) (\<lambda>n.
     io_ret (case n of FileNode s \<Rightarrow> (s, None) | _ \<Rightarrow> ([], Some (Ext ''is a directory''))))"

definition os_RemoveAll :: "string \<Rightarrow> (disk, unit) io" where
  "os_RemoveAll path =
     (let p = path_comps path in io_bind (dk_access p) (\<lambda>_ d. (Ok (), dk_drop p d)))"

text \<open>
  The name of a directory is never given away: Go's \<open>os.Rename\<close> looks at the new name first and
  reports that the file exists, unless the old one does not exist.
\<close>

definition rename_ok :: "disk \<Rightarrow> string list \<Rightarrow> string list \<Rightarrow> unit res" where
  "rename_ok d old new =
     (case dk_look d old of
        None \<Rightarrow> Err NotExist
      | Some n \<Rightarrow>
          if dk_look d new = Some DirNode then Err (Ext ''file exists'')
          else if n = DirNode then
            (if has_prefix old new then Err (Ext ''invalid argument'')
             else if dk_look d new \<noteq> None then Err NotDir else Ok ())
          else Ok ())"

definition os_Rename :: "string \<Rightarrow> string \<Rightarrow> (disk, unit) io" where
  "os_Rename oldpath newpath =
     (let old = path_comps oldpath; new = path_comps newpath in
      io_bind (\<lambda>d. if dk_crossdev d then (Err (Ext ''invalid cross-device link''), d) else (Ok (), d)) (\<lambda>_.
      io_bind (dk_access old) (\<lambda>_.
      io_bind (dk_access new) (\<lambda>_.
      io_bind (dk_parents old) (\<lambda>_.
      io_bind (dk_parents new) (\<lambda>_ d.
      if old = new then (Ok (), d)
      else (rename_ok d old new, if rename_ok d old new = Ok () then dk_move old new d else d)))))))"

text \<open>
  \<open>fs.WalkDir\<close> of \<open>os.DirFS(dir)\<close>: the directory as \<open>.\<close>, and what is below it in the order of the
  names; a directory that cannot be read ends the walk.  The function threads a value of the caller.
\<close>

definition rel_path :: "string list \<Rightarrow> string" where
  "rel_path ns = (if ns = [] then ''.'' else slash_join ns)"

definition dk_below :: "string list \<Rightarrow> disk \<Rightarrow> (string list \<times> file_node) list" where
  "dk_below p d =
     map (\<lambda>(q, n). (drop (length p) q, n)) (sort_key fst (filter (\<lambda>x. has_prefix p (fst x) \<and> fst x \<noteq> p) (dk_nodes d)))"

fun walk_entries ::
  "string list \<Rightarrow> (string \<Rightarrow> file_node \<Rightarrow> 'a \<Rightarrow> (disk, 'a) io) \<Rightarrow> (string list \<times> file_node) list \<Rightarrow> 'a \<Rightarrow> (disk, 'a) io" where
  "walk_entries p f [] x = io_ret x"
| "walk_entries p f ((ns, n) # es) x =
     io_bind (f (rel_path ns) n x) (\<lambda>y.
     io_bind (if n = DirNode then dk_access (p @ ns) else io_ret ()) (\<lambda>_.
     walk_entries p f es y))"

definition fs_WalkDir :: "string \<Rightarrow> (string \<Rightarrow> file_node \<Rightarrow> 'a \<Rightarrow> (disk, 'a) io) \<Rightarrow> 'a \<Rightarrow> (disk, 'a) io" where
  "fs_WalkDir dir f x =
     io_bind (os_Stat dir) (\<lambda>n d.
     walk_entries (path_comps dir) f (([], n) # (if n = DirNode then dk_below (path_comps dir) d else [])) x d)"

section \<open>Copying and moving\<close>

definition copyFile :: "string \<Rightarrow> string \<Rightarrow> (disk, unit) io" where
  "copyFile from to = io_bind (os_Open from) (\<lambda>c. io_bind (os_Create to) (\<lambda>_. io_Copy to c))"

definition try_rename :: "bool \<Rightarrow> string \<Rightarrow> string \<Rightarrow> (disk, bool) io" where
  "try_rename copy old new =
     (if copy then io_ret False else io_bind (io_try (os_Rename old new)) (\<lambda>r. io_ret (r = Ok ())))"

definition move_entry :: "string \<Rightarrow> string \<Rightarrow> bool \<Rightarrow> string \<Rightarrow> file_node \<Rightarrow> (disk, unit) io" where
  "move_entry oldDir newDir copy path n =
     (let newPath = path_Join [newDir, path] in
      if n = DirNode then os_MkdirAll newPath
      else
        (let oldPath = path_Join [oldDir, path] in
         io_bind (try_rename copy oldPath newPath) (\<lambda>done.
         if done then io_ret ()
         else io_bind (copyFile oldPath newPath) (\<lambda>_.
           if copy then io_ret () else io_bind (io_try (os_RemoveAll oldPath)) (\<lambda>_. io_ret ())))))"

definition moveDir :: "string \<Rightarrow> string \<Rightarrow> bool \<Rightarrow> (disk, unit) io" where
  "moveDir oldDir newDir copy =
     io_bind (try_rename copy oldDir newDir) (\<lambda>done.
     if done then io_ret () else fs_WalkDir oldDir (\<lambda>path n _. move_entry oldDir newDir copy path n) ())"

definition CopyAll :: "string \<Rightarrow> string \<Rightarrow> (disk, unit) io" where
  "CopyAll oldDir newDir = moveDir oldDir newDir True"

definition MoveAll :: "string \<Rightarrow> string \<Rightarrow> (disk, unit) io" where
  "MoveAll oldDir newDir =
     io_bind (moveDir oldDir newDir False) (\<lambda>_.
     io_bind (io_try (os_Stat oldDir)) (\<lambda>r.
     case r of
       Err e \<Rightarrow> if e = NotExist then io_ret () else io_err e
     | _ \<Rightarrow> os_RemoveAll oldDir))"

definition RemoveIfExists :: "string \<Rightarrow> (disk, unit) io" where
  "RemoveIfExists path =
     io_bind (io_try (os_Stat path)) (\<lambda>r.
     case r of
       Err e \<Rightarrow> if e = NotExist then io_ret () else io_err e
     | _ \<Rightarrow> os_RemoveAll path)"

section \<open>What is on the disk\<close>

lemma dk_look_put: "dk_look (dk_put p n d) q = (if p \<noteq> [] \<and> q = p then Some n else dk_look d q)"
proof -
  have "q \<noteq> p \<Longrightarrow> map_of (filter (\<lambda>x. fst x \<noteq> p) xs) q = map_of xs q" for xs :: "(string list \<times> file_node) list"
    by (induction xs) auto
  then show ?thesis by (auto simp: dk_look_def dk_put_def)
qed

lemma dk_look_drop: "dk_look (dk_drop p d) q = (if q \<noteq> [] \<and> has_prefix p q then None else dk_look d q)"
proof -
  have "map_of (filter (\<lambda>x. \<not> has_prefix p (fst x)) xs) q = (if has_prefix p q then None else map_of xs q)"
    for xs :: "(string list \<times> file_node) list"
    by (induction xs) auto
  then show ?thesis by (auto simp: dk_look_def dk_drop_def)
qed

lemma dk_fields [simp]:
  "dk_fault (dk_put p n d) = dk_fault d" "dk_fault (dk_drop p d) = dk_fault d"
  "dk_crossdev (dk_put p n d) = dk_crossdev d" "dk_crossdev (dk_drop p d) = dk_crossdev d"
  by (simp_all add: dk_put_def dk_drop_def)

end
