(* ===== verification/Archive.thy ===== *)
theory Archive
  imports Disk
begin

text \<open>
  The world of a server as files: the extraction and the archives of
  \<open>mclauncher/middleware/world/service\<close>.  Archives are lists of entries; the codecs (tar, zip,
  zstd, xz) and the making of temporary directories are parameters.
\<close>

section \<open>Extracting\<close>

text \<open>\<open>filepath.Dir\<close>: what is up to the last slash.\<close>

definition path_Dir :: "string \<Rightarrow> string" where
  "path_Dir s = path_Clean (rev (dropWhile (\<lambda>c. c \<noteq> CHR ''/'') (rev s)))"

record file_creator =
  fc_outDir :: string
  fc_tmpDir :: string
  fc_worldFound :: bool
  fc_worldRoot :: string

definition NewFileCreator :: "string \<Rightarrow> string \<Rightarrow> file_creator" where
  "NewFileCreator outDir tmpDir = \<lparr>fc_outDir = outDir, fc_tmpDir = tmpDir, fc_worldFound = False, fc_worldRoot = []\<rparr>"

definition createFile :: "string \<Rightarrow> content \<Rightarrow> (disk, unit) io" where
  "createFile path c =
     io_bind (os_MkdirAll (path_Dir path)) (\<lambda>_. io_bind (os_Create path) (\<lambda>_. io_Copy path c))"

text \<open>The first \<open>level.dat\<close> tells where the world is in the archive.\<close>

definition find_world :: "file_creator \<Rightarrow> string \<Rightarrow> file_creator" where
  "find_world c path =
     (if \<not> fc_worldFound c \<and> has_suffix ''/level.dat'' (path_Join [fc_tmpDir c, path])
      then c\<lparr>fc_worldRoot := trim_suffix ''level.dat'' path, fc_worldFound := True\<rparr> else c)"

definition CreateFile :: "file_creator \<Rightarrow> string \<Rightarrow> bool \<Rightarrow> content \<Rightarrow> (disk, file_creator) io" where
  "CreateFile c path isDir body =
     (let c1 = find_world c path in
      if fc_worldFound c1 \<and> \<not> has_prefix (fc_worldRoot c1) path then io_ret c1
      else
        (let outPath = (if fc_worldFound c1 then path_Join [fc_outDir c1, trim_prefix (fc_worldRoot c1) path]
                        else path_Join [fc_tmpDir c1, path]) in
         io_bind (if isDir then os_MkdirAll outPath else createFile outPath body) (\<lambda>_. io_ret c1)))"

definition Finalize :: "file_creator \<Rightarrow> (disk, unit) io" where
  "Finalize c =
     (if \<not> fc_worldFound c then io_err (Msg ''world was not found'')
      else
        (let dir = path_Join [fc_tmpDir c, fc_worldRoot c] in
         io_bind (io_try (os_Stat dir)) (\<lambda>r.
         if r = Err NotExist then io_ret () else MoveAll dir (fc_outDir c))))"

datatype entry_type = TypeDir | TypeReg | TypeOther

record archive_entry =
  ae_Type :: entry_type
  ae_Name :: string
  ae_Body :: content

text \<open>The entries a reader gives, and the error that ends them (\<open>io.EOF\<close> is none).\<close>

type_synonym archive = "archive_entry list \<times> go_error option"

fun tar_entries :: "file_creator \<Rightarrow> archive_entry list \<Rightarrow> (disk, file_creator) io" where
  "tar_entries c [] = io_ret c"
| "tar_entries c (e # es) =
     (if ae_Type e = TypeOther then io_err (Msg ''unsupported header type'')
      else io_bind (CreateFile c (ae_Name e) (ae_Type e = TypeDir) (ae_Body e)) (\<lambda>c1. tar_entries c1 es))"

definition tar_Unarchive :: "archive \<Rightarrow> file_creator \<Rightarrow> (disk, file_creator) io" where
  "tar_Unarchive a c =
     io_bind (tar_entries c (fst a)) (\<lambda>c1. case snd a of None \<Rightarrow> io_ret c1 | Some e \<Rightarrow> io_err e)"

text \<open>A ZIP file is saved first; each of its files is opened on its own.\<close>

fun zip_entries :: "file_creator \<Rightarrow> (string \<times> content res) list \<Rightarrow> (disk, file_creator) io" where
  "zip_entries c [] = io_ret c"
| "zip_entries c ((name, body) # es) =
     (if has_suffix ''/'' name then io_bind (CreateFile c name True ([], None)) (\<lambda>c1. zip_entries c1 es)
      else io_bind (io_lift body) (\<lambda>b. io_bind (CreateFile c name False b) (\<lambda>c1. zip_entries c1 es)))"

definition io_finally :: "('w, 'a) io \<Rightarrow> ('w, unit) io \<Rightarrow> ('w, 'a) io" where
  "io_finally m f w = (case m w of (r, w1) \<Rightarrow> (r, snd (f w1)))"

definition zip_Unarchive ::
  "(string \<Rightarrow> (string \<times> content res) list res) \<Rightarrow> string \<Rightarrow> content \<Rightarrow> file_creator \<Rightarrow> (disk, file_creator) io" where
  "zip_Unarchive unzip tmpDir r c =
     (let tmpPath = path_Join [tmpDir, ''tmp.zip''] in
      io_bind (os_Create tmpPath) (\<lambda>_.
      io_bind (io_Copy tmpPath r) (\<lambda>_.
      io_finally (io_bind (io_lift (unzip (fst r))) (zip_entries c)) (os_RemoveAll tmpPath))))"

text \<open>The codecs, and the pipeline chosen by the name of the archive.\<close>

record codecs =
  cd_zstd :: "content \<Rightarrow> content res"
  cd_xz :: "content \<Rightarrow> content res"
  cd_untar :: "content \<Rightarrow> archive"
  cd_unzip :: "string \<Rightarrow> (string \<times> content res) list res"
  cd_archive :: "archive_entry list \<Rightarrow> string"

datatype unarchiver = UnZip string | UnTarXz | UnTarZst

definition getExtractionPipeline ::
  "(disk, string) io \<Rightarrow> string \<Rightarrow> string \<Rightarrow> (disk, unarchiver \<times> file_creator) io" where
  "getExtractionPipeline mkdtemp outDir resourceID =
     io_bind mkdtemp (\<lambda>tmpDir.
     let c = NewFileCreator outDir tmpDir in
     if has_suffix ''.zip'' resourceID then io_bind mkdtemp (\<lambda>zipDir. io_ret (UnZip zipDir, c))
     else if has_suffix ''.tar.xz'' resourceID then io_ret (UnTarXz, c)
     else if has_suffix ''.tar.zst'' resourceID then io_ret (UnTarZst, c)
     else io_err (Msg ''unsupported archive type''))"

definition pipeline_Run :: "codecs \<Rightarrow> unarchiver \<times> file_creator \<Rightarrow> content \<Rightarrow> (disk, unit) io" where
  "pipeline_Run K p r =
     io_bind (case fst p of
         UnZip tmpDir \<Rightarrow> zip_Unarchive (cd_unzip K) tmpDir r (snd p)
       | UnTarXz \<Rightarrow> io_bind (io_lift (cd_xz K r)) (\<lambda>s. tar_Unarchive (cd_untar K s) (snd p))
       | UnTarZst \<Rightarrow> io_bind (io_lift (cd_zstd K r)) (\<lambda>s. tar_Unarchive (cd_untar K s) (snd p)))
     Finalize"

section \<open>Archiving\<close>

text \<open>A directory, and a file whose contents are read to their end.\<close>

definition dir_entry :: "string \<Rightarrow> archive_entry" where
  "dir_entry name = \<lparr>ae_Type = TypeDir, ae_Name = name, ae_Body = ([], None)\<rparr>"

definition file_entry :: "string \<Rightarrow> content \<Rightarrow> (disk, archive_entry) io" where
  "file_entry name c =
     (case snd c of None \<Rightarrow> io_ret \<lparr>ae_Type = TypeReg, ae_Name = name, ae_Body = c\<rparr> | Some e \<Rightarrow> io_err e)"

definition tar_visit ::
  "string \<Rightarrow> string \<Rightarrow> bool \<Rightarrow> string \<Rightarrow> file_node \<Rightarrow> archive_entry list \<Rightarrow> (disk, archive_entry list) io" where
  "tar_visit baseDir dir levelDatWritten path n es =
     (if levelDatWritten \<and> (path = ''.'' \<or> path = ''level.dat'') then io_ret es
      else
        (let name = path_Join [dir, path] in
         case n of
           DirNode \<Rightarrow> io_ret (es @ [dir_entry name])
         | FileNode _ \<Rightarrow>
             io_bind (os_Open (path_Join [baseDir, dir, path])) (\<lambda>c.
             io_bind (file_entry name c) (\<lambda>e. io_ret (es @ [e])))
         | OtherNode \<Rightarrow> io_err (Msg ''unsupported file type'')))"

text \<open>\<open>level.dat\<close> comes first, after the directory it is in.\<close>

definition tar_dir :: "string \<Rightarrow> string \<Rightarrow> archive_entry list \<Rightarrow> (disk, archive_entry list) io" where
  "tar_dir baseDir dir es =
     io_bind (io_try (os_Open (path_Join [baseDir, dir, ''level.dat'']))) (\<lambda>r.
     case r of
       Ok c \<Rightarrow>
         io_bind (file_entry (path_Join [dir, ''level.dat'']) c) (\<lambda>e.
         fs_WalkDir (path_Join [baseDir, dir]) (tar_visit baseDir dir True) (es @ [dir_entry dir, e]))
     | _ \<Rightarrow> fs_WalkDir (path_Join [baseDir, dir]) (tar_visit baseDir dir False) es)"

fun writeTar :: "string \<Rightarrow> string list \<Rightarrow> archive_entry list \<Rightarrow> (disk, archive_entry list) io" where
  "writeTar baseDir [] es = io_ret es"
| "writeTar baseDir (dir # dirs) es = io_bind (tar_dir baseDir dir es) (writeTar baseDir dirs)"

definition createArchive :: "codecs \<Rightarrow> (disk, string) io \<Rightarrow> string \<Rightarrow> (disk, string) io" where
  "createArchive K mkdtemp gamedata =
     io_bind mkdtemp (\<lambda>tmpDir.
     let path = path_Join [tmpDir, ''world.tar.zst''] in
     io_bind (os_Create path) (\<lambda>_.
     io_bind (wrap_error ''failed to create tar'' (writeTar gamedata [''world''] [])) (\<lambda>es.
     io_bind (io_Copy path (cd_archive K es, None)) (\<lambda>_. io_ret path))))"

section \<open>A world survives the transfer\<close>

definition clear_disk :: "disk \<Rightarrow> bool" where
  "clear_disk d = (\<forall>p. dk_fault d p = None)"

text \<open>Nothing but directories on the way to \<open>p\<close>, so far as there is anything.\<close>

definition way_free :: "disk \<Rightarrow> string list \<Rightarrow> bool" where
  "way_free d p = (\<forall>q. has_prefix q p \<longrightarrow> dk_look d q = None \<or> dk_look d q = Some DirNode)"

lemma clear_put [simp]: "clear_disk (dk_put p n d) = clear_disk d" "clear_disk (dk_drop p d) = clear_disk d"
  by (simp_all add: clear_disk_def)

lemma clear_access [simp]: "clear_disk d \<Longrightarrow> dk_access p d = (Ok (), d)"
  by (simp add: dk_access_def clear_disk_def)

lemma prefix_take: "has_prefix q p \<longleftrightarrow> (\<exists>i \<le> length p. q = take i p)"
  by (metis has_prefix_def length_take linear min.absorb2 take_all_iff)

lemma prefix_length: "has_prefix q p \<Longrightarrow> length q \<le> length p"
  by (auto simp: prefix_take)

lemma has_prefix_refl [simp]: "has_prefix p p"
  by (simp add: has_prefix_def)

lemma has_prefix_Nil [simp]: "has_prefix [] p"
  by (simp add: has_prefix_def)

lemma has_prefix_trans: "has_prefix a b \<Longrightarrow> has_prefix b c \<Longrightarrow> has_prefix a c"
  by (metis has_prefix_def append_eq_conv_conj append.assoc has_prefixE)

lemma mkdirs_run:
  assumes "clear_disk d" and "\<And>q. q \<in> set qs \<Longrightarrow> dk_look d q = None \<or> dk_look d q = Some DirNode"
  shows "\<exists>d'. os_mkdirs qs d = (Ok (), d') \<and> clear_disk d' \<and> dk_crossdev d' = dk_crossdev d
    \<and> (\<forall>q. dk_look d' q = (if q \<in> set qs then Some DirNode else dk_look d q))"
  using assms
proof (induction qs arbitrary: d)
  case (Cons q qs)
  obtain d1 where d1: "os_mkdir_one q d = (Ok (), d1)" "clear_disk d1" "dk_crossdev d1 = dk_crossdev d"
    "\<forall>p. dk_look d1 p = (if p = q then Some DirNode else dk_look d p)"
  proof (cases "dk_look d q")
    case None
    then have "q \<noteq> []" by (auto simp: dk_look_def)
    with None Cons.prems(1) show ?thesis
      by (intro that [of "dk_put q DirNode d"]) (simp_all add: os_mkdir_one_def io_bind_def dk_look_put)
  next
    case (Some n)
    with Cons.prems(1) Cons.prems(2) [of q] show ?thesis by (intro that [of d]) (simp_all add: os_mkdir_one_def)
  qed
  then obtain d2 where "os_mkdirs qs d1 = (Ok (), d2)" "clear_disk d2" "dk_crossdev d2 = dk_crossdev d1"
    "\<forall>p. dk_look d2 p = (if p \<in> set qs then Some DirNode else dk_look d1 p)"
    using Cons.IH [of d1] Cons.prems(2) by (metis list.set_intros(2))
  then show ?case using d1 by (auto simp: io_bind_def)
qed (simp add: io_ret_def)

lemma MkdirAll_run:
  assumes "clear_disk d" and "way_free d (path_comps path)"
  shows "\<exists>d'. os_MkdirAll path d = (Ok (), d') \<and> clear_disk d' \<and> dk_crossdev d' = dk_crossdev d
    \<and> (\<forall>q. dk_look d' q = (if has_prefix q (path_comps path) then Some DirNode else dk_look d q))"
proof -
  let ?p = "path_comps path"
  let ?qs = "map (\<lambda>i. take (Suc i) ?p) [0..<length ?p]"
  have qs: "q \<in> set ?qs \<longleftrightarrow> q \<noteq> [] \<and> has_prefix q ?p" for q
  proof
    assume "q \<noteq> [] \<and> has_prefix q ?p"
    then obtain i where "i \<le> length ?p" "q = take i ?p" "i \<noteq> 0" by (auto simp: prefix_take)
    then show "q \<in> set ?qs" by (cases i) auto
  qed (auto simp: prefix_take, metis Suc_leI)
  have "dk_look d q = None \<or> dk_look d q = Some DirNode" if "q \<in> set ?qs" for q
    using that assms(2) qs by (simp add: way_free_def)
  from mkdirs_run [OF assms(1) this] obtain d' where d': "os_mkdirs ?qs d = (Ok (), d')" "clear_disk d'"
    "dk_crossdev d' = dk_crossdev d" "\<forall>q. dk_look d' q = (if q \<in> set ?qs then Some DirNode else dk_look d q)"
    by blast
  have "\<forall>q. dk_look d' q = (if has_prefix q ?p then Some DirNode else dk_look d q)"
    using d'(4) qs by (auto simp: dk_look_def)
  then show ?thesis using d' by (auto simp: os_MkdirAll_def Let_def)
qed

lemma slash_join_snoc: "ps \<noteq> [] \<Longrightarrow> slash_join (ps @ [x]) = slash_join ps @ ''/'' @ x"
  by (induction ps rule: slash_join.induct) auto

lemma Join_rooted: "rooted d \<Longrightarrow> path_Join [d, r] = ''/'' @ slash_join (path_comps (path_Join [d, r]))"
proof -
  assume d: "rooted d"
  then have "d \<noteq> []" by (auto simp: rooted_def has_prefix_def)
  then have "\<exists>x. path_Join [d, r] = path_Clean x \<and> rooted x"
    using d rooted_append [OF d, of "''/'' @ r"] by (auto simp: Join_two)
  then show ?thesis using Clean_rooted comps_Clean by metis
qed

lemma comps_Dir:
  assumes "list_all plain_name (ps @ [x])"
  shows "path_comps (path_Dir (''/'' @ slash_join (ps @ [x]))) = ps"
proof -
  have x: "CHR ''/'' \<notin> set x" using assms by (simp add: plain_name_def)
  have cut: "rev (dropWhile (\<lambda>c. c \<noteq> CHR ''/'') (rev (u @ CHR ''/'' # x))) = u @ ''/''" for u
  proof -
    have "dropWhile (\<lambda>c. c \<noteq> CHR ''/'') (rev x @ CHR ''/'' # rev u) = CHR ''/'' # rev u"
      using x by (subst dropWhile_append2) auto
    then show ?thesis by simp
  qed
  show ?thesis
  proof (cases "ps = []")
    case True
    then have "path_Dir (''/'' @ slash_join (ps @ [x])) = path_Clean ''/''" using cut [of "[]"] by (simp add: path_Dir_def)
    then show ?thesis using True comps_Clean [of "''/''"] path_comps_names [of "[]"] by (simp add: rooted_def has_prefix_def)
  next
    case False
    have ps: "list_all plain_name ps" using assms by simp
    have "path_Dir (''/'' @ slash_join (ps @ [x])) = path_Clean ((''/'' @ slash_join ps) @ ''/'')"
      using cut [of "''/'' @ slash_join ps"] False by (simp add: path_Dir_def slash_join_snoc)
    moreover have "rooted ((''/'' @ slash_join ps) @ ''/'')" by (simp add: rooted_def has_prefix_def)
    moreover have "path_comps ((''/'' @ slash_join ps) @ ''/'') = ps"
      using comps_slash [of "''/'' @ slash_join ps" "[]"] path_comps_names [OF ps] by (simp add: str_split_Nil clean_push_def)
    ultimately show ?thesis by (simp add: comps_Clean)
  qed
qed

lemma parents_ok:
  assumes "\<And>q. has_prefix q ps \<Longrightarrow> dk_look d q = Some DirNode"
  shows "dk_parents (ps @ [x]) d = (Ok (), d)"
proof -
  have "has_prefix q ps" if "q \<in> set (map (\<lambda>i. take i (ps @ [x])) [0..<length (ps @ [x])])" for q
  proof -
    from that obtain i where "q = take i (ps @ [x])" "i \<in> set [0..<length (ps @ [x])]" unfolding set_map by (rule imageE)
    then have "i \<le> length ps" "q = take i ps" by auto
    then show ?thesis unfolding prefix_take by blast
  qed
  then have "find (\<lambda>q. dk_look d q \<noteq> Some DirNode) (map (\<lambda>i. take i (ps @ [x])) [0..<length (ps @ [x])]) = None"
    using assms unfolding find_None_iff by blast
  then show ?thesis by (simp add: dk_parents_def)
qed

lemma createFile_run:
  assumes clear: "clear_disk d" and path: "path = ''/'' @ slash_join (ps @ [x])" "list_all plain_name (ps @ [x])"
    and free: "way_free d ps" and new: "dk_look d (ps @ [x]) \<noteq> Some DirNode"
  shows "\<exists>d'. createFile path (s, None) d = (Ok (), d') \<and> clear_disk d' \<and> dk_crossdev d' = dk_crossdev d
    \<and> (\<forall>q. dk_look d' q = (if q = ps @ [x] then Some (FileNode s) else if has_prefix q ps then Some DirNode else dk_look d q))"
proof -
  have c: "path_comps (path_Dir path) = ps" "path_comps path = ps @ [x]"
    using comps_Dir [OF path(2)] path_comps_names [OF path(2)] path(1) by simp_all
  obtain d1 where d1: "os_MkdirAll (path_Dir path) d = (Ok (), d1)" "clear_disk d1" "dk_crossdev d1 = dk_crossdev d"
    "\<forall>q. dk_look d1 q = (if has_prefix q ps then Some DirNode else dk_look d q)"
    using MkdirAll_run [OF clear, of "path_Dir path"] free unfolding c by blast
  have "\<not> has_prefix (ps @ [x]) ps" by (simp add: has_prefix_def)
  then have "dk_look d1 (ps @ [x]) \<noteq> Some DirNode" using d1(4) new by simp
  moreover have "dk_parents (ps @ [x]) d1 = (Ok (), d1)" by (rule parents_ok) (simp add: d1(4))
  ultimately have "createFile path (s, None) d = (Ok (), dk_put (ps @ [x]) (FileNode s) (dk_put (ps @ [x]) (FileNode []) d1))"
    using d1(1,2) by (simp add: createFile_def io_bind_def os_Create_def c io_Copy_def Let_def)
  then show ?thesis using d1 by (auto simp: dk_look_put)
qed

lemma prefix_append_same [simp]: "has_prefix (o1 @ a) (o1 @ b) = has_prefix a b"
  by (simp add: has_prefix_def)

lemma prefix_append_cases:
  assumes "has_prefix r (o1 @ q)"
  obtains "has_prefix r o1" | q' where "r = o1 @ q'" "has_prefix q' q"
proof (cases "length r \<le> length o1")
  case True
  then show ?thesis using assms that(1) by (simp add: has_prefix_def)
next
  case False
  then have "r = o1 @ take (length r - length o1) q" using assms by (simp add: has_prefix_def)
  moreover have "has_prefix (take (length r - length o1) q) q" by (auto simp: prefix_take) (metis nat_le_linear take_all)
  ultimately show ?thesis using that(2) by blast
qed

text \<open>The tree below a directory, as it is archived: a world with \<open>level.dat\<close>, directories and files.\<close>

definition tree_at :: "disk \<Rightarrow> string list \<Rightarrow> string list \<Rightarrow> file_node option" where
  "tree_at d p q = dk_look d (p @ q)"

definition world_tree :: "(string list \<Rightarrow> file_node option) \<Rightarrow> bool" where
  "world_tree T = (T [] = Some DirNode \<and> (\<exists>s. T [''level.dat''] = Some (FileNode s))
     \<and> (\<forall>q n. T q = Some n \<longrightarrow> n \<noteq> OtherNode \<and> list_all plain_name q \<and> (\<forall>r. has_prefix r q \<and> r \<noteq> q \<longrightarrow> T r = Some DirNode)))"

definition entry_for :: "string list \<times> file_node \<Rightarrow> archive_entry" where
  "entry_for e =
     (case snd e of
        FileNode s \<Rightarrow> \<lparr>ae_Type = TypeReg, ae_Name = ''world/'' @ slash_join (fst e), ae_Body = (s, None)\<rparr>
      | _ \<Rightarrow> dir_entry (''world/'' @ slash_join (fst e)))"

text \<open>A disk on which the tree is being built: part of it, and nothing that is not in it.\<close>

definition building :: "(string list \<Rightarrow> file_node option) \<Rightarrow> string list \<Rightarrow> disk \<Rightarrow> bool" where
  "building T o1 d = (clear_disk d \<and> (\<forall>q. tree_at d o1 q = None \<or> tree_at d o1 q = T q)
     \<and> (\<forall>r. has_prefix r o1 \<longrightarrow> dk_look d r = Some DirNode))"

definition built :: "string list \<Rightarrow> disk \<Rightarrow> disk \<Rightarrow> bool" where
  "built o1 d d' = (dk_crossdev d' = dk_crossdev d
     \<and> (\<forall>p. tree_at d o1 p \<noteq> None \<longrightarrow> tree_at d' o1 p \<noteq> None) \<and> (\<forall>p. \<not> has_prefix o1 p \<longrightarrow> dk_look d' p = dk_look d p))"

lemma built_trans: "built o1 a b \<Longrightarrow> built o1 b c \<Longrightarrow> built o1 a c"
  by (simp add: built_def)

lemma building_way_free:
  assumes T: "world_tree T" and b: "building T o1 d" and q: "T q = Some n" and r: "has_prefix r q" "r \<noteq> q \<or> n = DirNode"
  shows "way_free d (o1 @ r)"
  unfolding way_free_def
proof (intro allI impI)
  fix p assume "has_prefix p (o1 @ r)"
  then show "dk_look d p = None \<or> dk_look d p = Some DirNode"
  proof (cases rule: prefix_append_cases)
    case 1
    then show ?thesis using b by (simp add: building_def)
  next
    case (2 q')
    then have "has_prefix q' q" using has_prefix_trans r(1) by blast
    moreover have "q' \<noteq> q \<or> n = DirNode" using 2 r by (metis has_prefix_def take_all_iff length_take min.absorb_iff1 nat_le_linear)
    ultimately have "T q' = Some DirNode" using T q unfolding world_tree_def by (metis option.sel)
    then show ?thesis using b 2 unfolding building_def tree_at_def by metis
  qed
qed

lemma building_mkdir:
  assumes T: "world_tree T" and b: "building T o1 d" and q: "T q = Some DirNode" and p: "path_comps path = o1 @ q"
  shows "\<exists>d'. os_MkdirAll path d = (Ok (), d') \<and> building T o1 d' \<and> built o1 d d' \<and> tree_at d' o1 q = T q"
proof -
  have "way_free d (path_comps path)" unfolding p by (rule building_way_free [OF T b q]) simp_all
  then obtain d' where d': "os_MkdirAll path d = (Ok (), d')" "clear_disk d'" "dk_crossdev d' = dk_crossdev d"
    "\<forall>r. dk_look d' r = (if has_prefix r (o1 @ q) then Some DirNode else dk_look d r)"
    using MkdirAll_run [of d path] b unfolding building_def p by blast
  have sub: "T r = Some DirNode" if "has_prefix r q" for r
    using T q that unfolding world_tree_def by (metis option.sel)
  have "building T o1 d'"
    using b d'(2,4) sub unfolding building_def tree_at_def by (auto intro: has_prefix_trans [of _ o1] simp: has_prefix_append)
  moreover have "built o1 d d'" using b d'(3,4) unfolding built_def tree_at_def building_def
    by (auto elim: prefix_append_cases simp: has_prefix_append)
  ultimately show ?thesis using d' q by (auto simp: tree_at_def)
qed

lemma building_file:
  assumes T: "world_tree T" and b: "building T o1 d" and q: "T q = Some (FileNode s)" and o1: "list_all plain_name o1"
    and p: "path = ''/'' @ slash_join (o1 @ q)"
  shows "\<exists>d'. createFile path (s, None) d = (Ok (), d') \<and> building T o1 d' \<and> built o1 d d' \<and> tree_at d' o1 q = T q"
proof -
  have "q \<noteq> []" using T q by (auto simp: world_tree_def)
  then obtain ps x where qs: "q = ps @ [x]" by (metis rev_exhaust)
  have "list_all plain_name q" using T q unfolding world_tree_def by blast
  then have names: "list_all plain_name ((o1 @ ps) @ [x])" using o1 qs by simp
  have ps: "has_prefix ps q" "ps \<noteq> q" using qs by simp_all
  have "way_free d (o1 @ ps)" using building_way_free [OF T b q ps(1)] ps(2) by blast
  moreover have "dk_look d ((o1 @ ps) @ [x]) \<noteq> Some DirNode"
    using b q qs unfolding building_def tree_at_def by (metis append.assoc file_node.distinct(1) option.distinct(1) option.inject)
  ultimately obtain d' where d': "createFile path (s, None) d = (Ok (), d')" "clear_disk d'" "dk_crossdev d' = dk_crossdev d"
    "\<forall>r. dk_look d' r = (if r = o1 @ q then Some (FileNode s) else if has_prefix r (o1 @ ps) then Some DirNode else dk_look d r)"
    using createFile_run [of d path "o1 @ ps" x s] b p names unfolding building_def qs by auto
  have sub: "T r = Some DirNode" if "has_prefix r ps" for r
  proof -
    have "length r \<le> length ps" using that by (rule prefix_length)
    then have "has_prefix r q" "r \<noteq> q" using has_prefix_trans [OF that ps(1)] qs by auto
    then show ?thesis using T q unfolding world_tree_def by metis
  qed
  have short: "\<not> has_prefix (o1 @ q) r" if "has_prefix r o1" for r
    using prefix_length [OF that] prefix_length [of "o1 @ q" r] qs by auto
  have "tree_at d' o1 r = None \<or> tree_at d' o1 r = T r" for r
    using b d'(4) sub [of r] q unfolding building_def tree_at_def by auto
  moreover have "dk_look d' r = Some DirNode" if "has_prefix r o1" for r
    using b d'(4) that short [OF that] unfolding building_def by auto
  ultimately have "building T o1 d'" using d'(2) by (simp add: building_def)
  moreover have "built o1 d d'" using b d'(3,4) unfolding built_def tree_at_def building_def
    by (auto elim: prefix_append_cases)
  ultimately show ?thesis using d' q by (auto simp: tree_at_def)
qed

text \<open>What the creator does with an entry of the world, once the world is found.\<close>

definition in_world_of :: "file_creator \<Rightarrow> bool" where
  "in_world_of c = (fc_worldFound c \<and> fc_worldRoot c = ''world/'' \<and> rooted (fc_outDir c))"

lemma CreateFile_in_world:
  assumes T: "world_tree T" and b: "building T (path_comps (fc_outDir c)) d" and c: "in_world_of c"
    and q: "T q = Some n" "q \<noteq> []"
  shows "\<exists>d'. CreateFile c (ae_Name (entry_for (q, n))) (ae_Type (entry_for (q, n)) = TypeDir) (ae_Body (entry_for (q, n))) d = (Ok c, d')
    \<and> building T (path_comps (fc_outDir c)) d' \<and> built (path_comps (fc_outDir c)) d d' \<and> tree_at d' (path_comps (fc_outDir c)) q = T q"
proof -
  let ?o = "path_comps (fc_outDir c)" and ?path = "path_Join [fc_outDir c, slash_join q]"
  have names: "list_all plain_name q" "n \<noteq> OtherNode" using T q by (auto simp: world_tree_def)
  have comps: "path_comps ?path = ?o @ q" using comps_Join_names [OF _ q(2) names(1)] c by (simp add: in_world_of_def)
  moreover have "?path = ''/'' @ slash_join (path_comps ?path)" using Join_rooted c unfolding in_world_of_def by blast
  ultimately have path: "?path = ''/'' @ slash_join (?o @ q)" by metis
  have name: "ae_Name (entry_for (q, n)) = ''world/'' @ slash_join q"
    by (cases n) (simp_all add: entry_for_def dir_entry_def)
  have run: "CreateFile c (''world/'' @ slash_join q) isDir body d =
      io_bind (if isDir then os_MkdirAll ?path else createFile ?path body) (\<lambda>_. io_ret c) d" for isDir body
    using c trim_prefix_append [of "''world/''" "slash_join q"] has_prefix_append [of "''world/''" "slash_join q"]
    by (simp add: CreateFile_def find_world_def in_world_of_def Let_def del: append.simps)
  show ?thesis
  proof (cases n)
    case DirNode
    then have "ae_Type (entry_for (q, n)) = TypeDir" by (simp add: entry_for_def dir_entry_def)
    then show ?thesis
      using building_mkdir [OF T b _ comps] q(1) DirNode unfolding name run by (auto simp: io_bind_def io_ret_def)
  next
    case (FileNode s)
    then have "ae_Type (entry_for (q, n)) = TypeReg" "ae_Body (entry_for (q, n)) = (s, None)" by (simp_all add: entry_for_def)
    then show ?thesis
      using building_file [OF T b _ path_comps_plain path] q(1) FileNode unfolding name run by (auto simp: io_bind_def io_ret_def)
  next
    case OtherNode
    with names show ?thesis by simp
  qed
qed

lemma tar_entries_in_world:
  assumes T: "world_tree T" and "building T (path_comps (fc_outDir c)) d" and c: "in_world_of c"
    and "\<And>q n. (q, n) \<in> set es \<Longrightarrow> T q = Some n \<and> q \<noteq> []"
  shows "\<exists>d'. tar_entries c (map entry_for es) d = (Ok c, d') \<and> building T (path_comps (fc_outDir c)) d'
    \<and> built (path_comps (fc_outDir c)) d d' \<and> (\<forall>(q, n) \<in> set es. tree_at d' (path_comps (fc_outDir c)) q = Some n)"
  using assms(2,4)
proof (induction es arbitrary: d)
  case Nil
  then show ?case by (auto simp: io_ret_def built_def)
next
  case (Cons e es)
  obtain q n where e: "e = (q, n)" by (cases e)
  let ?o = "path_comps (fc_outDir c)"
  obtain d1 where d1: "CreateFile c (ae_Name (entry_for e)) (ae_Type (entry_for e) = TypeDir) (ae_Body (entry_for e)) d = (Ok c, d1)"
    "building T ?o d1" "built ?o d d1" "tree_at d1 ?o q = T q"
    using CreateFile_in_world [OF T Cons.prems(1) c] Cons.prems(2) [of q n] e by auto
  obtain d2 where d2: "tar_entries c (map entry_for es) d1 = (Ok c, d2)" "building T ?o d2" "built ?o d1 d2"
    "\<forall>(q, n) \<in> set es. tree_at d2 ?o q = Some n"
    using Cons.IH [OF d1(2)] Cons.prems(2) by auto
  have "ae_Type (entry_for e) \<noteq> TypeOther"
    by (cases e, cases "snd e") (simp_all add: entry_for_def dir_entry_def)
  then have "tar_entries c (map entry_for (e # es)) d = (Ok c, d2)" using d1(1) d2(1) by (simp add: io_bind_def)
  moreover have "tree_at d2 ?o q = Some n"
    using d1(4) d2(2,3) Cons.prems(2) [of q n] e unfolding built_def building_def by (metis list.set_intros(1) option.distinct(1))
  ultimately show ?case using d2 built_trans [OF d1(3) d2(3)] e by auto
qed

section \<open>Writing the archive\<close>

lemma Clean_names:
  assumes "ns \<noteq> []" and "list_all plain_name ns"
  shows "path_Clean (slash_join ns) = slash_join ns"
proof -
  obtain n ms where ns: "ns = n # ms" using assms(1) by (cases ns) auto
  obtain c cs where n: "n = c # cs" "c \<noteq> CHR ''/''" using assms(2) ns by (cases n) (auto simp: plain_name_def)
  have first: "\<exists>r. slash_join ns = c # r" using ns n by (cases ms) auto
  have "\<not> has_prefix ''/'' (slash_join ns)" using first n(2) by (auto simp: has_prefix_def)
  then show ?thesis using first split_slash_join [OF assms] clean_push_names [OF assms(2), of False "[]"]
    by (auto simp: path_Clean_def Let_def)
qed

lemma slash_join_append: "ns \<noteq> [] \<Longrightarrow> slash_join (n # ns) = n @ ''/'' @ slash_join ns"
  by (cases ns) simp_all

lemma slash_join_not_Nil: "ns \<noteq> [] \<Longrightarrow> list_all plain_name ns \<Longrightarrow> slash_join ns \<noteq> []"
  by (cases ns; cases "tl ns") (auto simp: plain_name_def)

lemma slash_join_eq:
  "ns \<noteq> [] \<Longrightarrow> list_all plain_name ns \<Longrightarrow> ms \<noteq> [] \<Longrightarrow> list_all plain_name ms \<Longrightarrow> slash_join ns = slash_join ms \<longleftrightarrow> ns = ms"
  by (metis split_slash_join)

lemma plain_names: "plain_name ''world''" "plain_name ''level.dat''"
  by (simp_all add: plain_name_def)

lemma Join_world:
  assumes "q \<noteq> []" and "list_all plain_name q"
  shows "path_Join [''world'', slash_join q] = ''world/'' @ slash_join q"
proof -
  have "path_Join [''world'', slash_join q] = path_Clean (slash_join (''world'' # q))"
    using slash_join_not_Nil [OF assms] slash_join_append [OF assms(1), of "''world''"] by (simp add: path_Join_def Let_def)
  also have "\<dots> = slash_join (''world'' # q)" by (rule Clean_names) (simp_all add: assms(2) plain_names)
  finally show ?thesis using slash_join_append [OF assms(1), of "''world''"] by simp
qed

lemma Join_in_world:
  assumes "rooted base" and "q \<noteq> []" and "list_all plain_name q"
  shows "path_comps (path_Join [base, ''world'', slash_join q]) = (path_comps base @ [''world'']) @ q"
proof -
  have "base \<noteq> []" using assms(1) by (auto simp: rooted_def has_prefix_def)
  then have "path_Join [base, ''world'', slash_join q] = path_Join [base, slash_join (''world'' # q)]"
    using slash_join_not_Nil [OF assms(2,3)] slash_join_append [OF assms(2), of "''world''"] by (simp add: path_Join_def Let_def)
  then show ?thesis using comps_Join_names [OF assms(1), of "''world'' # q"] assms(3) plain_names by simp
qed

lemma Stat_in_tree:
  assumes "clear_disk d" and T: "world_tree (tree_at d w)" and w: "\<And>r. has_prefix r w \<Longrightarrow> dk_look d r = Some DirNode"
    and q: "tree_at d w q = Some n" and p: "path_comps path = w @ q"
  shows "os_Stat path d = (Ok n, d)"
proof -
  have "dk_parents (w @ q) d = (Ok (), d)"
  proof (cases "w @ q = []")
    case False
    then obtain ps x where ps: "w @ q = ps @ [x]" by (metis rev_exhaust)
    have "dk_look d r = Some DirNode" if "has_prefix r ps" for r
    proof -
      have "has_prefix r (w @ q)" "r \<noteq> w @ q" using that ps prefix_length [OF that] has_prefix_trans [of r ps] by auto
      then show ?thesis
      proof (cases rule: prefix_append_cases)
        case 1
        then show ?thesis by (rule w)
      next
        case (2 q')
        then have "tree_at d w q' = Some DirNode"
          using T q \<open>r \<noteq> w @ q\<close> unfolding world_tree_def by blast
        then show ?thesis using 2 by (simp add: tree_at_def)
      qed
    qed
    then show ?thesis unfolding ps by (rule parents_ok)
  qed (simp add: dk_parents_def)
  then show ?thesis using assms(1) q by (simp add: os_Stat_def io_bind_def p tree_at_def)
qed

lemma dk_below_set:
  assumes "distinct (map fst (dk_nodes d))"
  shows "(q, n) \<in> set (dk_below w d) \<longleftrightarrow> q \<noteq> [] \<and> tree_at d w q = Some n"
proof -
  have "(q, n) \<in> set (dk_below w d) \<longleftrightarrow> (\<exists>p. (p, n) \<in> set (dk_nodes d) \<and> has_prefix w p \<and> p \<noteq> w \<and> q = drop (length w) p)"
    by (auto simp: dk_below_def image_iff)
  also have "\<dots> \<longleftrightarrow> q \<noteq> [] \<and> (w @ q, n) \<in> set (dk_nodes d)"
    by (auto elim!: has_prefixE)
  also have "\<dots> \<longleftrightarrow> q \<noteq> [] \<and> tree_at d w q = Some n"
    using assms by (auto simp: tree_at_def dk_look_def)
  finally show ?thesis .
qed

lemma walk_world:
  assumes clear: "clear_disk d" and T: "world_tree (tree_at d w)" and w: "\<And>r. has_prefix r w \<Longrightarrow> dk_look d r = Some DirNode"
    and base: "rooted base" "w = path_comps base @ [''world'']"
    and "\<And>q n. (q, n) \<in> set es \<Longrightarrow> q \<noteq> [] \<and> tree_at d w q = Some n"
  shows "walk_entries w (tar_visit base ''world'' True) es acc d
    = (Ok (acc @ map entry_for (filter (\<lambda>e. fst e \<noteq> [''level.dat'']) es)), d)"
  using assms(6)
proof (induction es arbitrary: acc)
  case (Cons e es)
  obtain q n where e: "e = (q, n)" by (cases e)
  have q: "q \<noteq> []" "tree_at d w q = Some n" "list_all plain_name q" "n \<noteq> OtherNode"
    using Cons.prems [of q n] e T unfolding world_tree_def by auto
  have rel: "rel_path q = slash_join q" using q(1) by (simp add: rel_path_def)
  have special: "slash_join q = ''level.dat'' \<longleftrightarrow> q = [''level.dat'']"
    using slash_join_eq [OF q(1,3), of "[''level.dat'']"] plain_names by simp
  have dot: "slash_join q \<noteq> ''.''"
    using slash_join_eq [OF q(1,3), of "[''level.dat'']"] split_slash_join [OF q(1,3)] q(3)
    by (auto simp: plain_name_def str_split_one)
  have visit: "tar_visit base ''world'' True (slash_join q) n acc d =
      (Ok (acc @ (if q = [''level.dat''] then [] else [entry_for (q, n)])), d)" for acc
  proof (cases n)
    case DirNode
    then show ?thesis using special dot Join_world [OF q(1,3)]
      by (simp add: tar_visit_def entry_for_def dir_entry_def Let_def io_ret_def)
  next
    case (FileNode s)
    have "os_Stat (path_Join [base, ''world'', slash_join q]) d = (Ok n, d)"
      using Stat_in_tree [OF clear T w q(2)] Join_in_world [OF base(1) q(1,3)] base(2) by simp
    then show ?thesis using FileNode special dot Join_world [OF q(1,3)]
      by (simp add: tar_visit_def entry_for_def file_entry_def os_Open_def Let_def io_ret_def io_bind_def)
  qed (use q(4) in simp)
  have access: "(if n = DirNode then dk_access (w @ q) else io_ret ()) d = (Ok (), d)"
    using clear by (simp add: io_ret_def)
  have "walk_entries w (tar_visit base ''world'' True) (e # es) acc d =
      walk_entries w (tar_visit base ''world'' True) es (acc @ (if q = [''level.dat''] then [] else [entry_for (q, n)])) d"
    by (simp only: e rel walk_entries.simps) (subst io_bind_simps(1), rule visit, subst io_bind_simps(1), rule access, rule refl)
  also have "\<dots> = (Ok ((acc @ (if q = [''level.dat''] then [] else [entry_for (q, n)]))
      @ map entry_for (filter (\<lambda>e. fst e \<noteq> [''level.dat'']) es)), d)"
    by (rule Cons.IH) (rule Cons.prems, simp)
  finally show ?case by (simp add: e del: walk_entries.simps)
qed (simp add: io_ret_def)

lemma writeTar_world:
  assumes clear: "clear_disk d" and keys: "distinct (map fst (dk_nodes d))" and T: "world_tree (tree_at d w)"
    and w: "\<And>r. has_prefix r w \<Longrightarrow> dk_look d r = Some DirNode" and base: "rooted base" "w = path_comps base @ [''world'']"
    and level: "tree_at d w [''level.dat''] = Some (FileNode s)"
  shows "\<exists>es. writeTar base [''world''] [] d = (Ok (dir_entry ''world'' # entry_for ([''level.dat''], FileNode s) # map entry_for es), d)
    \<and> (\<forall>q n. (q, n) \<in> set es \<longleftrightarrow> q \<noteq> [] \<and> q \<noteq> [''level.dat''] \<and> tree_at d w q = Some n)"
proof -
  let ?es = "filter (\<lambda>e. fst e \<noteq> [''level.dat'']) (dk_below w d)"
  have names: "list_all plain_name [''level.dat'']" using plain_names by simp
  have open_level: "os_Open (path_Join [base, ''world'', ''level.dat'']) d = (Ok (s, None), d)"
  proof -
    have "os_Stat (path_Join [base, ''world'', ''level.dat'']) d = (Ok (FileNode s), d)"
      using Stat_in_tree [OF clear T w level] Join_in_world [OF base(1) _ names] base(2) by simp
    then show ?thesis by (simp add: os_Open_def io_bind_def io_ret_def)
  qed
  have nm: "path_Join [''world'', ''level.dat''] = ''world/level.dat''" using Join_world [OF _ names] by simp
  have comps: "path_comps (path_Join [base, ''world'']) = w"
    using comps_Join_names [OF base(1), of "[''world'']"] plain_names base(2) by simp
  have root: "tree_at d w [] = Some DirNode" using T by (simp add: world_tree_def)
  have stat: "os_Stat (path_Join [base, ''world'']) d = (Ok DirNode, d)"
    using Stat_in_tree [OF clear T w root] comps by simp
  have visit: "tar_visit base ''world'' True ''.'' DirNode acc d = (Ok acc, d)" for acc
    by (simp add: tar_visit_def io_ret_def)
  have "walk_entries w (tar_visit base ''world'' True) (([], DirNode) # dk_below w d) acc d = (Ok (acc @ map entry_for ?es), d)" for acc
    using walk_world [OF clear T w base, of "dk_below w d" acc] dk_below_set [OF keys] clear
    by (simp add: rel_path_def visit io_bind_def)
  then have "writeTar base [''world''] [] d =
      (Ok ([dir_entry ''world'', entry_for ([''level.dat''], FileNode s)] @ map entry_for ?es), d)"
    by (simp add: tar_dir_def io_bind_def io_try_def open_level file_entry_def nm fs_WalkDir_def stat comps io_ret_def entry_for_def
        del: walk_entries.simps)
  moreover have "\<forall>q n. (q, n) \<in> set ?es \<longleftrightarrow> q \<noteq> [] \<and> q \<noteq> [''level.dat''] \<and> tree_at d w q = Some n"
    using dk_below_set [OF keys] by auto
  ultimately show ?thesis by (intro exI [of _ ?es]) simp
qed

section \<open>Reading it again\<close>

lemma comparable: "has_prefix a (b @ c) \<Longrightarrow> has_prefix a b \<or> has_prefix b a"
  by (erule prefix_append_cases) simp_all

lemma look_in_nodes: "dk_look d p \<noteq> None \<Longrightarrow> p \<noteq> [] \<Longrightarrow> \<exists>x \<in> set (dk_nodes d). fst x = p"
  by (auto simp: dk_look_def dest!: map_of_SomeD) force

lemma below_empty:
  assumes "\<And>q. q \<noteq> [] \<Longrightarrow> dk_look d (p @ q) = None"
  shows "dk_below p d = []"
proof -
  have "\<not> (has_prefix p (fst x) \<and> fst x \<noteq> p)" if "x \<in> set (dk_nodes d)" for x
  proof
    assume "has_prefix p (fst x) \<and> fst x \<noteq> p"
    then obtain q where "fst x = p @ q" "q \<noteq> []" by (auto elim: has_prefixE)
    then show False using assms [of q] that by (cases x) (auto simp: dk_look_def weak_map_of_SomeI map_of_eq_None_iff image_iff)
  qed
  then show ?thesis by (simp add: dk_below_def filter_False)
qed

text \<open>Dirs on the whole way, this one included.\<close>

definition dirs_to :: "disk \<Rightarrow> string list \<Rightarrow> bool" where
  "dirs_to d p = (\<forall>r. has_prefix r p \<longrightarrow> dk_look d r = Some DirNode)"

lemma dirs_parents: "dirs_to d p \<Longrightarrow> dk_parents p d = (Ok (), d)"
proof (cases "p = []")
  case False
  then obtain ps x where p: "p = ps @ [x]" by (metis rev_exhaust)
  assume "dirs_to d p"
  then have "dk_look d r = Some DirNode" if "has_prefix r ps" for r
    using has_prefix_trans [OF that, of "ps @ [x]"] unfolding p dirs_to_def by simp
  then show ?thesis unfolding p by (rule parents_ok)
qed (simp add: dk_parents_def)

lemma dirs_stat: "clear_disk d \<Longrightarrow> dirs_to d (path_comps path) \<Longrightarrow> os_Stat path d = (Ok DirNode, d)"
  by (simp add: os_Stat_def io_bind_def dirs_parents) (simp add: dirs_to_def)

lemma MoveAll_nothing:
  assumes clear: "clear_disk d" and dirs: "dirs_to d (path_comps dir)" "dirs_to d (path_comps out)"
    and empty: "\<And>q. q \<noteq> [] \<Longrightarrow> dk_look d (path_comps dir @ q) = None"
    and out: "rooted out"
    and apart: "\<not> has_prefix (path_comps dir) (path_comps out)" "\<not> has_prefix (path_comps out) (path_comps dir)"
  shows "\<exists>d'. MoveAll dir out d = (Ok (), d') \<and> (\<forall>q. dk_look d' (path_comps out @ q) = dk_look d (path_comps out @ q))"
proof -
  have ne: "path_comps dir \<noteq> path_comps out" using apart by auto
  have "rename_ok d (path_comps dir) (path_comps out) = Err (Ext ''file exists'')"
    using dirs by (simp add: rename_ok_def dirs_to_def)
  then have no_rename: "try_rename False dir out d = (Ok False, d)"
    using clear ne by (simp add: try_rename_def os_Rename_def io_bind_def io_try_def io_ret_def Let_def
        dirs_parents [OF dirs(1)] dirs_parents [OF dirs(2)])
  have "path_comps (path_Join [out, ''.'']) = path_comps out"
    using comps_Join [OF out, of "''.''"] by (simp add: str_split_one clean_push_def)
  moreover have "way_free d (path_comps out)" using dirs(2) by (simp add: way_free_def dirs_to_def)
  ultimately obtain d1 where d1: "os_MkdirAll (path_Join [out, ''.'']) d = (Ok (), d1)" "clear_disk d1"
    "\<forall>q. dk_look d1 q = (if has_prefix q (path_comps out) then Some DirNode else dk_look d q)"
    using MkdirAll_run [OF clear, of "path_Join [out, ''.'']"] by auto
  have same: "dk_look d1 q = dk_look d q" for q using d1(3) dirs(2) by (simp add: dirs_to_def)
  have "moveDir dir out False d = (Ok (), d1)"
    using d1(1,2) below_empty [OF empty] by (simp add: moveDir_def io_bind_def no_rename fs_WalkDir_def dirs_stat [OF clear dirs(1)]
        rel_path_def move_entry_def Let_def io_ret_def)
  moreover have "os_Stat dir d1 = (Ok DirNode, d1)"
    using d1(2) dirs(1) same by (intro dirs_stat) (simp_all add: dirs_to_def)
  ultimately have "MoveAll dir out d = (Ok (), dk_drop (path_comps dir) d1)"
    using d1(2) by (simp add: MoveAll_def io_bind_def io_try_def os_RemoveAll_def Let_def)
  moreover have "\<not> has_prefix (path_comps dir) (path_comps out @ q)" for q
    using apart comparable by blast
  ultimately show ?thesis by (auto simp: dk_look_drop same)
qed

text \<open>Where an archive is extracted to: no world yet, an empty directory for temporary files.\<close>

definition ready :: "string \<Rightarrow> string \<Rightarrow> disk \<Rightarrow> bool" where
  "ready out tmp d = (clear_disk d \<and> rooted out \<and> rooted tmp \<and> way_free d (path_comps out) \<and> way_free d (path_comps tmp)
     \<and> (\<forall>q. dk_look d (path_comps out @ q) = None) \<and> (\<forall>q. q \<noteq> [] \<longrightarrow> dk_look d (path_comps tmp @ q) = None)
     \<and> \<not> has_prefix (path_comps out) (path_comps tmp) \<and> \<not> has_prefix (path_comps tmp) (path_comps out))"

lemma level_dat_found:
  assumes "rooted tmp"
  shows "has_suffix ''/level.dat'' (path_Join [tmp, ''world/level.dat''])" "\<not> has_suffix ''/level.dat'' (path_Join [tmp, ''world''])"
proof -
  have c: "path_comps (path_Join [tmp, ''world/level.dat'']) = path_comps tmp @ [''world'', ''level.dat'']"
    "path_comps (path_Join [tmp, ''world'']) = path_comps tmp @ [''world'']"
    using comps_Join_names [OF assms, of "[''world'', ''level.dat'']"] comps_Join_names [OF assms, of "[''world'']"] plain_names by simp_all
  have "slash_join ((path_comps tmp @ [''world'']) @ [''level.dat'']) = slash_join (path_comps tmp @ [''world'']) @ ''/'' @ ''level.dat''"
    by (rule slash_join_snoc) simp
  then have "path_Join [tmp, ''world/level.dat''] = (''/'' @ slash_join (path_comps tmp @ [''world''])) @ ''/level.dat''"
    using Join_rooted [OF assms, of "''world/level.dat''"] c(1) by simp
  then show "has_suffix ''/level.dat'' (path_Join [tmp, ''world/level.dat''])" using has_suffix_append by metis
  have "last (path_Join [tmp, ''world'']) = CHR ''d''"
    using Join_rooted [OF assms, of "''world''"] slash_join_snoc [of "path_comps tmp" "''world''"]
    by (cases "path_comps tmp = []") (simp_all add: c(2))
  then show "\<not> has_suffix ''/level.dat'' (path_Join [tmp, ''world''])" by (auto elim!: has_suffixE)
qed

text \<open>The first two entries: the directory goes to the temporary files, \<open>level.dat\<close> to its place.\<close>

lemma first_entries:
  assumes ready: "ready out tmp d" and level: "T [''level.dat''] = Some (FileNode s)" and T: "world_tree T"
  defines "c \<equiv> \<lparr>fc_outDir = out, fc_tmpDir = tmp, fc_worldFound = True, fc_worldRoot = ''world/''\<rparr>"
  shows "\<exists>d'. tar_entries (NewFileCreator out tmp) (dir_entry ''world'' # entry_for ([''level.dat''], FileNode s) # es) d = tar_entries c es d'
    \<and> building T (path_comps out) d' \<and> dirs_to d' (path_comps tmp @ [''world''])
    \<and> (\<forall>q. q \<noteq> [] \<longrightarrow> dk_look d' (path_comps tmp @ [''world''] @ q) = None) \<and> tree_at d' (path_comps out) [''level.dat''] = Some (FileNode s)"
proof -
  let ?o = "path_comps out" and ?t = "path_comps tmp"
  have r: "clear_disk d" "rooted out" "rooted tmp" "way_free d ?o" "way_free d ?t" "\<And>q. dk_look d (?o @ q) = None"
    "\<And>q. q \<noteq> [] \<Longrightarrow> dk_look d (?t @ q) = None" "\<not> has_prefix ?o ?t" "\<not> has_prefix ?t ?o"
    using ready by (auto simp: ready_def)
  have ct: "path_comps (path_Join [tmp, ''world'']) = ?t @ [''world'']"
    using comps_Join_names [OF r(3), of "[''world'']"] plain_names by simp
  have co: "path_comps (path_Join [out, ''level.dat'']) = ?o @ [''level.dat'']"
    using comps_Join_names [OF r(2), of "[''level.dat'']"] plain_names by simp
  have "dk_look d p = None \<or> dk_look d p = Some DirNode" if "has_prefix p (?t @ [''world''])" for p
    using that
  proof (cases rule: prefix_append_cases)
    case 1
    then show ?thesis using r(5) by (simp add: way_free_def)
  next
    case (2 q')
    then show ?thesis using r(5) r(7) [of q'] by (cases "q' = []") (simp_all add: way_free_def)
  qed
  then have "way_free d (?t @ [''world''])" by (simp add: way_free_def)
  then obtain d1 where d1: "os_MkdirAll (path_Join [tmp, ''world'']) d = (Ok (), d1)" "clear_disk d1"
    "\<forall>q. dk_look d1 q = (if has_prefix q (?t @ [''world'']) then Some DirNode else dk_look d q)"
    using MkdirAll_run [OF r(1)] unfolding ct [symmetric] by blast
  have apart: "\<not> has_prefix (?o @ q) (?t @ q')" "\<not> has_prefix (?t @ q) (?o @ q')" for q q'
  proof -
    show "\<not> has_prefix (?o @ q) (?t @ q')"
      using comparable [of ?o ?t q'] has_prefix_trans [OF has_prefix_append, of ?o q "?t @ q'"] r(8,9) by blast
    show "\<not> has_prefix (?t @ q) (?o @ q')"
      using comparable [of ?t ?o q'] has_prefix_trans [OF has_prefix_append, of ?t q "?o @ q'"] r(8,9) by blast
  qed
  have free1: "way_free d1 ?o" using d1(3) r(4) unfolding way_free_def by simp
  have new1: "dk_look d1 (?o @ [''level.dat'']) \<noteq> Some DirNode" using d1(3) apart(1) r(6) by simp
  have names: "list_all plain_name (?o @ [''level.dat''])" using path_comps_plain plain_names by simp
  have po: "path_Join [out, ''level.dat''] = ''/'' @ slash_join (?o @ [''level.dat''])"
    using Join_rooted [OF r(2), of "''level.dat''"] co by simp
  obtain d2 where d2: "createFile (path_Join [out, ''level.dat'']) (s, None) d1 = (Ok (), d2)" "clear_disk d2"
    "\<forall>q. dk_look d2 q = (if q = ?o @ [''level.dat''] then Some (FileNode s) else if has_prefix q ?o then Some DirNode else dk_look d1 q)"
    using createFile_run [OF d1(2) po names free1 new1] by blast
  have step1: "CreateFile (NewFileCreator out tmp) ''world'' True ([], None) d = (Ok (NewFileCreator out tmp), d1)"
    using level_dat_found [OF r(3)] d1(1) by (simp add: CreateFile_def find_world_def NewFileCreator_def Let_def io_bind_def io_ret_def)
  have trims: "trim_suffix ''level.dat'' ''world/level.dat'' = ''world/''" "trim_prefix ''world/'' ''world/level.dat'' = ''level.dat''"
    "has_prefix ''world/'' ''world/level.dat''"
    by code_simp+
  have step2: "CreateFile (NewFileCreator out tmp) ''world/level.dat'' False (s, None) d1 = (Ok c, d2)"
    using level_dat_found [OF r(3)] d2(1) trims
    by (simp add: CreateFile_def find_world_def NewFileCreator_def Let_def io_bind_def io_ret_def c_def)
  have "tar_entries (NewFileCreator out tmp) (dir_entry ''world'' # entry_for ([''level.dat''], FileNode s) # es) d = tar_entries c es d2"
    by (simp add: dir_entry_def entry_for_def io_bind_def step1 step2)
  moreover have "building T ?o d2"
  proof -
    have "dk_look d2 (?o @ q) = None \<or> dk_look d2 (?o @ q) = T q" for q
    proof (cases "q = []")
      case True
      then show ?thesis using d2(3) T by (simp add: world_tree_def)
    next
      case False
      then have "\<not> has_prefix (?o @ q) ?o" by (auto dest: prefix_length)
      then show ?thesis using d2(3) d1(3) apart(1) r(6) level by simp
    qed
    then show ?thesis using d2(2,3) by (auto simp: building_def tree_at_def dest: prefix_length)
  qed
  moreover have "dirs_to d2 (?t @ [''world''])"
    using d2(3) d1(3) apart(1) [of "[''level.dat'']" "[''world'']"] unfolding dirs_to_def by auto
  moreover have "dk_look d2 (?t @ [''world''] @ q) = None" if "q \<noteq> []" for q
    using d2(3) d1(3) apart(2) [of _ "[]"] r(7) that apart(2) [of "[''world''] @ q" "[''level.dat'']"]
    by (auto dest: prefix_length)
  ultimately show ?thesis using d2(3) by (auto simp: tree_at_def)
qed

lemma entries_world:
  assumes T: "world_tree T" and ready: "ready out tmp d" and level: "T [''level.dat''] = Some (FileNode s)"
    and es: "\<And>q n. (q, n) \<in> set es \<longleftrightarrow> q \<noteq> [] \<and> q \<noteq> [''level.dat''] \<and> T q = Some n"
  defines "c \<equiv> \<lparr>fc_outDir = out, fc_tmpDir = tmp, fc_worldFound = True, fc_worldRoot = ''world/''\<rparr>"
    and "t \<equiv> path_comps tmp @ [''world'']"
  shows "\<exists>d'. tar_entries (NewFileCreator out tmp) (dir_entry ''world'' # entry_for ([''level.dat''], FileNode s) # map entry_for es) d = (Ok c, d')
    \<and> building T (path_comps out) d' \<and> tree_at d' (path_comps out) = T
    \<and> dirs_to d' t \<and> (\<forall>q. q \<noteq> [] \<longrightarrow> dk_look d' (t @ q) = None)
    \<and> \<not> has_prefix t (path_comps out) \<and> \<not> has_prefix (path_comps out) t"
proof -
  let ?o = "path_comps out"
  obtain d3 where d3: "tar_entries (NewFileCreator out tmp) (dir_entry ''world'' # entry_for ([''level.dat''], FileNode s) # map entry_for es) d
      = tar_entries c (map entry_for es) d3"
    "building T ?o d3" "dirs_to d3 t" "\<And>q. q \<noteq> [] \<Longrightarrow> dk_look d3 (t @ q) = None" "tree_at d3 ?o [''level.dat''] = Some (FileNode s)"
    using first_entries [OF ready level T, of "map entry_for es"] unfolding c_def t_def append.assoc by blast
  have r0: "rooted out" "\<not> has_prefix ?o (path_comps tmp)" "\<not> has_prefix (path_comps tmp) ?o"
    using ready by (simp_all add: ready_def)
  have apart: "\<not> has_prefix t ?o" "\<not> has_prefix ?o t"
    using r0 comparable [of ?o "path_comps tmp" "[''world'']"] has_prefix_trans [OF has_prefix_append, of "path_comps tmp" "[''world'']" ?o]
    unfolding t_def by blast+
  have c: "in_world_of c" "fc_outDir c = out" using r0(1) by (simp_all add: in_world_of_def c_def)
  obtain d4 where d4: "tar_entries c (map entry_for es) d3 = (Ok c, d4)" "building T ?o d4" "built ?o d3 d4"
    "\<forall>(q, n) \<in> set es. tree_at d4 ?o q = Some n"
    using tar_entries_in_world [OF T _ c(1), of d3 es] d3(2) es unfolding c(2) by blast
  have tree: "tree_at d4 ?o q = T q" for q
  proof (cases "T q")
    case None
    then show ?thesis using d4(2) unfolding building_def by metis
  next
    case (Some n)
    consider "q = []" | "q = [''level.dat'']" | "(q, n) \<in> set es" using es Some by blast
    then have "tree_at d4 ?o q \<noteq> None"
      using d4(2-4) d3(5) by cases (auto simp: built_def building_def tree_at_def)
    then show ?thesis using d4(2) unfolding building_def by metis
  qed
  have keep: "dk_look d4 p = dk_look d3 p" if "\<not> has_prefix ?o p" for p using d4(3) that by (simp add: built_def)
  have "dirs_to d4 t"
    using d3(3) keep apart(2) has_prefix_trans unfolding dirs_to_def by metis
  moreover have "dk_look d4 (t @ q) = None" if "q \<noteq> []" for q
    using keep [of "t @ q"] d3(4) [OF that] comparable apart by metis
  ultimately show ?thesis using d3(1) d4 tree apart by (auto simp: fun_eq_iff)
qed

lemma Finalize_world:
  assumes "building T (path_comps out) d" and "tree_at d (path_comps out) = T"
    and roots: "rooted out" "rooted tmp"
    and t: "dirs_to d t" "\<And>q. q \<noteq> [] \<Longrightarrow> dk_look d (t @ q) = None" "\<not> has_prefix t (path_comps out)" "\<not> has_prefix (path_comps out) t"
    and "t = path_comps tmp @ [''world'']"
  shows "\<exists>d'. Finalize \<lparr>fc_outDir = out, fc_tmpDir = tmp, fc_worldFound = True, fc_worldRoot = ''world/''\<rparr> d = (Ok (), d')
    \<and> tree_at d' (path_comps out) = T"
proof -
  have dir: "path_comps (path_Join [tmp, ''world/'']) = t"
    using comps_Join [OF roots(2), of "''world/''"] str_split_cut [of "CHR ''/''" "''world''" "[]"] assms(9)
    by (simp add: str_split_Nil clean_push_def)
  have d: "clear_disk d" "dirs_to d (path_comps out)" using assms(1) by (simp_all add: building_def dirs_to_def)
  from MoveAll_nothing [OF d(1) _ d(2) _ roots(1), of "path_Join [tmp, ''world/'']", unfolded dir, OF t]
  obtain d' where d': "MoveAll (path_Join [tmp, ''world/'']) out d = (Ok (), d')"
    "\<forall>q. dk_look d' (path_comps out @ q) = dk_look d (path_comps out @ q)" by blast
  have "os_Stat (path_Join [tmp, ''world/'']) d = (Ok DirNode, d)" using dirs_stat [OF d(1)] t(1) dir by simp
  then show ?thesis using d' assms(2) by (auto simp: Finalize_def Let_def io_bind_def io_try_def tree_at_def fun_eq_iff)
qed

text \<open>
  Property C4: a world survives its upload and its download.  Whatever the world in the game's
  directory holds (any tree of directories and files that has a \<open>level.dat\<close>), the archive that is
  written for it is extracted, on any disk that is ready for it, to the same tree, with the same
  contents and nothing else; the codecs only have to undo each other.
\<close>

theorem world_survives_transfer:
  assumes "clear_disk d" and "distinct (map fst (dk_nodes d))" and "rooted gamedata"
    and "dirs_to d (path_comps gamedata @ [''world''])" and T: "world_tree (tree_at d (path_comps gamedata @ [''world'']))"
    and ready: "ready out tmp d2"
    and codec: "\<And>es. writeTar gamedata [''world''] [] d = (Ok es, d) \<Longrightarrow>
      \<exists>b. cd_zstd K (cd_archive K es, None) = Ok b \<and> cd_untar K b = (es, None)"
  shows "\<exists>es d3. writeTar gamedata [''world''] [] d = (Ok es, d)
    \<and> pipeline_Run K (UnTarZst, NewFileCreator out tmp) (cd_archive K es, None) d2 = (Ok (), d3)
    \<and> tree_at d3 (path_comps out) = tree_at d (path_comps gamedata @ [''world''])"
proof -
  let ?T = "tree_at d (path_comps gamedata @ [''world''])"
  obtain s where s: "?T [''level.dat''] = Some (FileNode s)" using T by (auto simp: world_tree_def)
  obtain es where es: "writeTar gamedata [''world''] [] d = (Ok (dir_entry ''world'' # entry_for ([''level.dat''], FileNode s) # map entry_for es), d)"
    "\<And>q n. (q, n) \<in> set es \<longleftrightarrow> q \<noteq> [] \<and> q \<noteq> [''level.dat''] \<and> ?T q = Some n"
    using writeTar_world [OF assms(1,2) T _ assms(3) refl s] assms(4) unfolding dirs_to_def by blast
  obtain b where b: "cd_zstd K (cd_archive K (dir_entry ''world'' # entry_for ([''level.dat''], FileNode s) # map entry_for es), None) = Ok b"
    "cd_untar K b = (dir_entry ''world'' # entry_for ([''level.dat''], FileNode s) # map entry_for es, None)"
    using codec [OF es(1)] by blast
  have roots: "rooted out" "rooted tmp" using ready by (simp_all add: ready_def)
  have level: "?T [''level.dat''] \<noteq> None" using s by simp
  obtain d4 where d4: "tar_entries (NewFileCreator out tmp) (dir_entry ''world'' # entry_for ([''level.dat''], FileNode s) # map entry_for es) d2
      = (Ok \<lparr>fc_outDir = out, fc_tmpDir = tmp, fc_worldFound = True, fc_worldRoot = ''world/''\<rparr>, d4)"
    "building ?T (path_comps out) d4" "tree_at d4 (path_comps out) = ?T" "dirs_to d4 (path_comps tmp @ [''world''])"
    "\<And>q. q \<noteq> [] \<Longrightarrow> dk_look d4 ((path_comps tmp @ [''world'']) @ q) = None"
    "\<not> has_prefix (path_comps tmp @ [''world'']) (path_comps out)" "\<not> has_prefix (path_comps out) (path_comps tmp @ [''world''])"
    using entries_world [OF T ready s es(2)] by blast
  obtain d5 where "Finalize \<lparr>fc_outDir = out, fc_tmpDir = tmp, fc_worldFound = True, fc_worldRoot = ''world/''\<rparr> d4 = (Ok (), d5)"
    "tree_at d5 (path_comps out) = ?T"
    using Finalize_world [OF d4(2,3) roots d4(4-7) refl] by blast
  with b d4(1) have "pipeline_Run K (UnTarZst, NewFileCreator out tmp)
      (cd_archive K (dir_entry ''world'' # entry_for ([''level.dat''], FileNode s) # map entry_for es), None) d2 = (Ok (), d5)
    \<and> tree_at d5 (path_comps out) = ?T"
    by (simp add: pipeline_Run_def tar_Unarchive_def io_bind_def io_ret_def io_lift_def del: tar_entries.simps)
  with es(1) show ?thesis by blast
qed

text \<open>A world with one region file, and a machine that gets it.\<close>

definition demo_world :: disk where
  "demo_world = \<lparr>dk_nodes =
     [([''g''], DirNode), ([''g'', ''world''], DirNode), ([''g'', ''world'', ''level.dat''], FileNode ''seed''),
      ([''g'', ''world'', ''region''], DirNode), ([''g'', ''world'', ''region'', ''r.0.mca''], FileNode ''chunks'')],
     dk_fault = \<lambda>_. None, dk_crossdev = False\<rparr>"

definition demo_codecs :: codecs where
  "demo_codecs =
     (let es = (case writeTar ''/g'' [''world''] [] demo_world of (Ok es, d) \<Rightarrow> es | _ \<Rightarrow> []) in
      \<lparr>cd_zstd = Ok, cd_xz = Ok, cd_untar = \<lambda>c. (es, None), cd_unzip = \<lambda>s. Ok [], cd_archive = \<lambda>es. []\<rparr>)"

definition demo_target :: disk where
  "demo_target = \<lparr>dk_nodes = [([''t''], DirNode)], dk_fault = \<lambda>_. None, dk_crossdev = True\<rparr>"

lemma demo_comps:
  "path_comps ''/g'' = [''g'']" "path_comps ''/out/world'' = [''out'', ''world'']" "path_comps ''/t'' = [''t'']"
  by code_simp+

lemma prefix_Cons: "has_prefix r (x # xs) \<longleftrightarrow> r = [] \<or> (\<exists>r'. r = x # r' \<and> has_prefix r' xs)"
  by (cases r) (auto simp: has_prefix_def)

lemma prefix_of_Nil: "has_prefix r [] \<longleftrightarrow> r = []"
  by (auto simp: has_prefix_def)

lemma world_survives_transfer_witness:
  "\<exists>es d3. writeTar ''/g'' [''world''] [] demo_world = (Ok es, demo_world)
    \<and> pipeline_Run demo_codecs (UnTarZst, NewFileCreator ''/out/world'' ''/t'') (cd_archive demo_codecs es, None) demo_target = (Ok (), d3)
    \<and> tree_at d3 (path_comps ''/out/world'') = tree_at demo_world (path_comps ''/g'' @ [''world''])"
proof (rule world_survives_transfer)
  show "world_tree (tree_at demo_world (path_comps ''/g'' @ [''world'']))"
    by (auto simp: world_tree_def tree_at_def demo_world_def dk_look_def demo_comps plain_name_def prefix_Cons prefix_of_Nil split: if_splits)
  show "dirs_to demo_world (path_comps ''/g'' @ [''world''])"
    by (auto simp: dirs_to_def demo_world_def dk_look_def demo_comps prefix_Cons prefix_of_Nil)
  show "ready ''/out/world'' ''/t'' demo_target"
    by (auto simp: ready_def demo_target_def clear_disk_def rooted_def has_prefix_def [of "''/''"] way_free_def dk_look_def
        demo_comps prefix_Cons prefix_of_Nil)
qed (simp_all add: clear_disk_def demo_world_def rooted_def has_prefix_def demo_codecs_def)

section \<open>An entry that leaves the directory\<close>

definition climb :: "nat \<Rightarrow> string" where
  "climb n = concat (replicate n ''../'')"

lemma split_climb: "str_split ''/'' (climb n @ r) = replicate n ''..'' @ str_split ''/'' r"
proof (induction n)
  case (Suc n)
  have "str_split ''/'' (''..'' @ CHR ''/'' # (climb n @ r)) = ''..'' # str_split ''/'' (climb n @ r)"
    by (rule str_split_cut) simp
  with Suc show ?case by (simp add: climb_def)
qed (simp add: climb_def)

lemma push_dots: "foldl (clean_push True) st (replicate (length st) ''..'') = []" if "list_all plain_name st"
  using that by (induction st) (auto simp: clean_push_def plain_name_def)

lemma comps_climb:
  assumes "rooted tmp" and "ns \<noteq> []" and "list_all plain_name ns"
  shows "path_comps (path_Join [tmp, climb (length (path_comps tmp)) @ slash_join ns]) = ns"
  using push_dots [of "rev (path_comps tmp)"] path_comps_plain [of tmp]
  by (simp add: comps_Join assms(1) split_climb split_slash_join assms(2,3) clean_push_names)

lemma last_name:
  assumes "CHR ''/'' \<notin> set x"
  shows "has_suffix ''/level.dat'' (u @ ''/'' @ x) \<longleftrightarrow> x = ''level.dat''"
proof
  assume "has_suffix ''/level.dat'' (u @ ''/'' @ x)"
  then obtain t where t: "u @ ''/'' @ x = t @ ''/level.dat''" by (auto elim: has_suffixE)
  have "takeWhile (\<lambda>c. c \<noteq> CHR ''/'') (rev (u @ ''/'' @ x)) = rev x"
  proof -
    have "takeWhile (\<lambda>c. c \<noteq> CHR ''/'') (rev x @ CHR ''/'' # rev u) = rev x"
      using assms by (subst takeWhile_append2) auto
    then show ?thesis by simp
  qed
  moreover have "takeWhile (\<lambda>c. c \<noteq> CHR ''/'') (rev (u @ ''/'' @ x)) = rev ''level.dat''" unfolding t by simp
  ultimately show "x = ''level.dat''" using rev_is_rev_conv by metis
next
  assume "x = ''level.dat''"
  then show "has_suffix ''/level.dat'' (u @ ''/'' @ x)" using has_suffix_append [of "''/level.dat''" u] by simp
qed

text \<open>
  Property C25: an archive writes anywhere on the disk.  The path of an entry is joined to the
  temporary directory as it is, so with enough \<open>..\<close> an entry before \<open>level.dat\<close> gets to any file whose
  directories are there or can be made, creates or replaces it with its contents, and the
  extraction goes on as if nothing had happened.
\<close>

theorem archive_writes_anywhere:
  assumes "rooted tmp" and "clear_disk d" and ns: "list_all plain_name (ps @ [x])" and "x \<noteq> ''level.dat''"
    and "way_free d ps" and "dk_look d (ps @ [x]) \<noteq> Some DirNode"
    and e: "e = \<lparr>ae_Type = TypeReg, ae_Name = climb (length (path_comps tmp)) @ slash_join (ps @ [x]), ae_Body = (s, None)\<rparr>"
  shows "\<exists>d'. dk_look d' (ps @ [x]) = Some (FileNode s)
    \<and> tar_entries (NewFileCreator out tmp) (e # es) d = tar_entries (NewFileCreator out tmp) es d'"
proof -
  let ?path = "path_Join [tmp, ae_Name e]"
  have path: "?path = ''/'' @ slash_join (ps @ [x])"
    using Join_rooted [OF assms(1)] comps_climb [OF assms(1) _ ns] e by (metis archive_entry.select_convs(2) snoc_eq_iff_butlast)
  obtain d' where d': "createFile ?path (s, None) d = (Ok (), d')" "dk_look d' (ps @ [x]) = Some (FileNode s)"
    using createFile_run [OF assms(2) path ns assms(5,6)] by metis
  have "\<not> has_suffix ''/level.dat'' ?path"
  proof (cases "ps = []")
    case True
    then show ?thesis using last_name [of x "[]"] path ns assms(4) by (simp add: plain_name_def)
  next
    case False
    then show ?thesis using last_name [of x "''/'' @ slash_join ps"] path ns assms(4) by (simp add: plain_name_def slash_join_snoc)
  qed
  then have "CreateFile (NewFileCreator out tmp) (ae_Name e) False (s, None) d = (Ok (NewFileCreator out tmp), d')"
    using d'(1) by (simp add: CreateFile_def find_world_def NewFileCreator_def Let_def io_bind_def io_ret_def)
  moreover have "ae_Type e = TypeReg" "ae_Body e = (s, None)" using e by simp_all
  ultimately show ?thesis using d'(2) by (auto simp: io_bind_def)
qed

lemma archive_writes_anywhere_witness:
  "\<exists>d'. dk_look d' ([''root'', ''.ssh''] @ [''authorized_keys'']) = Some (FileNode ''key'')
    \<and> tar_entries (NewFileCreator ''/out/world'' ''/t'')
        (\<lparr>ae_Type = TypeReg, ae_Name = climb (length (path_comps ''/t'')) @ slash_join ([''root'', ''.ssh''] @ [''authorized_keys'']),
          ae_Body = (''key'', None)\<rparr> # []) demo_target
      = tar_entries (NewFileCreator ''/out/world'' ''/t'') [] d'"
  by (rule archive_writes_anywhere)
    (auto simp: demo_target_def clear_disk_def rooted_def has_prefix_def [of "''/''"] way_free_def dk_look_def plain_name_def
        prefix_Cons prefix_of_Nil)

end
