(* ===== verification/McMiddleware.thy ===== *)
theory McMiddleware
  imports McCore Versions Retry GoTime
begin

text \<open>
  The middleware that prepares a launch: \<open>mclauncher/middleware/{world,autoversion,serverjar}\<close>.  Each wraps
  the rest of the launch.  What it asks of the disk, of HTTP and of the world service are
  parameters; the state is any \<open>state_repo\<close>, and the one the runner uses is one that keeps the
  JSON text of a value.
\<close>

section \<open>The version of a world\<close>

text \<open>\<open>^1\.14(\.[12])? Pre-Release [1-5]$\<close>\<close>

definition pre114Pattern :: "string \<Rightarrow> bool" where
  "pre114Pattern s =
     (\<exists>mid \<in> {[], ''.1'', ''.2''}. \<exists>d \<in> {''1'', ''2'', ''3'', ''4'', ''5''}. s = ''1.14'' @ mid @ '' Pre-Release '' @ d)"

definition CanonicalizeVersionName :: "string \<Rightarrow> string" where
  "CanonicalizeVersionName name =
     (if str_contains name ''Pre-Release'' \<and> \<not> pre114Pattern name
      then replace_first '' Pre-Release '' ''-pre'' name else name)"

text \<open>\<open>decode\<close> opens and reads the name of the version in a \<open>level.dat\<close> (gzip and the NBT package).\<close>

definition GetCanonicalServerVersion :: "(string \<Rightarrow> ('w, string) io) \<Rightarrow> string \<Rightarrow> ('w, string) io" where
  "GetCanonicalServerVersion decode path = io_bind (decode path) (\<lambda>name. io_ret (CanonicalizeVersionName name))"

definition autoversion_Wrap :: "(string \<Rightarrow> ('w, string) io) \<Rightarrow> string \<Rightarrow> 'w middleware" where
  "autoversion_Wrap decode path next s =
     (if \<not> st_autoVersionEnabled (lx_settings s) then next s
      else
        run_bind (run_io (io_try (outside (GetCanonicalServerVersion decode path)))) (\<lambda>r.
        case r of
          Ok v \<Rightarrow> run_bind (run_io (set_settings (\<lambda>c. c\<lparr>st_minecraftVersion := v\<rparr>))) (\<lambda>_. next)
        | _ \<Rightarrow> next) s)"

section \<open>The server's program\<close>

text \<open>
  What is asked of the disk and of HTTP: whether a file is regular and its size, the exit of a
  copy (a part of it may have been written), the names in a directory.  \<open>jo_RemoveAll\<close> also stands
  for \<open>os.Remove\<close> of the file that was created.
\<close>

record 'w jar_ops =
  jo_Stat :: "string \<Rightarrow> ('w, bool \<times> int) io"
  jo_RemoveAll :: "string \<Rightarrow> ('w, unit) io"
  jo_Create :: "string \<Rightarrow> ('w, unit) io"
  jo_Truncate :: "string \<Rightarrow> 'w \<Rightarrow> 'w"
  jo_Do :: "string \<Rightarrow> ('w, int \<times> string) io"
  jo_Copy :: "string \<Rightarrow> string \<Rightarrow> ('w, unit) io"
  jo_IsJar :: "string \<Rightarrow> ('w, bool) io"
  jo_Chmod :: "string \<Rightarrow> ('w, unit) io"
  jo_ReadDir :: "string \<Rightarrow> ('w, string list) io"
  jo_DataPath :: "string list \<Rightarrow> string"

text \<open>The client of the version manifest and the retrier's random numbers and sleep.\<close>

record 'w jar_mw =
  jm_ops :: "'w jar_ops"
  jm_http :: "'w http_get"
  jm_url :: string
  jm_rnd :: "nat \<Rightarrow> nat"
  jm_sleep :: "int \<Rightarrow> 'w \<Rightarrow> 'w"

definition download_once :: "'w jar_ops \<Rightarrow> string \<Rightarrow> string \<Rightarrow> ('w, unit) io" where
  "download_once J url dest w =
     (case io_bind (jo_Do J url) (\<lambda>(status, body).
           if status \<noteq> 200 then io_err (Msg (''downloading server.jar failed with status code '' @ fmt_d status))
           else jo_Copy J dest body) w of
        (Err e, w1) \<Rightarrow> (Err e, jo_Truncate J dest w1)
      | x \<Rightarrow> x)"

definition downloadMatchingVersion :: "'w jar_mw \<Rightarrow> string \<Rightarrow> string \<Rightarrow> ('w, unit) io" where
  "downloadMatchingVersion M desiredVersion dest =
     io_bind (Retry (jm_rnd M) (jm_sleep M) (GetVersionInfo (jm_http M) (jm_url M)) minute) (\<lambda>versions.
     case find (\<lambda>v. vi_ID v = desiredVersion) (vm_Versions versions) of
       None \<Rightarrow> io_err (Msg ''version not found'')
     | Some v \<Rightarrow>
         io_bind (Retry (jm_rnd M) (jm_sleep M) (GetVersionMetaData (jm_http M) v) minute) (\<lambda>meta.
         io_bind (jo_Create (jm_ops M) dest) (\<lambda>_.
         io_bind (io_try (Retry (jm_rnd M) (jm_sleep M) (download_once (jm_ops M) (vd_URL meta) dest) (5 * minute))) (\<lambda>r.
         case r of
           Err e \<Rightarrow> io_bind (io_try (jo_RemoveAll (jm_ops M) dest)) (\<lambda>_. io_err e)
         | _ \<Rightarrow> io_ret ()))))"

definition server_path :: "'w jar_mw \<Rightarrow> string \<Rightarrow> string" where
  "server_path M version = jo_DataPath (jm_ops M) [''servers.d'', version @ ''.jar'']"

definition download_and_mark :: "'w jar_mw \<Rightarrow> string \<Rightarrow> ('w, unit) io" where
  "download_and_mark M version =
     (let path = server_path M version in
      io_bind (downloadMatchingVersion M version path) (\<lambda>_.
      io_bind (jo_IsJar (jm_ops M) path) (\<lambda>jar.
      if jar then io_ret () else io_bind (io_try (jo_Chmod (jm_ops M) path)) (\<lambda>_. io_ret ()))))"

definition downloadIfNotExists :: "'w jar_mw \<Rightarrow> string \<Rightarrow> ('w, unit) io" where
  "downloadIfNotExists M version =
     (let path = server_path M version in
      io_bind (io_try (jo_Stat (jm_ops M) path)) (\<lambda>r.
      case r of
        Ok (regular, sz) \<Rightarrow>
          if regular \<and> 0 < sz then io_ret ()
          else io_bind (jo_RemoveAll (jm_ops M) path) (\<lambda>_. download_and_mark M version)
      | Err e \<Rightarrow> if e \<noteq> NotExist then io_err e else download_and_mark M version
      | Panic p \<Rightarrow> io_panic p))"

definition kept_in_data_dir :: "string \<Rightarrow> bool" where
  "kept_in_data_dir name = (name = ''server.properties'' \<or> name = ''world'' \<or> has_prefix ''ss@'' name)"

fun remove_entries :: "('w, unit) io list \<Rightarrow> go_error list \<Rightarrow> ('w, unit) io" where
  "remove_entries [] errs = (if errs = [] then io_ret () else io_err (Joined errs))"
| "remove_entries (r # rs) errs =
     io_bind (io_try r) (\<lambda>x. remove_entries rs (case x of Err e \<Rightarrow> errs @ [e] | _ \<Rightarrow> errs))"

definition cleanupDataDir :: "'w jar_ops \<Rightarrow> ('w, unit) io" where
  "cleanupDataDir J =
     io_bind (jo_ReadDir J (jo_DataPath J [''gamedata''])) (\<lambda>names.
     remove_entries (map (\<lambda>n. jo_RemoveAll J (path_Join [jo_DataPath J [''gamedata''], n]))
       (filter (\<lambda>n. \<not> kept_in_data_dir n) names)) [])"

definition StateKeyMinecraftVersion :: string where
  "StateKeyMinecraftVersion = ''github.com/kofuk/premises/runner/mclauncher/middleware/serverjar.MinecraftVersion''"

definition serverjar_prepare :: "'w jar_mw \<Rightarrow> 'w state_repository \<Rightarrow> string \<Rightarrow> ('w, unit) io" where
  "serverjar_prepare M R version =
     io_bind (io_try (sr_GetState R StateKeyMinecraftVersion)) (\<lambda>old.
     io_bind (if old \<noteq> Ok version then cleanupDataDir (jm_ops M) else io_ret ()) (\<lambda>_.
     io_bind (io_try (sr_SetState R StateKeyMinecraftVersion version)) (\<lambda>_. io_ret ())))"

definition serverjar_Wrap :: "'w jar_mw \<Rightarrow> 'w state_repository \<Rightarrow> 'w middleware" where
  "serverjar_Wrap M R next s =
     (let version = st_minecraftVersion (lx_settings s) in
      run_bind (run_io (outside (downloadIfNotExists M version))) (\<lambda>_.
      run_bind (run_io (set_settings (\<lambda>c. c\<lparr>st_serverPath := server_path M version\<rparr>))) (\<lambda>_.
      run_bind (run_io (outside (serverjar_prepare M R version))) (\<lambda>_. next))) s)"

section \<open>The world\<close>

definition StateKeyWorldKey :: string where
  "StateKeyWorldKey = ''github.com/kofuk/premises/runner/mclauncher/middleware/world.WorldKey''"

definition LatestResourceID :: string where
  "LatestResourceID = ''@/latest''"

record 'w world_ops =
  wi_GetLatestResourceID :: "string \<Rightarrow> ('w, string) run"
  wi_DownloadWorld :: "string \<Rightarrow> ('w, unit) run"
  wi_UploadWorld :: "string \<Rightarrow> ('w, string) run"
  wi_CleanupOldWorldFiles :: "('w, unit) io"

definition run_outside :: "('w, 'a) run \<Rightarrow> ('w launching, 'a) run" where
  "run_outside m s = map_option (\<lambda>(r, w). (r, s\<lparr>lx_world := w\<rparr>)) (m (lx_world s))"

definition getRealResourceID :: "'w world_ops \<Rightarrow> string \<Rightarrow> string \<Rightarrow> ('w, string) run" where
  "getRealResourceID W worldName resourceID =
     (if resourceID \<noteq> LatestResourceID then run_io (io_ret resourceID) else wi_GetLatestResourceID W worldName)"

text \<open>The resource that is asked for and the one that was uploaded last; both empty for a new world.\<close>

definition world_ids :: "'w world_ops \<Rightarrow> 'w state_repository \<Rightarrow> settings \<Rightarrow> ('w launching, string \<times> string) run" where
  "world_ids W R c =
     (if st_newWorld c then run_io (io_ret ([], []))
      else
        run_bind (run_outside (getRealResourceID W (st_worldName c) (st_worldResourceID c))) (\<lambda>i.
        run_bind (run_io (set_settings (\<lambda>c. c\<lparr>st_worldResourceID := i\<rparr>))) (\<lambda>_.
        run_bind (run_io (io_try (outside (sr_GetState R StateKeyWorldKey)))) (\<lambda>old.
        run_io (io_ret (i, case old of Ok v \<Rightarrow> v | _ \<Rightarrow> []))))))"

definition fetch_world :: "'w world_ops \<Rightarrow> bool \<Rightarrow> string \<Rightarrow> ('w launching, unit) run" where
  "fetch_world W newWorld i =
     run_bind (run_io (outside (wi_CleanupOldWorldFiles W))) (\<lambda>_.
     if newWorld then run_io (io_ret ()) else run_outside (wi_DownloadWorld W i))"

definition lift_res :: "'a res \<Rightarrow> ('w, 'a) run" where
  "lift_res r = run_io (io_lift r)"

fun wants_restart :: "'a res \<Rightarrow> bool" where
  "wants_restart (Err e) = errors_is e ErrRestart"
| "wants_restart _ = False"

text \<open>The launch itself, and the upload after it.\<close>

definition play_world :: "'w world_ops \<Rightarrow> 'w state_repository \<Rightarrow> string \<Rightarrow> ('w launching, unit) run \<Rightarrow> ('w launching, unit) run" where
  "play_world W R worldName next =
     run_bind (run_try next) (\<lambda>inner.
     if inner = Ok () \<or> wants_restart inner then
       run_bind (run_try (run_outside (wi_UploadWorld W worldName))) (\<lambda>up.
       case up of
         Err e \<Rightarrow> lift_res (Err (Joined (case inner of Err i \<Rightarrow> [e, i] | _ \<Rightarrow> [e])))
       | Panic p \<Rightarrow> lift_res (Panic p)
       | Ok key \<Rightarrow> run_bind (run_io (io_try (outside (sr_SetState R StateKeyWorldKey key)))) (\<lambda>_. lift_res inner))
     else lift_res inner)"

definition world_Wrap :: "'w world_ops \<Rightarrow> 'w state_repository \<Rightarrow> 'w middleware" where
  "world_Wrap W R next s =
     (let c = lx_settings s in
      run_bind (world_ids W R c) (\<lambda>(i, old).
      run_bind (run_io (io_try (outside (sr_RemoveState R StateKeyWorldKey)))) (\<lambda>_.
      run_bind (if st_newWorld c \<or> i \<noteq> old then fetch_world W (st_newWorld c) i else run_io (io_ret ())) (\<lambda>_.
      play_world W R (st_worldName c) next))) s)"

section \<open>What the middleware relies on\<close>

text \<open>
  A repository of states: what is set is stored, coded in some way, and what is stored is got.
\<close>

locale state_repo =
  fixes R :: "'w state_repository"
    and stored :: "'w \<Rightarrow> string \<rightharpoonup> string"
    and good :: "'w \<Rightarrow> bool"
    and coded :: "string \<Rightarrow> string"
  assumes SetState_stores: "good w \<Longrightarrow> short_text k \<Longrightarrow> short_text v \<Longrightarrow>
      \<exists>w'. sr_SetState R k v w = (Ok (), w') \<and> good w' \<and> stored w' = (stored w)(k \<mapsto> coded v)"
    and GetState_stored: "good w \<Longrightarrow> short_text k \<Longrightarrow>
      sr_GetState R k w = (Ok (case stored w k of None \<Rightarrow> [] | Some v \<Rightarrow> v), w)"
    and RemoveState_removes: "good w \<Longrightarrow> short_text k \<Longrightarrow>
      \<exists>w'. sr_RemoveState R k w = (Ok (), w') \<and> good w' \<and> stored w' = (stored w)(k := None)"

text \<open>The state of the runner: the socket, its server and the file on a disk.\<close>

locale runner_state = honest_disk F files
  for F :: "'w file_ops" and files :: "'w \<Rightarrow> string \<rightharpoonup> string" +
  fixes path :: string and tp :: string and msg :: "go_error \<Rightarrow> string"
    and nt :: "string \<Rightarrow> string \<Rightarrow> json \<Rightarrow> ('w, unit) io"
  assumes trace: "ok_trace tp"

definition state_good :: "('w \<Rightarrow> string \<rightharpoonup> string) \<Rightarrow> string \<Rightarrow> 'w exteriord \<Rightarrow> bool" where
  "state_good files path s =
     (states_sound files path (ex_world s) \<and> (\<forall>k v. states_in files path (ex_world s) k = Some v \<longrightarrow> length v < 2 ^ 40))"

lemma quote_short: "short_text v \<Longrightarrow> length (json_quote v) < 2 ^ 40"
  using json_quote_bound [of v] by (simp add: short_text_def)

context runner_state
begin

lemma repo_Set:
  assumes "state_good files path s" "short_text k" "short_text v"
  shows "\<exists>s'. SetState msg (disk_exteriord F path nt) tp k v s = (Ok (), s') \<and> state_good files path s'
    \<and> states_in files path (ex_world s') = (states_in files path (ex_world s))(k \<mapsto> json_quote v)"
proof -
  have s: "states_sound files path (ex_world s)" using assms(1) by (simp add: state_good_def)
  obtain w where w: "SetState msg (disk_exteriord F path nt) tp k v s = (Ok (), s\<lparr>ex_world := w\<rparr>)" "states_sound files path w"
    "states_in files path w = (states_in files path (ex_world s))(k \<mapsto> json_quote v)"
    using SetState_run [OF honest_disk_axioms s trace assms(2,3)] .
  have "state_good files path (s\<lparr>ex_world := w\<rparr>)"
    using w(2,3) assms(1) quote_short [OF assms(3)] by (auto simp: state_good_def split: if_splits)
  with w show ?thesis by (intro exI [of _ "s\<lparr>ex_world := w\<rparr>"]) simp
qed

lemma repo_Get:
  assumes "state_good files path s" "short_text k"
  shows "GetState msg (disk_exteriord F path nt) tp k s
    = (Ok (case states_in files path (ex_world s) k of None \<Rightarrow> [] | Some v \<Rightarrow> v), s)"
  using assms by (intro GetState_run [OF honest_disk_axioms _ trace]) (auto simp: state_good_def pred_option_def)

lemma repo_Remove:
  assumes "state_good files path s" "short_text k"
  shows "\<exists>s'. RemoveState msg (disk_exteriord F path nt) tp k s = (Ok (), s') \<and> state_good files path s'
    \<and> states_in files path (ex_world s') = (states_in files path (ex_world s))(k := None)"
proof -
  have s: "states_sound files path (ex_world s)" using assms(1) by (simp add: state_good_def)
  obtain w where w: "RemoveState msg (disk_exteriord F path nt) tp k s = (Ok (), s\<lparr>ex_world := w\<rparr>)" "states_sound files path w"
    "states_in files path w = (states_in files path (ex_world s))(k := None)"
    using RemoveState_run [OF honest_disk_axioms s trace assms(2)] .
  have "state_good files path (s\<lparr>ex_world := w\<rparr>)"
    using w(2,3) assms(1) by (auto simp: state_good_def split: if_splits)
  with w show ?thesis by (intro exI [of _ "s\<lparr>ex_world := w\<rparr>"]) simp
qed

end

sublocale runner_state \<subseteq> repo: state_repo
  "NewExteriorStateRepository msg (disk_exteriord F path nt) tp"
  "\<lambda>s. states_in files path (ex_world s)" "state_good files path" json_quote
  by unfold_locales (use repo_Set repo_Get repo_Remove in \<open>simp_all add: NewExteriorStateRepository_def\<close>)

context runner_state
begin

lemmas is_state_repo = repo.state_repo_axioms

end


lemma run_bind_SomeD:
  "run_bind m f w = Some (r, w') \<Longrightarrow>
     (\<exists>x w1. m w = Some (Ok x, w1) \<and> f x w1 = Some (r, w')) \<or> (\<exists>e. m w = Some (Err e, w') \<and> r = Err e)
   \<or> (\<exists>p. m w = Some (Panic p, w') \<and> r = Panic p)"
  by (auto simp: run_bind_def split: option.splits prod.splits res.splits)

definition without_key :: "'w launching \<Rightarrow> string \<Rightarrow> 'w \<Rightarrow> 'w launching" where
  "without_key l i w = l\<lparr>lx_settings := (lx_settings l)\<lparr>st_worldResourceID := i\<rparr>, lx_world := w\<rparr>"

text \<open>A call keeps the key of the world, and the repository usable.\<close>

definition keeps_key :: "('w \<Rightarrow> bool) \<Rightarrow> ('w \<Rightarrow> string \<rightharpoonup> string) \<Rightarrow> ('w, 'a) run \<Rightarrow> bool" where
  "keeps_key good stored m = (\<forall>w r w'. good w \<longrightarrow> m w = Some (r, w')
     \<longrightarrow> good w' \<and> stored w' StateKeyWorldKey = stored w StateKeyWorldKey)"

lemma keeps_keyD:
  "keeps_key good stored m \<Longrightarrow> m w = Some (r, w') \<Longrightarrow> good w \<Longrightarrow>
     good w' \<and> stored w' StateKeyWorldKey = stored w StateKeyWorldKey"
  by (simp add: keeps_key_def)

lemma world_key_short: "short_text StateKeyWorldKey"
  by (simp add: short_text_def StateKeyWorldKey_def)

context state_repo
begin

text \<open>A known world: what the launch does from what is stored.\<close>

lemma world_Wrap_known:
  assumes "good (lx_world l)" "\<not> st_newWorld (lx_settings l)" "st_worldResourceID (lx_settings l) = i" "i \<noteq> LatestResourceID"
  shows "\<exists>w'. good w' \<and> stored w' = (stored (lx_world l))(StateKeyWorldKey := None) \<and>
    world_Wrap W R next l =
      run_bind (if Some i = stored (lx_world l) StateKeyWorldKey \<or> i = [] \<and> stored (lx_world l) StateKeyWorldKey = None
                then run_io (io_ret ()) else fetch_world W False i)
        (\<lambda>_. play_world W R (st_worldName (lx_settings l)) next) (without_key l i w')"
proof -
  let ?s = "stored (lx_world l) StateKeyWorldKey"
  obtain w' where w': "sr_RemoveState R StateKeyWorldKey (lx_world l) = (Ok (), w')" "good w'"
    "stored w' = (stored (lx_world l))(StateKeyWorldKey := None)"
    using RemoveState_removes [OF assms(1) world_key_short] by blast
  have get: "sr_GetState R StateKeyWorldKey (lx_world l) = (Ok (case ?s of None \<Rightarrow> [] | Some v \<Rightarrow> v), lx_world l)"
    using GetState_stored [OF assms(1) world_key_short] .
  have "world_ids W R (lx_settings l) l = Some (Ok (i, case ?s of None \<Rightarrow> [] | Some v \<Rightarrow> v), without_key l i (lx_world l))"
    using assms(2-4) by (simp add: world_ids_def getRealResourceID_def run_outside_def run_bind_def run_io_def io_ret_def
        set_settings_def io_try_def outside_def get without_key_def)
  then have "world_Wrap W R next l =
      run_bind (if i \<noteq> (case ?s of None \<Rightarrow> [] | Some v \<Rightarrow> v) then fetch_world W False i else run_io (io_ret ()))
        (\<lambda>_. play_world W R (st_worldName (lx_settings l)) next) (without_key l i w')"
    using assms(2) w'(1) by (simp add: world_Wrap_def run_bind_def [of "world_ids W R (lx_settings l)"]
        run_bind_def [of "run_io (io_try (outside (sr_RemoveState R StateKeyWorldKey)))"] run_io_def Let_def io_try_def outside_def without_key_def)
  moreover have "(i \<noteq> (case ?s of None \<Rightarrow> [] | Some v \<Rightarrow> v)) = (\<not> (Some i = ?s \<or> i = [] \<and> ?s = None))"
    by (auto split: option.split)
  ultimately show ?thesis using w' by (intro exI [of _ w']) simp
qed

lemma stored_world_skipped:
  assumes "good (lx_world l)" "\<not> st_newWorld (lx_settings l)" "st_worldResourceID (lx_settings l) = i" "i \<noteq> LatestResourceID"
    and "stored (lx_world l) StateKeyWorldKey = Some i"
  shows "\<exists>w'. world_Wrap W R next l = play_world W R (st_worldName (lx_settings l)) next (without_key l i w')"
  using world_Wrap_known [OF assms(1-4), of W "next"] assms(5) by (auto simp: run_bind_def run_io_def io_ret_def)

lemma other_world_fetched:
  assumes "good (lx_world l)" "\<not> st_newWorld (lx_settings l)" "st_worldResourceID (lx_settings l) = i" "i \<noteq> LatestResourceID"
    and "stored (lx_world l) StateKeyWorldKey = Some k" and "k \<noteq> i"
  shows "\<exists>w'. world_Wrap W R next l =
    run_bind (fetch_world W False i) (\<lambda>_. play_world W R (st_worldName (lx_settings l)) next) (without_key l i w')"
  using world_Wrap_known [OF assms(1-4), of W "next"] assms(5,6) by auto

end

text \<open>
  Property C29: the runner downloads a world it has just uploaded.  The middleware is to skip the
  download when the world asked for is the one it uploaded last, and so keeps its key in the
  state; but the state it reads is the JSON text of what it set.  After the key \<open>i\<close> of the last
  upload is set, the next launch of that very world removes the local files and downloads it,
  whatever the world service and the rest of the launch do.
\<close>

theorem world_always_downloaded:
  fixes nxt :: "('w exteriord launching, unit) run"
  assumes "honest_disk F files" and "ok_trace tp" and "state_good files path s" and "short_text i" and "i \<noteq> LatestResourceID"
    and "\<not> st_newWorld (lx_settings l)" and "st_worldResourceID (lx_settings l) = i"
    and "R = NewExteriorStateRepository msg (disk_exteriord F path nt) tp"
    and "sr_SetState R StateKeyWorldKey i s = (Ok (), s1)" and "lx_world l = s1"
  shows "\<exists>s2. world_Wrap W R nxt l =
    run_bind (fetch_world W False i) (\<lambda>_. play_world W R (st_worldName (lx_settings l)) nxt) (without_key l i s2)"
proof -
  have rs: "runner_state F files tp" using assms(1,2) by (simp add: runner_state_def runner_state_axioms_def)
  have repo: "state_repo R (\<lambda>s. states_in files path (ex_world s)) (state_good files path) json_quote"
    unfolding assms(8) by (rule runner_state.is_state_repo [OF rs])
  obtain s' where s': "sr_SetState R StateKeyWorldKey i s = (Ok (), s')" "state_good files path s'"
    "states_in files path (ex_world s') = (states_in files path (ex_world s))(StateKeyWorldKey \<mapsto> json_quote i)"
    using state_repo.SetState_stores [OF repo assms(3) world_key_short assms(4)] by blast
  then show ?thesis
    using state_repo.other_world_fetched [OF repo _ assms(6,7,5), of "json_quote i" W nxt] assms(9,10) json_quote_neq [of i] by simp
qed


interpretation mem_runner: runner_state mem_disk "\<lambda>m. m" "''states.json''" "''00-ab-01''" "\<lambda>e. ''error''" "\<lambda>_ _ _. io_ret ()"
  by unfold_locales (simp add: ok_trace_def)

text \<open>A world service, settings and states for the examples.\<close>

definition some_worlds :: "'w world_ops" where
  "some_worlds = \<lparr>wi_GetLatestResourceID = \<lambda>_. run_io (io_ret ''w/1.zip''), wi_DownloadWorld = \<lambda>_. run_io (io_ret ()),
     wi_UploadWorld = \<lambda>_. run_io (io_ret ''w/2.zip''), wi_CleanupOldWorldFiles = io_ret ()\<rparr>"

definition some_settings :: settings where
  "some_settings = \<lparr>st_serverPath = [], st_minecraftVersion = ''1.20'', st_autoVersionEnabled = False, st_worldName = ''w'',
     st_worldResourceID = ''w/1.zip'', st_newWorld = False, st_motd = [], st_difficulty = [], st_levelType = [], st_seed = [],
     st_serverPropertiesOverrides = [], st_otlpEndpoint = [], st_metricExportIntervalMs = 0\<rparr>"

definition fresh_exteriord :: "(string \<rightharpoonup> string) exteriord" where
  "fresh_exteriord = \<lparr>ex_world = Map.empty, ex_msgChan = [], ex_stopHook = [], ex_cancelled = False\<rparr>"

definition mem_repo :: "(string \<rightharpoonup> string) exteriord state_repository" where
  "mem_repo = NewExteriorStateRepository (\<lambda>e. ''error'') (disk_exteriord mem_disk ''states.json'' (\<lambda>_ _ _. io_ret ())) ''00-ab-01''"

definition launching_in :: "'w \<Rightarrow> 'w launching" where
  "launching_in w = \<lparr>lx_settings = some_settings, lx_pid = 0, lx_restorePath = [], lx_world = w\<rparr>"

lemma fresh_good: "state_good (\<lambda>m. m) ''states.json'' fresh_exteriord"
  by (simp add: state_good_def states_sound_def fresh_exteriord_def states_in_def)

lemma world_always_downloaded_witness:
  "\<exists>s1. sr_SetState mem_repo StateKeyWorldKey ''w/1.zip'' fresh_exteriord = (Ok (), s1)
    \<and> (\<exists>s2. world_Wrap some_worlds mem_repo (run_io (io_ret ())) (launching_in s1)
       = run_bind (fetch_world some_worlds False ''w/1.zip'')
           (\<lambda>_. play_world some_worlds mem_repo ''w'' (run_io (io_ret ()))) (without_key (launching_in s1) ''w/1.zip'' s2))"
proof -
  have i: "short_text ''w/1.zip''" "''w/1.zip'' \<noteq> LatestResourceID" by (simp_all add: short_text_def LatestResourceID_def)
  obtain s1 where s1: "sr_SetState mem_repo StateKeyWorldKey ''w/1.zip'' fresh_exteriord = (Ok (), s1)"
    using mem_runner.repo.SetState_stores [OF fresh_good world_key_short i(1)] by (auto simp: mem_repo_def)
  have "\<exists>s2. world_Wrap some_worlds mem_repo (run_io (io_ret ())) (launching_in s1)
       = run_bind (fetch_world some_worlds False ''w/1.zip'')
           (\<lambda>_. play_world some_worlds mem_repo (st_worldName (lx_settings (launching_in s1))) (run_io (io_ret ())))
           (without_key (launching_in s1) ''w/1.zip'' s2)"
    by (rule world_always_downloaded [OF mem.honest_disk_axioms mem_runner.trace fresh_good i _ _ mem_repo_def s1])
      (simp_all add: launching_in_def some_settings_def)
  with s1 show ?thesis by (simp add: launching_in_def some_settings_def)
qed

section \<open>The key on record\<close>

context state_repo
begin

lemma play_world_record:
  assumes run: "play_world W R nm nxt l = Some (r, l')"
    and "good (lx_world l)" "stored (lx_world l) StateKeyWorldKey = None"
    and nxt: "keeps_key (\<lambda>l. good (lx_world l)) (\<lambda>l. stored (lx_world l)) nxt"
    and up: "keeps_key good stored (wi_UploadWorld W nm)"
    and short: "\<And>w k w'. wi_UploadWorld W nm w = Some (Ok k, w') \<Longrightarrow> short_text k"
  shows "stored (lx_world l') StateKeyWorldKey = None \<or>
    (\<exists>k w w'. wi_UploadWorld W nm w = Some (Ok k, w') \<and> stored (lx_world l') StateKeyWorldKey = Some (coded k)
       \<and> (r = Ok () \<or> wants_restart r))"
proof -
  obtain inner l1 where l1: "nxt l = Some (inner, l1)"
    using run by (cases "nxt l") (auto simp: play_world_def run_bind_def run_try_def)
  have k1: "good (lx_world l1)" "stored (lx_world l1) StateKeyWorldKey = None"
    using keeps_keyD [OF nxt l1] assms(2,3) by simp_all
  show ?thesis
  proof (cases "inner = Ok () \<or> wants_restart inner")
    case False
    then have "l' = l1"
      using run l1 by (cases inner) (auto simp: play_world_def run_bind_def run_try_def lift_res_def run_io_def io_lift_def)
    then show ?thesis using k1 by simp
  next
    case True
    then have noP: "\<And>p. inner \<noteq> Panic p" by auto
    obtain u w2 where u: "wi_UploadWorld W nm (lx_world l1) = Some (u, w2)"
      using run l1 True noP by (cases "wi_UploadWorld W nm (lx_world l1)"; cases inner)
        (auto simp: play_world_def run_bind_def run_try_def run_outside_def)
    have k2: "good w2" "stored w2 StateKeyWorldKey = None" using keeps_keyD [OF up u k1(1)] k1(2) by simp_all
    show ?thesis
    proof (cases u)
      case (Ok key)
      obtain w3 where "sr_SetState R StateKeyWorldKey key w2 = (Ok (), w3)" "stored w3 = (stored w2)(StateKeyWorldKey \<mapsto> coded key)"
        using SetState_stores [OF k2(1) world_key_short short] u Ok by blast
      then have "r = inner \<and> stored (lx_world l') StateKeyWorldKey = Some (coded key)"
        using run l1 True u Ok by (cases inner) (auto simp: play_world_def run_bind_def run_try_def run_outside_def
            lift_res_def run_io_def io_lift_def io_try_def outside_def)
      then show ?thesis using u Ok True by blast
    next
      case (Err e)
      then have "lx_world l' = w2"
        using run l1 True u by (cases inner) (auto simp: play_world_def run_bind_def run_try_def run_outside_def
            lift_res_def run_io_def io_lift_def)
      then show ?thesis using k2 by simp
    next
      case (Panic p)
      then have "lx_world l' = w2"
        using run l1 True u by (cases inner) (auto simp: play_world_def run_bind_def run_try_def run_outside_def)
      then show ?thesis using k2 by simp
    qed
  qed
qed

lemma world_Wrap_new:
  assumes "good (lx_world l)" "st_newWorld (lx_settings l)"
  shows "\<exists>w'. good w' \<and> stored w' = (stored (lx_world l))(StateKeyWorldKey := None) \<and>
    world_Wrap W R nxt l =
      run_bind (fetch_world W True []) (\<lambda>_. play_world W R (st_worldName (lx_settings l)) nxt) (l\<lparr>lx_world := w'\<rparr>)"
proof -
  obtain w' where w': "sr_RemoveState R StateKeyWorldKey (lx_world l) = (Ok (), w')" "good w'"
    "stored w' = (stored (lx_world l))(StateKeyWorldKey := None)"
    using RemoveState_removes [OF assms(1) world_key_short] by blast
  have "world_ids W R (lx_settings l) l = Some (Ok ([], []), l)"
    using assms(2) by (simp add: world_ids_def run_io_def io_ret_def)
  then have "world_Wrap W R nxt l =
      run_bind (fetch_world W True []) (\<lambda>_. play_world W R (st_worldName (lx_settings l)) nxt) (l\<lparr>lx_world := w'\<rparr>)"
    using assms(2) w'(1) by (simp add: world_Wrap_def run_bind_def [of "world_ids W R (lx_settings l)"]
        run_bind_def [of "run_io (io_try (outside (sr_RemoveState R StateKeyWorldKey)))"] run_io_def Let_def io_try_def outside_def)
  with w' show ?thesis by blast
qed

lemma fetch_world_keeps:
  assumes "fetch_world W b i l = Some (r, l')" and "good (lx_world l)"
    and clean: "keeps_key good stored (run_io (wi_CleanupOldWorldFiles W))"
    and down: "keeps_key good stored (wi_DownloadWorld W i)"
  shows "good (lx_world l') \<and> stored (lx_world l') StateKeyWorldKey = stored (lx_world l) StateKeyWorldKey"
proof -
  obtain x w1 where x: "wi_CleanupOldWorldFiles W (lx_world l) = (x, w1)" by fastforce
  then have k: "good w1 \<and> stored w1 StateKeyWorldKey = stored (lx_world l) StateKeyWorldKey"
    using keeps_keyD [OF clean _ assms(2)] by (simp add: run_io_def)
  show ?thesis
    using assms(1) x k keeps_keyD [OF down, of w1]
    by (cases x; cases b) (auto simp: fetch_world_def run_bind_def run_io_def outside_def io_ret_def run_outside_def)
qed

lemma world_Wrap_record:
  assumes run: "world_Wrap W R nxt l = Some (r, l')" and "good (lx_world l)"
    and known: "st_newWorld (lx_settings l) \<or> st_worldResourceID (lx_settings l) \<noteq> LatestResourceID"
    and clean: "keeps_key good stored (run_io (wi_CleanupOldWorldFiles W))"
    and down: "\<And>i. keeps_key good stored (wi_DownloadWorld W i)"
    and rest: "keeps_key (\<lambda>l. good (lx_world l)) (\<lambda>l. stored (lx_world l)) nxt"
      "\<And>nm. keeps_key good stored (wi_UploadWorld W nm)"
      "\<And>nm w k w'. wi_UploadWorld W nm w = Some (Ok k, w') \<Longrightarrow> short_text k"
  shows "stored (lx_world l') StateKeyWorldKey = None \<or>
    (\<exists>k w w'. wi_UploadWorld W (st_worldName (lx_settings l)) w = Some (Ok k, w')
       \<and> stored (lx_world l') StateKeyWorldKey = Some (coded k) \<and> (r = Ok () \<or> wants_restart r))"
proof -
  obtain b i l1 where l1: "good (lx_world l1)" "stored (lx_world l1) StateKeyWorldKey = None"
    "run_bind (if b then fetch_world W (st_newWorld (lx_settings l)) i else run_io (io_ret ()))
       (\<lambda>_. play_world W R (st_worldName (lx_settings l)) nxt) l1 = Some (r, l')"
  proof (cases "st_newWorld (lx_settings l)")
    case True
    from world_Wrap_new [OF assms(2) True, of W nxt] obtain w where w: "good w"
      "stored w = (stored (lx_world l))(StateKeyWorldKey := None)"
      "world_Wrap W R nxt l = run_bind (fetch_world W True []) (\<lambda>_. play_world W R (st_worldName (lx_settings l)) nxt) (l\<lparr>lx_world := w\<rparr>)"
      by blast
    show ?thesis by (rule that [of "l\<lparr>lx_world := w\<rparr>" True "[]"]) (use w run True in simp_all)
  next
    case False
    then have known': "st_worldResourceID (lx_settings l) \<noteq> LatestResourceID" using known by simp
    let ?i = "st_worldResourceID (lx_settings l)"
    let ?b = "\<not> (Some ?i = stored (lx_world l) StateKeyWorldKey \<or> ?i = [] \<and> stored (lx_world l) StateKeyWorldKey = None)"
    from world_Wrap_known [OF assms(2) False refl known', of W nxt] obtain w where w: "good w"
      "stored w = (stored (lx_world l))(StateKeyWorldKey := None)"
      "world_Wrap W R nxt l = run_bind (if \<not> ?b then run_io (io_ret ()) else fetch_world W False ?i)
         (\<lambda>_. play_world W R (st_worldName (lx_settings l)) nxt) (without_key l ?i w)"
      by auto
    show ?thesis
      by (rule that [of "without_key l ?i w" ?b ?i]) (use w run False in \<open>simp_all add: without_key_def if_not_P split: if_splits\<close>)
  qed
  from run_bind_SomeD [OF l1(3)] consider
      (play) x l2 where "(if b then fetch_world W (st_newWorld (lx_settings l)) i else run_io (io_ret ())) l1 = Some (x, l2)"
        "play_world W R (st_worldName (lx_settings l)) nxt l2 = Some (r, l')"
    | (stop) x where "(if b then fetch_world W (st_newWorld (lx_settings l)) i else run_io (io_ret ())) l1 = Some (x, l')"
    by auto
  then show ?thesis
  proof cases
    case play
    have k: "good (lx_world l2) \<and> stored (lx_world l2) StateKeyWorldKey = None"
      using play(1) l1(1,2) fetch_world_keeps [OF _ l1(1) clean down] by (auto simp: run_io_def io_ret_def split: if_splits)
    show ?thesis by (rule play_world_record [OF play(2) _ _ rest(1,2)]) (use k rest(3) in \<open>simp_all\<close>)
  next
    case stop
    then show ?thesis
      using l1(1,2) fetch_world_keeps [OF _ l1(1) clean down] by (auto simp: run_io_def io_ret_def split: if_splits)
  qed
qed

end

text \<open>
  The key on record is the key of what is on the disk.  When the world's part of a
  launch is over, either no key is recorded, or the last upload succeeded, its key is the one
  recorded and the server ended well or is to start again: a launch that fails anywhere (in the
  cleaning, the download, the game or the upload) leaves no key, so that changed files are never
  taken for an uploaded world.
\<close>

lemma world_key_is_uploaded:
  fixes nxt :: "('w exteriord launching, unit) run" and F :: "'w file_ops" and l :: "'w exteriord launching"
  assumes "honest_disk F files" and "ok_trace tp" and "R = NewExteriorStateRepository msg (disk_exteriord F path nt) tp"
    and run: "world_Wrap W R nxt l = Some (r, l')" and "state_good files path (lx_world l)"
    and "st_newWorld (lx_settings l) \<or> st_worldResourceID (lx_settings l) \<noteq> LatestResourceID"
    and "keeps_key (state_good files path) (\<lambda>s. states_in files path (ex_world s)) (run_io (wi_CleanupOldWorldFiles W))"
    and "\<And>i. keeps_key (state_good files path) (\<lambda>s. states_in files path (ex_world s)) (wi_DownloadWorld W i)"
    and "keeps_key (\<lambda>l. state_good files path (lx_world l)) (\<lambda>l. states_in files path (ex_world (lx_world l))) nxt"
    and "\<And>nm. keeps_key (state_good files path) (\<lambda>s. states_in files path (ex_world s)) (wi_UploadWorld W nm)"
    and "\<And>nm w k w'. wi_UploadWorld W nm w = Some (Ok k, w') \<Longrightarrow> short_text k"
  shows "states_in files path (ex_world (lx_world l')) StateKeyWorldKey = None \<or>
    (\<exists>k w w'. wi_UploadWorld W (st_worldName (lx_settings l)) w = Some (Ok k, w')
       \<and> states_in files path (ex_world (lx_world l')) StateKeyWorldKey = Some (json_quote k) \<and> (r = Ok () \<or> wants_restart r))"
proof -
  have rs: "runner_state F files tp" using assms(1,2) by (simp add: runner_state_def runner_state_axioms_def)
  have repo: "state_repo R (\<lambda>s. states_in files path (ex_world s)) (state_good files path) json_quote"
    unfolding assms(3) by (rule runner_state.is_state_repo [OF rs])
  show ?thesis by (rule state_repo.world_Wrap_record [OF repo assms(4-11)])
qed

lemma some_worlds_keep:
  "keeps_key g st (run_io (wi_CleanupOldWorldFiles some_worlds))" "keeps_key g st (wi_DownloadWorld some_worlds i)"
  "keeps_key g st (run_io (io_ret ()))" "keeps_key g st (wi_UploadWorld some_worlds nm)"
  by (simp_all add: keeps_key_def some_worlds_def run_io_def io_ret_def)

end
