(* ===== verification/WorldFiles.thy ===== *)
theory WorldFiles
  imports Archive McMiddleware RunnerApi
begin

text \<open>
  The world service of the runner, \<open>mclauncher/middleware/world/service/service.go\<close>: downloading and
  uploading a world with the client of the control plane.  Temporary directories and HTTP are
  parameters.  The progress events of a transfer are left out: the reader that sends them hands
  the bytes through.
\<close>

section \<open>The service\<close>

record 'w world_transfer =
  wv_client :: "'w api_client"
  wv_codecs :: codecs
  wv_mkdtemp :: "(disk, string) io"
  wv_DataPath :: "string \<Rightarrow> string"
  wv_Get :: "string \<Rightarrow> ('w, int \<times> content) io"
  wv_Put :: "string \<Rightarrow> content \<Rightarrow> ('w, int) io"
  wv_disk :: "'w \<Rightarrow> disk"
  wv_set :: "disk \<Rightarrow> 'w \<Rightarrow> 'w"

definition on_disk :: "'w world_transfer \<Rightarrow> (disk, 'a) io \<Rightarrow> ('w, 'a) run" where
  "on_disk V m w = (case m (wv_disk V w) of (r, d) \<Rightarrow> Some (r, wv_set V d w))"

definition DownloadWorld :: "'w world_transfer \<Rightarrow> string \<Rightarrow> ('w, unit) run" where
  "DownloadWorld V resourceID =
     run_bind (on_disk V (getExtractionPipeline (wv_mkdtemp V) (wv_DataPath V ''gamedata/world'') resourceID)) (\<lambda>p.
     run_bind (CreateWorldDownloadURL (wv_client V) resourceID) (\<lambda>url.
     run_bind (run_io (wv_Get V url)) (\<lambda>(status, body).
     if status \<noteq> 200 then run_io (io_err (Msg ''failed to download world data''))
     else on_disk V (pipeline_Run (wv_codecs V) p body))))"

definition run_finally :: "('w, 'a) run \<Rightarrow> ('w, unit) run \<Rightarrow> ('w, 'a) run" where
  "run_finally m f w =
     (case m w of None \<Rightarrow> None | Some (r, w1) \<Rightarrow> map_option (\<lambda>(_, w2). (r, w2)) (f w1))"

definition UploadWorld :: "'w world_transfer \<Rightarrow> string \<Rightarrow> ('w, string) run" where
  "UploadWorld V worldName =
     run_bind (on_disk V (wrap_error ''failed to create archive''
         (createArchive (wv_codecs V) (wv_mkdtemp V) (wv_DataPath V ''gamedata'')))) (\<lambda>path.
     run_finally
       (run_bind (on_disk V (os_Open path)) (\<lambda>file.
        run_bind (CreateWorldUploadURL (wv_client V) worldName) (\<lambda>(url, worldID).
        run_bind (run_io (wv_Put V url file)) (\<lambda>status.
        if status < 200 \<or> 300 \<le> status then run_io (io_err (Msg ''upload failed''))
        else run_io (io_ret worldID)))))
       (on_disk V (os_RemoveAll path)))"

definition NewWorldService :: "'w world_transfer \<Rightarrow> 'w world_ops" where
  "NewWorldService V =
     \<lparr>wi_GetLatestResourceID = GetLatestWorldID (wv_client V), wi_DownloadWorld = DownloadWorld V,
      wi_UploadWorld = UploadWorld V,
      wi_CleanupOldWorldFiles = (\<lambda>w. case RemoveIfExists (wv_DataPath V ''gamedata/world'') (wv_disk V w) of
        (r, d) \<Rightarrow> (r, wv_set V d w))\<rparr>"

end
