(* ===== verification/Watchdog.thy ===== *)
theory Watchdog
  imports McCore Rcon
begin

text \<open>
  \<open>src/backend/runner/commands/mclauncher/middleware/monitoring\<close>: once a second the launcher looks
  after the server: whether it is online, the commands of its first start, and whether anybody
  plays.  Dialling the server, its RCON and the sending of events are parameters.
\<close>

section \<open>The watchdogs\<close>

text \<open>
  The state: what the last check of the port said, whether the first start was handled, the
  round in which somebody was last seen, the status of this round, and the world.
\<close>

record 'w watching =
  wa_prevOnline :: bool
  wa_initialized :: bool
  wa_lastActive :: int
  wa_online :: bool
  wa_reported :: bool
  wa_world :: 'w

definition watch_out :: "('w, 'a) io \<Rightarrow> ('w watching, 'a) io" where
  "watch_out m s = (case m (wa_world s) of (r, w) \<Rightarrow> (r, s\<lparr>wa_world := w\<rparr>))"

text \<open>The port is checked every ten rounds while the server is online, every three otherwise.\<close>

definition liveness_Check :: "('w, bool) io \<Rightarrow> int \<Rightarrow> ('w watching, unit) io" where
  "liveness_Check dial watchID s =
     (if (if wa_prevOnline s then watchID mod 10 \<noteq> 0 else watchID mod 3 \<noteq> 0)
      then (Ok (), s\<lparr>wa_online := wa_prevOnline s\<rparr>)
      else io_bind (watch_out dial) (\<lambda>online s. (Ok (), s\<lparr>wa_online := online, wa_prevOnline := online\<rparr>)) s)"

fun each :: "('a \<Rightarrow> ('w, unit) io) \<Rightarrow> 'a list \<Rightarrow> ('w, unit) io" where
  "each f [] = io_ret ()"
| "each f (x # xs) = io_bind (f x) (\<lambda>_. each f xs)"

definition started_event :: "settings \<Rightarrow> string \<Rightarrow> event" where
  "started_event c seed = zero_event\<lparr>ev_Type := event_type_name EventStarted,
     ev_Started := Some \<lparr>sx_ServerVersion = st_minecraftVersion c, sx_World = \<lparr>sw_Name = st_worldName c, sw_Seed = seed\<rparr>\<rparr>\<rparr>"

definition onetime_init ::
  "'w rcon \<Rightarrow> (event \<Rightarrow> ('w, unit) io) \<Rightarrow> string list \<Rightarrow> string list \<Rightarrow> settings \<Rightarrow> ('w, unit) io" where
  "onetime_init R send ops whitelist c =
     io_bind (each (AddToOp R) ops) (\<lambda>_.
     io_bind (each (AddToWhiteList R) whitelist) (\<lambda>_.
     io_bind (io_try (rcon_Seed R)) (\<lambda>r.
     send (started_event c (case r of Ok seed \<Rightarrow> seed | _ \<Rightarrow> [])))))"

definition onetime_Check ::
  "'w rcon \<Rightarrow> (event \<Rightarrow> ('w, unit) io) \<Rightarrow> string list \<Rightarrow> string list \<Rightarrow> settings \<Rightarrow> int \<Rightarrow> ('w watching, unit) io" where
  "onetime_Check R send ops whitelist c watchID s =
     (if \<not> wa_online s \<or> wa_initialized s then (Ok (), s)
      else watch_out (onetime_init R send ops whitelist c) (s\<lparr>wa_initialized := True\<rparr>))"

text \<open>
  Activity: \<open>active_since\<close> is the round the count starts in, and \<open>judge\<close> what the number of players
  makes of it, with whether the server is stopped.
\<close>

definition active_since :: "int \<Rightarrow> int \<Rightarrow> int" where
  "active_since watchID lastActive = (if lastActive < 0 then watchID else lastActive)"

definition asks_players :: "int \<Rightarrow> int \<Rightarrow> bool \<Rightarrow> bool" where
  "asks_players timeoutMinutes watchID online = (0 < timeoutMinutes \<and> online \<and> watchID mod 60 = 0)"

definition judge :: "int \<Rightarrow> int \<Rightarrow> int \<Rightarrow> string list \<Rightarrow> int \<times> bool" where
  "judge timeoutMinutes watchID lastActive players =
     (if players \<noteq> [] then (watchID, False)
      else (lastActive, (watchID - lastActive) div 60 > timeoutMinutes))"

definition activeness_Check :: "'w rcon \<Rightarrow> int \<Rightarrow> int \<Rightarrow> ('w watching, unit) io" where
  "activeness_Check R timeoutMinutes watchID s =
     (if timeoutMinutes \<le> 0 \<or> \<not> wa_online s then (Ok (), s)
      else
        (let s1 = s\<lparr>wa_lastActive := active_since watchID (wa_lastActive s)\<rparr> in
         if \<not> asks_players timeoutMinutes watchID (wa_online s) then (Ok (), s1)
         else io_bind (watch_out (rcon_List R)) (\<lambda>output s.
           case judge timeoutMinutes watchID (wa_lastActive s) (lu_Players output) of
             (lastActive, stop) \<Rightarrow>
               (if stop then watch_out (rcon_Stop R) else io_ret ()) (s\<lparr>wa_lastActive := lastActive\<rparr>)) s1))"

section \<open>One round\<close>

definition status_event :: "event_code \<Rightarrow> event" where
  "status_event c = zero_event\<lparr>ev_Type := event_type_name EventStatus,
     ev_Status := Some \<lparr>se_EventCode = event_num c, se_Progress = 0\<rparr>\<rparr>"

fun run_watchdogs :: "(int \<Rightarrow> ('w watching, unit) io) list \<Rightarrow> int \<Rightarrow> ('w watching, unit) io" where
  "run_watchdogs [] watchID = io_ret ()"
| "run_watchdogs (d # ds) watchID = io_bind (io_try (d watchID)) (\<lambda>_. run_watchdogs ds watchID)"

definition monitoring_round ::
  "(event \<Rightarrow> ('w, unit) io) \<Rightarrow> (int \<Rightarrow> ('w watching, unit) io) list \<Rightarrow> int \<Rightarrow> ('w watching, unit) io" where
  "monitoring_round send ds watchID s =
     io_bind (run_watchdogs ds watchID) (\<lambda>_ s.
       if wa_reported s = wa_online s then (Ok (), s)
       else watch_out (send (status_event (if wa_online s then EventRunning else EventLoading)))
              (s\<lparr>wa_reported := wa_online s\<rparr>))
       (s\<lparr>wa_online := False\<rparr>)"

text \<open>The rounds until the context is cancelled.\<close>

fun monitoring_rounds ::
  "(event \<Rightarrow> ('w, unit) io) \<Rightarrow> (int \<Rightarrow> ('w watching, unit) io) list \<Rightarrow> nat \<Rightarrow> int \<Rightarrow> ('w watching, unit) io" where
  "monitoring_rounds send ds 0 watchID = io_ret ()"
| "monitoring_rounds send ds (Suc n) watchID =
     io_bind (monitoring_round send ds watchID) (\<lambda>_. monitoring_rounds send ds n (watchID + 1))"

definition NewWatching :: "'w \<Rightarrow> 'w watching" where
  "NewWatching w =
     \<lparr>wa_prevOnline = False, wa_initialized = False, wa_lastActive = -1, wa_online = False, wa_reported = False, wa_world = w\<rparr>"

text \<open>
  The middleware: the server is reported as loading, and runs while the rounds go on beside it;
  \<open>beside\<close> interleaves them.
\<close>

definition monitoring_Wrap ::
  "(event \<Rightarrow> ('w, unit) io) \<Rightarrow> (('w launching, unit) run \<Rightarrow> ('w launching, unit) run) \<Rightarrow> 'w middleware" where
  "monitoring_Wrap send beside next =
     run_bind (run_io (outside (send (status_event EventLoading)))) (\<lambda>_. beside next)"

section \<open>A server that is used is not stopped\<close>

text \<open>
  The rounds so far, with the last round that counts as activity: the first one in which the server
  was online, or one whose check listed a player.  Between the rounds anything but the counter
  may change.
\<close>

definition activity :: "'w rcon \<Rightarrow> int \<Rightarrow> int \<Rightarrow> 'w watching \<Rightarrow> int \<Rightarrow> int" where
  "activity R timeoutMinutes watchID s seen =
     (if timeoutMinutes \<le> 0 \<or> \<not> wa_online s then seen
      else if seen < 0 then watchID
      else if asks_players timeoutMinutes watchID True
        \<and> (\<exists>output w. rcon_List R (wa_world s) = (Ok output, w) \<and> lu_Players output \<noteq> []) then watchID
      else seen)"

inductive watched :: "'w rcon \<Rightarrow> int \<Rightarrow> int \<Rightarrow> int \<Rightarrow> int \<Rightarrow> bool" for R timeoutMinutes where
  start: "watched R timeoutMinutes 0 (-1) (-1)"
| round: "watched R timeoutMinutes t la seen \<Longrightarrow> wa_lastActive s = la \<Longrightarrow>
    activeness_Check R timeoutMinutes t s = (r, s') \<Longrightarrow>
    watched R timeoutMinutes (t + 1) (wa_lastActive s') (activity R timeoutMinutes t s seen)"

lemma watch_out_lastActive: "watch_out m s = (r, s') \<Longrightarrow> wa_lastActive s' = wa_lastActive s"
  by (auto simp: watch_out_def split: prod.splits)

lemma activeness_Check_skip:
  "timeoutMinutes \<le> 0 \<or> \<not> wa_online s \<Longrightarrow> activeness_Check R timeoutMinutes t s = (Ok (), s)"
  by (auto simp: activeness_Check_def)

lemma activeness_Check_count:
  assumes "0 < timeoutMinutes" "wa_online s" "t mod 60 \<noteq> 0"
  shows "activeness_Check R timeoutMinutes t s = (Ok (), s\<lparr>wa_lastActive := active_since t (wa_lastActive s)\<rparr>)"
  using assms by (simp add: activeness_Check_def asks_players_def)

lemma activeness_Check_ask:
  assumes "0 < timeoutMinutes" "wa_online s" "t mod 60 = 0" and "rcon_List R (wa_world s) = (r, w)"
  shows "activeness_Check R timeoutMinutes t s =
    (let s1 = s\<lparr>wa_lastActive := active_since t (wa_lastActive s), wa_world := w\<rparr> in
     case r of
       Err e \<Rightarrow> (Err e, s1)
     | Panic p \<Rightarrow> (Panic p, s1)
     | Ok output \<Rightarrow>
         (case judge timeoutMinutes t (active_since t (wa_lastActive s)) (lu_Players output) of
            (la, stop) \<Rightarrow> (if stop then watch_out (rcon_Stop R) else io_ret ()) (s1\<lparr>wa_lastActive := la\<rparr>)))"
  using assms by (simp add: activeness_Check_def asks_players_def watch_out_def io_bind_def Let_def split: res.split prod.split)

lemma activeness_Check_last:
  assumes "activeness_Check R timeoutMinutes t s = (r, s')" and "0 < timeoutMinutes" "wa_online s"
  shows "wa_lastActive s' = active_since t (wa_lastActive s) \<or> wa_lastActive s' = t"
    and "asks_players timeoutMinutes t True \<Longrightarrow> rcon_List R (wa_world s) = (Ok output, w) \<Longrightarrow> lu_Players output \<noteq> [] \<Longrightarrow>
      wa_lastActive s' = t"
proof -
  obtain x w1 where l: "rcon_List R (wa_world s) = (x, w1)" by (cases "rcon_List R (wa_world s)")
  have "(t mod 60 = 0 \<longrightarrow> (\<exists>out. x = Ok out \<and> lu_Players out \<noteq> []) \<longrightarrow> wa_lastActive s' = t)
    \<and> (wa_lastActive s' = active_since t (wa_lastActive s) \<or> wa_lastActive s' = t)"
  proof (cases "t mod 60 = 0")
    case True
    show ?thesis
      using assms(1) activeness_Check_ask [OF assms(2,3) True l]
      by (auto simp: judge_def Let_def io_run split: res.splits if_splits dest!: watch_out_lastActive)
  next
    case False
    then show ?thesis using assms(1) activeness_Check_count [OF assms(2,3) False] by auto
  qed
  then show "wa_lastActive s' = active_since t (wa_lastActive s) \<or> wa_lastActive s' = t"
    and "asks_players timeoutMinutes t True \<Longrightarrow> rcon_List R (wa_world s) = (Ok output, w) \<Longrightarrow> lu_Players output \<noteq> [] \<Longrightarrow>
      wa_lastActive s' = t"
    using l by (auto simp: asks_players_def)
qed

lemma watched_invariant: "watched R timeoutMinutes t la seen \<Longrightarrow> seen \<le> la \<and> la < t \<and> (la < 0 \<longleftrightarrow> seen < 0) \<and> 0 \<le> t"
proof (induction rule: watched.induct)
  case (round t la seen s r s')
  show ?case
  proof (cases "timeoutMinutes \<le> 0 \<or> \<not> wa_online s")
    case True
    then show ?thesis using round activeness_Check_skip [OF True] by (simp add: activity_def)
  next
    case False
    then have on: "0 < timeoutMinutes" "wa_online s" by auto
    note la = activeness_Check_last [OF round(3) on]
    show ?thesis
      using la(1) la(2) round(2,4) on by (auto simp: activity_def active_since_def split: if_splits)
  qed
qed simp

text \<open>
  Property C33: a server that is used is not stopped.  In every run of the rounds, whatever
  happens between them, the check does nothing but list the players for as long as the last
  activity - a check that listed a player, or the round in which the server came online - is not
  more than the configured minutes, plus the one that is cut off, ago.
\<close>

theorem active_server_not_stopped:
  assumes "watched R timeoutMinutes t (wa_lastActive s) seen" and "0 \<le> seen" and "t - seen < 60 * (timeoutMinutes + 1)"
  shows "wa_world (snd (activeness_Check R timeoutMinutes t s)) \<in> {wa_world s, snd (rcon_List R (wa_world s))}"
proof (cases "timeoutMinutes \<le> 0 \<or> \<not> wa_online s \<or> t mod 60 \<noteq> 0")
  case True
  then show ?thesis using activeness_Check_skip [of timeoutMinutes s R t] activeness_Check_count [of timeoutMinutes s t R]
    by (cases "timeoutMinutes \<le> 0 \<or> \<not> wa_online s") auto
next
  case False
  then have on: "0 < timeoutMinutes" "wa_online s" "t mod 60 = 0" by auto
  obtain r w where l: "rcon_List R (wa_world s) = (r, w)" by (cases "rcon_List R (wa_world s)")
  have inv: "seen \<le> wa_lastActive s" "wa_lastActive s < t" using watched_invariant [OF assms(1)] by auto
  then have "active_since t (wa_lastActive s) = wa_lastActive s" using assms(2) by (simp add: active_since_def)
  moreover have "(t - wa_lastActive s) div 60 \<le> timeoutMinutes"
  proof -
    have "t - wa_lastActive s < 60 * (timeoutMinutes + 1)" using inv assms(3) by linarith
    then have "(t - wa_lastActive s) div 60 < timeoutMinutes + 1" by (simp add: div_less_iff_less_mult mult.commute)
    then show ?thesis by simp
  qed
  ultimately show ?thesis
    using activeness_Check_ask [OF on l] l by (auto simp: judge_def Let_def io_run split: res.splits)
qed

text \<open>A server with one player, checked in the round in which it comes online.\<close>

definition demo_rcon :: "string list rcon" where
  "demo_rcon = \<lparr>rn_Exec = (\<lambda>cmd log. (Ok (list_text 20 [''alice'']), log @ [cmd]))\<rparr>"

definition demo_watching :: "string list watching" where
  "demo_watching = (NewWatching [])\<lparr>wa_online := True\<rparr>"

lemma demo_watched: "watched demo_rcon 30 1 0 0"
proof -
  have l: "rcon_List demo_rcon [] = (Ok \<lparr>lu_MaxPlayers = 20, lu_Players = [''alice'']\<rparr>, [''list''])"
    using list_text_parses [of "[''alice'']" 20]
    by (simp add: rcon_List_def demo_rcon_def io_try_def io_bind_def io_run player_name_def int64_max_def)
  have c: "activeness_Check demo_rcon 30 0 demo_watching = (Ok (), demo_watching\<lparr>wa_lastActive := 0, wa_world := [''list'']\<rparr>)"
    using l activeness_Check_ask [of 30 demo_watching 0 demo_rcon "Ok \<lparr>lu_MaxPlayers = 20, lu_Players = [''alice'']\<rparr>" "[''list'']"]
    by (simp add: demo_watching_def NewWatching_def judge_def io_run active_since_def Let_def)
  have "watched demo_rcon 30 (0 + 1) (wa_lastActive (demo_watching\<lparr>wa_lastActive := 0, wa_world := [''list'']\<rparr>))
      (activity demo_rcon 30 0 demo_watching (-1))"
    by (rule watched.round [OF watched.start _ c]) (simp add: demo_watching_def NewWatching_def)
  then show ?thesis by (simp add: activity_def demo_watching_def NewWatching_def)
qed

lemma active_server_not_stopped_witness:
  "wa_world (snd (activeness_Check demo_rcon 30 1 (demo_watching\<lparr>wa_lastActive := 0\<rparr>)))
    \<in> {wa_world (demo_watching\<lparr>wa_lastActive := 0\<rparr>), snd (rcon_List demo_rcon (wa_world (demo_watching\<lparr>wa_lastActive := 0\<rparr>)))}"
  by (rule active_server_not_stopped [where seen = 0]) (simp_all add: demo_watched)

end
