(* ===== verification/ServerProps.thy ===== *)
theory ServerProps
  imports McCore GameConfig
begin

text \<open>
  \<open>src/backend/runner/commands/mclauncher/middleware/serverproperties\<close>: the file
  \<open>server.properties\<close> of the game server, from defaults, the settings and what the user overrides.
  The order of a map is a parameter.  The last section reads the file back the way a properties
  file is read.
\<close>

section \<open>The generator\<close>

definition defaultServerProperties :: "(string \<times> string) list" where
  "defaultServerProperties =
     [(''allow-flight'', ''false''),
      (''allow-nether'', ''true''),
      (''broadcast-console-to-ops'', ''false''),
      (''broadcast-rcon-to-ops'', ''false''),
      (''difficulty'', ''easy''),
      (''enable-command-block'', ''true''),
      (''enable-jmx-monitoring'', ''false''),
      (''enable-query'', ''false''),
      (''enable-rcon'', ''true''),
      (''enable-status'', ''true''),
      (''enforce-whitelist'', ''true''),
      (''entity-broadcast-range-percentage'', ''100''),
      (''force-gamemode'', ''false''),
      (''function-permission-level'', ''2''),
      (''gamemode'', ''survival''),
      (''hardcore'', ''false''),
      (''hide-online-players'', ''false''),
      (''level-name'', ''world''),
      (''max-players'', ''20''),
      (''max-tick-time'', ''60000''),
      (''max-world-size'', ''29999984''),
      (''motd'', []),
      (''network-compression-threshold'', ''256''),
      (''online-mode'', ''true''),
      (''op-permission-level'', ''4''),
      (''player-idle-timeout'', ''0''),
      (''prevent-proxy-connections'', ''false''),
      (''pvp'', ''true''),
      (''query.port'', ''32109''),
      (''rate-limit'', ''0''),
      (''rcon.password'', ''x''),
      (''rcon.port'', ''25575''),
      (''require-resource-pack'', ''false''),
      (''resource-pack'', []),
      (''resource-pack-prompt'', []),
      (''resource-pack-sha1'', []),
      (''server-ip'', ''127.0.0.2''),
      (''server-port'', ''32109''),
      (''simulation-distance'', ''10''),
      (''spawn-animals'', ''true''),
      (''spawn-monsters'', ''true''),
      (''spawn-npcs'', ''true''),
      (''spawn-protection'', ''0''),
      (''sync-chunk-writes'', ''true''),
      (''text-filtering-config'', []),
      (''use-native-transport'', ''true''),
      (''view-distance'', ''10''),
      (''white-list'', ''true'')]"

definition overrideBlockedProps :: "string list" where
  "overrideBlockedProps =
     [''enable-jmx-monitoring'', ''enable-query'', ''enable-rcon'', ''level-name'', ''rcon.password'', ''rcon.port'', ''server-ip'', ''server-port'', ''white-list'']"

definition letters :: string where
  "letters = ''ABCDEFGHIJKLMNOPQRSTUVWXYZabcdefghijklmnopqrstuvwxyz''"

text \<open>\<open>^[a-zA-Z0-9._-]+$\<close>\<close>

definition keyRegexp :: "string \<Rightarrow> bool" where
  "keyRegexp k = (k \<noteq> [] \<and> list_all (\<lambda>c. c \<in> set letters \<or> is_digit c \<or> c \<in> set ''._-'') k)"

type_synonym props = "(string \<times> string) list"

definition NewServerPropertiesGenerator :: props where
  "NewServerPropertiesGenerator = defaultServerProperties"

definition sanitize :: "string \<Rightarrow> string" where
  "sanitize v = replace_all (CHR 0x0A) '' '' (replace_all (CHR 0x0D) [] v)"

text \<open>Each setter returns the properties, unchanged when it fails, and how it ended.\<close>

definition prop_Set :: "string \<Rightarrow> string \<Rightarrow> props \<Rightarrow> unit res \<times> props" where
  "prop_Set key val g =
     (if key \<in> set overrideBlockedProps then (Err (Msg ''this property is not allowed to be overridden''), g)
      else if \<not> keyRegexp key then (Err (Msg ''invalid property key''), g)
      else (Ok (), map_put key (sanitize val) g))"

definition prop_SetMotd :: "string \<Rightarrow> props \<Rightarrow> unit res \<times> props" where
  "prop_SetMotd motd = prop_Set ''motd'' motd"

definition prop_SetDifficulty :: "string \<Rightarrow> props \<Rightarrow> unit res \<times> props" where
  "prop_SetDifficulty difficulty g =
     (if \<not> slices_contains [''peaceful'', ''easy'', ''normal'', ''hard''] difficulty
      then (Err (Msg ''unknown difficulty''), g) else prop_Set ''difficulty'' difficulty g)"

definition prop_SetLevelType :: "string \<Rightarrow> props \<Rightarrow> unit res \<times> props" where
  "prop_SetLevelType levelType g =
     (if \<not> slices_contains [''flat'', ''largebiomes'', ''amplified'', ''default''] levelType
      then (Err (Msg ''unknown level type''), g) else prop_Set ''level-type'' levelType g)"

definition prop_SetSeed :: "string \<Rightarrow> props \<Rightarrow> unit res \<times> props" where
  "prop_SetSeed seed = prop_Set ''level-seed'' seed"

definition prop_line :: "string \<times> string \<Rightarrow> string" where
  "prop_line = (\<lambda>(k, v). k @ ''='' @ replace_all (CHR 0x5C) [CHR 0x5C, CHR 0x5C] v @ [CHR 0x0A])"

definition prop_Write :: "(props \<Rightarrow> props) \<Rightarrow> props \<Rightarrow> string" where
  "prop_Write ord g = concat (map prop_line (ord g))"

section \<open>The middleware\<close>

fun override_all :: "(string \<times> string) list \<Rightarrow> props \<Rightarrow> props" where
  "override_all [] g = g"
| "override_all ((k, v) # kvs) g = override_all kvs (snd (prop_Set k v g))"

definition server_properties :: "(props \<Rightarrow> props) \<Rightarrow> settings \<Rightarrow> props" where
  "server_properties ord c =
     override_all (ord (st_serverPropertiesOverrides c))
       (snd (prop_SetSeed (st_seed c) (snd (prop_SetLevelType (st_levelType c)
         (snd (prop_SetDifficulty (st_difficulty c) (snd (prop_SetMotd (st_motd c) NewServerPropertiesGenerator))))))))"

definition createServerPropertiesFile :: "'w file_ops \<Rightarrow> string \<Rightarrow> (props \<Rightarrow> props) \<Rightarrow> (props \<Rightarrow> props) \<Rightarrow> ('w launching, unit) io" where
  "createServerPropertiesFile F path ord ord' s =
     outside (fo_Create F path (prop_Write ord' (server_properties ord (lx_settings s)))) s"

definition serverproperties_Wrap :: "'w file_ops \<Rightarrow> string \<Rightarrow> (props \<Rightarrow> props) \<Rightarrow> (props \<Rightarrow> props) \<Rightarrow> 'w middleware" where
  "serverproperties_Wrap F path ord ord' next s =
     (case createServerPropertiesFile F path ord ord' s of
        (Err e, s1) \<Rightarrow> Some (Err (Wrapped ''failed to create server.properties file'' e), s1)
      | (Panic p, s1) \<Rightarrow> Some (Panic p, s1)
      | (Ok x, s1) \<Rightarrow> next s1)"

text \<open>\<open>eula.txt\<close>\<close>

definition eula_Wrap :: "'w file_ops \<Rightarrow> string \<Rightarrow> 'w middleware" where
  "eula_Wrap F path next = run_bind (run_io (outside (fo_Create F path ''eula=true''))) (\<lambda>_. next)"

section \<open>Well-formed properties\<close>

definition wf_props :: "props \<Rightarrow> bool" where
  "wf_props g = (wf_map g \<and> list_all (\<lambda>(k, v). keyRegexp k \<and> CHR 0x0A \<notin> set v \<and> CHR 0x0D \<notin> set v) g)"

lemma sanitize_lines: "CHR 0x0A \<notin> set (sanitize v)" "CHR 0x0D \<notin> set (sanitize v)"
proof -
  show "CHR 0x0A \<notin> set (sanitize v)" unfolding sanitize_def by (rule replace_all_no_old) simp
  have "CHR 0x0D \<notin> set (replace_all (CHR 0x0D) [] v)" by (rule replace_all_no_old) simp
  then show "CHR 0x0D \<notin> set (sanitize v)"
    unfolding sanitize_def using set_replace_all [of "CHR 0x0A" "'' ''" "replace_all (CHR 0x0D) [] v"] by auto
qed

lemma wf_Set: "wf_props g \<Longrightarrow> wf_props (snd (prop_Set k v g))"
  using sanitize_lines [of v]
  by (auto simp: prop_Set_def wf_props_def map_put_def wf_map_def list_all_iff distinct_filter_key)

lemma wf_setters:
  assumes "wf_props g"
  shows "wf_props (snd (prop_SetMotd m g))" "wf_props (snd (prop_SetDifficulty d g))"
    "wf_props (snd (prop_SetLevelType t g))" "wf_props (snd (prop_SetSeed s g))" "wf_props (override_all kvs g)"
proof -
  show "wf_props (override_all kvs g)" using assms
    by (induction kvs g rule: override_all.induct) (simp_all add: wf_Set)
qed (simp_all add: assms wf_Set prop_SetMotd_def prop_SetDifficulty_def prop_SetLevelType_def prop_SetSeed_def)

lemma wf_default: "wf_props NewServerPropertiesGenerator"
  by code_simp

lemma wf_server_properties: "wf_props (server_properties ord c)"
  unfolding server_properties_def by (intro wf_setters wf_default)

section \<open>The file is read back\<close>

text \<open>
  How the server reads the file.  A carriage return ends a line as a line feed does; blank lines and
  comments are skipped.  A line has the key up to a sign or a space, an optional sign between spaces, and the
  value, a backslash standing for the next byte.  The generator doubles every backslash in a value and
  allows none in a key, so neither escapes of special characters nor continued lines come up.
\<close>

fun unescape :: "string \<Rightarrow> string" where
  "unescape [] = []"
| "unescape [c] = (if c = CHR 0x5C then [] else [c])"
| "unescape (c # d # s) = (if c = CHR 0x5C then d # unescape s else c # unescape (d # s))"

definition prop_space :: "char \<Rightarrow> bool" where
  "prop_space c = (c \<in> {CHR '' '', CHR 0x09, CHR 0x0C})"

definition skip_spaces :: "string \<Rightarrow> string" where
  "skip_spaces = dropWhile prop_space"

definition key_end :: "char \<Rightarrow> bool" where
  "key_end c = (c = CHR ''='' \<or> c = CHR '':'' \<or> prop_space c)"

definition skip_sign :: "string \<Rightarrow> string" where
  "skip_sign r = (case r of [] \<Rightarrow> [] | c # x \<Rightarrow> if c = CHR ''='' \<or> c = CHR '':'' then x else r)"

definition read_line_prop :: "string \<Rightarrow> string \<times> string" where
  "read_line_prop l =
     (takeWhile (\<lambda>c. \<not> key_end c) l,
      unescape (skip_spaces (skip_sign (skip_spaces (dropWhile (\<lambda>c. \<not> key_end c) l)))))"

definition has_prop :: "string \<Rightarrow> bool" where
  "has_prop l = (l \<noteq> [] \<and> hd l \<noteq> CHR ''#'' \<and> hd l \<noteq> CHR 0x21)"

definition read_props :: "string \<Rightarrow> props" where
  "read_props t = map read_line_prop (filter has_prop (map skip_spaces
     (concat (map (str_split [CHR 0x0D]) (str_split [CHR 0x0A] t)))))"

definition escaped :: "string \<Rightarrow> string" where
  "escaped = replace_all (CHR 0x5C) [CHR 0x5C, CHR 0x5C]"

lemma escaped_simps [simp]:
  "escaped [] = []" "escaped (c # v) = (if c = CHR 0x5C then [CHR 0x5C, CHR 0x5C] else [c]) @ escaped v"
  by (simp_all add: escaped_def replace_all_def)

lemma unescape_cons: "c \<noteq> CHR 0x5C \<Longrightarrow> unescape (c # s) = c # unescape s"
  by (cases s) simp_all

lemma unescape_escaped: "unescape (escaped v) = v"
  by (induction v) (simp_all add: unescape_cons)

lemma skip_spaces_escaped: "skip_spaces (escaped v) = escaped (skip_spaces v)"
  by (induction v) (simp_all add: skip_spaces_def prop_space_def)

lemma key_char:
  assumes "keyRegexp k" and "c \<in> set k"
  shows "\<not> key_end c" "\<not> prop_space c" "c \<noteq> CHR 0x0A" "c \<noteq> CHR 0x0D" "c \<noteq> CHR ''#''" "c \<noteq> CHR 0x21"
proof -
  have "c \<in> set letters \<or> is_digit c \<or> c \<in> set ''._-''" using assms by (auto simp: keyRegexp_def list_all_iff)
  moreover have "\<not> (d \<in> set letters \<or> is_digit d \<or> d \<in> set ''._-'')"
    if "d \<in> {CHR ''='', CHR '':'', CHR '' '', CHR 0x09, CHR 0x0C, CHR 0x0A, CHR 0x0D, CHR ''#'', CHR 0x21}" for d
    using that by (auto simp: letters_def is_digit_def)
  ultimately have "c \<notin> {CHR ''='', CHR '':'', CHR '' '', CHR 0x09, CHR 0x0C, CHR 0x0A, CHR 0x0D, CHR ''#'', CHR 0x21}" by blast
  then show "\<not> key_end c" "\<not> prop_space c" "c \<noteq> CHR 0x0A" "c \<noteq> CHR 0x0D" "c \<noteq> CHR ''#''" "c \<noteq> CHR 0x21"
    by (auto simp: key_end_def prop_space_def)
qed

lemma key_span:
  "(\<forall>c \<in> set k. \<not> P c) \<Longrightarrow> P e \<Longrightarrow>
    takeWhile (\<lambda>x. \<not> P x) (k @ e # r) = k \<and> dropWhile (\<lambda>x. \<not> P x) (k @ e # r) = e # r"
  by (induction k) auto

lemma read_written_line:
  assumes "keyRegexp k"
  shows "read_line_prop (k @ CHR ''='' # escaped v) = (k, skip_spaces v)" "skip_spaces (k @ r) = k @ r" "has_prop (k @ r)"
proof -
  have "\<forall>c \<in> set k. \<not> key_end c" using key_char(1) [OF assms] by blast
  then have span: "takeWhile (\<lambda>c. \<not> key_end c) (k @ CHR ''='' # escaped v) = k"
      "dropWhile (\<lambda>c. \<not> key_end c) (k @ CHR ''='' # escaped v) = CHR ''='' # escaped v"
    using key_span [of k key_end "CHR ''=''" "escaped v"] by (simp_all only: key_end_def simp_thms)
  have sign: "skip_spaces (CHR ''='' # x) = CHR ''='' # x" "skip_sign (CHR ''='' # x) = x" for x
    by (simp_all add: skip_spaces_def prop_space_def skip_sign_def)
  show "read_line_prop (k @ CHR ''='' # escaped v) = (k, skip_spaces v)"
    by (simp only: read_line_prop_def span sign skip_spaces_escaped unescape_escaped)
  obtain c k' where k: "k = c # k'" using assms by (cases k) (auto simp: keyRegexp_def)
  then show "skip_spaces (k @ r) = k @ r" "has_prop (k @ r)"
    using key_char [OF assms, of c] by (simp_all add: skip_spaces_def has_prop_def)
qed

lemma split_line: "CHR 0x0A \<notin> set l \<Longrightarrow> str_split [CHR 0x0A] (l @ CHR 0x0A # r) = l # str_split [CHR 0x0A] r"
  by (subst str_split.simps) (simp add: str_index_char)

lemma read_props_lines:
  "list_all (\<lambda>(k, v). keyRegexp k \<and> CHR 0x0A \<notin> set v \<and> CHR 0x0D \<notin> set v) g \<Longrightarrow>
   read_props (concat (map prop_line g)) = map (\<lambda>(k, v). (k, skip_spaces v)) g"
proof (induction g)
  case Nil
  then show ?case by (simp add: read_props_def str_split_one skip_spaces_def has_prop_def)
next
  case (Cons kv g)
  obtain k v where kv: "kv = (k, v)" "keyRegexp k" "CHR 0x0A \<notin> set v" "CHR 0x0D \<notin> set v" using Cons.prems by (cases kv) auto
  let ?l = "k @ CHR ''='' # escaped v"
  have line: "prop_line kv = ?l @ [CHR 0x0A]" by (simp add: prop_line_def kv escaped_def)
  have "CHR 0x0A \<notin> set (escaped v)" "CHR 0x0D \<notin> set (escaped v)"
    unfolding escaped_def using set_replace_all [of "CHR 0x5C" "[CHR 0x5C, CHR 0x5C]" v] kv by auto
  then have nl: "CHR 0x0A \<notin> set ?l" "CHR 0x0D \<notin> set ?l" using key_char(3,4) [OF kv(2)] by auto
  have "read_props (?l @ CHR 0x0A # r) = (k, skip_spaces v) # read_props r" for r
    using split_line [OF nl(1), of r] read_written_line [OF kv(2)] str_split_one [OF nl(2)]
    by (simp add: read_props_def)
  then show ?case using Cons kv(1) line by simp
qed

lemma read_props_Write:
  assumes "wf_props g" and "any_order ord"
  shows "read_props (prop_Write ord g) = map (\<lambda>(k, v). (k, skip_spaces v)) (ord g)"
  unfolding prop_Write_def using assms any_orderD(1) [OF assms(2), of g]
  by (intro read_props_lines) (auto simp: wf_props_def list_all_iff)

lemma sanitize_eq:
  "sanitize v = concat (map (\<lambda>c. if c = CHR 0x0D then [] else if c = CHR 0x0A then '' '' else [c]) v)"
  unfolding sanitize_def replace_all_def by (induction v) auto

lemma override_all_get:
  "distinct (map fst kvs) \<Longrightarrow> map_of (override_all kvs g) k =
    (case map_of kvs k of
       Some v \<Rightarrow> if k \<notin> set overrideBlockedProps \<and> keyRegexp k then Some (sanitize v) else map_of g k
     | None \<Rightarrow> map_of g k)"
proof (induction kvs g rule: override_all.induct)
  case (2 k' v kvs g)
  then have "k = k' \<Longrightarrow> map_of kvs k = None" by (auto simp: map_of_eq_None_iff)
  then show ?case using 2 by (auto simp: prop_Set_def split: option.split)
qed simp

lemma map_of_any_order:
  assumes "any_order ord" and "distinct (map fst kvs)"
  shows "map_of (ord kvs) = map_of kvs" "distinct (map fst (ord kvs))"
proof -
  show d: "distinct (map fst (ord kvs))"
    using assms any_orderD(2) [OF assms(1), of kvs] by (metis mset_eq_imp_distinct_iff mset_map)
  show "map_of (ord kvs) = map_of kvs"
    using d assms(2) any_orderD(1) [OF assms(1), of kvs] by (intro map_of_inject_set [THEN iffD2]) simp_all
qed

text \<open>
  Property C34: \<open>server.properties\<close> is well-formed.  Whatever the settings and the overrides hold - keys
  and values with line ends, backslashes or signs - no value of a property holds a line end, and the file
  the server reads has exactly one line for each of the properties, with its value (less the spaces it
  begins with, which the format drops); the keys are distinct and of the allowed form.  An override of
  an allowed key, and the message of the day when it is not overridden, get there with their carriage
  returns removed and their line feeds made spaces, otherwise unchanged.
\<close>

theorem server_properties_well_formed:
  assumes "any_order ord" and "any_order ord'" and "distinct (map fst (st_serverPropertiesOverrides c))"
  defines "one_line \<equiv> \<lambda>v. concat (map (\<lambda>ch. if ch = CHR 0x0D then [] else if ch = CHR 0x0A then '' '' else [ch]) v)"
  shows "mset (read_props (prop_Write ord' (server_properties ord c)))
      = mset (map (\<lambda>(k, v). (k, skip_spaces v)) (server_properties ord c))
    \<and> (\<forall>(k, v) \<in> set (server_properties ord c). keyRegexp k \<and> CHR 0x0A \<notin> set v \<and> CHR 0x0D \<notin> set v)
    \<and> distinct (map fst (server_properties ord c))
    \<and> (\<forall>(k, v) \<in> set (st_serverPropertiesOverrides c). k \<notin> set overrideBlockedProps \<and> keyRegexp k
        \<longrightarrow> map_of (server_properties ord c) k = Some (one_line v))
    \<and> (''motd'' \<notin> fst ` set (st_serverPropertiesOverrides c)
        \<longrightarrow> map_of (server_properties ord c) ''motd'' = Some (one_line (st_motd c)))"
proof -
  note wf = wf_server_properties [of ord c]
  have "mset (map f (ord' g)) = mset (map f g)" for f :: "string \<times> string \<Rightarrow> string \<times> string" and g
    using any_orderD(2) [OF assms(2), of g] by simp
  then have read: "mset (read_props (prop_Write ord' (server_properties ord c)))
      = mset (map (\<lambda>(k, v). (k, skip_spaces v)) (server_properties ord c))"
    using read_props_Write [OF wf assms(2)] by (simp del: mset_map)
  note ord = map_of_any_order [OF assms(1,3)]
  have over: "map_of (server_properties ord c) k = Some (one_line v)"
    if "(k, v) \<in> set (st_serverPropertiesOverrides c)" "k \<notin> set overrideBlockedProps" "keyRegexp k" for k v
    using that override_all_get [OF ord(2)] assms(3)
    by (simp add: server_properties_def ord(1) sanitize_eq one_line_def)
  have motd: "keyRegexp ''motd''" "''motd'' \<notin> set overrideBlockedProps" by code_simp+
  have set_other: "map_of (snd (prop_Set k v g)) ''motd'' = map_of g ''motd''" if "k \<noteq> ''motd''" for k v g
    using that by (simp add: prop_Set_def)
  have "map_of (server_properties ord c) ''motd'' = Some (one_line (st_motd c))"
    if "''motd'' \<notin> fst ` set (st_serverPropertiesOverrides c)"
  proof -
    have "map_of (st_serverPropertiesOverrides c) ''motd'' = None" using that by (simp add: map_of_eq_None_iff)
    then have "map_of (server_properties ord c) ''motd'' = map_of (snd (prop_SetMotd (st_motd c) NewServerPropertiesGenerator)) ''motd''"
      using override_all_get [OF ord(2)]
      by (simp add: server_properties_def ord(1) prop_SetSeed_def prop_SetLevelType_def prop_SetDifficulty_def set_other)
    then show ?thesis using motd by (simp add: prop_SetMotd_def prop_Set_def sanitize_eq one_line_def)
  qed
  then show ?thesis using read over wf by (auto simp: wf_props_def wf_map_def list_all_iff simp del: mset_map)
qed

lemma any_order_id: "any_order (\<lambda>xs. xs)"
  by (simp add: any_order_def)

definition hostile_settings :: settings where
  "hostile_settings = (NewConfigJSONSettingsRepository zero_runner_config)\<lparr>
     st_motd := ''hi'' @ [CHR 0x0D, CHR 0x0A] @ ''enable-rcon=false'', st_levelType := ''largeBiomes'',
     st_serverPropertiesOverrides := [(''rcon.password'', ''y''), (''a=b'', ''c''), (''pvp'', [CHR 0x5C])]\<rparr>"

lemma server_properties_well_formed_witness:
  "mset (read_props (prop_Write rev (server_properties (\<lambda>g. g) hostile_settings)))
      = mset (map (\<lambda>(k, v). (k, skip_spaces v)) (server_properties (\<lambda>g. g) hostile_settings))
    \<and> distinct (map fst (server_properties (\<lambda>g. g) hostile_settings))
    \<and> map_of (server_properties (\<lambda>g. g) hostile_settings) ''motd'' = Some ''hi enable-rcon=false''
    \<and> map_of (server_properties (\<lambda>g. g) hostile_settings) ''pvp'' = Some [CHR 0x5C]"
proof -
  have o: "st_serverPropertiesOverrides hostile_settings = [(''rcon.password'', ''y''), (''a=b'', ''c''), (''pvp'', [CHR 0x5C])]"
    "st_motd hostile_settings = ''hi'' @ [CHR 0x0D, CHR 0x0A] @ ''enable-rcon=false''"
    by (simp_all add: hostile_settings_def)
  have p: "keyRegexp ''pvp''" "''pvp'' \<notin> set overrideBlockedProps" by code_simp+
  have "any_order (\<lambda>g :: props. g)" "any_order (rev :: props \<Rightarrow> props)" by (simp_all add: any_order_def)
  from server_properties_well_formed [OF this, of hostile_settings] show ?thesis unfolding o using p by simp
qed

section \<open>Blocked properties\<close>

lemma blocked_Set: "k \<in> set overrideBlockedProps \<Longrightarrow> map_of (snd (prop_Set k' v g)) k = map_of g k"
  by (auto simp: prop_Set_def)

lemma blocked_server_properties:
  assumes "k \<in> set overrideBlockedProps"
  shows "map_of (server_properties ord c) k = map_of defaultServerProperties k"
proof -
  have over: "map_of (override_all kvs g) k = map_of g k" for kvs g
    by (induction kvs g rule: override_all.induct) (simp_all add: blocked_Set [OF assms])
  show ?thesis
    by (simp add: server_properties_def over blocked_Set [OF assms] prop_SetMotd_def prop_SetDifficulty_def
        prop_SetLevelType_def prop_SetSeed_def NewServerPropertiesGenerator_def)
qed

lemma filter_key_unique:
  assumes "distinct (map fst g)" and "map_of g k = Some v"
  shows "filter (\<lambda>x. fst x = k) g = [(k, v)]"
  using assms
proof (induction g)
  case (Cons x g)
  show ?case
  proof (cases "fst x = k")
    case True
    then have "filter (\<lambda>x. fst x = k) g = []" using Cons.prems(1) by (auto simp: filter_empty_conv image_iff)
    then show ?thesis using True Cons.prems(2) by (cases x) auto
  next
    case False
    then show ?thesis using Cons by (cases x) auto
  qed
qed simp

text \<open>
  Property C22: the properties the runner relies on cannot be overridden.  Whatever the settings, in the
  file the server reads each blocked key that has a default has it, and no other line.
\<close>

theorem blocked_props_keep_default:
  assumes "k \<in> set overrideBlockedProps" and "map_of defaultServerProperties k = Some v" and "any_order ord'"
  shows "filter (\<lambda>x. fst x = k) (read_props (prop_Write ord' (server_properties ord c))) = [(k, skip_spaces v)]"
proof -
  let ?g = "server_properties ord c"
  have "distinct (map fst (ord' ?g))"
    using wf_server_properties [of ord c] any_orderD(2) [OF assms(3), of ?g]
    unfolding wf_props_def wf_map_def by (metis mset_eq_imp_distinct_iff mset_map)
  moreover from this have "map_of (ord' ?g) = map_of ?g"
    using any_orderD(1) [OF assms(3), of ?g] wf_server_properties [of ord c]
    by (intro map_of_inject_set [THEN iffD2]) (auto simp: wf_props_def wf_map_def)
  ultimately have "filter (\<lambda>x. fst x = k) (ord' ?g) = [(k, v)]"
    using blocked_server_properties [OF assms(1)] assms(2) by (intro filter_key_unique) simp_all
  then show ?thesis
    using read_props_Write [OF wf_server_properties assms(3), of ord c] by (simp add: filter_map comp_def case_prod_beta)
qed

lemma blocked_props_keep_default_witness:
  "filter (\<lambda>x. fst x = ''rcon.password'') (read_props (prop_Write rev (server_properties (\<lambda>g. g) hostile_settings)))
    = [(''rcon.password'', skip_spaces ''x'')]"
  by (rule blocked_props_keep_default) (simp_all add: overrideBlockedProps_def defaultServerProperties_def any_order_def)

section \<open>Level types\<close>

text \<open>
  Two of the level types the control plane accepts never reach the server.  With
  \<open>largeBiomes\<close> or \<open>buffet\<close>, which are valid when a configuration is made, the generator's setter fails,
  its error is dropped, and the server gets no level type.
\<close>

lemma level_type_lost:
  assumes "st_levelType c \<in> {''largeBiomes'', ''buffet''}" and "any_order ord"
    and "''level-type'' \<notin> fst ` set (st_serverPropertiesOverrides c)"
  shows "isValidLevelType (st_levelType c) \<and> map_of (server_properties ord c) ''level-type'' = None"
proof -
  have over: "''level-type'' \<notin> fst ` set kvs \<Longrightarrow> map_of (override_all kvs g) ''level-type'' = map_of g ''level-type''" for kvs g
    by (induction kvs g rule: override_all.induct) (auto simp: prop_Set_def)
  have "''level-type'' \<notin> fst ` set (ord (st_serverPropertiesOverrides c))" using assms(3) any_orderD(1) [OF assms(2)] by simp
  moreover have "prop_SetLevelType (st_levelType c) g = (Err (Msg ''unknown level type''), g)" for g
    using assms(1) by (auto simp: prop_SetLevelType_def slices_contains_def)
  moreover have "map_of (snd (prop_Set k v g)) ''level-type'' = map_of g ''level-type''" if "k \<noteq> ''level-type''" for k v g
    using that by (simp add: prop_Set_def)
  moreover have "map_of NewServerPropertiesGenerator ''level-type'' = None"
    by (simp add: NewServerPropertiesGenerator_def defaultServerProperties_def)
  ultimately have "map_of (server_properties ord c) ''level-type'' = None"
    by (simp add: server_properties_def over prop_SetMotd_def prop_SetDifficulty_def prop_SetSeed_def)
  then show ?thesis using assms(1) by (auto simp: isValidLevelType_def slices_contains_def)
qed

end
