(* ===== verification/McLauncher.thy ===== *)
theory McLauncher
  imports McApis WorldFiles Watchdog ServerProps
begin

text \<open>
  The launcher as a whole: \<open>runner/commands/mclauncher/mclauncher.go\<close>.  It composes the middleware,
  the undo service and the core of the launcher, and makes an exit code of the outcome.
\<close>

section \<open>The composition\<close>

text \<open>
  What the process is given: the outside world as the parts see it.  \<open>le_beside\<close> runs a launch with
  the rounds of the watchdogs beside it, the orders are those a map is iterated in.
\<close>

record 'w launcher_env =
  le_ops :: "'w launch_ops"
  le_host :: "'w host"
  le_undo :: "'w undo_ops"
  le_rnd :: "nat \<Rightarrow> int"
  le_trace :: string
  le_notify :: "string \<Rightarrow> json \<Rightarrow> ('w, unit) io"
  le_beside :: "(settings \<Rightarrow> nat \<Rightarrow> ('w watching, unit) io) \<Rightarrow> ('w launching, unit) run \<Rightarrow> ('w launching, unit) run"
  le_dial :: "('w, bool) io"
  le_rcon :: "'w rcon"
  le_files :: "'w file_ops"
  le_orders :: "(props \<Rightarrow> props) \<times> (props \<Rightarrow> props)"
  le_jar :: "'w jar_mw"
  le_decode :: "string \<Rightarrow> ('w, string) io"
  le_worlds :: "'w world_transfer"
  le_state :: "'w state_repository"
  le_DataPath :: "string \<Rightarrow> string"

definition launcher_watchdogs :: "'w launcher_env \<Rightarrow> game_config \<Rightarrow> settings \<Rightarrow> (int \<Rightarrow> ('w watching, unit) io) list" where
  "launcher_watchdogs E g c =
     [liveness_Check (le_dial E),
      onetime_Check (le_rcon E) (SendEvent (le_trace E) (le_notify E)) (gc_Operators g) (gc_Whitelist g) c,
      activeness_Check (le_rcon E) (sc_InactiveTimeout (gc_Server g))]"

definition launchermeta_client :: "'w launcher_env \<Rightarrow> game_config \<Rightarrow> 'w jar_mw" where
  "launchermeta_client E g =
     (le_jar E)\<lparr>jm_url := manifest_url (if sc_ManifestOverride (gc_Server g) = [] then None else Some (sc_ManifestOverride (gc_Server g)))\<rparr>"

definition launcher_worlds :: "'w launcher_env \<Rightarrow> runner_config \<Rightarrow> 'w world_transfer" where
  "launcher_worlds E config =
     (le_worlds E)\<lparr>wv_client := (wv_client (le_worlds E))\<lparr>ap_endpoint := rc_ControlPlane config, ap_authKey := rc_AuthKey config\<rparr>\<rparr>"

text \<open>Every middleware but the one of the world, in the order they are used, on the start of the server.\<close>

definition use_middleware :: "'w launcher_env \<Rightarrow> runner_config \<Rightarrow> 'w launcher_core \<Rightarrow> 'w launcher_core" where
  "use_middleware E config =
     (let g = rc_GameConfig config; send = SendEvent (le_trace E) (le_notify E) in
      core_Use (autoversion_Wrap (le_decode E) (le_DataPath E ''gamedata/world/level.dat'')) \<circ>
      core_Use (serverjar_Wrap (launchermeta_client E g) (le_state E)) \<circ>
      core_Use (serverproperties_Wrap (le_files E) (le_DataPath E ''gamedata/server.properties'') (fst (le_orders E)) (snd (le_orders E))) \<circ>
      core_Use (eula_Wrap (le_files E) (path_Join [le_DataPath E ''gamedata'', ''eula.txt''])) \<circ>
      core_Use (monitoring_Wrap send (le_beside E (\<lambda>c n. monitoring_rounds send (launcher_watchdogs E g c) n 0))))"

definition launcher_of :: "'w launcher_env \<Rightarrow> runner_config \<Rightarrow> 'w launcher_core" where
  "launcher_of E config =
     (let (P, L) = undo_Register (le_undo E) (le_ops E) (NewLauncherCore (run_io (io_ret ()))) in
      L\<lparr>lc_handler := startMinecraft P (le_host E) (lc_beforeLaunchListeners L) (le_rnd E)\<rparr>)"

fun exit_code :: "unit res \<Rightarrow> int res" where
  "exit_code (Ok x) = Ok 0"
| "exit_code (Err e) = Ok (if errors_is e ErrRestart then 100 else 1)"
| "exit_code (Panic p) = Panic p"

definition fresh_launch :: "runner_config \<Rightarrow> 'w \<Rightarrow> 'w launching" where
  "fresh_launch config w =
     \<lparr>lx_settings = NewConfigJSONSettingsRepository config, lx_pid = 0, lx_restorePath = [], lx_world = w\<rparr>"

definition mclauncher_Run :: "'w launcher_env \<Rightarrow> runner_config \<Rightarrow> 'w \<Rightarrow> (int res \<times> 'w launching) option" where
  "mclauncher_Run E config w =
     map_option (\<lambda>(r, s). (exit_code r, s))
       (core_Start (core_Use (world_Wrap (NewWorldService (launcher_worlds E config)) (le_state E))
          (use_middleware E config (launcher_of E config))) (fresh_launch config w))"

section \<open>A world is not lost in silence\<close>

lemma exit_code_zero: "exit_code r = Ok 0 \<longleftrightarrow> r = Ok ()"
  by (cases r) auto

lemma run_bind_OkD:
  "run_bind m f w = Some (Ok y, w') \<Longrightarrow> \<exists>x w1. m w = Some (Ok x, w1) \<and> f x w1 = Some (Ok y, w')"
  by (auto dest: run_bind_SomeD)

lemma run_try_OkD: "run_try m w = Some (Ok r, w') \<Longrightarrow> m w = Some (r, w')"
  unfolding run_try_def by (cases "m w"; cases "fst (the (m w))") auto

lemma play_world_Ok:
  assumes "play_world W R nm nxt s = Some (Ok (), s')"
  shows "\<exists>s1 key w. nxt s = Some (Ok (), s1) \<and> wi_UploadWorld W nm (lx_world s1) = Some (Ok key, w)"
proof -
  obtain inner s1 where s1: "run_try nxt s = Some (Ok inner, s1)"
    and rest: "(if inner = Ok () \<or> wants_restart inner then
       run_bind (run_try (run_outside (wi_UploadWorld W nm))) (\<lambda>up.
       case up of
         Err e \<Rightarrow> lift_res (Err (Joined (case inner of Err i \<Rightarrow> [e, i] | _ \<Rightarrow> [e])))
       | Panic p \<Rightarrow> lift_res (Panic p)
       | Ok key \<Rightarrow> run_bind (run_io (io_try (outside (sr_SetState R StateKeyWorldKey key)))) (\<lambda>_. lift_res inner))
     else lift_res inner) s1 = Some (Ok (), s')"
    using run_bind_OkD [OF assms [unfolded play_world_def]] by blast
  have inner: "inner = Ok ()"
  proof (rule ccontr)
    assume no: "inner \<noteq> Ok ()"
    then have "lift_res inner t \<noteq> Some (Ok (), s')" for t :: "'a launching" by (cases inner) (auto simp: lift_res_def run_io_def io_lift_def)
    with rest no show False
      by (auto simp: lift_res_def run_io_def io_lift_def split: if_splits res.splits dest!: run_bind_OkD)
  qed
  with rest obtain up s2 where "run_try (run_outside (wi_UploadWorld W nm)) s1 = Some (Ok up, s2)"
    "(case up of
         Err e \<Rightarrow> lift_res (Err (Joined [e]))
       | Panic p \<Rightarrow> lift_res (Panic p)
       | Ok key \<Rightarrow> run_bind (run_io (io_try (outside (sr_SetState R StateKeyWorldKey key)))) (\<lambda>_. lift_res inner)) s2 = Some (Ok (), s')"
    by (auto dest!: run_bind_OkD)
  then have "run_outside (wi_UploadWorld W nm) s1 = Some (up, s2)" and "\<exists>key. up = Ok key"
    by (auto dest: run_try_OkD simp: lift_res_def run_io_def io_lift_def split: res.splits)
  moreover have "nxt s = Some (Ok (), s1)"
    using run_try_OkD [OF s1] inner by simp
  ultimately show ?thesis
    by (auto simp: run_outside_def)
qed

text \<open>
  Property C12: a world is not lost in silence.  The launcher exits with 0 only when a start of the server,
  with every middleware around it, ended without an error and then the world it left was uploaded
  under its name; a launch whose upload, archive or request fails never exits with 0.
\<close>

theorem clean_exit_uploads_world:
  assumes "mclauncher_Run E config w = Some (Ok 0, s')"
  shows "\<exists>s s1 key w1.
      core_Start (use_middleware E config (launcher_of E config)) s = Some (Ok (), s1)
    \<and> UploadWorld (launcher_worlds E config) (wc_Name (gc_World (rc_GameConfig config))) (lx_world s1) = Some (Ok key, w1)"
proof -
  let ?W = "NewWorldService (launcher_worlds E config)" and ?R = "le_state E"
    and ?next = "lc_handler (use_middleware E config (launcher_of E config))" and ?s = "fresh_launch config w"
  obtain r where run: "world_Wrap ?W ?R ?next ?s = Some (r, s')" and "exit_code r = Ok 0"
    using assms by (auto simp: mclauncher_Run_def core_Start_def core_Use_def)
  then have "world_Wrap ?W ?R ?next ?s = Some (Ok (), s')" by (simp add: exit_code_zero)
  then obtain s where "play_world ?W ?R (st_worldName (lx_settings ?s)) ?next s = Some (Ok (), s')"
    by (auto simp: world_Wrap_def Let_def dest!: run_bind_OkD)
  then obtain s1 key w1 where "?next s = Some (Ok (), s1)"
    "wi_UploadWorld ?W (st_worldName (lx_settings ?s)) (lx_world s1) = Some (Ok key, w1)"
    using play_world_Ok by blast
  then show ?thesis
    by (auto simp: core_Start_def NewWorldService_def fresh_launch_def NewConfigJSONSettingsRepository_def Let_def)
qed

text \<open>A launch of a new world in which everything goes well.\<close>

definition demo_env :: "disk launcher_env" where
  "demo_env =
     \<lparr>le_ops = \<lparr>lo_Start = \<lambda>p a d. io_ret 0, lo_Wait = \<lambda>pid s. (Ok (), s\<lparr>lx_world := demo_world\<rparr>), lo_Meter = \<lambda>m p. io_ret (), lo_Timer = \<lambda>d. io_ret True\<rparr>,
      le_host = \<lparr>ho_IsJar = \<lambda>p. io_ret False, ho_JavaPath = io_ret [], ho_AllowedMem = io_ret 1024, ho_DataPath = \<lambda>p. ''/'' @ p\<rparr>,
      le_undo = \<lparr>un_processes = \<lparr>op_Start = \<lambda>p a d. io_ret 42, op_Wait = \<lambda>pid. io_ret 0, op_Kill = \<lambda>pid. io_ret ()\<rparr>,
        un_RemoveAll = \<lambda>p. io_ret (), un_Mkdir = \<lambda>p. io_ret (), un_CopyAll = \<lambda>p q. io_ret (), un_DataPath = \<lambda>p. ''/'' @ p,
        un_helper = NewServer, un_msg = \<lambda>e. [], un_trace = []\<rparr>,
      le_rnd = \<lambda>n. 0, le_trace = [], le_notify = \<lambda>m p. io_ret (), le_beside = \<lambda>rounds launch. launch, le_dial = io_ret True,
      le_rcon = \<lparr>rn_Exec = \<lambda>c. io_ret []\<rparr>,
      le_files = \<lparr>fo_Open = \<lambda>p. io_err NotExist, fo_Create = \<lambda>p c. io_ret ()\<rparr>,
      le_orders = (\<lambda>p. p, \<lambda>p. p),
      le_jar = \<lparr>jm_ops = \<lparr>jo_Stat = \<lambda>p. io_ret (True, 1), jo_RemoveAll = \<lambda>p. io_ret (), jo_Create = \<lambda>p. io_ret (), jo_Truncate = \<lambda>p w. w,
          jo_Do = \<lambda>u. io_ret (200, []), jo_Copy = \<lambda>p c. io_ret (), jo_IsJar = \<lambda>p. io_ret False, jo_Chmod = \<lambda>p. io_ret (),
          jo_ReadDir = \<lambda>p. io_ret [], jo_DataPath = \<lambda>ps. path_Join (''/'' # ps)\<rparr>,
        jm_http = \<lambda>u. io_ret (200, JNull), jm_url = [], jm_rnd = \<lambda>n. 0, jm_sleep = \<lambda>t w. w\<rparr>,
      le_decode = \<lambda>p. io_err NotExist,
      le_worlds = \<lparr>wv_client = \<lparr>ap_endpoint = [], ap_authKey = [],
          ap_Do = \<lambda>q. run_io (io_ret (200, json_text (JObj [(''success'', JBool True), (''data'', JObj [(''url'', JStr ''u''), (''worldId'', JStr ''w/1'')])]))), ap_buildURL = \<lambda>b p. Ok (b @ p)\<rparr>,
        wv_codecs = demo_codecs, wv_mkdtemp = io_ret ''/g'', wv_DataPath = \<lambda>p. (if p = ''gamedata'' then ''/g'' else ''/g/world''),
        wv_Get = \<lambda>u. io_err EOF, wv_Put = \<lambda>u c. io_ret 200, wv_disk = \<lambda>d. d, wv_set = \<lambda>d w. d\<rparr>,
      le_state = \<lparr>sr_SetState = \<lambda>k v. io_ret (), sr_RemoveState = \<lambda>k. io_ret (), sr_GetState = \<lambda>k. io_ret []\<rparr>,
      le_DataPath = \<lambda>p. ''/'' @ p\<rparr>"
definition demo_config :: runner_config where
  "demo_config = zero_runner_config\<lparr>rc_GameConfig := zero_game_config\<lparr>gc_World := zero_world_config\<lparr>wc_ShouldGenerate := True, wc_Name := ''w''\<rparr>\<rparr>\<rparr>"

lemma demo_exit: "map_option fst (mclauncher_Run demo_env demo_config demo_world) = Some (Ok 0)"
  by code_simp

lemma clean_exit_uploads_world_witness:
  "(\<exists>s'. mclauncher_Run demo_env demo_config demo_world = Some (Ok 0, s'))
    \<and> (\<exists>s s1 key w1.
      core_Start (use_middleware demo_env demo_config (launcher_of demo_env demo_config)) s = Some (Ok (), s1)
    \<and> UploadWorld (launcher_worlds demo_env demo_config) (wc_Name (gc_World (rc_GameConfig demo_config))) (lx_world s1) = Some (Ok key, w1))"
proof -
  obtain s' where s': "mclauncher_Run demo_env demo_config demo_world = Some (Ok 0, s')" using demo_exit by auto
  then show ?thesis using clean_exit_uploads_world [OF s'] by blast
qed

end
