(* ===== verification/Scheduler.thy ===== *)
theory Scheduler
  imports Archive
begin

text \<open>
  The processes of a runner: \<open>runner/commands/exteriord\<close> (\<open>exterior\<close>, \<open>exterior/scheduler\<close>, \<open>proc\<close> and
  \<open>exteriord.go\<close>).  The scheduler starts the tasks whose dependencies are complete and waits for one
  to complete; which one that is, is a parameter.  The operating system, the sleeps and the
  codec of the resources are parameters.
\<close>

section \<open>The scheduler\<close>

record task =
  tk_ID :: string
  tk_deps :: "string list"
  tk_started :: bool

datatype task_event = Started string | Completed string

text \<open>
  The tasks, the completed ones and, latest first, what happened.  The map of the tasks is the
  list of its values in the order it is iterated.
\<close>

record scheduler =
  sc_tasks :: "task list"
  sc_completed :: "string list"
  sc_log :: "task_event list"

definition NewTask :: "string \<Rightarrow> string list \<Rightarrow> task" where
  "NewTask i deps = \<lparr>tk_ID = i, tk_deps = deps, tk_started = False\<rparr>"

definition NewScheduler :: scheduler where
  "NewScheduler = \<lparr>sc_tasks = [], sc_completed = [], sc_log = []\<rparr>"

definition RegisterTasks :: "task list \<Rightarrow> scheduler \<Rightarrow> scheduler" where
  "RegisterTasks ts S = foldl (\<lambda>S t. S\<lparr>sc_tasks := filter (\<lambda>u. tk_ID u \<noteq> tk_ID t) (sc_tasks S) @ [t]\<rparr>) S ts"

definition task_ready :: "string list \<Rightarrow> task \<Rightarrow> bool" where
  "task_ready done t = (\<not> tk_started t \<and> list_all (\<lambda>d. d \<in> set done) (tk_deps t))"

definition start_ready :: "scheduler \<Rightarrow> scheduler" where
  "start_ready S = S\<lparr>
     sc_tasks := map (\<lambda>t. if task_ready (sc_completed S) t then t\<lparr>tk_started := True\<rparr> else t) (sc_tasks S),
     sc_log := rev (map (\<lambda>t. Started (tk_ID t)) (filter (task_ready (sc_completed S)) (sc_tasks S))) @ sc_log S\<rparr>"

definition running_tasks :: "scheduler \<Rightarrow> string list" where
  "running_tasks S = map tk_ID (filter (\<lambda>t. tk_started t \<and> tk_ID t \<notin> set (sc_completed S)) (sc_tasks S))"

definition complete_task :: "string \<Rightarrow> scheduler \<Rightarrow> scheduler" where
  "complete_task i S = S\<lparr>sc_completed := i # sc_completed S, sc_log := Completed i # sc_log S\<rparr>"

text \<open>
  The loop, for the tasks that are still to complete: without a running task it waits for ever,
  which is \<open>None\<close>; \<open>pick\<close> tells which of the running ones completes first.
\<close>

fun sched_rounds :: "(nat \<Rightarrow> nat) \<Rightarrow> nat \<Rightarrow> scheduler \<Rightarrow> scheduler option" where
  "sched_rounds pick 0 S = Some S"
| "sched_rounds pick (Suc k) S =
     (let S1 = start_ready S; rs = running_tasks S1 in
      if rs = [] then None else sched_rounds pick k (complete_task (rs ! (pick k mod length rs)) S1))"

definition sched_Run :: "(nat \<Rightarrow> nat) \<Rightarrow> scheduler \<Rightarrow> scheduler option" where
  "sched_Run pick S = sched_rounds pick (length (sc_tasks S)) S"

section \<open>Processes\<close>

datatype restart_policy = RestartOnFailure | RestartNever
datatype exec_user_type = UserRestricted | UserPrivileged

record proc =
  pc_execPath :: string
  pc_args :: "string list"
  pc_restart :: restart_policy
  pc_restartDelay :: "int option"
  pc_userType :: exec_user_type

definition proc_Args :: "string list \<Rightarrow> proc \<Rightarrow> proc" where "proc_Args args p = p\<lparr>pc_args := args\<rparr>"
definition proc_Restart :: "restart_policy \<Rightarrow> proc \<Rightarrow> proc" where "proc_Restart r p = p\<lparr>pc_restart := r\<rparr>"
definition RestartDelay :: "int \<Rightarrow> proc \<Rightarrow> proc" where "RestartDelay d p = p\<lparr>pc_restartDelay := Some d\<rparr>"
definition RestartRandomDelay :: "proc \<Rightarrow> proc" where "RestartRandomDelay p = p\<lparr>pc_restartDelay := None\<rparr>"
definition proc_UserType :: "exec_user_type \<Rightarrow> proc \<Rightarrow> proc" where "proc_UserType u p = p\<lparr>pc_userType := u\<rparr>"

definition NewProc :: "string \<Rightarrow> (proc \<Rightarrow> proc) list \<Rightarrow> proc" where
  "NewProc execPath options = foldl (\<lambda>p f. f p)
     \<lparr>pc_execPath = execPath, pc_args = [], pc_restart = RestartOnFailure, pc_restartDelay = None, pc_userType = UserRestricted\<rparr>
     options"

text \<open>The user of the application, a command run as a user (\<open>None\<close> is the one who runs), sleeping.\<close>

record 'w proc_ops =
  pr_GetAppUserID :: "('w, int \<times> int) io"
  pr_Run :: "string \<Rightarrow> string list \<Rightarrow> (int \<times> int) option \<Rightarrow> ('w, unit) io"
  pr_Sleep :: "int \<Rightarrow> 'w \<Rightarrow> 'w"
  pr_rnd :: "nat \<Rightarrow> int"

definition waitRestartDelay :: "'w proc_ops \<Rightarrow> nat \<Rightarrow> proc \<Rightarrow> 'w \<Rightarrow> 'w" where
  "waitRestartDelay O1 n p =
     pr_Sleep O1 (case pc_restartDelay p of None \<Rightarrow> pr_rnd O1 n * 1000000000 | Some d \<Rightarrow> d)"

text \<open>One run of the command; without the user of the application it runs as root.\<close>

definition run_proc :: "'w proc_ops \<Rightarrow> proc \<Rightarrow> ('w, unit) io" where
  "run_proc O1 p =
     (case pc_userType p of
        UserPrivileged \<Rightarrow> pr_Run O1 (pc_execPath p) (pc_args p) None
      | UserRestricted \<Rightarrow>
          io_bind (io_try (pr_GetAppUserID O1)) (\<lambda>r.
          pr_Run O1 (pc_execPath p) (pc_args p) (Some (case r of Ok u \<Rightarrow> u | _ \<Rightarrow> (0, 0)))))"

partial_function (option) proc_loop :: "'w proc_ops \<Rightarrow> proc \<Rightarrow> nat \<Rightarrow> 'w \<Rightarrow> (unit res \<times> 'w) option" where
  "proc_loop O1 p n w =
     (case run_proc O1 p w of
        (r, w1) \<Rightarrow>
          (case r of
             Panic m \<Rightarrow> Some (Panic m, w1)
           | Ok x \<Rightarrow> Some (Ok (), w1)
           | Err e \<Rightarrow>
               if pc_restart p = RestartOnFailure then proc_loop O1 p (Suc n) (waitRestartDelay O1 n p w1)
               else Some (Ok (), w1)))"

declare proc_loop.simps [code]

definition proc_Start :: "'w proc_ops \<Rightarrow> proc \<Rightarrow> ('w, unit) run" where
  "proc_Start O1 p = proc_loop O1 p 0"

section \<open>The runner\<close>

text \<open>The tasks that are registered, each with its process; \<open>uuid\<close> gives the identifiers.\<close>

definition runner_path :: string where
  "runner_path = ''/opt/premises/bin/premises-runner''"

definition exteriord_procs :: "(string \<times> proc \<times> nat list) list" where
  "exteriord_procs =
     [(''Initialize Server'',
         NewProc runner_path [proc_Args [''--setup''], proc_Restart RestartNever, proc_UserType UserPrivileged], []),
      (''Game Monitoring Service'',
         NewProc runner_path [proc_Args [''--launcher''], proc_Restart RestartOnFailure, RestartRandomDelay, proc_UserType UserRestricted], [0]),
      (''Meter'',
         NewProc runner_path [proc_Args [''--meter''], proc_Restart RestartOnFailure, proc_UserType UserPrivileged], [0]),
      (''Keep System Up-to-date'',
         NewProc runner_path [proc_Args [''--update-packages''], proc_Restart RestartNever, proc_UserType UserPrivileged], [0]),
      (''Connector'',
         NewProc runner_path [proc_Args [''--connector''], proc_Restart RestartOnFailure, proc_UserType UserRestricted], [0]),
      (''Snapshot Service'',
         NewProc runner_path [proc_Args [''--snapshot-helper''], proc_Restart RestartOnFailure, RestartRandomDelay, proc_UserType UserPrivileged], [0]),
      (''Clean Up'',
         NewProc runner_path [proc_Args [''--clean''], proc_Restart RestartNever, proc_UserType UserPrivileged], [1, 3])]"

definition exteriord_tasks :: "(nat \<Rightarrow> string) \<Rightarrow> task list" where
  "exteriord_tasks uuid =
     map (\<lambda>(i, (desc, p, deps)). NewTask (uuid i) (map uuid deps)) (enumerate 0 exteriord_procs)"

definition exteriord_scheduler :: "(nat \<Rightarrow> string) \<Rightarrow> scheduler" where
  "exteriord_scheduler uuid = foldl (\<lambda>S t. RegisterTasks [t] S) NewScheduler (exteriord_tasks uuid)"

text \<open>The resources of the runner, unpacked over the old ones.\<close>

definition resource_entry :: "(string \<Rightarrow> string) \<Rightarrow> archive_entry \<Rightarrow> (disk, unit) io" where
  "resource_entry dataPath e =
     (let destPath = dataPath (''resources/'' @ ae_Name e) in
      case ae_Type e of
        TypeDir \<Rightarrow> os_MkdirAll destPath
      | TypeReg \<Rightarrow> io_bind (os_Create destPath) (\<lambda>_. io_Copy destPath (ae_Body e))
      | TypeOther \<Rightarrow> io_ret ())"

fun resource_entries :: "(string \<Rightarrow> string) \<Rightarrow> archive_entry list \<Rightarrow> (disk, unit) io" where
  "resource_entries dataPath [] = io_ret ()"
| "resource_entries dataPath (e # es) = io_bind (resource_entry dataPath e) (\<lambda>_. resource_entries dataPath es)"

definition extractResources :: "codecs \<Rightarrow> (string \<Rightarrow> string) \<Rightarrow> (disk, unit) io" where
  "extractResources K dataPath =
     (let archivePath = dataPath ''resources.tar.zst''; resourcesDir = dataPath ''resources'' in
      io_bind (io_try (os_Stat archivePath)) (\<lambda>r.
      if r = Err NotExist then io_ret ()
      else
        io_bind (os_RemoveAll resourcesDir) (\<lambda>_.
        io_bind (os_MkdirAll resourcesDir) (\<lambda>_.
        io_bind (os_Open archivePath) (\<lambda>c.
        io_bind (io_lift (cd_zstd K c)) (\<lambda>s.
        io_bind (resource_entries dataPath (fst (cd_untar K s))) (\<lambda>_.
        case snd (cd_untar K s) of
          Some e \<Rightarrow> io_err e
        | None \<Rightarrow> io_bind (io_try (os_RemoveAll archivePath)) (\<lambda>_. io_ret ()))))))))"

section \<open>When the scheduler returns\<close>

text \<open>An order of all the tasks in which each comes after its dependencies.\<close>

definition deps_order :: "task list \<Rightarrow> string list \<Rightarrow> bool" where
  "deps_order ts order = (distinct order \<and> set order = set (map tk_ID ts)
     \<and> (\<forall>t \<in> set ts. \<forall>i < length order. order ! i = tk_ID t \<longrightarrow> set (tk_deps t) \<subseteq> set (take i order)))"

text \<open>The tasks are fixed but for what has started; a started task has its dependencies complete.\<close>

definition sched_inv :: "task list \<Rightarrow> scheduler \<Rightarrow> bool" where
  "sched_inv ts S = (map (\<lambda>t. (tk_ID t, tk_deps t)) (sc_tasks S) = map (\<lambda>t. (tk_ID t, tk_deps t)) ts
     \<and> distinct (sc_completed S) \<and> set (sc_completed S) \<subseteq> {tk_ID t | t. t \<in> set (sc_tasks S) \<and> tk_started t}
     \<and> (\<forall>t \<in> set (sc_tasks S). tk_started t \<longrightarrow> set (tk_deps t) \<subseteq> set (sc_completed S))
     \<and> (\<forall>t \<in> set ts. \<forall>i < length (sc_completed S). rev (sc_completed S) ! i = tk_ID t \<longrightarrow>
          set (tk_deps t) \<subseteq> set (take i (rev (sc_completed S)))))"

lemma sched_invD:
  assumes "sched_inv ts S"
  shows "map (\<lambda>t. (tk_ID t, tk_deps t)) (sc_tasks S) = map (\<lambda>t. (tk_ID t, tk_deps t)) ts" "distinct (sc_completed S)"
    "i \<in> set (sc_completed S) \<Longrightarrow> \<exists>t \<in> set (sc_tasks S). tk_started t \<and> tk_ID t = i"
    "t \<in> set (sc_tasks S) \<Longrightarrow> tk_started t \<Longrightarrow> set (tk_deps t) \<subseteq> set (sc_completed S)"
  using assms unfolding sched_inv_def by blast+

lemma start_ready_tasks [simp]:
  "sc_completed (start_ready S) = sc_completed S"
  "map (\<lambda>t. (tk_ID t, tk_deps t)) (sc_tasks (start_ready S)) = map (\<lambda>t. (tk_ID t, tk_deps t)) (sc_tasks S)"
  "length (sc_tasks (start_ready S)) = length (sc_tasks S)"
  by (simp_all add: start_ready_def)

lemma complete_task_tasks [simp]:
  "sc_completed (complete_task i S) = i # sc_completed S" "sc_tasks (complete_task i S) = sc_tasks S"
  by (simp_all add: complete_task_def)

lemma inv_start: "sched_inv ts S \<Longrightarrow> sched_inv ts (start_ready S)"
proof -
  assume S: "sched_inv ts S"
  have t: "t \<in> set (sc_tasks (start_ready S)) \<longleftrightarrow>
      (\<exists>u \<in> set (sc_tasks S). t = (if task_ready (sc_completed S) u then u\<lparr>tk_started := True\<rparr> else u))" for t
    by (auto simp: start_ready_def)
  have "set (sc_completed S) \<subseteq> {tk_ID t | t. t \<in> set (sc_tasks (start_ready S)) \<and> tk_started t}"
  proof
    fix i assume "i \<in> set (sc_completed S)"
    then obtain u where u: "u \<in> set (sc_tasks S)" "tk_started u" "i = tk_ID u" using S by (auto simp: sched_inv_def)
    then have "u \<in> set (sc_tasks (start_ready S))" unfolding t by (auto simp: task_ready_def)
    with u show "i \<in> {tk_ID t | t. t \<in> set (sc_tasks (start_ready S)) \<and> tk_started t}" by blast
  qed
  moreover have "\<forall>t \<in> set (sc_tasks (start_ready S)). tk_started t \<longrightarrow> set (tk_deps t) \<subseteq> set (sc_completed S)"
  proof (intro ballI impI)
    fix t' assume t': "t' \<in> set (sc_tasks (start_ready S))" "tk_started t'"
    then obtain u where u: "u \<in> set (sc_tasks S)" "t' = (if task_ready (sc_completed S) u then u\<lparr>tk_started := True\<rparr> else u)"
      unfolding t by blast
    show "set (tk_deps t') \<subseteq> set (sc_completed S)"
    proof (cases "task_ready (sc_completed S) u")
      case True
      then have "tk_deps t' = tk_deps u" "\<forall>d \<in> set (tk_deps u). d \<in> set (sc_completed S)"
        using u(2) by (simp_all add: task_ready_def list_all_iff)
      then show ?thesis by auto
    next
      case False
      then show ?thesis using sched_invD(4) [OF S u(1)] u(2) t'(2) by simp
    qed
  qed
  ultimately show ?thesis using S by (simp add: sched_inv_def)
qed

lemma same_task:
  assumes "distinct (map tk_ID ts)" and "map (\<lambda>t. (tk_ID t, tk_deps t)) us = map (\<lambda>t. (tk_ID t, tk_deps t)) ts"
    and "t \<in> set ts" and "u \<in> set us" and "tk_ID u = tk_ID t"
  shows "tk_deps u = tk_deps t"
proof -
  have "(tk_ID u, tk_deps u) \<in> set (map (\<lambda>t. (tk_ID t, tk_deps t)) us)" using assms(4) by auto
  then have "(tk_ID u, tk_deps u) \<in> set (map (\<lambda>t. (tk_ID t, tk_deps t)) ts)" by (simp only: assms(2))
  then obtain v where "v \<in> set ts" "tk_ID v = tk_ID u" "tk_deps v = tk_deps u" by auto
  then show ?thesis using assms(1,3,5) by (metis distinct_map inj_on_def)
qed

lemma inv_complete:
  assumes S: "sched_inv ts S" and i: "i \<in> set (running_tasks S)" and ids: "distinct (map tk_ID ts)"
  shows "sched_inv ts (complete_task i S)"
proof -
  obtain u where u: "u \<in> set (sc_tasks S)" "tk_started u" "tk_ID u = i" "i \<notin> set (sc_completed S)"
    using i by (auto simp: running_tasks_def)
  have deps: "set (tk_deps t) \<subseteq> set (sc_completed S)" if "t \<in> set ts" "tk_ID t = i" for t
  proof -
    have "tk_deps u = tk_deps t"
      by (rule same_task [OF ids _ that(1) u(1)]) (use S that(2) u(3) in \<open>simp_all add: sched_inv_def\<close>)
    then show ?thesis using sched_invD(4) [OF S u(1,2)] by simp
  qed
  have "set (tk_deps t) \<subseteq> set (take j (rev (sc_completed (complete_task i S))))"
    if "t \<in> set ts" "j < length (sc_completed (complete_task i S))" "rev (sc_completed (complete_task i S)) ! j = tk_ID t" for t j
  proof (cases "j < length (sc_completed S)")
    case True
    then show ?thesis using S that by (simp add: sched_inv_def nth_append)
  next
    case False
    then have "j = length (sc_completed S)" using that by simp
    then show ?thesis using deps [OF that(1)] that(3) by (simp add: nth_append)
  qed
  then show ?thesis using S u unfolding sched_inv_def by (auto; blast)
qed

lemma running_nth: "running_tasks S \<noteq> [] \<Longrightarrow> running_tasks S ! (n mod length (running_tasks S)) \<in> set (running_tasks S)"
  by simp

lemma rounds_inv:
  assumes "distinct (map tk_ID ts)" and "sched_inv ts S" and "sched_rounds pick k S = Some S'"
  shows "sched_inv ts S' \<and> length (sc_completed S') = length (sc_completed S) + k"
  using assms(2,3)
proof (induction k arbitrary: S)
  case (Suc k)
  let ?S = "start_ready S"
  have ne: "running_tasks ?S \<noteq> []" using Suc.prems(2) by (auto simp: Let_def split: if_splits)
  then have "sched_inv ts (complete_task (running_tasks ?S ! (pick k mod length (running_tasks ?S))) ?S)"
    by (intro inv_complete inv_start Suc.prems(1) running_nth assms(1))
  from Suc.IH [OF this] show ?case using Suc.prems(2) ne by (simp add: Let_def)
qed simp

text \<open>Of an order that is not done, the first task that is not complete can run.\<close>

lemma some_running:
  assumes ids: "distinct (map tk_ID ts)" and S: "sched_inv ts S" and ord: "deps_order ts order"
    and more: "length (sc_completed S) < length ts"
  shows "running_tasks (start_ready S) \<noteq> []"
proof -
  have len: "length order = length ts" using ord ids by (metis deps_order_def distinct_card length_map)
  have "distinct order" using ord by (simp add: deps_order_def)
  then have "card (set order) = length ts" using len by (metis distinct_card)
  then have "\<not> set order \<subseteq> set (sc_completed S)"
    using more card_mono [of "set (sc_completed S)" "set order"] card_length [of "sc_completed S"] by auto
  then obtain n where n: "n < length order" "order ! n \<notin> set (sc_completed S)" "\<forall>m < n. order ! m \<in> set (sc_completed S)"
  proof -
    let ?P = "\<lambda>n. n < length order \<and> order ! n \<notin> set (sc_completed S)"
    from \<open>\<not> set order \<subseteq> set (sc_completed S)\<close> obtain x where "x \<in> set order" "x \<notin> set (sc_completed S)" by blast
    then obtain m where m: "?P m" by (auto simp: in_set_conv_nth)
    have "?P (LEAST n. ?P n)" using m by (rule LeastI)
    moreover have "order ! j \<in> set (sc_completed S)" if "j < (LEAST n. ?P n)" for j
      using not_less_Least [OF that] that calculation by auto
    ultimately show ?thesis using that by blast
  qed
  have "order ! n \<in> tk_ID ` set ts" using ord nth_mem [OF n(1)] by (simp add: deps_order_def)
  then obtain t where t: "t \<in> set ts" "tk_ID t = order ! n" by auto
  have "set (take n order) \<subseteq> set (sc_completed S)" using n by (auto simp: in_set_conv_nth)
  then have done_deps: "set (tk_deps t) \<subseteq> set (sc_completed S)" using ord t n(1) by (fastforce simp: deps_order_def)
  have "(tk_ID t, tk_deps t) \<in> set (map (\<lambda>t. (tk_ID t, tk_deps t)) (sc_tasks S))" using S t(1) by (simp add: sched_inv_def)
  then obtain u where u: "u \<in> set (sc_tasks S)" "tk_ID u = tk_ID t" "tk_deps u = tk_deps t" by auto
  let ?u = "if task_ready (sc_completed S) u then u\<lparr>tk_started := True\<rparr> else u"
  have "?u \<in> set (sc_tasks (start_ready S))" using u(1) by (auto simp: start_ready_def)
  moreover have "tk_started ?u" "tk_ID ?u = order ! n" using u t done_deps by (auto simp: task_ready_def list_all_iff)
  ultimately have "order ! n \<in> set (running_tasks (start_ready S))" using n(2) by (auto simp: running_tasks_def intro!: image_eqI)
  then show ?thesis by auto
qed

lemma rounds_return:
  assumes "distinct (map tk_ID ts)" and "deps_order ts order" and "sched_inv ts S" and "length (sc_completed S) + k \<le> length ts"
  shows "sched_rounds pick k S \<noteq> None"
  using assms(3,4)
proof (induction k arbitrary: S)
  case (Suc k)
  let ?S = "start_ready S"
  have ne: "running_tasks ?S \<noteq> []" using some_running [OF assms(1) Suc.prems(1) assms(2)] Suc.prems(2) by simp
  then have "sched_inv ts (complete_task (running_tasks ?S ! (pick k mod length (running_tasks ?S))) ?S)"
    by (intro inv_complete inv_start Suc.prems(1) running_nth assms(1))
  from Suc.IH [OF this] show ?case using Suc.prems(2) ne by (simp add: Let_def)
qed simp

definition fresh_scheduler :: "task list \<Rightarrow> scheduler" where
  "fresh_scheduler ts = \<lparr>sc_tasks = ts, sc_completed = [], sc_log = []\<rparr>"

lemma inv_fresh: "\<forall>t \<in> set ts. \<not> tk_started t \<Longrightarrow> sched_inv ts (fresh_scheduler ts)"
  by (simp add: sched_inv_def fresh_scheduler_def)

lemma all_completed:
  assumes "distinct (map tk_ID ts)" and S: "sched_inv ts S" "length (sc_completed S) = length ts"
  shows "set (sc_completed S) = set (map tk_ID ts)"
proof -
  have ids: "set (map tk_ID (sc_tasks S)) = set (map tk_ID ts)"
  proof -
    have "map fst (map (\<lambda>t. (tk_ID t, tk_deps t)) (sc_tasks S)) = map fst (map (\<lambda>t. (tk_ID t, tk_deps t)) ts)"
      using S(1) by (simp add: sched_inv_def)
    then have "map tk_ID (sc_tasks S) = map tk_ID ts" by (simp add: comp_def)
    then show ?thesis by simp
  qed
  show ?thesis
  proof (rule card_subset_eq)
    show "set (sc_completed S) \<subseteq> set (map tk_ID ts)" unfolding ids [symmetric] using sched_invD(3) [OF S(1)] by auto
    show "card (set (sc_completed S)) = card (set (map tk_ID ts))"
      using S distinct_card [OF assms(1)] by (simp add: sched_inv_def distinct_card)
  qed simp
qed

text \<open>
  Property C14: the scheduler returns exactly when its tasks can be ordered.  Whatever the order in
  which running tasks complete, \<open>Run\<close> comes to its end if and only if the tasks have an order in
  which each follows its dependencies; with a cycle, or a dependency that was not registered, it
  waits for ever.
\<close>

theorem scheduler_returns_iff:
  assumes "distinct (map tk_ID ts)" and "\<forall>t \<in> set ts. \<not> tk_started t"
  shows "sched_Run pick (fresh_scheduler ts) \<noteq> None \<longleftrightarrow> (\<exists>order. deps_order ts order)"
proof
  assume "\<exists>order. deps_order ts order"
  then obtain order where "deps_order ts order" ..
  then show "sched_Run pick (fresh_scheduler ts) \<noteq> None"
    using rounds_return [OF assms(1) _ inv_fresh [OF assms(2)], of order "length ts" pick] by (simp add: sched_Run_def fresh_scheduler_def)
next
  assume "sched_Run pick (fresh_scheduler ts) \<noteq> None"
  then obtain S where "sched_rounds pick (length ts) (fresh_scheduler ts) = Some S" by (auto simp: sched_Run_def fresh_scheduler_def)
  from rounds_inv [OF assms(1) inv_fresh [OF assms(2)] this]
  have S: "sched_inv ts S" "length (sc_completed S) = length ts" by (simp_all add: fresh_scheduler_def)
  have "set (sc_completed S) = set (map tk_ID ts)" by (rule all_completed [OF assms(1) S])
  then have "deps_order ts (rev (sc_completed S))" using S(1) by (simp add: deps_order_def sched_inv_def)
  then show "\<exists>order. deps_order ts order" ..
qed

definition demo_tasks :: "task list" where
  "demo_tasks = [NewTask ''b'' [''a''], NewTask ''a'' [], NewTask ''c'' [''a'', ''b'']]"

lemma scheduler_returns_iff_witness:
  "sched_Run (\<lambda>n. n) (fresh_scheduler demo_tasks) \<noteq> None \<longleftrightarrow> (\<exists>order. deps_order demo_tasks order)"
  by (rule scheduler_returns_iff) (simp_all add: demo_tasks_def NewTask_def)

section \<open>The order in which tasks start\<close>

text \<open>What may follow what, the latest event first.\<close>

fun log_ok :: "task list \<Rightarrow> task_event list \<Rightarrow> bool" where
  "log_ok ts [] = True"
| "log_ok ts (Completed i # l) = (Started i \<in> set l \<and> Completed i \<notin> set l \<and> log_ok ts l)"
| "log_ok ts (Started i # l) =
     (Started i \<notin> set l \<and> (\<forall>t \<in> set ts. tk_ID t = i \<longrightarrow> (\<forall>d \<in> set (tk_deps t). Completed d \<in> set l)) \<and> log_ok ts l)"

definition log_inv :: "task list \<Rightarrow> scheduler \<Rightarrow> bool" where
  "log_inv ts S = (log_ok ts (sc_log S) \<and> (\<forall>i. Completed i \<in> set (sc_log S) \<longleftrightarrow> i \<in> set (sc_completed S))
     \<and> (\<forall>t \<in> set (sc_tasks S). Started (tk_ID t) \<in> set (sc_log S) \<longleftrightarrow> tk_started t)
     \<and> distinct (map tk_ID (sc_tasks S)))"

lemma log_ok_starts:
  assumes "log_ok ts l" and "distinct is" and "\<And>i. i \<in> set is \<Longrightarrow> Started i \<notin> set l"
    and "\<And>i t d. i \<in> set is \<Longrightarrow> t \<in> set ts \<Longrightarrow> tk_ID t = i \<Longrightarrow> d \<in> set (tk_deps t) \<Longrightarrow> Completed d \<in> set l"
  shows "log_ok ts (map Started is @ l)"
  using assms(2-4)
proof (induction "is")
  case (Cons i "is")
  have "log_ok ts (map Started is @ l)" by (rule Cons.IH) (use Cons.prems in auto)
  moreover have "Completed d \<in> set (map Started is @ l)" if "t \<in> set ts" "tk_ID t = i" "d \<in> set (tk_deps t)" for t d
    using Cons.prems(3) [OF _ that] by simp
  ultimately show ?case using Cons.prems(1,2) by auto
qed (simp add: assms(1))

lemma log_inv_start:
  assumes L: "log_inv ts S" and S: "sched_inv ts S" and ids: "distinct (map tk_ID ts)"
  shows "log_inv ts (start_ready S)"
proof -
  let ?rs = "map tk_ID (filter (task_ready (sc_completed S)) (sc_tasks S))"
  have d: "distinct (map tk_ID (sc_tasks S))" using L by (simp add: log_inv_def)
  have log: "sc_log (start_ready S) = map Started (rev ?rs) @ sc_log S" by (simp add: start_ready_def rev_map)
  have "log_ok ts (map Started (rev ?rs) @ sc_log S)"
  proof (rule log_ok_starts)
    show "log_ok ts (sc_log S)" using L by (simp add: log_inv_def)
    show "distinct (rev ?rs)" using d by (simp add: distinct_map_filter)
    fix i assume "i \<in> set (rev ?rs)"
    then obtain u where u: "u \<in> set (sc_tasks S)" "task_ready (sc_completed S) u" "i = tk_ID u" by auto
    then show "Started i \<notin> set (sc_log S)" using L by (auto simp: log_inv_def task_ready_def)
    fix t x assume t: "t \<in> set ts" "tk_ID t = i" "x \<in> set (tk_deps t)"
    have "tk_deps u = tk_deps t" by (rule same_task [OF ids sched_invD(1) [OF S] t(1) u(1)]) (simp add: t(2) u(3))
    then show "Completed x \<in> set (sc_log S)" using t(3) u(2) L by (simp add: log_inv_def task_ready_def list_all_iff)
  qed
  moreover have "Started (tk_ID t) \<in> set (sc_log (start_ready S)) \<longleftrightarrow> tk_started t" if "t \<in> set (sc_tasks (start_ready S))" for t
  proof -
    have "t \<in> (\<lambda>t. if task_ready (sc_completed S) t then t\<lparr>tk_started := True\<rparr> else t) ` set (sc_tasks S)"
      using that by (simp add: start_ready_def)
    then obtain u where u: "u \<in> set (sc_tasks S)" "t = (if task_ready (sc_completed S) u then u\<lparr>tk_started := True\<rparr> else u)"
      by blast
    have id: "tk_ID t = tk_ID u" using u(2) by simp
    have "tk_ID u \<in> set ?rs \<longleftrightarrow> task_ready (sc_completed S) u"
      using d u(1) by (auto simp: distinct_map inj_on_def)
    then have "Started (tk_ID t) \<in> set (sc_log (start_ready S)) \<longleftrightarrow> task_ready (sc_completed S) u \<or> tk_started u"
      using L u(1) unfolding log id by (auto simp: log_inv_def)
    then show ?thesis using u(2) by auto
  qed
  moreover have "map tk_ID (sc_tasks (start_ready S)) = map tk_ID (sc_tasks S)" by (simp add: start_ready_def)
  ultimately show ?thesis using L by (auto simp: log_inv_def log)
qed

lemma log_inv_complete:
  assumes L: "log_inv ts S" and i: "i \<in> set (running_tasks S)"
  shows "log_inv ts (complete_task i S)"
  using assms by (auto simp: log_inv_def running_tasks_def complete_task_def)

lemma rounds_log:
  assumes "distinct (map tk_ID ts)" and "sched_inv ts S" and "log_inv ts S" and "sched_rounds pick k S = Some S'"
  shows "log_inv ts S'"
  using assms(2-4)
proof (induction k arbitrary: S)
  case (Suc k)
  let ?S = "start_ready S"
  let ?i = "running_tasks ?S ! (pick k mod length (running_tasks ?S))"
  have ne: "running_tasks ?S \<noteq> []" using Suc.prems(3) by (auto simp: Let_def split: if_splits)
  have "sched_inv ts (complete_task ?i ?S)"
    by (intro inv_complete inv_start Suc.prems(1) running_nth ne assms(1))
  moreover have "log_inv ts (complete_task ?i ?S)"
    by (intro log_inv_complete log_inv_start Suc.prems(1,2) running_nth ne assms(1))
  ultimately show ?case using Suc.IH Suc.prems(3) ne by (simp add: Let_def)
qed simp

lemma log_fresh: "distinct (map tk_ID ts) \<Longrightarrow> \<forall>t \<in> set ts. \<not> tk_started t \<Longrightarrow> log_inv ts (fresh_scheduler ts)"
  by (simp add: log_inv_def fresh_scheduler_def)

text \<open>
  Property C38: a task starts after its dependencies, once, and completes once.  At every point of
  every run of the scheduler (after any number of completions, in any order), each event of what
  happened is in its place: no task starts before the tasks it depends on have completed, none
  starts or completes twice, and none completes without having started.
\<close>

theorem tasks_start_after_deps:
  assumes "distinct (map tk_ID ts)" and "\<forall>t \<in> set ts. \<not> tk_started t"
    and "sched_rounds pick k (fresh_scheduler ts) = Some S"
  shows "log_ok ts (sc_log S)"
  using rounds_log [OF assms(1) inv_fresh [OF assms(2)] log_fresh [OF assms(1,2)] assms(3)] by (simp add: log_inv_def)

lemma tasks_start_after_deps_witness:
  "\<exists>S. sched_rounds (\<lambda>n. n) 2 (fresh_scheduler demo_tasks) = Some S \<and> log_ok demo_tasks (sc_log S)"
proof -
  obtain S where S: "sched_rounds (\<lambda>n. n) 2 (fresh_scheduler demo_tasks) = Some S"
    by (simp add: numeral_2_eq_2 Let_def demo_tasks_def NewTask_def fresh_scheduler_def start_ready_def task_ready_def running_tasks_def complete_task_def)
  have "log_ok demo_tasks (sc_log S)"
    by (rule tasks_start_after_deps [OF _ _ S]) (simp_all add: demo_tasks_def NewTask_def)
  with S show ?thesis by blast
qed

section \<open>The runner starts\<close>

lemma exteriord_tasks_eq:
  "exteriord_tasks uuid =
     [NewTask (uuid 0) [], NewTask (uuid 1) [uuid 0], NewTask (uuid 2) [uuid 0], NewTask (uuid 3) [uuid 0],
      NewTask (uuid 4) [uuid 0], NewTask (uuid 5) [uuid 0], NewTask (uuid 6) [uuid 1, uuid 3]]"
  by (simp add: exteriord_tasks_def exteriord_procs_def eval_nat_numeral)

lemma exteriord_scheduler_eq:
  assumes "inj uuid"
  shows "exteriord_scheduler uuid = fresh_scheduler (exteriord_tasks uuid)"
  using injD [OF assms]
  by (simp add: exteriord_scheduler_def exteriord_tasks_eq RegisterTasks_def NewScheduler_def fresh_scheduler_def NewTask_def
      inj_eq [OF assms])

text \<open>
  The runner starts its processes in order, and all of them.  With the tasks that are
  registered, so long as one of the running processes ends at each round and whichever it is, the
  scheduler comes to its end; then every process has
  run and completed, the setup before all others, and the clean-up after the launcher and the update
  of the system.
\<close>

lemma runner_boots:
  assumes "inj uuid"
  shows "\<exists>S. sched_Run pick (exteriord_scheduler uuid) = Some S \<and> log_ok (exteriord_tasks uuid) (sc_log S)
    \<and> (\<forall>t \<in> set (exteriord_tasks uuid). Completed (tk_ID t) \<in> set (sc_log S))"
proof -
  let ?ts = "exteriord_tasks uuid"
  have ids: "distinct (map tk_ID ?ts)" by (simp add: exteriord_tasks_eq NewTask_def inj_eq [OF assms])
  have fresh: "\<forall>t \<in> set ?ts. \<not> tk_started t" by (simp add: exteriord_tasks_eq NewTask_def)
  have "deps_order ?ts (map tk_ID ?ts)"
    unfolding deps_order_def using ids
    by (auto simp: exteriord_tasks_eq NewTask_def inj_eq [OF assms] less_Suc_eq nth_Cons' numeral_eq_Suc split: if_splits)
  then have "sched_rounds pick (length ?ts) (fresh_scheduler ?ts) \<noteq> None"
    by (rule rounds_return [OF ids _ inv_fresh [OF fresh]]) (simp add: fresh_scheduler_def)
  then obtain S where S: "sched_rounds pick (length ?ts) (fresh_scheduler ?ts) = Some S" by blast
  from rounds_inv [OF ids inv_fresh [OF fresh] S] have inv: "sched_inv ?ts S" "length (sc_completed S) = length ?ts"
    by (simp_all add: fresh_scheduler_def)
  have log: "log_inv ?ts S" by (rule rounds_log [OF ids inv_fresh [OF fresh] log_fresh [OF ids fresh] S])
  have "set (sc_completed S) = set (map tk_ID ?ts)" by (rule all_completed [OF ids inv])
  then have "\<forall>t \<in> set ?ts. Completed (tk_ID t) \<in> set (sc_log S)" using log by (auto simp: log_inv_def)
  moreover have "sched_Run pick (exteriord_scheduler uuid) = Some S"
    using S by (simp add: exteriord_scheduler_eq [OF assms] sched_Run_def fresh_scheduler_def)
  ultimately show ?thesis using log by (auto simp: log_inv_def)
qed

end
