(* ===== verification/RunnerMain.thy ===== *)
theory RunnerMain
  imports Scheduler McCore
begin

text \<open>
  The runner's program: \<open>runner/main.go\<close> chooses what a process does by its first argument,
  \<open>runner/config\<close> loads its configuration, and \<open>commands/sysupdate\<close> updates the packages.
  Instrumentation is left out; leaving with status 1 is the outcome \<open>ExitOne\<close>.
\<close>

datatype runner_command =
    CmdClean | CmdCli | CmdConnector | CmdExteriord | CmdLauncher | CmdMeter | CmdSetup | CmdSnapshotHelper
  | CmdUpdatePackages | CmdVersion

text \<open>The commands by name, with their description and whether they need root.\<close>

definition runner_commands :: "(string \<times> string \<times> runner_command \<times> bool) list" where
  "runner_commands =
     [(''clean'', ''Cleanup before shutdown'', CmdClean, True),
      (''cli'', ''CLI tools'', CmdCli, False),
      (''connector'', ''Connector'', CmdConnector, False),
      (''exteriord'', ''Exteriord'', CmdExteriord, True),
      (''launcher'', ''Launch game server'', CmdLauncher, False),
      (''meter'', ''Start resource usage meter'', CmdMeter, False),
      (''setup'', ''Setup server'', CmdSetup, True),
      (''snapshot-helper'', ''Snapshot helper'', CmdSnapshotHelper, True),
      (''update-packages'', ''Update system packages'', CmdUpdatePackages, True),
      (''version'', ''Print version (in machine-readable way) and exit'', CmdVersion, False)]"

definition usage_lines :: "string list" where
  "usage_lines = [''premises-runner'', ''Commands:''] @
     map (\<lambda>(k, d, c). ''  '' @ k @ [CHR 0x09] @ d) (sort_key fst runner_commands)"

definition Load :: "string res \<Rightarrow> runner_config res" where
  "Load file = res_bind file (\<lambda>data. dec_runner_config zero_runner_config (json_parse data))"

datatype app_outcome = ExitOne "string list" | RunCommand runner_command runner_config "string list"

definition app_Run :: "string res \<Rightarrow> int \<Rightarrow> string list \<Rightarrow> app_outcome" where
  "app_Run configFile uid args =
     (if length args < 2 then ExitOne usage_lines
      else
        (let cmdName = trim_prefix ''--'' (args ! 1) in
         case map_of runner_commands cmdName of
           None \<Rightarrow> ExitOne ((''Unknown command: '' @ cmdName) # usage_lines)
         | Some (d, c, requiresRoot) \<Rightarrow>
             (case Load configFile of
                Ok config \<Rightarrow>
                  if requiresRoot \<and> uid \<noteq> 0 then ExitOne [''This command requires root'']
                  else RunCommand c config (drop 2 args)
              | _ \<Rightarrow> ExitOne [''Failed to load config''])))"

text \<open>The socket a command listens at.\<close>

definition rpc_socket :: "string list \<Rightarrow> string" where
  "rpc_socket args = ''/opt/premises/rpc@'' @ trim_prefix ''--'' (args ! 1)"

definition sysupdate_Run :: "'w processes \<Rightarrow> ('w, int) io" where
  "sysupdate_Run P =
     io_bind (io_try (AptGet P [''upgrade'', ''-y''])) (\<lambda>_.
     io_bind (io_try (AptGet P [''autoremove'', ''-y'', ''--purge''])) (\<lambda>_. io_ret 0))"

section \<open>The daemon's processes\<close>

lemma exteriord_names:
  "map (\<lambda>(d, p, deps). trim_prefix ''--'' ((pc_execPath p # pc_args p) ! 1)) exteriord_procs
    = [''setup'', ''launcher'', ''meter'', ''update-packages'', ''connector'', ''snapshot-helper'', ''clean'']"
  by (simp add: exteriord_procs_def NewProc_def proc_Args_def proc_Restart_def proc_UserType_def RestartRandomDelay_def
      trim_prefix_def has_prefix_def)

text \<open>The commands the daemon starts, by the argument that names them.\<close>

definition daemon_commands :: "(string list \<times> runner_command) list" where
  "daemon_commands =
     [([''--setup''], CmdSetup), ([''--launcher''], CmdLauncher), ([''--meter''], CmdMeter),
      ([''--update-packages''], CmdUpdatePackages), ([''--connector''], CmdConnector),
      ([''--snapshot-helper''], CmdSnapshotHelper), ([''--clean''], CmdClean)]"

lemma exteriord_commands:
  "list_all2 (\<lambda>(d, p, deps) (args, c). pc_args p = args
     \<and> (case map_of runner_commands (trim_prefix ''--'' ((pc_execPath p # pc_args p) ! 1)) of
          None \<Rightarrow> False | Some (e, c', root) \<Rightarrow> c' = c \<and> (root \<longrightarrow> pc_userType p = UserPrivileged)))
     exteriord_procs daemon_commands"
  by (simp add: exteriord_procs_def daemon_commands_def NewProc_def proc_Args_def proc_Restart_def proc_UserType_def
      RestartRandomDelay_def trim_prefix_def has_prefix_def runner_commands_def)

text \<open>
  Property C35: every process the daemon starts is one the program runs.  The daemon starts the setup, the
  launcher, the meter, the package update, the connector, the snapshot helper and the clean-up, each once.  With a
  configuration that loads, each of them, started as the user it is declared with (root for the privileged
  ones, anybody else for the others), gets to the command of that name, with that configuration and
  no arguments; and no two of them listen at the same socket.
\<close>

theorem runner_processes_start:
  assumes "Load configFile = Ok config" and "(d, p, deps) \<in> set exteriord_procs"
    and "pc_userType p = UserPrivileged \<longrightarrow> uid = 0"
  shows "(\<exists>c. (pc_args p, c) \<in> set
          [([''--setup''], CmdSetup), ([''--launcher''], CmdLauncher), ([''--meter''], CmdMeter),
           ([''--update-packages''], CmdUpdatePackages), ([''--connector''], CmdConnector),
           ([''--snapshot-helper''], CmdSnapshotHelper), ([''--clean''], CmdClean)]
        \<and> app_Run configFile uid (pc_execPath p # pc_args p) = RunCommand c config [])
    \<and> (\<forall>d' p' deps'. (d', p', deps') \<in> set exteriord_procs
        \<and> rpc_socket (pc_execPath p' # pc_args p') = rpc_socket (pc_execPath p # pc_args p) \<longrightarrow> p' = p)
    \<and> map (\<lambda>(d', p', deps'). pc_args p') exteriord_procs =
        [[''--setup''], [''--launcher''], [''--meter''], [''--update-packages''], [''--connector''],
         [''--snapshot-helper''], [''--clean'']]"
proof (intro conjI)
  obtain args c where c: "(args, c) \<in> set daemon_commands" "pc_args p = args"
    "case map_of runner_commands (trim_prefix ''--'' ((pc_execPath p # pc_args p) ! 1)) of
      None \<Rightarrow> False | Some (e, c', root) \<Rightarrow> c' = c \<and> (root \<longrightarrow> pc_userType p = UserPrivileged)"
    using exteriord_commands assms(2) unfolding list_all2_conv_all_nth by (fastforce simp: in_set_conv_nth)
  have "length args = 1" using c(1) by (auto simp: daemon_commands_def)
  then have "app_Run configFile uid (pc_execPath p # pc_args p) = RunCommand c config []"
    using assms(1,3) c(2,3) by (auto simp: app_Run_def Let_def split: option.splits)
  then show "\<exists>c. (pc_args p, c) \<in> set
          [([''--setup''], CmdSetup), ([''--launcher''], CmdLauncher), ([''--meter''], CmdMeter),
           ([''--update-packages''], CmdUpdatePackages), ([''--connector''], CmdConnector),
           ([''--snapshot-helper''], CmdSnapshotHelper), ([''--clean''], CmdClean)]
        \<and> app_Run configFile uid (pc_execPath p # pc_args p) = RunCommand c config []"
    using c(1,2) unfolding daemon_commands_def by blast
  let ?name = "\<lambda>(d, p, deps). trim_prefix ''--'' ((pc_execPath p # pc_args p) ! 1)"
  have "distinct (map ?name exteriord_procs)" unfolding exteriord_names by simp
  then have "inj_on ?name (set exteriord_procs)" by (simp add: distinct_map)
  then show "\<forall>d' p' deps'. (d', p', deps') \<in> set exteriord_procs
        \<and> rpc_socket (pc_execPath p' # pc_args p') = rpc_socket (pc_execPath p # pc_args p) \<longrightarrow> p' = p"
    using inj_onD [of ?name "set exteriord_procs" "(d', p', deps')" "(d, p, deps)" for d' p' deps'] assms(2)
    by (auto simp: rpc_socket_def)
  show "map (\<lambda>(d', p', deps'). pc_args p') exteriord_procs =
        [[''--setup''], [''--launcher''], [''--meter''], [''--update-packages''], [''--connector''],
         [''--snapshot-helper''], [''--clean'']]"
    by (simp add: exteriord_procs_def NewProc_def proc_Args_def proc_Restart_def proc_UserType_def RestartRandomDelay_def)
qed

lemma runner_processes_start_witness:
  "let file = Ok (json_text (enc_runner_config zero_runner_config));
       p = NewProc runner_path [proc_Args [''--launcher''], proc_Restart RestartOnFailure, RestartRandomDelay, proc_UserType UserRestricted] in
    app_Run file 999 (pc_execPath p # pc_args p) = RunCommand CmdLauncher zero_runner_config []
    \<and> (\<forall>d' p' deps'. (d', p', deps') \<in> set exteriord_procs
        \<and> rpc_socket (pc_execPath p' # pc_args p') = rpc_socket (pc_execPath p # pc_args p) \<longrightarrow> p' = p)"
proof -
  let ?p = "NewProc runner_path [proc_Args [''--launcher''], proc_Restart RestartOnFailure, RestartRandomDelay, proc_UserType UserRestricted]"
  have p: "(''Game Monitoring Service'', ?p, [0]) \<in> set exteriord_procs" "pc_userType ?p \<noteq> UserPrivileged" "pc_args ?p = [''--launcher'']"
    by (simp_all add: exteriord_procs_def NewProc_def proc_Args_def proc_Restart_def proc_UserType_def RestartRandomDelay_def)
  have "Load (Ok (json_text (enc_runner_config zero_runner_config))) = Ok zero_runner_config" by code_simp
  note starts = runner_processes_start [OF this p(1), of 999]
  then obtain c where "(pc_args ?p, c) \<in> set
          [([''--setup''], CmdSetup), ([''--launcher''], CmdLauncher), ([''--meter''], CmdMeter),
           ([''--update-packages''], CmdUpdatePackages), ([''--connector''], CmdConnector),
           ([''--snapshot-helper''], CmdSnapshotHelper), ([''--clean''], CmdClean)]"
    "app_Run (Ok (json_text (enc_runner_config zero_runner_config))) 999 (pc_execPath ?p # pc_args ?p) = RunCommand c zero_runner_config []"
    using p(2) by blast
  moreover from this(1) have "c = CmdLauncher" unfolding p(3) by simp
  ultimately show ?thesis unfolding Let_def using starts p(2) by blast
qed

end
