(* ===== verification/Host.thy ===== *)
theory Host
  imports RunnerMain Rpc Rcon RunnerHandlers
begin

text \<open>
  The host of a runner: the startup script (\<open>ctrlplane/common/startup\<close>) that leaves the configuration
  there and starts the daemon, the directories of the runner (\<open>runner/env/fs.go\<close>), its helpers for
  files (\<open>runner/fs/syscall.go\<close>, \<open>runner/util/files.go\<close>, \<open>pmctl copy-static\<close>) on the disk of
  \<open>Disk\<close>, the command-line tools of \<open>runner/commands/cli\<close>, the log files and options of commands
  (\<open>runner/system/cmd.go\<close>), and the script for a machine that is set up by hand (\<open>handler/runner.go\<close>).
\<close>

section \<open>The startup script\<close>

text \<open>
  The embedded template, line by line.  In the lines below a backquote stands for the double
  quote, a circumflex for the single quote and a tilde for the backslash; the script holds none
  of the three itself.
\<close>

definition shell_line :: "string \<Rightarrow> string" where
  "shell_line s = map (\<lambda>c. if c = CHR 0x60 then CHR 0x22 else if c = CHR 0x5E then CHR 0x27
     else if c = CHR 0x7E then CHR 0x5C else c) s"

definition startup_head :: "string list" where
  "startup_head = [
      ''#!/bin/bash'',
      ''set -x'',
      '''',
      ''export PROTOCOL_VERSION=^%s^'',
      '''',
      ''atomic_copy() {'',
      ''    from=`$1`'',
      ''    to=`$2`'',
      '''',
      ''    cp `${from}` `${to}.new`'',
      ''    chmod +x `${to}.new`'',
      ''    mv `${to}`{.new,}'',
      ''}'',
      '''',
      ''http_get() {'',
      ''    if command -v curl &>/dev/null; then'',
      ''        curl `$@`'',
      ''        return'',
      ''    fi'',
      ''    wget -O- `$@`'',
      ''}'',
      '''',
      ''do_remote_update() {'',
      ''    cd ^/tmp^'',
      '''',
      ''    remote_version=`$(http_get `https://premises.kofuk.org/artifacts/runner/version@${PROTOCOL_VERSION}.txt`)`'',
      '''',
      ''    current_version=`$(`${PREMISES_BASEDIR}/bin/premises-runner` --version || true)`'',
      '''',
      ''    [ `${current_version}` = `${remote_version}` ] && exit 0'',
      '''',
      ''    http_get `https://premises.kofuk.org/artifacts/runner/premises-runner@${PROTOCOL_VERSION}.tar.gz` | tar -xz'',
      ''    http_get `https://premises.kofuk.org/artifacts/runner/premises-runner-resources@${PROTOCOL_VERSION}.tar.zst` ~'',
      ''        >`${PREMISES_BASEDIR}/resources.tar.zst`'',
      ''    atomic_copy ^premises-runner^ `${PREMISES_BASEDIR}/bin/premises-runner`'',
      ''}'',
      '''',
      ''do_local_update() {'',
      ''    cd /premises-dev'',
      ''    [ -e premises-runner ] && atomic_copy premises-runner /opt/premises/bin/premises-runner'',
      ''    [ -e resources.tar.zst ] && atomic_copy resources.tar.zst /opt/premises/resources.tar.zst'',
      ''}'',
      '''',
      ''xaptget() {'',
      ''    if apt-get `$@`; then'',
      ''        return'',
      ''    else'',
      ''        dpkg --configure -a'',
      ''        apt-get `$@`'',
      ''    fi'',
      ''}'',
      '''',
      ''__run() {'',
      ''    PREMISES_BASEDIR=/opt/premises'',
      '''',
      ''    [ -f `${PREMISES_BASEDIR}/runner_env.sh` ] && source `${PREMISES_BASEDIR}/runner_env.sh` || true'',
      '''',
      ''    mkdir -p `${PREMISES_BASEDIR}/bin`'',
      '''',
      ''    if ! command -v curl &>/dev/null && ! command -v wget &>/dev/null; then'',
      ''        # Unfortunately, first initialization can^t be done without installing curl.'',
      ''        DEBIAN_FRONTEND=noninteractive xaptget update -y'',
      ''        DEBIAN_FRONTEND=noninteractive xaptget install -y curl'',
      ''    fi'',
      '''',
      ''    ('',
      ''        set -euo pipefail'',
      '''',
      ''        if [ -e /premises-dev/premises-runner ]; then'',
      ''            do_local_update'',
      ''        else'',
      ''            do_remote_update'',
      ''        fi'',
      ''    )'',
      '''']"

definition cat_line :: string where
  "cat_line = ''    cat <<^EOF^ >`${PREMISES_BASEDIR}/config.json`''"

definition startup_tail :: "string list" where
  "startup_tail = [
      ''EOF'',
      '''',
      ''    [ -e /premises-dev/env ] && . /premises-dev/env'',
      ''    /opt/premises/bin/premises-runner --exteriord &>/exteriord.log &'',
      '''',
      ''    exit'',
      ''} && __run |& tee /tmp/premises-startup.log'']"

definition text_of_lines :: "string list \<Rightarrow> string" where
  "text_of_lines ls = concat (map (\<lambda>l. l @ [CHR 0x0A]) ls)"

definition startupScriptTemplate :: string where
  "startupScriptTemplate = text_of_lines (map shell_line (startup_head @ [cat_line, ''%s''] @ startup_tail))"

text \<open>\<open>fmt.Appendf\<close> with \<open>%s\<close> alone: each argument as it is, in their order.\<close>

function fmt_Appendf :: "string \<Rightarrow> string list \<Rightarrow> string" where
  "fmt_Appendf [] args = []"
| "fmt_Appendf (c # r) args =
     (if c = CHR ''%'' \<and> has_prefix ''s'' r \<and> args \<noteq> [] then hd args @ fmt_Appendf (tl r) (tl args)
      else c # fmt_Appendf r args)"
  by pat_completeness auto
termination by (relation "measure (length \<circ> fst)") auto

definition Version :: string where "Version = ''0.13.4''"

definition GenerateStartupScript :: "runner_config \<Rightarrow> string" where
  "GenerateStartupScript gameConfig =
     fmt_Appendf startupScriptTemplate [Version, json_text (enc_runner_config gameConfig)]"

text \<open>
  What the shell does with a here-document whose delimiter is quoted: the lines after the command, up
  to the delimiter, are the input as they stand.
\<close>

definition here_document :: "string \<Rightarrow> string \<Rightarrow> string" where
  "here_document cmd script =
     text_of_lines (takeWhile (\<lambda>l. l \<noteq> ''EOF'') (tl (dropWhile (\<lambda>l. l \<noteq> cmd) (str_split [CHR 0x0A] script))))"

lemma fmt_Appendf_plain: "CHR ''%'' \<notin> set s \<Longrightarrow> fmt_Appendf (s @ r) args = s @ fmt_Appendf r args"
  by (induction s) auto

lemma fmt_Appendf_arg: "fmt_Appendf (CHR ''%'' # CHR ''s'' # r) (a # args) = a @ fmt_Appendf r args"
  by (simp add: has_prefix_def)

lemma fmt_Appendf_end: "fmt_Appendf s [] = s"
  by (induction s) simp_all

lemma split_text_of_lines:
  "list_all (\<lambda>l. CHR 0x0A \<notin> set l) ls \<Longrightarrow> str_split [CHR 0x0A] (text_of_lines ls @ r) = ls @ str_split [CHR 0x0A] r"
  by (induction ls) (simp_all add: text_of_lines_def str_split_cut)

text \<open>The script, cut at its two arguments.\<close>

definition after_version :: "string list" where
  "after_version = tl (dropWhile (\<lambda>l. CHR ''%'' \<notin> set l) startup_head)"

lemma startup_head_cut:
  "startup_head = [''#!/bin/bash'', ''set -x'', '''', ''export PROTOCOL_VERSION=^%s^''] @ after_version"
  by (simp add: after_version_def startup_head_def)

lemma startup_plain:
  "list_all (\<lambda>l. list_all (\<lambda>c. c \<noteq> CHR 0x0A \<and> c \<noteq> CHR ''%'') l) (map shell_line after_version)"
  "list_all (\<lambda>l. list_all (\<lambda>c. c \<noteq> CHR 0x0A \<and> c \<noteq> CHR ''%'') l) (map shell_line startup_tail)"
  "list_all (\<lambda>c. c \<noteq> CHR 0x0A \<and> c \<noteq> CHR ''%'') (shell_line cat_line)"
  "shell_line cat_line \<notin> set (map shell_line after_version)" "hd (map shell_line startup_tail) = ''EOF''"
  by code_simp+

lemma text_of_lines_simps [simp]:
  "text_of_lines [] = []" "text_of_lines (l # ls) = l @ CHR 0x0A # text_of_lines ls"
  "text_of_lines (ls @ ls') = text_of_lines ls @ text_of_lines ls'"
  by (simp_all add: text_of_lines_def)

lemma text_of_lines_plain:
  "list_all (\<lambda>l. list_all (\<lambda>c. c \<noteq> CHR 0x0A \<and> c \<noteq> CHR ''%'') l) ls \<Longrightarrow> CHR ''%'' \<notin> set (text_of_lines ls)"
  by (induction ls) (auto simp: list_all_iff)


lemma fmt_lines:
  assumes "CHR ''%'' \<notin> set (text_of_lines ls)" "CHR ''%'' \<notin> set a" "CHR ''%'' \<notin> set b" "CHR ''%'' \<notin> set (text_of_lines ms)"
  shows "fmt_Appendf (text_of_lines (ls @ (a @ ''%s'' @ b) # ms @ ''%s'' # ns)) [x, y]
    = text_of_lines (ls @ (a @ x @ b) # ms @ y # ns)"
proof -
  have p: "CHR ''%'' \<notin> set (text_of_lines ls @ a)" "CHR ''%'' \<notin> set (b @ [CHR 0x0A] @ text_of_lines ms)"
    using assms by simp_all
  have "fmt_Appendf ((text_of_lines ls @ a) @ CHR ''%'' # CHR ''s'' # (b @ [CHR 0x0A] @ text_of_lines ms)
      @ CHR ''%'' # CHR ''s'' # CHR 0x0A # text_of_lines ns) [x, y]
    = (text_of_lines ls @ a) @ x @ (b @ [CHR 0x0A] @ text_of_lines ms) @ y @ CHR 0x0A # text_of_lines ns"
    by (simp only: fmt_Appendf_plain [OF p(1)] fmt_Appendf_plain [OF p(2)] fmt_Appendf_arg fmt_Appendf_end)
  then show ?thesis by simp
qed

lemma here_document_lines:
  assumes "list_all (\<lambda>l. CHR 0x0A \<notin> set l) (ls @ cmd # body @ ''EOF'' # rest)"
    and "cmd \<notin> set ls" and "''EOF'' \<notin> set body"
  shows "here_document cmd (text_of_lines (ls @ cmd # body @ ''EOF'' # rest)) = text_of_lines body"
proof -
  have "dropWhile (\<lambda>l. l \<noteq> cmd) (ls @ cmd # r) = cmd # r" for r
    using assms(2) by (subst dropWhile_append2) auto
  moreover have "takeWhile (\<lambda>l. l \<noteq> ''EOF'') (body @ ''EOF'' # r) = body" for r
    using assms(3) by (subst takeWhile_append2) auto
  ultimately show ?thesis
    using split_text_of_lines [OF assms(1), of "[]"] by (simp only: here_document_def append.assoc append.simps list.sel append_Nil2)
qed

definition export_head :: string where "export_head = shell_line ''export PROTOCOL_VERSION=^''"
definition export_foot :: string where "export_foot = shell_line ''^''"
definition first_lines :: "string list" where "first_lines = [''#!/bin/bash'', ''set -x'', '''']"

lemma export_line:
  "map shell_line [''#!/bin/bash'', ''set -x'', '''', ''export PROTOCOL_VERSION=^%s^''] = first_lines @ [export_head @ ''%s'' @ export_foot]"
  "shell_line ''%s'' = ''%s''" "shell_line cat_line \<notin> set (first_lines @ [export_head @ Version @ export_foot])"
  by code_simp+

lemma startup_script_lines:
  "GenerateStartupScript c = text_of_lines (
     first_lines @ (export_head @ Version @ export_foot) # (map shell_line after_version @ [shell_line cat_line]) @
     json_text (enc_runner_config c) # map shell_line startup_tail)"
proof -
  have t: "startupScriptTemplate = text_of_lines (
     first_lines @ (export_head @ ''%s'' @ export_foot) # (map shell_line after_version @ [shell_line cat_line]) @
     ''%s'' # map shell_line startup_tail)"
    by (simp only: startupScriptTemplate_def startup_head_cut map_append export_line(1))
      (simp only: export_line(2) append.assoc append.simps list.map)
  have h: "CHR ''%'' \<notin> set (text_of_lines first_lines)" "CHR ''%'' \<notin> set export_head" "CHR ''%'' \<notin> set export_foot"
    by code_simp+
  have m: "CHR ''%'' \<notin> set (text_of_lines (map shell_line after_version @ [shell_line cat_line]))"
    using startup_plain(1,3) by (intro text_of_lines_plain) (simp add: list_all_iff)
  show ?thesis unfolding GenerateStartupScript_def t by (rule fmt_lines [OF h m])
qed

lemma json_ok_runner_config: "json_ok (enc_runner_config c)"
  by (auto simp: enc_runner_config_def enc_observability_config_def enc_game_config_def enc_server_config_def
      enc_world_config_def omit_nil_def omit_empty_def enc_map_def split: option.splits)

lemma config_file_of_script:
  "here_document (shell_line cat_line) (GenerateStartupScript c) = json_text (enc_runner_config c) @ [CHR 0x0A]"
proof -
  let ?j = "json_text (enc_runner_config c)" and ?cat = "shell_line cat_line"
  let ?ls = "first_lines @ (export_head @ Version @ export_foot) # map shell_line after_version"
  obtain t where t: "map shell_line startup_tail = ''EOF'' # t"
    using startup_plain(5) by (cases "map shell_line startup_tail") (auto simp: startup_tail_def)
  have j: "CHR 0x0A \<notin> set ?j" by (rule printable_not_in(2)) (rule printable_text [OF json_ok_runner_config])
  have no: "list_all (\<lambda>l. CHR 0x0A \<notin> set l) ls" if "list_all (\<lambda>l. list_all (\<lambda>c. c \<noteq> CHR 0x0A \<and> c \<noteq> CHR ''%'') l) ls" for ls
    using that by (auto simp: list_all_iff)
  have f: "list_all (\<lambda>l. list_all (\<lambda>c. c \<noteq> CHR 0x0A \<and> c \<noteq> CHR ''%'') l) first_lines"
      "list_all (\<lambda>c. c \<noteq> CHR 0x0A \<and> c \<noteq> CHR ''%'') (export_head @ Version @ export_foot)"
    by code_simp+
  then have "list_all (\<lambda>l. list_all (\<lambda>c. c \<noteq> CHR 0x0A \<and> c \<noteq> CHR ''%'') l) (?ls @ ?cat # ''EOF'' # t)"
    using startup_plain(1-3) unfolding t by (simp only: list_all_append list.pred_inject append.simps) simp
  from no [OF this] j have "list_all (\<lambda>l. CHR 0x0A \<notin> set l) (?ls @ ?cat # [?j] @ ''EOF'' # t)"
    by (simp add: list_all_iff)
  moreover have "?cat \<notin> set ?ls" using startup_plain(4) export_line(3) by simp
  moreover have "''EOF'' \<notin> set [?j]" by (simp add: enc_runner_config_def)
  ultimately have "here_document ?cat (text_of_lines (?ls @ ?cat # [?j] @ ''EOF'' # t)) = text_of_lines [?j]"
    by (rule here_document_lines)
  then show ?thesis by (simp add: startup_script_lines t)
qed

lemma Load_of_text:
  "ok_runner_config c \<Longrightarrow> Load (Ok (json_text (enc_runner_config c) @ [CHR 0x0A])) = Ok c"
proof -
  have "follows [CHR 0x0A]" by (simp add: follows_def num_char_def is_digit_def)
  then have "json_parse (json_text (enc_runner_config c) @ [CHR 0x0A]) = enc_runner_config c"
    using readsD [OF text_reads [OF json_ok_runner_config [of c]], of "2 * length (json_text (enc_runner_config c) @ [CHR 0x0A]) + 2" "[CHR 0x0A]"]
    by (simp add: json_parse_def skip_ws_def)
  then show "ok_runner_config c \<Longrightarrow> ?thesis" by (simp add: Load_def rt_runner_config)
qed

text \<open>
  Property C19: the configuration of a launch survives its way to the machine.  The file the startup
  script's here-document leaves is one the runner loads, and the configuration is the one the
  control plane launched with, whatever its strings hold: no quote, line feed or here-document
  delimiter in them ends the file early.  So the daemon the script starts as root runs with it.
\<close>

theorem config_survives_startup:
  assumes "ok_runner_config c"
  defines "file \<equiv> here_document (shell_line cat_line) (GenerateStartupScript c)"
  shows "Load (Ok file) = Ok c \<and> app_Run (Ok file) 0 [runner_path, ''--exteriord''] = RunCommand CmdExteriord c []"
proof -
  have l: "Load (Ok file) = Ok c" unfolding file_def config_file_of_script by (rule Load_of_text [OF assms(1)])
  then show ?thesis by (simp add: app_Run_def runner_commands_def trim_prefix_def has_prefix_def)
qed

lemma config_survives_startup_witness:
  "let c = zero_runner_config\<lparr>rc_AuthKey := CHR 0x22 # CHR 0x0A # ''EOF'' @ [CHR 0x0A, CHR 0x27]\<rparr>;
       file = here_document (shell_line cat_line) (GenerateStartupScript c) in
    Load (Ok file) = Ok c \<and> app_Run (Ok file) 0 [runner_path, ''--exteriord''] = RunCommand CmdExteriord c []"
proof -
  have "ok_runner_config (zero_runner_config\<lparr>rc_AuthKey := CHR 0x22 # CHR 0x0A # ''EOF'' @ [CHR 0x0A, CHR 0x27]\<rparr>)"
    by code_simp
  then show ?thesis unfolding Let_def by (rule config_survives_startup)
qed

section \<open>Directories\<close>

definition BaseDir :: string where "BaseDir = ''/opt/premises''"

definition DataPath :: "string list \<Rightarrow> string" where
  "DataPath path = path_Join [BaseDir, path_Join path]"

definition LocateServer :: "string \<Rightarrow> string" where
  "LocateServer serverName = DataPath [path_Join [''servers.d'', serverName @ ''.jar'']]"

definition GetTempDir :: string where
  "GetTempDir = DataPath [''tmp'']"

text \<open>\<open>os.MkdirTemp\<close>: the first free name, \<open>rnd\<close> being what the library appends to the prefix.\<close>

definition MkdirTemp :: "string \<Rightarrow> string \<Rightarrow> (disk, string) io" where
  "MkdirTemp tempDir rnd =
     (let p = path_comps tempDir @ [''premises-temp'' @ rnd] in
      io_bind (dk_parents p) (\<lambda>_.
      io_bind (dk_access p) (\<lambda>_ d.
      if dk_look d p \<noteq> None then (Err (Ext ''file exists''), d)
      else (Ok (tempDir @ ''/premises-temp'' @ rnd), dk_put p DirNode d))))"

text \<open>A plain name stays in the directory of the servers; a name with dots may leave it.\<close>

lemma LocateServer_plain:
  assumes "plain_name (n @ ''.jar'')"
  shows "path_comps (LocateServer n) = [''opt'', ''premises'', ''servers.d'', n @ ''.jar'']"
proof -
  let ?r = "slash_join [''servers.d'', n @ ''.jar'']"
  have p: "list_all plain_name [''servers.d'', n @ ''.jar'']" using assms by (simp add: plain_name_def)
  have c: "path_Clean ?r = ?r"
    using split_slash_join [OF _ p] clean_push_names [OF p, of False "[]"] 
    by (simp add: path_Clean_def has_prefix_def Let_def)
  have j: "path_Join [''servers.d'', n @ ''.jar''] = ?r" using c by (simp add: path_Join_def)
  have k: "path_Join [?r] = ?r" using c by (simp add: path_Join_def)
  have "rooted BaseDir" "path_comps BaseDir = [''opt'', ''premises'']" by code_simp+
  then show ?thesis
    unfolding LocateServer_def DataPath_def j k using comps_Join_names [OF _ _ p, of BaseDir] by simp
qed

lemma LocateServer_examples:
  "LocateServer ''1.20'' = ''/opt/premises/servers.d/1.20.jar''" "LocateServer ''../bin/x'' = ''/opt/premises/bin/x.jar''"
  "GetTempDir = ''/opt/premises/tmp''" "DataPath [''gamedata'', ''ss@quick0''] = ''/opt/premises/gamedata/ss@quick0''"
  by code_simp+

section \<open>Files\<close>

text \<open>The signature of an archive, in the first four bytes; an unreadable or shorter file has none.\<close>

definition jar_signature :: string where
  "jar_signature = [CHR 0x50, CHR 0x4B, CHR 0x03, CHR 0x04]"

definition IsJar :: "string \<Rightarrow> (disk, bool) io" where
  "IsJar path =
     io_bind (io_try (os_Open path)) (\<lambda>r.
     io_ret (case r of Ok (s, e) \<Rightarrow> 4 \<le> length s \<and> take 4 s = jar_signature | _ \<Rightarrow> False))"

text \<open>
  Making a file of a size: the kernel reserves it where it can; \<open>fa\<close> is its error where it cannot.
  Where the filesystem does not support that, zero bytes are written, 1024 at a time.
\<close>

definition EOPNOTSUPP :: go_error where "EOPNOTSUPP = Ext ''operation not supported''"

definition sys_Fallocate :: "go_error option \<Rightarrow> string \<Rightarrow> int \<Rightarrow> (disk, unit) io" where
  "sys_Fallocate fa path n d =
     (case fa of Some e \<Rightarrow> (Err e, d)
      | None \<Rightarrow> if n \<le> 0 then (Err (Ext ''invalid argument''), d)
          else (Ok (), dk_put (path_comps path) (FileNode (replicate (nat n) CHR 0x00)) d))"

definition file_Write :: "string \<Rightarrow> string \<Rightarrow> (disk, unit) io" where
  "file_Write path s d =
     (case dk_look d (path_comps path) of
        Some (FileNode old) \<Rightarrow> (Ok (), dk_put (path_comps path) (FileNode (old @ s)) d)
      | _ \<Rightarrow> (Err (Ext ''bad file descriptor''), d))"

function write_zeros :: "string \<Rightarrow> int \<Rightarrow> (disk, unit) io" where
  "write_zeros path remain =
     (if 1024 \<le> remain then io_bind (file_Write path (replicate 1024 CHR 0x00)) (\<lambda>_. write_zeros path (remain - 1024))
      else if 0 < remain then file_Write path (replicate (nat remain) CHR 0x00) else io_ret ())"
  by pat_completeness auto
termination by (relation "measure (\<lambda>(p, n). nat n)") auto

declare write_zeros.simps [simp del]

definition Fallocate :: "go_error option \<Rightarrow> string \<Rightarrow> int \<Rightarrow> (disk, unit) io" where
  "Fallocate fa path n =
     io_bind (os_Create path) (\<lambda>_.
     io_bind (io_try (sys_Fallocate fa path n)) (\<lambda>r.
     case r of Err e \<Rightarrow> if e = EOPNOTSUPP then write_zeros path n else io_err e | _ \<Rightarrow> io_ret ()))"

lemma dk_put_put: "dk_put p n (dk_put p m d) = dk_put p n d"
  by (simp add: dk_put_def)

lemma write_zeros_appends:
  "dk_look d (path_comps path) = Some (FileNode s) \<Longrightarrow> 0 \<le> n \<Longrightarrow>
    \<exists>d'. write_zeros path n d = (Ok (), d') \<and> dk_put (path_comps path) m d' = dk_put (path_comps path) m d
      \<and> dk_look d' (path_comps path) = Some (FileNode (s @ replicate (nat n) CHR 0x00))"
proof (induction "nat n" arbitrary: n s d rule: less_induct)
  case less
  have p: "path_comps path \<noteq> []" using less.prems(1) by (auto simp: dk_look_def)
  show ?case
  proof (cases "1024 \<le> n")
    case True
    let ?d = "dk_put (path_comps path) (FileNode (s @ replicate 1024 CHR 0x00)) d"
    have w: "file_Write path (replicate 1024 CHR 0x00) d = (Ok (), ?d)"
      by (simp add: file_Write_def less.prems(1))
    have "dk_look ?d (path_comps path) = Some (FileNode (s @ replicate 1024 CHR 0x00))" by (simp add: dk_look_put p)
    then obtain d' where d': "write_zeros path (n - 1024) ?d = (Ok (), d')"
        "dk_put (path_comps path) m d' = dk_put (path_comps path) m ?d"
        "dk_look d' (path_comps path) = Some (FileNode ((s @ replicate 1024 CHR 0x00) @ replicate (nat (n - 1024)) CHR 0x00))"
      using less.hyps [of "n - 1024" ?d "s @ replicate 1024 CHR 0x00"] True by auto
    have "write_zeros path n d = (Ok (), d')"
      using True by (subst write_zeros.simps) (simp add: io_bind_def w d'(1))
    moreover have "replicate 1024 CHR 0x00 @ replicate (nat (n - 1024)) CHR 0x00 = replicate (nat n) CHR 0x00"
      using True by (simp add: replicate_add [symmetric] nat_diff_distrib)
    ultimately show ?thesis using d'(2,3) by (simp add: dk_put_put)
  next
    case False
    then show ?thesis using less.prems p
      by (subst write_zeros.simps) (auto simp: file_Write_def dk_look_put dk_put_put io_ret_def)
  qed
qed

text \<open>Whether or not the filesystem reserves space, the file gets the size and holds zeros only.\<close>

lemma os_Create_empty: "os_Create path d = (Ok (), d') \<Longrightarrow> dk_look d' (path_comps path) = Some (FileNode [])"
  using dk_look_def [of _ "[]"] by (auto simp: os_Create_def Let_def dk_look_put elim!: io_bind_OkE split: if_splits)

lemma Fallocate_size:
  assumes "os_Create path d = (Ok (), d')" and "0 < n" and "fa = None \<or> fa = Some EOPNOTSUPP"
  shows "\<exists>d''. Fallocate fa path n d = (Ok (), d'')
    \<and> dk_look d'' (path_comps path) = Some (FileNode (replicate (nat n) CHR 0x00))"
proof -
  note empty = os_Create_empty [OF assms(1)]
  then have p: "path_comps path \<noteq> []" by (auto simp: dk_look_def)
  show ?thesis
  proof (cases fa)
    case None
    then show ?thesis using assms(2) p
      by (simp add: Fallocate_def io_bind_def assms(1) io_try_def sys_Fallocate_def io_ret_def dk_look_put)
  next
    case (Some e)
    then have e: "e = EOPNOTSUPP" using assms(3) by simp
    obtain d'' where d: "write_zeros path n d' = (Ok (), d'')"
        "dk_look d'' (path_comps path) = Some (FileNode (replicate (nat n) CHR 0x00))"
      using write_zeros_appends [OF empty, of n] assms(2) by auto
    then show ?thesis
      by (simp add: Fallocate_def io_bind_def assms(1) Some e io_try_def sys_Fallocate_def)
  qed
qed

text \<open>
  Changing the owner of a tree: what the walk visits, with the error it had there.  Every path is
  tried, and all errors are returned together.
\<close>

fun chown_all :: "(string \<Rightarrow> ('w, unit) io) \<Rightarrow> (string \<times> go_error option) list \<Rightarrow> go_error list \<Rightarrow> ('w, go_error list) io" where
  "chown_all chown [] errs = io_ret errs"
| "chown_all chown ((path, Some e) # ps) errs = chown_all chown ps (errs @ [e])"
| "chown_all chown ((path, None) # ps) errs =
     io_bind (io_try (chown path)) (\<lambda>r. chown_all chown ps (errs @ (case r of Err e \<Rightarrow> [e] | _ \<Rightarrow> [])))"

definition ChownRecursive :: "(string \<Rightarrow> ('w, unit) io) \<Rightarrow> (string \<times> go_error option) list \<Rightarrow> ('w, unit) io" where
  "ChownRecursive chown visited =
     io_bind (chown_all chown visited []) (\<lambda>errs. if errs \<noteq> [] then io_err (Joined errs) else io_ret ())"

text \<open>An error in the middle does not end it: the calls are those for every path that could be visited.\<close>

lemma ChownRecursive_visits:
  assumes "\<And>p w. \<exists>r. chown p w = (r, w @ [p]) \<and> (\<forall>m. r \<noteq> Panic m)"
  shows "snd (ChownRecursive chown visited w) = w @ map fst (filter (\<lambda>x. snd x = None) visited)"
proof -
  have "\<exists>es. chown_all chown visited errs w = (Ok es, w @ map fst (filter (\<lambda>x. snd x = None) visited))" for errs
  proof (induction visited arbitrary: errs w)
    case (Cons v vs)
    obtain p e where v: "v = (p, e)" by (cases v)
    obtain r where r: "chown p w = (r, w @ [p])" "\<forall>m. r \<noteq> Panic m" using assms by blast
    then have "io_try (chown p) w = (Ok r, w @ [p])" by (cases r) (auto simp: io_try_def)
    then show ?case
      using Cons.IH [of "errs @ [the e]" w] Cons.IH [of "errs @ (case r of Err e \<Rightarrow> [e] | _ \<Rightarrow> [])" "w @ [p]"]
      by (cases e) (simp_all add: v io_bind_def)
  qed (simp add: io_ret_def)
  then obtain es where "chown_all chown visited [] w = (Ok es, w @ map fst (filter (\<lambda>x. snd x = None) visited))" by blast
  then show ?thesis by (simp add: ChownRecursive_def io_bind_simps(1) io_ret_def io_err_def)
qed

section \<open>Copying the static files\<close>

definition findStaticDir :: "string \<Rightarrow> string res" where
  "findStaticDir env = (if env \<noteq> [] then Ok env else Err (Msg ''you should provide the source directory''))"

definition copy_static_entry :: "string \<Rightarrow> string \<Rightarrow> string \<Rightarrow> file_node \<Rightarrow> (disk, unit) io" where
  "copy_static_entry source destination relPath n =
     (let destPath = path_Join [destination, relPath] in
      if n = DirNode then os_MkdirAll destPath else copyFile (path_Join [source, relPath]) destPath)"

definition RunCopyStatic :: "string \<Rightarrow> string \<Rightarrow> (disk, unit) io" where
  "RunCopyStatic source destination =
     wrap_error ''failed to copy static files'' (fs_WalkDir source (\<lambda>path n _. copy_static_entry source destination path n) ())"

definition copy_static_command :: "string \<Rightarrow> string \<Rightarrow> string \<Rightarrow> (disk, unit) io" where
  "copy_static_command env source destination =
     io_bind (if source = [] then io_lift (findStaticDir env) else io_ret source) (\<lambda>src.
     if destination = [] then io_err (Msg ''you should provide the destination directory'')
     else RunCopyStatic src destination)"

text \<open>It does what the runner's own \<open>CopyAll\<close> does.\<close>

lemma RunCopyStatic_CopyAll: "RunCopyStatic s t = wrap_error ''failed to copy static files'' (CopyAll s t)"
proof -
  have "copy_static_entry s t = move_entry s t True"
    by (intro ext) (simp add: copy_static_entry_def move_entry_def try_rename_def Let_def io_bind_def io_ret_def split: res.split prod.split)
  then show ?thesis by (simp add: RunCopyStatic_def CopyAll_def moveDir_def try_rename_def)
qed

section \<open>The command-line tools\<close>

text \<open>
  \<open>cli rpc\<close>: one request with the JSON of the standard input; what a call answers is printed.
  \<open>Marshal\<close> refuses a text that is not JSON, before anything is sent.
\<close>

definition raw_json :: "string \<Rightarrow> json res" where
  "raw_json data = (case json_parse data of JBad \<Rightarrow> Err (Ext ''json: error calling MarshalJSON'') | j \<Rightarrow> Ok j)"

definition raw_bind :: "json \<Rightarrow> json res" where
  "raw_bind j = dec_raw JBad j"

definition cli_rpc_Run ::
  "(go_error \<Rightarrow> string) \<Rightarrow> 'w rpc_server \<Rightarrow> string res \<Rightarrow> string \<Rightarrow> string \<Rightarrow> ('w, string list) io" where
  "cli_rpc_Run msg S stdin requestType m =
     io_bind (wrap_error ''failed to read stdin'' (io_lift stdin)) (\<lambda>data.
     if requestType = ''call'' then
       io_bind (io_lift (raw_json data)) (\<lambda>params.
       io_bind (rpc_Call msg S [] m params raw_bind) (\<lambda>resp. io_ret [json_text resp]))
     else if requestType = ''notify'' then
       io_bind (io_lift (raw_json data)) (\<lambda>params.
       io_bind (rpc_Notify msg S [] m params) (\<lambda>_. io_ret []))
     else io_err (Msg ''unknown request type''))"

text \<open>\<open>cli rcon\<close>: each line of the standard input is a command; its answer is printed.\<close>

definition rcon_cli_execute :: "('w, 'c) rcon_lib \<Rightarrow> 'c \<Rightarrow> string \<Rightarrow> ('w, string) io" where
  "rcon_cli_execute L conn line = rl_Execute L conn (trim_prefix ''/'' line)"

fun rcon_cli_lines :: "('w, 'c) rcon_lib \<Rightarrow> 'c \<Rightarrow> string list \<Rightarrow> string list \<Rightarrow> ('w, string list \<times> go_error option) io" where
  "rcon_cli_lines L conn [] out = io_ret (out, None)"
| "rcon_cli_lines L conn (line # lines) out =
     io_bind (io_try (rcon_cli_execute L conn line)) (\<lambda>r.
     case r of Err e \<Rightarrow> io_ret (out, Some e) | Ok output \<Rightarrow> rcon_cli_lines L conn lines (out @ [output]) | Panic p \<Rightarrow> io_panic p)"

definition rcon_cli_Run :: "('w, 'c) rcon_lib \<Rightarrow> string list \<Rightarrow> ('w, string list \<times> go_error option) io" where
  "rcon_cli_Run L lines =
     io_bind (io_try (rl_Dial L)) (\<lambda>c.
     case c of
       Ok conn \<Rightarrow> (\<lambda>w. case rcon_cli_lines L conn lines [] w of (r, w1) \<Rightarrow> (r, rl_Close L conn w1))
     | Err e \<Rightarrow> io_ret ([], Some e)
     | Panic p \<Rightarrow> io_panic p)"

text \<open>The tool answers what the method answers, or its error.\<close>

lemma cli_call_prints:
  assumes "json_parse data = p" and "p \<noteq> JBad" and "sendable (enc_Request (call_request m p))"
    and "sv_methods S m = Some fn" and "fn (call_request m p) w = (Ok (Some j), w1)"
    and "answers_fit msg (Ok (Some j))"
  shows "cli_rpc_Run msg S (Ok data) ''call'' m w = (Ok [json_text j], w1)"
proof -
  have q: "(call_request m p)\<lparr>jq_Traceparent := []\<rparr> = call_request m p" by (simp add: call_request_def)
  have "rpc_Call msg S [] m p raw_bind w = (Ok j, w1)"
    using rpc_Call_run [of "[]" p m S msg w raw_bind] assms(2-6)
    by (cases j) (simp_all add: q ok_trace_def call_outcome_def raw_bind_def dec_raw_def answers_fit_def)
  moreover have "raw_json data = Ok p" using assms(1,2) by (cases p) (simp_all add: raw_json_def)
  ultimately show ?thesis by (simp add: cli_rpc_Run_def wrap_error_def io_bind_def io_run)
qed

section \<open>Log files of commands\<close>

text \<open>
  A command's output goes to a new file under the first number that is not taken.  Only a file that is
  there already makes the loop go on, so it may not end when the file system gives that error for ever.
\<close>

definition ErrExist :: go_error where "ErrExist = Ext ''file exists''"

definition open_excl :: "string \<Rightarrow> (disk, unit) io" where
  "open_excl path =
     (let p = path_comps path in
      io_bind (dk_parents p) (\<lambda>_.
      io_bind (dk_access p) (\<lambda>_ d.
      if dk_look d p \<noteq> None then (Err ErrExist, d) else (Ok (), dk_put p (FileNode []) d))))"

definition log_path :: "nat \<Rightarrow> string" where
  "log_path n = path_Join [GetTempDir, ''command-'' @ fmt_d (int n) @ ''.log'']"

partial_function (option) createLog :: "nat \<Rightarrow> disk \<Rightarrow> (string res \<times> nat \<times> disk) option" where
  "createLog logNum d =
     (let next = (logNum + 1) mod 2 ^ 64 in
      case open_excl (log_path logNum) d of
        (Ok _, d1) \<Rightarrow> Some (Ok (log_path logNum), next, d1)
      | (Err e, d1) \<Rightarrow> if e = ErrExist then createLog next d1 else Some (Err e, next, d1)
      | (Panic p, d1) \<Rightarrow> Some (Panic p, next, d1))"

lemma log_path_comps: "path_comps (log_path n) = [''opt'', ''premises'', ''tmp'', ''command-'' @ fmt_d (int n) @ ''.log'']"
proof -
  have "CHR ''/'' \<notin> set (fmt_d (int n))"
    using num_char_fmt_d [of "int n"] by (auto simp: list_all_iff num_char_def is_digit_def Let_def)
  then have p: "list_all plain_name [''command-'' @ fmt_d (int n) @ ''.log'']" by (simp add: plain_name_def)
  have "rooted GetTempDir" "path_comps GetTempDir = [''opt'', ''premises'', ''tmp'']" by code_simp+
  then show ?thesis using comps_Join_names [OF _ _ p, of GetTempDir] by (simp add: log_path_def)
qed

lemma log_path_inj:
  assumes "path_comps (log_path n) = path_comps (log_path m)"
  shows "n = m"
proof -
  have d: "fmt_d (int k) = nat_digits k" for k unfolding fmt_d_def by (simp del: nat_digits.simps)
  have "fmt_d (int n) = fmt_d (int m)" using assms unfolding log_path_comps by (simp del: nat_digits.simps)
  then have "digits_val (nat_digits n) = digits_val (nat_digits m)" unfolding d by (rule arg_cong)
  then show ?thesis unfolding digits_val_nat_digits .
qed

text \<open>
  With the directory there and no file refused, the loop ends: it takes the first free number, after
  no more rounds than there are files, and makes an empty file there.
\<close>

lemma createLog_step:
  assumes "\<forall>p. dk_fault d p = None" and "dk_parents (path_comps (log_path 0)) d = (Ok (), d)" and "n + 1 < 2 ^ 64"
  shows "createLog n d = (if dk_look d (path_comps (log_path n)) \<noteq> None then createLog (n + 1) d
    else Some (Ok (log_path n), n + 1, dk_put (path_comps (log_path n)) (FileNode []) d))"
proof -
  have "dk_parents (path_comps (log_path n)) d = dk_parents (path_comps (log_path 0)) d"
    by (simp add: log_path_comps dk_parents_def upt_conv_Cons)
  then have "open_excl (log_path n) d = (if dk_look d (path_comps (log_path n)) \<noteq> None then (Err ErrExist, d)
      else (Ok (), dk_put (path_comps (log_path n)) (FileNode []) d))"
    using assms(1,2) by (simp add: open_excl_def Let_def io_bind_def dk_access_def)
  moreover have "(n + 1) mod 2 ^ 64 = n + 1" using assms(3) by (rule mod_less)
  ultimately show ?thesis by (subst createLog.simps) (simp only: Let_def prod.case res.case split: if_split, simp)
qed

lemma createLog_first_free:
  assumes "\<forall>p. dk_fault d p = None" and "dk_parents (path_comps (log_path 0)) d = (Ok (), d)"
    and "\<forall>i < k. dk_look d (path_comps (log_path (n + i))) \<noteq> None" and "dk_look d (path_comps (log_path (n + k))) = None"
    and "n + k + 1 < 2 ^ 64"
  shows "createLog n d = Some (Ok (log_path (n + k)), n + k + 1, dk_put (path_comps (log_path (n + k))) (FileNode []) d)"
  using assms(3-5)
proof (induction k arbitrary: n)
  case 0
  then show ?case by (simp add: createLog_step [OF assms(1,2)])
next
  case (Suc k)
  have n: "n + 1 < 2 ^ 64" using Suc.prems(3) by simp
  have "dk_look d (path_comps (log_path n)) \<noteq> None" using Suc.prems(1) [rule_format, of 0] by simp
  then have "createLog n d = createLog (n + 1) d" by (simp only: createLog_step [OF assms(1,2) n]) simp
  also have "\<dots> = Some (Ok (log_path (n + 1 + k)), n + 1 + k + 1, dk_put (path_comps (log_path (n + 1 + k))) (FileNode []) d)"
  proof (rule Suc.IH)
    show "\<forall>i<k. dk_look d (path_comps (log_path (n + 1 + i))) \<noteq> None"
      using Suc.prems(1) [rule_format, of "Suc i" for i] by simp
    show "dk_look d (path_comps (log_path (n + 1 + k))) = None" using Suc.prems(2) by simp
    show "n + 1 + k + 1 < 2 ^ 64" using Suc.prems(3) by simp
  qed
  finally show ?case by simp
qed

lemma log_path_free: "\<exists>k \<le> length (dk_nodes d). dk_look d (path_comps (log_path (n + k))) = None"
proof (rule ccontr)
  let ?f = "\<lambda>k. path_comps (log_path (n + k))"
  assume "\<not> ?thesis"
  then have "?f ` {..length (dk_nodes d)} \<subseteq> set (map fst (dk_nodes d))"
    using map_of_eq_None_iff [of "dk_nodes d"] by (auto simp: dk_look_def log_path_comps)
  then have "card (?f ` {..length (dk_nodes d)}) \<le> card (set (map fst (dk_nodes d)))" by (intro card_mono) simp_all
  also have "\<dots> \<le> length (dk_nodes d)" using card_length [of "map fst (dk_nodes d)"] by simp
  finally have "card (?f ` {..length (dk_nodes d)}) \<le> length (dk_nodes d)" .
  moreover have "inj_on ?f {..length (dk_nodes d)}" by (intro inj_onI) (use log_path_inj in fastforce)
  ultimately show False using card_image [of ?f "{..length (dk_nodes d)}"] by simp
qed

lemma createLog_returns:
  assumes "\<forall>p. dk_fault d p = None" and "dk_parents (path_comps (log_path 0)) d = (Ok (), d)"
    and "n + length (dk_nodes d) + 1 < 2 ^ 64"
  shows "\<exists>m. createLog n d = Some (Ok (log_path m), m + 1, dk_put (path_comps (log_path m)) (FileNode []) d)
    \<and> n \<le> m \<and> dk_look d (path_comps (log_path m)) = None"
proof -
  let ?P = "\<lambda>k. dk_look d (path_comps (log_path (n + k))) = None"
  obtain j where j: "j \<le> length (dk_nodes d)" "?P j" using log_path_free by blast
  define k where "k = (LEAST k. ?P k)"
  have k: "?P k" "k \<le> j" unfolding k_def using LeastI [of ?P, OF j(2)] Least_le [of ?P, OF j(2)] by auto
  have before: "\<forall>i < k. \<not> ?P i" unfolding k_def using not_less_Least by blast
  have "n + k + 1 < 2 ^ 64" using assms(3) j(1) k(2) by linarith
  from createLog_first_free [OF assms(1,2) before k(1) this] show ?thesis using k(1) by (intro exI [of _ "n + k"]) simp
qed

text \<open>Starting a command: its options change it in their order, after its output was set to the log.\<close>

datatype cmd_output = ToFile string | ToWriter

record exec_cmd =
  xc_Path :: string
  xc_Args :: "string list"
  xc_Env :: "string list"
  xc_Dir :: string
  xc_Stdout :: cmd_output
  xc_Stderr :: cmd_output

definition WithEnv :: "string \<Rightarrow> exec_cmd \<Rightarrow> exec_cmd" where
  "WithEnv e c = c\<lparr>xc_Env := xc_Env c @ [e]\<rparr>"

definition WithWorkingDir :: "string \<Rightarrow> exec_cmd \<Rightarrow> exec_cmd" where
  "WithWorkingDir dir c = c\<lparr>xc_Dir := dir\<rparr>"

definition WithOutput :: "exec_cmd \<Rightarrow> exec_cmd" where
  "WithOutput c = c\<lparr>xc_Stdout := ToWriter\<rparr>"

definition exec_command :: "string list \<Rightarrow> string \<Rightarrow> string \<Rightarrow> string list \<Rightarrow> (exec_cmd \<Rightarrow> exec_cmd) list \<Rightarrow> exec_cmd" where
  "exec_command environ log path args options = fold (\<lambda>opt c. opt c) options
     \<lparr>xc_Path = path, xc_Args = args, xc_Env = environ, xc_Dir = [], xc_Stdout = ToFile log, xc_Stderr = ToFile log\<rparr>"

definition exec_Start ::
  "string list \<Rightarrow> (exec_cmd \<Rightarrow> (disk, int) io) \<Rightarrow> nat \<Rightarrow> string \<Rightarrow> string list \<Rightarrow> (exec_cmd \<Rightarrow> exec_cmd) list \<Rightarrow>
   disk \<Rightarrow> (int res \<times> nat \<times> disk) option" where
  "exec_Start environ start logNum path args options d =
     map_option (\<lambda>(log, n, d1).
       case log of
         Ok l \<Rightarrow> (case start (exec_command environ l path args options) d1 of (r, d2) \<Rightarrow> (r, n, d2))
       | Err e \<Rightarrow> (Err e, n, d1)
       | Panic p \<Rightarrow> (Panic p, n, d1)) (createLog logNum d)"

text \<open>
  \<open>createLog\<close> answers with a writer that discards the output when the file cannot be made, but the error it
  answers with keeps the command from starting: without the directory for logs no command runs.
\<close>

lemma no_log_no_command:
  assumes "dk_parents (path_comps (log_path n)) d = (Err e, d)" and "e \<noteq> ErrExist"
  shows "exec_Start environ start n path args options d = Some (Err e, (n + 1) mod 2 ^ 64, d)"
proof -
  have "open_excl (log_path n) d = (Err e, d)" using assms(1) by (simp add: open_excl_def Let_def io_bind_def)
  then have "createLog n d = Some (Err e, (n + 1) mod 2 ^ 64, d)"
    using assms(2) by (subst createLog.simps) (simp add: Let_def)
  then show ?thesis by (simp add: exec_Start_def)
qed

text \<open>Of a command whose output is asked for, only the errors are in the log.\<close>

lemma output_options:
  "xc_Stdout (exec_command env log path args (opts @ [WithOutput])) = ToWriter"
  "xc_Stderr (exec_command env log path args [WithEnv e, WithWorkingDir dir, WithOutput]) = ToFile log"
  "xc_Env (exec_command env log path args [WithEnv e, WithEnv f]) = env @ [e, f]"
  by (simp_all add: exec_command_def WithOutput_def WithEnv_def WithWorkingDir_def)

section \<open>Manual setup\<close>

text \<open>The script a user runs on a machine; it asks for the code and fetches the startup script with it.\<close>

definition install_lines :: "string \<Rightarrow> string \<Rightarrow> string list" where
  "install_lines protocol host = map shell_line [
      ''#!/usr/bin/env bash'',
      ''set -euo pipefail'',
      ''function run() {'',
      '''',
      ''if [ `$(whoami)` != root ]; then'',
      ''    echo ^This script must be run as root.^ >&2'',
      ''    exit 1'',
      ''fi'',
      '''',
      ''# Explicitly opening /dev/tty because stdin will be curl.'',
      ''exec 3</dev/tty'',
      '''',
      ''read -sp ^Enter auth code: ^ -u3 auth'',
      ''echo'',
      ''exec 3<&-'',
      '''',
      ''echo ^Launching Premises...^''] @
     [shell_line ''curl -H `Authorization: Setup-Code ${auth}` ^'' @ protocol @ ''://'' @ host @ shell_line ''/_/startup^ | bash''] @
     map shell_line [
      '''',
      ''echo ^Success! Premises should be started shortly!^'',
      '''',
      ''exit'',
      ''} && run'']"

definition handleGetInstallScript :: "string \<Rightarrow> string \<Rightarrow> 'w api_handling" where
  "handleGetInstallScript s host =
     (let protocol = if s = ''0'' then ''http'' else ''https'' in
      reply 200 (RText (text_of_lines (install_lines protocol host))))"

text \<open>
  A machine the user sets up by hand gets the configuration of the launch: the script that the code
  fetches leaves the file the runner loads.
\<close>

lemma manual_setup_starts_runner:
  assumes "redis_honest (hd_redis H) view" and "hd_KVS H = NewRedis (hd_redis H)" and "la_redis s = hd_redis H"
    and "la_script s = GenerateStartupScript" and "ok_runner_config rc"
  shows "\<exists>w1 w2 script. manual_setup s rnd rc w = (Ok (), w1)
    \<and> handleGetStartupScript H (''Setup-Code '' @ base32 rnd) w1 = (Ok (\<lparr>rp_Status = 200, rp_Body = RText script\<rparr>, []), w2)
    \<and> Load (Ok (here_document (shell_line cat_line) script)) = Ok rc"
proof -
  obtain w1 w2 where w: "manual_setup s rnd rc w = (Ok (), w1)"
    "handleGetStartupScript H (''Setup-Code '' @ base32 rnd) w1
      = (Ok (\<lparr>rp_Status = 200, rp_Body = RText (la_script s rc)\<rparr>, []), w2)"
    using setup_code_gives_script [OF assms(1-3), of rnd rc w] by blast
  have "Load (Ok (here_document (shell_line cat_line) (la_script s rc))) = Ok rc"
    unfolding assms(4) config_file_of_script by (rule Load_of_text [OF assms(5)])
  with w show ?thesis by blast
qed

end
