(* ===== verification/Meter.thy ===== *)
theory Meter
  imports McCore
begin

text \<open>
  The meter: \<open>runner/commands/meter\<close>.  It keeps the processes that are to be measured, which the launcher
  registers over RPC, and reads their figures from the text files of the kernel.  Reading a
  file, the arithmetic of floating-point numbers and the number of CPUs are parameters; a
  figure that is reported is paired with the process or the CPU it belongs to.
\<close>

section \<open>The files of the kernel\<close>

record proc_pid_stat =
  ps_Utime :: nat
  ps_Stime :: nat
  ps_Starttime :: nat

text \<open>The fields after the first closing parenthesis and a space; slicing past the end panics.\<close>

definition ParseProcPidStat :: "string \<Rightarrow> proc_pid_stat res" where
  "ParseProcPidStat data =
     (case str_index '')'' data of
        None \<Rightarrow> Err (Msg (''invalid stat format: missing '' @ [CHR 0x27, CHR 0x29, CHR 0x27]))
      | Some i \<Rightarrow>
          if length data < i + 2 then Panic ''runtime error: slice bounds out of range''
          else
            (let fs = str_fields (drop (i + 2) data) in
             if length fs < 20 then Err (Msg ''invalid stat format: not enough fields'')
             else
               (case go_parse_uint (fs ! 11) of Err e \<Rightarrow> Err (Wrapped ''invalid utime'' e) | Panic p \<Rightarrow> Panic p | Ok u \<Rightarrow>
               (case go_parse_uint (fs ! 12) of Err e \<Rightarrow> Err (Wrapped ''invalid stime'' e) | Panic p \<Rightarrow> Panic p | Ok s \<Rightarrow>
               (case go_parse_uint (fs ! 19) of Err e \<Rightarrow> Err (Wrapped ''invalid starttime'' e) | Panic p \<Rightarrow> Panic p | Ok t \<Rightarrow>
                Ok \<lparr>ps_Utime = u, ps_Stime = s, ps_Starttime = t\<rparr>)))))"

record proc_pid_io =
  pi_ReadBytes :: nat
  pi_WriteBytes :: nat
  pi_CancelledWriteBytes :: nat

definition set_io_value :: "string \<Rightarrow> nat \<Rightarrow> proc_pid_io \<Rightarrow> proc_pid_io" where
  "set_io_value key v x =
     (if key = ''read_bytes'' then x\<lparr>pi_ReadBytes := v\<rparr>
      else if key = ''write_bytes'' then x\<lparr>pi_WriteBytes := v\<rparr>
      else if key = ''cancelled_write_bytes'' then x\<lparr>pi_CancelledWriteBytes := v\<rparr> else x)"

definition io_line :: "string \<Rightarrow> proc_pid_io \<Rightarrow> proc_pid_io res" where
  "io_line line x =
     (case splitn2 '':'' line of
        [k, v] \<Rightarrow>
          (case go_parse_uint (trim_space v) of
             Err e \<Rightarrow> Err (Wrapped ''invalid io value'' e)
           | Panic p \<Rightarrow> Panic p
           | Ok n \<Rightarrow> Ok (set_io_value (trim_space k) n x))
      | _ \<Rightarrow> Err (Msg ''invalid io format''))"

text \<open>The lines that end with a line feed, and the error after them; what follows the last one is dropped.\<close>

fun io_lines :: "string list \<Rightarrow> go_error \<Rightarrow> proc_pid_io \<Rightarrow> proc_pid_io res" where
  "io_lines [] e x = (if errors_is e EOF then Ok x else Err e)"
| "io_lines (l # ls) e x = res_bind (io_line l x) (io_lines ls e)"

definition ParseProcPidIO :: "string list \<Rightarrow> go_error \<Rightarrow> proc_pid_io res" where
  "ParseProcPidIO ls e = io_lines ls e \<lparr>pi_ReadBytes = 0, pi_WriteBytes = 0, pi_CancelledWriteBytes = 0\<rparr>"

text \<open>\<open>for i := start; i <= end; i++\<close>: it never ends when \<open>end\<close> is the largest integer.\<close>

partial_function (option) cpu_range :: "int \<Rightarrow> int \<Rightarrow> int list option" where
  "cpu_range i last_cpu =
     (if i \<le> last_cpu then
        Option.bind (cpu_range (wrap64 (i + 1)) last_cpu) (\<lambda>r. Some (i # r))
      else Some [])"

declare cpu_range.simps [code]

definition cpu_part :: "string \<Rightarrow> int list res option" where
  "cpu_part part =
     (if CHR ''-'' \<in> set part then
        (let rs = str_split ''-'' part in
         if length rs \<noteq> 2 then Some (Err (Msg ''invalid cpu range''))
         else
           (case go_atoi (rs ! 0) of Err e \<Rightarrow> Some (Err (Wrapped ''invalid cpu number'' e)) | Panic p \<Rightarrow> Some (Panic p) | Ok a \<Rightarrow>
           (case go_atoi (rs ! 1) of Err e \<Rightarrow> Some (Err (Wrapped ''invalid cpu number'' e)) | Panic p \<Rightarrow> Some (Panic p) | Ok b \<Rightarrow>
            map_option Ok (cpu_range a b))))
      else
        (case go_atoi part of Err e \<Rightarrow> Some (Err (Wrapped ''invalid cpu number'' e)) | Panic p \<Rightarrow> Some (Panic p) | Ok c \<Rightarrow>
         Some (Ok [c])))"

fun cpu_parts :: "string list \<Rightarrow> int list \<Rightarrow> int list res option" where
  "cpu_parts [] cpus = Some (Ok cpus)"
| "cpu_parts (p # ps) cpus =
     (case cpu_part p of
        None \<Rightarrow> None
      | Some (Ok cs) \<Rightarrow> cpu_parts ps (cpus @ cs)
      | Some r \<Rightarrow> Some r)"

definition ParseOnlineCPUs :: "string \<Rightarrow> int list res option" where
  "ParseOnlineCPUs data = cpu_parts (str_split '','' (trim_space data)) []"

text \<open>\<open>cpu.max\<close>: an error other than a missing file reads as an empty file.\<close>

definition GetCPUQuota :: "nat \<Rightarrow> string res \<Rightarrow> (nat \<times> nat) res" where
  "GetCPUQuota numCPU file =
     (if file = Err NotExist then Ok (numCPU, 1)
      else
        (let fs = str_fields (case file of Ok s \<Rightarrow> s | _ \<Rightarrow> []) in
         if length fs \<noteq> 2 then Err (Msg ''malformed cpu.max data'')
         else if fs ! 0 = ''max'' then Ok (numCPU, 1)
         else
           res_bind (go_parse_uint (fs ! 0)) (\<lambda>quota.
           res_bind (go_parse_uint (fs ! 1)) (\<lambda>period.
           if period = 0 then Ok (numCPU, 1) else Ok (quota, period)))))"

section \<open>The service\<close>

text \<open>The targets are the keys of a map, in the order it is iterated.\<close>

record 'w meter =
  mt_targets :: "int list"
  mt_world :: 'w

definition RegisterTarget :: "int \<Rightarrow> 'w meter \<Rightarrow> 'w meter" where
  "RegisterTarget pid m = (if pid \<in> set (mt_targets m) then m else m\<lparr>mt_targets := mt_targets m @ [pid]\<rparr>)"

definition UnregisterTarget :: "int \<Rightarrow> 'w meter \<Rightarrow> 'w meter" where
  "UnregisterTarget pid m = m\<lparr>mt_targets := filter (\<lambda>p. p \<noteq> pid) (mt_targets m)\<rparr>"

definition getAllTargets :: "'w meter \<Rightarrow> int list" where
  "getAllTargets m = mt_targets m"

definition dec_MeterTarget :: "int dec" where
  "dec_MeterTarget = dec_struct [field ''pid'' dec_int (\<lambda>p. p) (\<lambda>v p. v)]"

definition HandleRegister :: "rpc_request \<Rightarrow> ('w meter, json option) io" where
  "HandleRegister q = io_bind (io_lift (rpc_Bind dec_MeterTarget 0 q)) (\<lambda>pid m. (Ok (Some (JObj [])), RegisterTarget pid m))"

definition HandleUnregister :: "rpc_request \<Rightarrow> ('w meter, json option) io" where
  "HandleUnregister q = io_bind (io_lift (rpc_Bind dec_MeterTarget 0 q)) (\<lambda>pid m. (Ok (Some (JObj [])), UnregisterTarget pid m))"

definition meter_Bind :: "'w meter rpc_server \<Rightarrow> 'w meter rpc_server" where
  "meter_Bind S = RegisterMethod ''target/unregister'' HandleUnregister (RegisterMethod ''target/register'' HandleRegister S)"

section \<open>What is reported\<close>

text \<open>One figure for each target or CPU; what cannot be read is logged and left out.\<close>

fun observe_each :: "(int \<Rightarrow> ('w, 'v option) io) \<Rightarrow> int list \<Rightarrow> ('w, (int \<times> 'v) list) io" where
  "observe_each f [] = io_ret []"
| "observe_each f (p # ps) =
     io_bind (io_try (f p)) (\<lambda>r.
     io_bind (observe_each f ps) (\<lambda>os.
     io_ret ((case r of Ok (Some v) \<Rightarrow> [(p, v)] | _ \<Rightarrow> []) @ os)))"

text \<open>Files by path, and the arithmetic of \<open>float64\<close>.\<close>

record ('w, 'f) meter_ops =
  mo_ReadFile :: "string \<Rightarrow> ('w, string) io"
  mo_ReadLines :: "string \<Rightarrow> ('w, string list \<times> go_error) io"
  mo_Clock :: "('w, 'f) io"
  mo_float :: "nat \<Rightarrow> 'f"
  mo_add :: "'f \<Rightarrow> 'f \<Rightarrow> 'f"
  mo_sub :: "'f \<Rightarrow> 'f \<Rightarrow> 'f"
  mo_mul :: "'f \<Rightarrow> 'f \<Rightarrow> 'f"
  mo_div :: "'f \<Rightarrow> 'f \<Rightarrow> 'f"
  mo_pos :: "'f \<Rightarrow> bool"

definition ScrapeProcPidStat :: "('w, 'f) meter_ops \<Rightarrow> int \<Rightarrow> ('w, proc_pid_stat) io" where
  "ScrapeProcPidStat M pid =
     io_bind (mo_ReadFile M (''/proc/'' @ fmt_d pid @ ''/stat'')) (\<lambda>data. io_lift (ParseProcPidStat data))"

definition ScrapeProcPidIO :: "('w, 'f) meter_ops \<Rightarrow> int \<Rightarrow> ('w, proc_pid_io) io" where
  "ScrapeProcPidIO M pid =
     io_bind (mo_ReadLines M (''/proc/'' @ fmt_d pid @ ''/io'')) (\<lambda>(ls, e). io_lift (ParseProcPidIO ls e))"

definition ScrapeCPUfreq :: "('w, 'f) meter_ops \<Rightarrow> string \<Rightarrow> int \<Rightarrow> ('w, nat) io" where
  "ScrapeCPUfreq M name cpu =
     io_bind (mo_ReadFile M (''/sys/devices/system/cpu/cpu'' @ fmt_d cpu @ ''/cpufreq/'' @ name)) (\<lambda>data.
     io_lift (case go_parse_uint (trim_space data) of Err e \<Rightarrow> Err (Wrapped ''invalid cpufreq value'' e) | r \<Rightarrow> r))"

definition ScrapeOnlineCPUs :: "('w, 'f) meter_ops \<Rightarrow> ('w, int list) run" where
  "ScrapeOnlineCPUs M =
     run_bind (run_io (mo_ReadFile M ''/sys/devices/system/cpu/online'')) (\<lambda>data w.
     map_option (\<lambda>r. (r, w)) (ParseOnlineCPUs data))"

definition ClkTck :: nat where
  "ClkTck = 100"

definition start_time :: "('w, 'f) meter_ops \<Rightarrow> proc_pid_stat \<Rightarrow> 'f" where
  "start_time M d = mo_div M (mo_float M (ps_Starttime d)) (mo_float M ClkTck)"

text \<open>The CPU time the host had: the clock is read again for every tenth process.\<close>

fun host_cpu :: "('w, 'f) meter_ops \<Rightarrow> nat \<times> nat \<Rightarrow> nat \<Rightarrow> 'f \<Rightarrow> int list \<Rightarrow> ('w, (int \<times> 'f) list) io" where
  "host_cpu M q i now [] = io_ret []"
| "host_cpu M q i now (pid # pids) =
     io_bind (if i mod 10 = 0 then mo_Clock M else io_ret now) (\<lambda>now1.
     io_bind (io_try (ScrapeProcPidStat M pid)) (\<lambda>r.
     io_bind (host_cpu M q (Suc i) now1 pids) (\<lambda>os.
     io_ret ((case r of
         Ok d \<Rightarrow>
           if mo_pos M (start_time M d)
           then [(pid, mo_div M (mo_mul M (mo_sub M now1 (start_time M d)) (mo_float M (fst q))) (mo_float M (snd q)))]
           else []
       | _ \<Rightarrow> []) @ os))))"

definition minecraft_cpu :: "('w, 'f) meter_ops \<Rightarrow> int list \<Rightarrow> ('w, (int \<times> 'f) list) io" where
  "minecraft_cpu M =
     observe_each (\<lambda>pid. io_bind (ScrapeProcPidStat M pid) (\<lambda>d.
       io_ret (if mo_pos M (start_time M d)
               then Some (mo_div M (mo_add M (mo_float M (ps_Utime d)) (mo_float M (ps_Stime d))) (mo_float M ClkTck))
               else None)))"

definition cpu_frequency :: "('w, 'f) meter_ops \<Rightarrow> string \<Rightarrow> ('w, (int \<times> int) list) run" where
  "cpu_frequency M name =
     run_bind (ScrapeOnlineCPUs M) (\<lambda>cpus.
     run_io (observe_each (\<lambda>cpu. io_bind (ScrapeCPUfreq M name cpu) (\<lambda>f. io_ret (Some (wrap64 (wrap64 (int f) * 1000))))) cpus))"

definition minecraft_disk :: "('w, 'f) meter_ops \<Rightarrow> (proc_pid_io \<Rightarrow> nat) \<Rightarrow> int list \<Rightarrow> ('w, (int \<times> int) list) io" where
  "minecraft_disk M figure = observe_each (\<lambda>pid. io_bind (ScrapeProcPidIO M pid) (\<lambda>d. io_ret (Some (wrap64 (int (figure d))))))"

section \<open>A server is measured while it runs\<close>

lemma meter_methods:
  "sv_methods (meter_Bind S) ''target/register'' = Some HandleRegister"
  "sv_methods (meter_Bind S) ''target/unregister'' = Some HandleUnregister"
  by (simp_all add: meter_Bind_def RegisterMethod_def)

lemma meter_input:
  "fits_int pid \<Longrightarrow> rpc_Bind dec_MeterTarget 0 (call_request m (enc_MeterTarget pid)\<lparr>jq_Traceparent := tp\<rparr>) = Ok pid"
  by (simp add: rpc_Bind_def call_request_def dec_MeterTarget_def enc_MeterTarget_def dec_struct_def field_def fits_int_def json_simps)

lemma meter_sendable:
  assumes "fits_int pid" and "length m < 100"
  shows "sendable (enc_Request (call_request m (enc_MeterTarget pid)))"
proof (rule call_sendable)
  have "length (nat_digits n) \<le> 20" if "n < 10 ^ 20" for n using nat_digits_length [of 20 n] that by simp
  moreover have "nat (- pid) < 10 ^ 20" "nat pid < 10 ^ 20" using assms(1) by (auto simp: fits_int_def int64_min_def int64_max_def)
  ultimately have "length (nat_digits (nat (- pid))) \<le> 20" "length (nat_digits (nat pid)) \<le> 20" by blast+
  then show "length (json_text (enc_MeterTarget pid)) < 2 ^ 40"
    using json_quote_bound [of "''pid''"] by (simp add: enc_MeterTarget_def fmt_d_def)
qed (simp_all add: enc_MeterTarget_def assms(2))

lemma empty_answer: "answers_fit msg (Ok (Some (JObj [])))"
  using quote_lengths by (simp add: answers_fit_def sendable_def enc_Response_def omit_nil_def fmt_d_def nat_digits.simps)

lemma meter_calls:
  assumes "ok_trace tp" and "fits_int pid"
  shows "rpc_Call msg (meter_Bind NewServer) tp ''target/register'' (enc_MeterTarget pid) (\<lambda>_. Ok ()) m = (Ok (), RegisterTarget pid m)"
    and "rpc_Call msg (meter_Bind NewServer) tp ''target/unregister'' (enc_MeterTarget pid) (\<lambda>_. Ok ()) m = (Ok (), UnregisterTarget pid m)"
proof -
  have j: "enc_MeterTarget pid \<noteq> JBad" by (simp add: enc_MeterTarget_def)
  show "rpc_Call msg (meter_Bind NewServer) tp ''target/register'' (enc_MeterTarget pid) (\<lambda>_. Ok ()) m = (Ok (), RegisterTarget pid m)"
    by (subst rpc_Call_run [OF assms(1) j meter_sendable [OF assms(2)]])
      (simp_all add: meter_methods HandleRegister_def meter_input assms(2) io_bind_def io_run empty_answer call_outcome_def)
  show "rpc_Call msg (meter_Bind NewServer) tp ''target/unregister'' (enc_MeterTarget pid) (\<lambda>_. Ok ()) m = (Ok (), UnregisterTarget pid m)"
    by (subst rpc_Call_run [OF assms(1) j meter_sendable [OF assms(2)]])
      (simp_all add: meter_methods HandleUnregister_def meter_input assms(2) io_bind_def io_run empty_answer call_outcome_def)
qed

text \<open>
  Property C39: a server is measured while it runs, and no longer.  When the launcher has started
  the game, the meter has its process among its targets when the launcher begins to wait for it; when
  the wait is over, well or not, the process is no target any more and the others are as before.
\<close>

theorem server_metered_while_running:
  fixes s :: "'w meter launching"
  assumes "ok_trace tp" and "fits_int pid" and "cmdline \<noteq> []"
    and meter: "lo_Meter P = (\<lambda>m p. outside (rpc_Call msg (meter_Bind NewServer) tp m p (\<lambda>_. Ok ())))"
    and start: "lo_Start P (hd cmdline) (tl cmdline) dir s = (Ok pid, sa)"
    and sb: "sb = sa\<lparr>lx_world := RegisterTarget pid (lx_world sa)\<rparr>"
    and wait: "lo_Wait P pid sb = (r, sc)" and "\<not> is_panic r"
  shows "pid \<in> set (getAllTargets (lx_world sb))
    \<and> (\<exists>x. launch_once P [] cmdline dir s = (Ok x, sc\<lparr>lx_world := UnregisterTarget pid (lx_world sc)\<rparr>))
    \<and> set (getAllTargets (UnregisterTarget pid (lx_world sc))) = set (getAllTargets (lx_world sc)) - {pid}"
proof -
  have reg: "io_try (lo_Meter P ''target/register'' (enc_MeterTarget pid)) sa = (Ok (Ok ()), sb)"
    by (simp add: io_try_def meter outside_def meter_calls(1) [OF assms(1,2)] sb)
  have w: "io_try (lo_Wait P pid) sb = (Ok r, sc)" using wait assms(8) by (cases r) (simp_all add: io_try_def)
  have unreg: "io_try (lo_Meter P ''target/unregister'' (enc_MeterTarget pid)) sc
      = (Ok (Ok ()), sc\<lparr>lx_world := UnregisterTarget pid (lx_world sc)\<rparr>)"
    by (simp add: io_try_def meter outside_def meter_calls(2) [OF assms(1,2)])
  have st: "io_try (lo_Start P (hd cmdline) (tl cmdline) dir) s = (Ok (Ok pid), sa)" using start by (simp add: io_try_def)
  have "launch_once P [] cmdline dir s =
      (Ok (if r = Ok () then Inl (Ok ()) else Inr (Ok ())), sc\<lparr>lx_world := UnregisterTarget pid (lx_world sc)\<rparr>)"
    using assms(3) by (simp add: launch_once_def io_bind_def io_ret_def st reg w unreg)
  moreover have "pid \<in> set (getAllTargets (lx_world sb))" by (simp add: sb getAllTargets_def RegisterTarget_def)
  ultimately show ?thesis by (auto simp: getAllTargets_def UnregisterTarget_def)
qed

definition metered_ops :: "unit meter launch_ops" where
  "metered_ops = \<lparr>lo_Start = \<lambda>p a d. io_ret 42, lo_Wait = \<lambda>pid. io_err (Ext ''exit status 1''),
     lo_Meter = \<lambda>m p. outside (rpc_Call (\<lambda>e. ''error'') (meter_Bind NewServer) ''00-ab-01'' m p (\<lambda>_. Ok ())),
     lo_Timer = \<lambda>t. io_ret False\<rparr>"

definition metered_launch :: "int list \<Rightarrow> unit meter launching" where
  "metered_launch ts = \<lparr>lx_settings = NewConfigJSONSettingsRepository zero_runner_config, lx_pid = 0, lx_restorePath = [],
     lx_world = \<lparr>mt_targets = ts, mt_world = ()\<rparr>\<rparr>"

lemma server_metered_while_running_witness:
  "42 \<in> set (getAllTargets (lx_world (metered_launch [7, 42])))
    \<and> (\<exists>x. launch_once metered_ops [] [''java''] ''/g'' (metered_launch [7])
         = (Ok x, (metered_launch [7, 42])\<lparr>lx_world := UnregisterTarget 42 (lx_world (metered_launch [7, 42]))\<rparr>))
    \<and> set (getAllTargets (UnregisterTarget 42 (lx_world (metered_launch [7, 42])))) = set (getAllTargets (lx_world (metered_launch [7, 42]))) - {42}"
  by (rule server_metered_while_running [where sa = "metered_launch [7]" and r = "Err (Ext ''exit status 1'')"])
    (simp_all add: metered_ops_def metered_launch_def ok_trace_def fits_int_def int64_min_def int64_max_def io_ret_def io_err_def
      RegisterTarget_def)

end
