(* ===== verification/Setup.thy ===== *)
theory Setup
  imports Watchdog GoTime
begin

text \<open>
  The first and the last process of the runner: \<open>runner/commands/serversetup\<close>, \<open>runner/commands/cleanup\<close>,
  and what they ask of the host (\<open>system/lsbrelease.go\<close>, \<open>system/user.go\<close>,
  \<open>mclauncher/core/util\<close>).  Both go on whatever fails.  The services of the operating system are parameters.
\<close>

section \<open>Steps whose failure is logged\<close>

definition attempt :: "('w, 'a) io \<Rightarrow> ('w, unit) io" where
  "attempt m = io_bind (io_try m) (\<lambda>_. io_ret ())"

fun attempts :: "('w, unit) io list \<Rightarrow> ('w, unit) io" where
  "attempts [] = io_ret ()"
| "attempts (m # ms) = io_bind (attempt m) (\<lambda>_. attempts ms)"

section \<open>The host\<close>

text \<open>The lines \<open>ReadLine\<close> gives, and the error after them.\<close>

definition strip_quotes :: "string \<Rightarrow> string" where
  "strip_quotes v =
     (if 2 \<le> length v \<and> hd v = CHR 0x22 \<and> last v = CHR 0x22 then butlast (tl v) else v)"

fun readDistroFromLsbRelease :: "string list \<Rightarrow> go_error \<Rightarrow> string res" where
  "readDistroFromLsbRelease [] e = Err (if e = EOF then Msg ''DISTRIB_DESCRIPTION not found'' else e)"
| "readDistroFromLsbRelease (l # ls) e =
     (case str_index ''='' l of
        None \<Rightarrow> readDistroFromLsbRelease ls e
      | Some i \<Rightarrow>
          if take i l = ''DISTRIB_DESCRIPTION'' then Ok (strip_quotes (drop (i + 1) l))
          else readDistroFromLsbRelease ls e)"

datatype net_addr = IPNet bool "string option" string | OtherAddr

text \<open>An address that is not a loopback one is an IPv4 address when it has that form.\<close>

fun v4_of :: "net_addr \<Rightarrow> string list" where
  "v4_of (IPNet loopback (Some s) t) = (if loopback then [] else [s])"
| "v4_of _ = []"

fun v6_of :: "net_addr \<Rightarrow> string list" where
  "v6_of (IPNet loopback None t) = (if loopback then [] else [t])"
| "v6_of _ = []"

text \<open>
  What is asked of the host.  \<open>se_order\<close> is the order in which the steps of a group of goroutines take effect.
\<close>

record 'w setup_ops =
  se_processes :: "'w processes"
  se_LookPath :: "string \<Rightarrow> ('w, unit) io"
  se_Stat :: "string \<Rightarrow> ('w, unit) io"
  se_isDev :: bool
  se_InterfaceAddrs :: "('w, net_addr list) io"
  se_lsb :: "('w, string list \<times> go_error) io"
  se_revision :: string
  se_Fallocate :: "string \<Rightarrow> int \<Rightarrow> ('w, unit) io"
  se_Lookup :: "string \<Rightarrow> ('w, string \<times> string) io"
  se_MkdirAll :: "string \<Rightarrow> ('w, unit) io"
  se_ChownRecursive :: "string \<Rightarrow> int \<times> int \<Rightarrow> ('w, unit) io"
  se_DataPath :: "string \<Rightarrow> string"
  se_order :: "('w, unit) io list \<Rightarrow> ('w, unit) io list"
  se_trace :: string
  se_notify :: "string \<Rightarrow> json \<Rightarrow> ('w, unit) io"

definition GetHostOS :: "'w setup_ops \<Rightarrow> ('w, string) io" where
  "GetHostOS E = io_bind (se_lsb E) (\<lambda>(ls, e). io_lift (readDistroFromLsbRelease ls e))"

definition GetSystemVersion :: "'w setup_ops \<Rightarrow> ('w, string \<times> string) io" where
  "GetSystemVersion E =
     io_bind (io_try (GetHostOS E)) (\<lambda>r. io_ret (se_revision E, case r of Ok s \<Rightarrow> s | _ \<Rightarrow> ''unknown''))"

definition id_ok :: "int \<Rightarrow> bool" where
  "id_ok i = (0 \<le> i \<and> i \<le> 2147483647)"

definition GetAppUserID :: "'w setup_ops \<Rightarrow> ('w, int \<times> int) io" where
  "GetAppUserID E =
     io_bind (se_Lookup E ''premises'') (\<lambda>(u, g).
     io_lift (res_bind (go_atoi u) (\<lambda>uid. res_bind (go_atoi g) (\<lambda>gid.
       if id_ok uid \<and> id_ok gid then Ok (uid, gid) else Err (Msg ''uid and gid must be in [0..MaxInt32]'')))))"

text \<open>Java: \<open>query\<close> is the output of \<open>update-alternatives\<close>, and \<open>parse\<close> the best one it names.\<close>

definition findNewestJavaCommand :: "('w, string) io \<Rightarrow> (string \<Rightarrow> string res) \<Rightarrow> ('w, string) io" where
  "findNewestJavaCommand query parse =
     io_bind query (\<lambda>out. io_bind (io_lift (parse out)) (\<lambda>best.
     if best = [] then io_err (Msg ''no alternatives found'') else io_ret best))"

definition FindJavaPath :: "('w, string) io \<Rightarrow> (string \<Rightarrow> string res) \<Rightarrow> ('w, string) io" where
  "FindJavaPath query parse =
     io_bind (io_try (findNewestJavaCommand query parse)) (\<lambda>r. io_ret (case r of Ok p \<Rightarrow> p | _ \<Rightarrow> ''java''))"

section \<open>Setting up\<close>

definition latestAvailableJre :: string where
  "latestAvailableJre = ''openjdk-21-jre-headless''"

definition requiredProgs :: "string list" where
  "requiredProgs = [''mkfs.btrfs'', ''java'']"

fun all_found :: "'w setup_ops \<Rightarrow> string list \<Rightarrow> ('w, bool) io" where
  "all_found E [] = io_ret True"
| "all_found E (p # ps) = io_bind (io_try (se_LookPath E p)) (\<lambda>r. if r = Ok () then all_found E ps else io_ret False)"

definition isServerInitialized :: "'w setup_ops \<Rightarrow> ('w, bool) io" where
  "isServerInitialized E =
     io_bind (all_found E requiredProgs) (\<lambda>found.
     if \<not> found then io_ret False
     else io_bind (io_try (se_Stat E (se_DataPath E ''gamedata.img''))) (\<lambda>r. io_ret (r \<noteq> Err NotExist)))"

definition getIPAddr :: "'w setup_ops \<Rightarrow> ('w, string list \<times> string list) io" where
  "getIPAddr E =
     (if se_isDev E then io_ret ([''127.0.0.2''], [])
      else io_bind (se_InterfaceAddrs E) (\<lambda>as. io_ret (concat (map v4_of as), concat (map v6_of as))))"

definition hello_event :: "string \<times> string \<Rightarrow> string list \<times> string list \<Rightarrow> event" where
  "hello_event v a = zero_event\<lparr>ev_Type := event_type_name EventHello,
     ev_Hello := Some \<lparr>he_Version = fst v, he_Host = snd v, he_Addr = \<lparr>ad_IPv4 = fst a, ad_IPv6 = snd a\<rparr>\<rparr>\<rparr>"

definition sendServerHello :: "'w setup_ops \<Rightarrow> ('w, unit) io" where
  "sendServerHello E =
     io_bind (GetSystemVersion E) (\<lambda>v.
     io_bind (io_try (getIPAddr E)) (\<lambda>r.
     DispatchEvent (se_trace E) (se_notify E) (hello_event v (case r of Ok a \<Rightarrow> a | _ \<Rightarrow> ([], [])))))"

definition setup_notifyStatus :: "'w setup_ops \<Rightarrow> ('w, unit) io" where
  "setup_notifyStatus E = SendEvent (se_trace E) (se_notify E) (status_event EventSysInit)"

definition create_image :: "'w setup_ops \<Rightarrow> ('w, unit) io" where
  "create_image E =
     io_bind (io_try (se_Stat E (se_DataPath E ''gamedata.img''))) (\<lambda>r.
     if r \<noteq> Err NotExist then io_ret ()
     else se_Fallocate E (se_DataPath E ''gamedata.img'') (if se_isDev E then 1073741824 else 8589934592))"

definition add_user :: "'w setup_ops \<Rightarrow> ('w, unit) io" where
  "add_user E =
     io_bind (io_try (se_Lookup E ''premises'')) (\<lambda>r.
     case r of
       Ok u \<Rightarrow> io_ret ()
     | _ \<Rightarrow> Simple_Run (se_processes E) ''useradd'' [''--user-group'', ''--system'', ''--no-create-home'',
              ''--shell'', ''/usr/sbin/nologin'', ''--home-dir'', ''/opt/premises'', ''premises''] [])"

definition initializeServer :: "'w setup_ops \<Rightarrow> ('w, unit) io" where
  "initializeServer E =
     io_bind (attempts (se_order E
       [AptGet (se_processes E) [''install'', ''-y'', ''btrfs-progs'', latestAvailableJre], create_image E, add_user E])) (\<lambda>_.
     attempt (Simple_Run (se_processes E) ''mkfs.btrfs'' [se_DataPath E ''gamedata.img''] []))"

definition installRequiredJavaVersion :: "'w setup_ops \<Rightarrow> runner_config \<Rightarrow> ('w, unit) io" where
  "installRequiredJavaVersion E config =
     (let v = sc_JavaVersion (gc_Server (rc_GameConfig config)) in
      attempt (AptGet (se_processes E) ([''install'', ''-y'', latestAvailableJre]
        @ (if v \<noteq> 0 then [''openjdk-'' @ fmt_d v @ ''-jre-headless''] else []))))"

definition own_data :: "'w setup_ops \<Rightarrow> ('w, unit) io" where
  "own_data E =
     io_bind (io_try (GetAppUserID E)) (\<lambda>r.
     case r of Ok u \<Rightarrow> attempt (se_ChownRecursive E (se_DataPath E []) u) | _ \<Rightarrow> io_ret ())"

definition setup_Run :: "'w setup_ops \<Rightarrow> runner_config \<Rightarrow> ('w, unit) io" where
  "setup_Run E config =
     io_bind (sendServerHello E) (\<lambda>_.
     io_bind (setup_notifyStatus E) (\<lambda>_.
     io_bind (attempts (map (\<lambda>d. se_MkdirAll E (se_DataPath E d)) [''servers.d'', ''gamedata'', ''tmp''])) (\<lambda>_.
     io_bind (attempt (AptGet (se_processes E) [''update'', ''-y''])) (\<lambda>_.
     io_bind (isServerInitialized E) (\<lambda>ready.
     io_bind (if ready then io_ret () else initializeServer E) (\<lambda>_.
     io_bind (installRequiredJavaVersion E config) (\<lambda>_.
     io_bind (attempt (Simple_Run (se_processes E) ''mount'' [se_DataPath E ''gamedata.img'', se_DataPath E ''gamedata''] [])) (\<lambda>_.
     own_data E))))))))"

section \<open>Cleaning up\<close>

record 'w cleanup_ops =
  cn_processes :: "'w processes"
  cn_ReadDir :: "string \<Rightarrow> ('w, string list) io"
  cn_RemoveAll :: "string \<Rightarrow> ('w, unit) io"
  cn_Unmount :: "string \<Rightarrow> ('w, unit) io"
  cn_Stat :: "string \<Rightarrow> ('w, unit) io"
  cn_Open :: "string \<Rightarrow> ('w, string) io"
  cn_Create :: "string \<Rightarrow> ('w, unit) io"
  cn_Copy :: "string \<Rightarrow> string \<Rightarrow> ('w, unit) io"
  cn_Remove :: "string \<Rightarrow> ('w, unit) io"
  cn_now :: string
  cn_DataPath :: "string list \<Rightarrow> string"
  cn_trace :: string
  cn_notify :: "string \<Rightarrow> json \<Rightarrow> ('w, unit) io"

definition removeFilesIgnoreError :: "'w cleanup_ops \<Rightarrow> string list \<Rightarrow> ('w, unit) io" where
  "removeFilesIgnoreError C paths = attempts (map (cn_RemoveAll C) paths)"

definition removeTempFiles :: "'w cleanup_ops \<Rightarrow> ('w, unit) io" where
  "removeTempFiles C =
     io_bind (io_try (cn_ReadDir C (cn_DataPath C [''tmp'']))) (\<lambda>r.
     case r of
       Ok names \<Rightarrow> removeFilesIgnoreError C (map (\<lambda>n. path_Join [cn_DataPath C [''tmp''], n]) names)
     | _ \<Rightarrow> io_ret ())"

definition is_snapshot :: "string \<Rightarrow> bool" where
  "is_snapshot name = (3 < length name \<and> take 3 name = ''ss@'')"

definition removeSnapshots :: "'w cleanup_ops \<Rightarrow> ('w, unit) io" where
  "removeSnapshots C =
     io_bind (io_try (cn_ReadDir C (cn_DataPath C [''gamedata'']))) (\<lambda>r.
     case r of
       Ok names \<Rightarrow>
         (let ss = filter is_snapshot names in
          if ss = [] then io_ret ()
          else attempt (Simple_Run (cn_processes C) ''btrfs''
            ([''subvolume'', ''delete'', ''--commit-after''] @ map (\<lambda>n. cn_DataPath C [''gamedata'', n]) ss) []))
     | _ \<Rightarrow> io_ret ())"

definition unmountData :: "'w cleanup_ops \<Rightarrow> ('w, unit) io" where
  "unmountData C = attempt (cn_Unmount C (cn_DataPath C [''gamedata'']))"

definition cleanup_notifyStatus :: "'w cleanup_ops \<Rightarrow> event_code \<Rightarrow> ('w, unit) io" where
  "cleanup_notifyStatus C c = SendEvent (cn_trace C) (cn_notify C) (status_event c)"

definition copyLogData :: "'w cleanup_ops \<Rightarrow> ('w, unit) io" where
  "copyLogData C = attempt
     (io_bind (cn_Stat C ''/premises-dev'') (\<lambda>_.
      io_bind (cn_Open C ''/exteriord.log'') (\<lambda>text.
      let out = ''/premises-dev/exteriord-'' @ cn_now C @ ''.log'' in
      io_bind (cn_Create C out) (\<lambda>_.
      io_bind (cn_Copy C out text) (\<lambda>_.
      cn_Remove C ''/exteriord.log'')))))"

definition cleanup_Run :: "'w cleanup_ops \<Rightarrow> ('w, int) io" where
  "cleanup_Run C =
     io_bind (cleanup_notifyStatus C EventClean) (\<lambda>_.
     io_bind (removeSnapshots C) (\<lambda>_.
     io_bind (unmountData C) (\<lambda>_.
     io_bind (removeTempFiles C) (\<lambda>_.
     io_bind (removeFilesIgnoreError C [cn_DataPath C [''config.json''], ''/userdata'', ''/userdata_decoded.sh'']) (\<lambda>_.
     io_bind (copyLogData C) (\<lambda>_.
     io_bind (cleanup_notifyStatus C EventShutdown) (\<lambda>_.
     io_bind (attempt (cn_notify C ''proc/done'' JNull)) (\<lambda>_. io_ret 0))))))))"

section \<open>Whatever fails, the runner is shut down\<close>

text \<open>An operation that does not panic; one that always ends well.\<close>

definition calm :: "('w, 'a) io \<Rightarrow> bool" where
  "calm m = (\<forall>w p. fst (m w) \<noteq> Panic p)"

definition safe :: "('w, 'a) io \<Rightarrow> bool" where
  "safe m = (\<forall>w. \<exists>x. fst (m w) = Ok x)"

lemma safe_run: "safe m \<Longrightarrow> (\<And>x w'. m w = (Ok x, w') \<Longrightarrow> thesis) \<Longrightarrow> thesis"
  unfolding safe_def by (metis prod.collapse)

lemma calm_intros:
  "calm (io_ret x)" "calm (io_err e)" "safe (io_ret x)"
  "calm m \<Longrightarrow> (\<And>x. calm (f x)) \<Longrightarrow> calm (io_bind m f)"
  "safe n \<Longrightarrow> (\<And>x. safe (g x)) \<Longrightarrow> safe (io_bind n g)"
  "calm m \<Longrightarrow> safe (io_try m)" "calm m \<Longrightarrow> safe (attempt m)" "safe n \<Longrightarrow> calm n"
proof -
  show "calm m \<Longrightarrow> (\<And>x. calm (f x)) \<Longrightarrow> calm (io_bind m f)"
    unfolding calm_def io_bind_def by (auto split: prod.split res.split) (metis fst_conv)+
  show "safe n \<Longrightarrow> (\<And>x. safe (g x)) \<Longrightarrow> safe (io_bind n g)"
    unfolding safe_def io_bind_def by (auto split: prod.split res.split) (metis fst_conv res.distinct(1,3))+
  show "calm m \<Longrightarrow> safe (io_try m)" "calm m \<Longrightarrow> safe (attempt m)"
    unfolding safe_def calm_def attempt_def io_try_def io_bind_def
    by (auto simp: io_ret_def split: prod.split res.split) (metis fst_conv)+
  show "safe n \<Longrightarrow> calm n" unfolding safe_def calm_def by (metis res.distinct(3))
qed (auto simp: calm_def safe_def io_ret_def io_err_def)

lemma calm_attempts: "(\<And>m. m \<in> set ms \<Longrightarrow> calm m) \<Longrightarrow> safe (attempts ms)"
  by (induction ms) (auto intro!: calm_intros(3,5,7))

lemma calm_Simple_Run:
  assumes "\<And>p a d. calm (op_Start P p a d)" and "\<And>pid. calm (op_Wait P pid)"
  shows "calm (Simple_Run P path args dir)"
  using assms by (auto simp: Simple_Run_def Simple_Start_def CommandHandle_Wait_def intro!: calm_intros(1,2,4))

definition calm_cleanup :: "'w cleanup_ops \<Rightarrow> bool" where
  "calm_cleanup C =
     ((\<forall>p a d. calm (op_Start (cn_processes C) p a d)) \<and> (\<forall>pid. calm (op_Wait (cn_processes C) pid))
    \<and> (\<forall>p. calm (cn_ReadDir C p)) \<and> (\<forall>p. calm (cn_RemoveAll C p)) \<and> (\<forall>p. calm (cn_Unmount C p)) \<and> (\<forall>p. calm (cn_Stat C p))
    \<and> (\<forall>p. calm (cn_Open C p)) \<and> (\<forall>p. calm (cn_Create C p)) \<and> (\<forall>p s. calm (cn_Copy C p s)) \<and> (\<forall>p. calm (cn_Remove C p))
    \<and> (\<forall>x. calm (cn_notify C ''status/push'' x)))"

lemma cleanup_steps:
  assumes "calm_cleanup C"
  shows "safe (cleanup_notifyStatus C c)" "safe (removeSnapshots C)" "safe (unmountData C)" "safe (removeTempFiles C)"
    "safe (removeFilesIgnoreError C ps)" "safe (copyLogData C)"
proof -
  note C = assms [unfolded calm_cleanup_def]
  show "safe (cleanup_notifyStatus C c)"
    using C by (auto simp: cleanup_notifyStatus_def SendEvent_def sendEvent_def intro!: calm_intros(3,5,6))
  have run: "calm (Simple_Run (cn_processes C) p a d)" for p a d using C by (intro calm_Simple_Run) auto
  show "safe (removeSnapshots C)"
    using C run by (auto simp: removeSnapshots_def Let_def split: res.split intro!: calm_intros(3,5,6,7))
  show "safe (unmountData C)" using C by (auto simp: unmountData_def intro!: calm_intros(7))
  show files: "safe (removeFilesIgnoreError C ps)" for ps
    using C by (auto simp: removeFilesIgnoreError_def intro!: calm_attempts)
  show "safe (removeTempFiles C)"
    using C files by (auto simp: removeTempFiles_def split: res.split intro!: calm_intros(3,5,6))
  show "safe (copyLogData C)"
    using C by (auto simp: copyLogData_def Let_def intro!: calm_intros(4,7))
qed

lemma safe_bind_run:
  assumes "safe m" and "\<And>w. \<exists>w'. f w = (Ok r, w') \<and> Q w'"
  shows "\<exists>w'. io_bind m (\<lambda>_. f) w = (Ok r, w') \<and> Q w'"
  using assms(1) by (rule safe_run [of m w]) (use assms(2) in \<open>simp add: io_bind_def\<close>)

lemma cleanup_Run_ends:
  assumes "calm_cleanup C" and notified: "\<And>w. \<exists>w'. attempt (cn_notify C ''proc/done'' JNull) w = (Ok (), w') \<and> Q w'"
  shows "\<exists>w'. cleanup_Run C w = (Ok 0, w') \<and> Q w'"
proof -
  have last: "\<exists>w'. io_bind (attempt (cn_notify C ''proc/done'' JNull)) (\<lambda>_. io_ret 0) w = (Ok 0, w') \<and> Q w'" for w
    using notified [of w] by (auto simp: io_bind_def io_ret_def)
  show ?thesis unfolding cleanup_Run_def
    by (intro safe_bind_run cleanup_steps [OF assms(1)] last)
qed

lemma safe_hooks: "(\<And>a b j. calm (eh_notify h a b j)) \<Longrightarrow> safe (notify_hooks h cmds)"
  by (induction cmds) (auto intro!: calm_intros(3,5,6))

lemma HandleProcDone_run:
  assumes "\<And>a b j. calm (eh_notify h a b j)"
  shows "\<exists>w'. HandleProcDone h q w = (Ok (), w') \<and> ex_cancelled w'"
proof -
  obtain x v where "notify_hooks h (ex_stopHook w) (ex_world w) = (Ok x, v)"
    using safe_run [OF safe_hooks [OF assms]] .
  then show ?thesis by (simp add: HandleProcDone_def in_world_def io_bind_def)
qed

lemma done_sendable: "sendable (enc_Request ((call_request ''proc/done'' JNull)\<lparr>jq_ID := None\<rparr>))"
  by (simp add: sendable_def enc_Request_def call_request_def omit_nil_def json_quote_def json_escape_def Let_def)

text \<open>
  Property C30: the cleanup ends the runner.  Whatever of its work fails (snapshots, the mount, temporary
  files, the log, the messages), the last process returns 0, and before it returns it has told the
  daemon over RPC that it is done, and the context of the daemon is cancelled.
\<close>

theorem cleanup_ends_runner:
  assumes "calm_cleanup C" and "ok_trace tp" and "\<And>a b j. calm (eh_notify h a b j)"
    and notify: "cn_notify C ''proc/done'' = rpc_Notify msg (exteriord_Bind h NewServer) tp ''proc/done''"
  shows "\<exists>w'. cleanup_Run C w = (Ok 0, w') \<and> ex_cancelled w'"
proof (rule cleanup_Run_ends [OF assms(1)])
  fix w :: "'a exteriord"
  obtain w' where w': "HandleProcDone h ((call_request ''proc/done'' JNull)\<lparr>jq_ID := None, jq_Traceparent := tp\<rparr>) w = (Ok (), w')"
    "ex_cancelled w'"
    using HandleProcDone_run [OF assms(3)] by blast
  have "rpc_Notify msg (exteriord_Bind h NewServer) tp ''proc/done'' JNull w = (Ok (), w')"
  proof (rule rpc_Notify_run [OF assms(2), where fn = "HandleProcDone h" and r = "Ok ()"])
    show "sv_notifyMethods (exteriord_Bind h NewServer) ''proc/done'' = Some (HandleProcDone h)"
      by (simp add: exteriord_Bind_def RegisterMethod_def RegisterNotifyMethod_def)
  qed (simp_all add: w'(1) done_sendable)
  then show "\<exists>w'. attempt (cn_notify C ''proc/done'' JNull) w = (Ok (), w') \<and> ex_cancelled w'"
    using w'(2) by (simp add: attempt_def io_bind_def io_try_def io_run notify)
qed

text \<open>A machine on which everything fails but the socket of the daemon.\<close>

definition failing_handler :: "unit exterior_handler" where
  "failing_handler = \<lparr>eh_states = NewLocalStorageStateBackend \<lparr>fo_Open = \<lambda>p. io_err NotExist, fo_Create = \<lambda>p c. io_err NotExist\<rparr> [],
     eh_notify = \<lambda>a b j. io_err EOF\<rparr>"

definition failing_cleanup :: "unit exteriord cleanup_ops" where
  "failing_cleanup =
     \<lparr>cn_processes = \<lparr>op_Start = \<lambda>p a d. io_err NotExist, op_Wait = \<lambda>pid. io_err EOF, op_Kill = \<lambda>pid. io_err EOF\<rparr>,
      cn_ReadDir = \<lambda>p. io_ret [''ss@quick0''], cn_RemoveAll = \<lambda>p. io_err EOF, cn_Unmount = \<lambda>p. io_err EOF, cn_Stat = \<lambda>p. io_err NotExist,
      cn_Open = \<lambda>p. io_err NotExist, cn_Create = \<lambda>p. io_err EOF, cn_Copy = \<lambda>p s. io_err EOF, cn_Remove = \<lambda>p. io_err EOF,
      cn_now = ''now'', cn_DataPath = \<lambda>ps. path_Join (''/opt/premises'' # ps), cn_trace = [],
      cn_notify = \<lambda>m j. if m = ''proc/done'' then rpc_Notify (\<lambda>e. []) (exteriord_Bind failing_handler NewServer) ''00-ab-01'' m j
        else io_err EOF\<rparr>"

lemma cleanup_ends_runner_witness:
  "\<exists>w'. cleanup_Run failing_cleanup \<lparr>ex_world = (), ex_msgChan = [], ex_stopHook = [''snapshot-helper''], ex_cancelled = False\<rparr> = (Ok 0, w')
    \<and> ex_cancelled w'"
  by (rule cleanup_ends_runner [where h = failing_handler and tp = "''00-ab-01''" and msg = "\<lambda>e. []"])
    (simp_all add: calm_cleanup_def failing_cleanup_def failing_handler_def calm_def io_run ok_trace_def fun_eq_iff)

end
