(* ===== verification/RootHandlers.thy ===== *)
theory RootHandlers
  imports ApiProps
begin

text \<open>
  \<open>src/backend/ctrlplane/common/handler/root.go\<close>: login, logout, the first password and the
  session.  A handler gets the session's values (an error when the store of sessions fails)
  and returns the values it saves, if it saves any; all of its responses have status 200.
\<close>

section \<open>Sessions\<close>

datatype session_value = SessStr string | SessUint int

type_synonym session = "string \<Rightarrow> session_value option"
type_synonym 'w root_handling = "('w, response \<times> session option) io"

definition answer :: "json \<Rightarrow> session option \<Rightarrow> 'w root_handling" where
  "answer j saved = io_ret (\<lparr>rp_Status = 200, rp_Body = RJson j\<rparr>, saved)"

abbreviation refuse :: "error_code \<Rightarrow> 'w root_handling" where
  "refuse code \<equiv> answer (error_response code) None"

definition enc_SessionState :: "bool \<Rightarrow> json" where
  "enc_SessionState needsChangePassword = JObj [(''needsChangePassword'', JBool needsChangePassword)]"

definition enc_SessionData :: "bool \<times> string \<Rightarrow> json" where
  "enc_SessionData = (\<lambda>(loggedIn, accessToken). JObj [(''loggedIn'', JBool loggedIn), (''accessToken'', JStr accessToken)])"

section \<open>Handlers\<close>

definition handleLogin ::
  "'w handler \<Rightarrow> session res \<Rightarrow> bytes \<Rightarrow> string \<Rightarrow> (string \<times> string) res \<Rightarrow> 'w root_handling" where
  "handleLogin H sess key now req =
     on_ok (io_lift req)
       (\<lambda>(userName, password).
          on_ok (ud_SelectByName (hd_db H) userName)
            (\<lambda>(userID, hash, initialized).
               if \<not> bc_Compare (hd_bcrypt H) hash password then refuse ErrCredential
               else
                 on_ok (io_lift sess)
                   (\<lambda>vals.
                      if \<not> initialized then
                        answer (success_response (enc_SessionState True))
                          (Some (vals(''change_password_user_id'' \<mapsto> SessUint userID)))
                      else
                        on_ok (CreateToken (hd_KVS H) key now userID [ScopeAdmin])
                          (\<lambda>t. answer (success_response (enc_SessionState False))
                             (Some (vals(''access_token'' \<mapsto> SessStr (tk_Token t)))))
                          (\<lambda>e. refuse ErrInternal))
                   (\<lambda>e. refuse ErrInternal))
            (\<lambda>e. refuse ErrCredential))
       (\<lambda>e. refuse ErrBadRequest)"

text \<open>The access token is taken from the session with a type assertion that panics when it is missing.\<close>

definition handleLogout :: "'w handler \<Rightarrow> session res \<Rightarrow> 'w root_handling" where
  "handleLogout H sess =
     on_ok (io_lift sess)
       (\<lambda>vals. case vals ''access_token'' of
          Some (SessStr accessToken) \<Rightarrow>
            on_ok (RevokeToken (hd_KVS H) accessToken)
              (\<lambda>_. answer (success_response JNull) (Some (vals(''access_token'' := None))))
              (\<lambda>e. refuse ErrInternal)
        | _ \<Rightarrow> io_panic ''interface conversion: interface {} is not string'')
       (\<lambda>e. refuse ErrInternal)"

definition handleLoginResetPassword :: "'w handler \<Rightarrow> session res \<Rightarrow> string \<Rightarrow> 'w root_handling" where
  "handleLoginResetPassword H sess password =
     on_ok (io_lift sess)
       (\<lambda>vals. case vals ''change_password_user_id'' of
          None \<Rightarrow> refuse ErrBadRequest
        | Some (SessStr _) \<Rightarrow> refuse ErrInternal
        | Some (SessUint userId) \<Rightarrow>
            if \<not> isAllowedPassword password then refuse ErrPasswordRule
            else
              on_ok (bc_Generate (hd_bcrypt H) password)
                (\<lambda>hash. on_ok (ud_UpdatePassword (hd_db H) userId hash)
                   (\<lambda>_. answer (success_response JNull)
                      (Some ((vals(''user_id'' \<mapsto> SessUint userId))(''change_password_user_id'' := None))))
                   (\<lambda>e. refuse ErrInternal))
                (\<lambda>e. refuse ErrInternal))
       (\<lambda>e. refuse ErrInternal)"

definition handleSessionData :: "'w handler \<Rightarrow> session res \<Rightarrow> 'w root_handling" where
  "handleSessionData H sess =
     on_ok (io_lift sess)
       (\<lambda>vals. case vals ''access_token'' of
          Some (SessStr accessToken) \<Rightarrow>
            on_ok (auth_Get (hd_KVS H) accessToken)
              (\<lambda>t. answer (success_response (enc_SessionData (True, tk_Token t))) None)
              (\<lambda>e. answer (success_response (enc_SessionData (False, []))) None)
        | _ \<Rightarrow> answer (success_response (enc_SessionData (False, []))) None)
       (\<lambda>e. refuse ErrInternal)"

text \<open>\<open>handleHealth\<close>: the database is asked only when Redis answers.\<close>

definition handleHealth :: "('w, unit) io \<Rightarrow> ('w, unit) io \<Rightarrow> 'w api_handling" where
  "handleHealth ping select1 =
     on_ok ping
       (\<lambda>_. on_ok select1 (\<lambda>_. reply 200 (RText ''ok'')) (\<lambda>e. reply 500 (RText ''error'')))
       (\<lambda>e. reply 500 (RText ''error''))"

text \<open>A \<open>POST\<close> must come from the configured origin.\<close>

definition originMiddleware :: "cp_config \<Rightarrow> string \<Rightarrow> string \<Rightarrow> 'w root_handling \<Rightarrow> 'w root_handling" where
  "originMiddleware cfg method origin next =
     (if method = ''POST'' \<and> origin \<noteq> cfg_Origin cfg then refuse ErrBadRequest else next)"

section \<open>The first password\<close>

lemma active_set_password:
  assumes "active_user (\<lambda>u. us_Name u = n) us = Some u"
    and "\<And>v. v \<in> set us \<Longrightarrow> us_ID v = us_ID u \<Longrightarrow> v = u"
  shows "active_user (\<lambda>u. us_Name u = n) (set_password (us_ID u) h us) = Some (u\<lparr>us_Password := h, us_Initialized := True\<rparr>)"
  using assms
proof (induction us)
  case (Cons v us)
  show ?case
  proof (cases "us_Name v = n \<and> \<not> us_Deleted v")
    case True
    with Cons.prems(1) have "v = u" by (simp add: active_user_def)
    with True show ?thesis by (simp add: active_user_def set_password_def)
  next
    case False
    with Cons.prems(1) have u: "active_user (\<lambda>u. us_Name u = n) us = Some u" by (simp add: active_user_def)
    then have "u \<in> set us" "us_Name u = n" "\<not> us_Deleted u" by (auto simp: active_user_def find_Some_iff)
    with False have "v \<noteq> u" by auto
    with Cons.prems(2) [of v] have "us_ID v \<noteq> us_ID u" by auto
    with False Cons.IH [OF u] Cons.prems(2) show ?thesis
      by (auto simp: active_user_def set_password_def)
  qed
qed (simp add: active_user_def)

lemma db_select:
  assumes "db_honest db rows"
  obtains w' where "ud_SelectByName db n w =
      ((case active_user (\<lambda>u. us_Name u = n) (rows w) of
          None \<Rightarrow> no_rows | Some u \<Rightarrow> Ok (us_ID u, us_Password u, us_Initialized u)), w')" "rows w' = rows w"
proof -
  from assms have "\<exists>w'. ud_SelectByName db n w =
      ((case active_user (\<lambda>u. us_Name u = n) (rows w) of
          None \<Rightarrow> no_rows | Some u \<Rightarrow> Ok (us_ID u, us_Password u, us_Initialized u)), w') \<and> rows w' = rows w"
    unfolding db_honest_def by (elim conjE) (erule allE, erule allE)
  then show thesis using that by blast
qed

lemma db_update:
  assumes "db_honest db rows"
  obtains w' where "ud_UpdatePassword db i h w = (Ok (), w')" "rows w' = set_password i h (rows w)"
proof -
  from assms have "\<exists>w'. ud_UpdatePassword db i h w = (Ok (), w') \<and> rows w' = set_password i h (rows w)"
    unfolding db_honest_def by simp
  then show thesis using that by blast
qed

text \<open>
  Property C21: setting the first password lets the user in.  A user who logged in before their
  account was initialised and then sets an allowed password can log in with it: the login
  asks for no change, and the token it saves in the session authorises requests to the API
  as that user with the admin scope.
\<close>

theorem reset_then_login:
  assumes "redis_honest (hd_redis H) view" and "hd_KVS H = NewRedis (hd_redis H)"
    and "db_honest (hd_db H) rows" and "bcrypt_honest (hd_bcrypt H)"
    and "active_user (\<lambda>u. us_Name u = name) (rows w) = Some u"
    and "\<And>v. v \<in> set (rows w) \<Longrightarrow> us_ID v = us_ID u \<Longrightarrow> v = u" and "0 \<le> us_ID u" and "us_ID u < 2 ^ 64"
    and "vals ''change_password_user_id'' = Some (SessUint (us_ID u))" and "isAllowedPassword password"
    and "bc_Generate (hd_bcrypt H) password w = (Ok hash, w0)" and "rows w0 = rows w"
  shows "\<exists>vals1 w1 vals2 w2 t w3.
    handleLoginResetPassword H (Ok vals) password w
      = (Ok (\<lparr>rp_Status = 200, rp_Body = RJson (success_response JNull)\<rparr>, Some vals1), w1)
    \<and> handleLogin H (Ok vals1) key now (Ok (name, password)) w1
      = (Ok (\<lparr>rp_Status = 200, rp_Body = RJson (success_response (enc_SessionState False))\<rparr>, Some vals2), w2)
    \<and> vals2 ''access_token'' = Some (SessStr (base32 key))
    \<and> GetFromRequest (hd_KVS H) (''Bearer '' @ base32 key) w2 = (Ok t, w3)
    \<and> tk_UserID t = us_ID u \<and> HasScope t ScopeAdmin"
proof -
  let ?u = "u\<lparr>us_Password := hash, us_Initialized := True\<rparr>"
  let ?vals1 = "(vals(''user_id'' \<mapsto> SessUint (us_ID u)))(''change_password_user_id'' := None)"
  obtain w1 where w1: "ud_UpdatePassword (hd_db H) (us_ID u) hash w0 = (Ok (), w1)"
    "rows w1 = set_password (us_ID u) hash (rows w0)" using db_update [OF assms(3)] .
  have reset: "handleLoginResetPassword H (Ok vals) password w
      = (Ok (\<lparr>rp_Status = 200, rp_Body = RJson (success_response JNull)\<rparr>, Some ?vals1), w1)"
    using assms(9-11) w1(1) by (simp add: handleLoginResetPassword_def on_ok_def answer_def io_run)
  have act: "active_user (\<lambda>u. us_Name u = name) (rows w1) = Some ?u"
    using active_set_password [OF assms(5,6)] w1(2) assms(12) by simp
  obtain w2 where w2: "ud_SelectByName (hd_db H) name w1 = (Ok (us_ID u, hash, True), w2)"
    by (rule db_select [OF assms(3), of name w1]) (simp add: act)
  obtain t w3 t' w4 where t: "CreateToken (NewRedis (hd_redis H)) key now (us_ID u) [ScopeAdmin] w2 = (Ok t, w3)"
    "tk_Token t = base32 key" "GetFromRequest (NewRedis (hd_redis H)) (''Bearer '' @ base32 key) w3 = (Ok t', w4)"
    "tk_UserID t' = us_ID u" "HasScope t' ScopeAdmin \<longleftrightarrow> ScopeAdmin \<in> set [ScopeAdmin]"
    using CreateToken_authorises [OF assms(1,7,8)] .
  have "bc_Compare (hd_bcrypt H) hash password" using assms(4,11) by (auto simp: bcrypt_honest_def)
  with w2 t(1,2) assms(2) have login: "handleLogin H (Ok ?vals1) key now (Ok (name, password)) w1
      = (Ok (\<lparr>rp_Status = 200, rp_Body = RJson (success_response (enc_SessionState False))\<rparr>,
          Some (?vals1(''access_token'' \<mapsto> SessStr (base32 key)))), w3)"
    by (simp add: handleLogin_def on_ok_def answer_def io_run)
  have auth: "GetFromRequest (hd_KVS H) (''Bearer '' @ base32 key) w3 = (Ok t', w4)" "HasScope t' ScopeAdmin"
    using t(3,5) assms(2) by (simp_all only:) simp
  show ?thesis
    by (rule exI [of _ ?vals1], rule exI [of _ w1], rule exI [of _ "?vals1(''access_token'' \<mapsto> SessStr (base32 key))"],
        rule exI [of _ w3], rule exI [of _ t'], rule exI [of _ w4], intro conjI reset login auth t(4)) simp
qed

text \<open>A handler whose state is the store beside the table of users.\<close>

definition beside_rows :: "(redis_view, 'a) io \<Rightarrow> (redis_view \<times> user list, 'a) io" where
  "beside_rows m = (\<lambda>(r, us). case m r of (x, r') \<Rightarrow> (x, (r', us)))"

definition rows_redis :: "(redis_view \<times> user list) redis" where
  "rows_redis = \<lparr>rds_Set = (\<lambda>k v ttl. beside_rows (rds_Set mem_redis k v ttl)), rds_Get = (\<lambda>k. beside_rows (rds_Get mem_redis k)),
     rds_SetGet = (\<lambda>k v ttl. beside_rows (rds_SetGet mem_redis k v ttl)), rds_Del = (\<lambda>ks. beside_rows (rds_Del mem_redis ks)),
     rds_RPush = (\<lambda>k v. beside_rows (rds_RPush mem_redis k v)), rds_LPop = (\<lambda>k. beside_rows (rds_LPop mem_redis k)),
     rds_Publish = (\<lambda>c v. beside_rows (rds_Publish mem_redis c v))\<rparr>"

definition fresh_id :: "user list \<Rightarrow> int" where
  "fresh_id us = foldr (\<lambda>u m. max m (us_ID u + 1)) us 1"

definition rows_db :: "(redis_view \<times> user list) user_db" where
  "rows_db = \<lparr>ud_SelectByName = (\<lambda>n (r, us). ((case active_user (\<lambda>u. us_Name u = n) us of
        None \<Rightarrow> no_rows | Some u \<Rightarrow> Ok (us_ID u, us_Password u, us_Initialized u)), (r, us))),
     ud_SelectPassword = (\<lambda>i (r, us). ((case active_user (\<lambda>u. us_ID u = i) us of
        None \<Rightarrow> no_rows | Some u \<Rightarrow> Ok (us_Password u)), (r, us))),
     ud_UpdatePassword = (\<lambda>i h (r, us). (Ok (), (r, set_password i h us))),
     ud_Insert = (\<lambda>u (r, us). if us_Name u \<in> us_Name ` set us then (Err (Ext ''duplicate key''), (r, us))
        else (Ok (), (r, us @ [u\<lparr>us_ID := fresh_id us\<rparr>])))\<rparr>"

lemma fresh_id_gt: "u \<in> set us \<Longrightarrow> us_ID u < fresh_id us"
  by (induction us) (auto simp: fresh_id_def)

lemma rows_db_honest: "db_honest rows_db snd"
  using fresh_id_gt by (force simp: db_honest_def rows_db_def)

lemma rows_redis_honest: "redis_honest rows_redis fst"
  by (auto simp: redis_honest_def rows_redis_def beside_rows_def mem_redis_def split: prod.split cong: if_cong)

definition rows_handler :: "(redis_view \<times> user list) handler" where
  "rows_handler = \<lparr>hd_cfg = hd_cfg demo_handler, hd_redis = rows_redis, hd_KVS = NewRedis rows_redis,
     hd_MCVersions = undefined, hd_world = undefined, hd_launcher = undefined, hd_client = undefined, hd_db = rows_db,
     hd_bcrypt = \<lparr>bc_Generate = (\<lambda>p w. (Ok (CHR ''#'' # p), w)), bc_Compare = (\<lambda>h p. h = CHR ''#'' # p)\<rparr>,
     hd_sortGens = (\<lambda>xs. xs), hd_sortObjs = (\<lambda>xs. xs)\<rparr>"

definition demo_user :: user where
  "demo_user = \<lparr>us_ID = 7, us_Name = ''alice'', us_Password = ''#temp1234'', us_AddedByUserID = None,
     us_Initialized = False, us_Deleted = False\<rparr>"

lemma reset_then_login_witness:
  "\<exists>vals1 w1 vals2 w2 t w3.
    handleLoginResetPassword rows_handler (Ok [''change_password_user_id'' \<mapsto> SessUint 7]) ''secret99'' (empty_view, [demo_user])
      = (Ok (\<lparr>rp_Status = 200, rp_Body = RJson (success_response JNull)\<rparr>, Some vals1), w1)
    \<and> handleLogin rows_handler (Ok vals1) [1, 2] ''t'' (Ok (''alice'', ''secret99'')) w1
      = (Ok (\<lparr>rp_Status = 200, rp_Body = RJson (success_response (enc_SessionState False))\<rparr>, Some vals2), w2)
    \<and> vals2 ''access_token'' = Some (SessStr (base32 [1, 2]))
    \<and> GetFromRequest (hd_KVS rows_handler) (''Bearer '' @ base32 [1, 2]) w2 = (Ok t, w3)
    \<and> tk_UserID t = us_ID demo_user \<and> HasScope t ScopeAdmin"
proof (rule reset_then_login)
  show "redis_honest (hd_redis rows_handler) fst" "hd_KVS rows_handler = NewRedis (hd_redis rows_handler)"
    "db_honest (hd_db rows_handler) snd" "bcrypt_honest (hd_bcrypt rows_handler)"
    by (simp_all add: rows_handler_def rows_redis_honest rows_db_honest bcrypt_honest_def)
  show "active_user (\<lambda>u. us_Name u = ''alice'') (snd (empty_view, [demo_user])) = Some demo_user"
    "\<And>v. v \<in> set (snd (empty_view, [demo_user])) \<Longrightarrow> us_ID v = us_ID demo_user \<Longrightarrow> v = demo_user"
    "0 \<le> us_ID demo_user" "us_ID demo_user < 2 ^ 64"
    "[''change_password_user_id'' \<mapsto> SessUint 7] ''change_password_user_id'' = Some (SessUint (us_ID demo_user))"
    by (simp_all add: active_user_def demo_user_def)
  show "isAllowedPassword ''secret99''" by (simp add: isAllowedPassword_def contains_any_def)
  show "bc_Generate (hd_bcrypt rows_handler) ''secret99'' (empty_view, [demo_user]) = (Ok ''#secret99'', (empty_view, [demo_user]))"
    by (simp add: rows_handler_def)
qed (rule refl)

text \<open>
  Logging out without being logged in crashes the request.  A session that has no
  access token makes the logout panic instead of answering, in every state.
\<close>

lemma logout_without_login_panics:
  assumes "vals ''access_token'' = None"
  shows "\<exists>p. handleLogout H (Ok vals) w = (Panic p, w)"
  using assms by (simp add: handleLogout_def on_ok_def io_run)

end
