(* ===== verification/Accounts.thy ===== *)
theory Accounts
  imports RootHandlers
begin

text \<open>
  The users from the operator's side: the \<open>user\<close> commands of \<open>pmctl\<close> and the database client of
  \<open>common/db/db.go\<close>.  The flags are parsed elsewhere; the environment, the terminal, the database and
  bcrypt are parameters.
\<close>

section \<open>The connection\<close>

record conn_options =
  co_Host :: string
  co_Port :: int
  co_User :: string
  co_Password :: string
  co_Database :: string
  co_SSLMode :: string
  co_CACertPath :: string

text \<open>
  \<open>loadCertPool\<close>: a file without a certificate gives no pool and, as the error of the read is the one
  that is returned, no error.
\<close>

definition loadCertPool :: "(string \<Rightarrow> ('w, string) io) \<Rightarrow> (string \<Rightarrow> bool) \<Rightarrow> string \<Rightarrow> ('w, string option) io" where
  "loadCertPool readFile isPEM path =
     io_bind (readFile path) (\<lambda>text. if \<not> isPEM text then io_ret None else io_ret (Some text))"

text \<open>How the connection is secured: not at all, or with TLS for a host and a pool (\<open>None\<close> is the host's own).\<close>

datatype pg_security = Insecure | VerifyTLS string "string option"

record pg_client =
  pc_Addr :: string
  pc_UserPassword :: "string \<times> string"
  pc_DBName :: string
  pc_Security :: pg_security

definition pg_security_of :: "(string \<Rightarrow> ('w, string) io) \<Rightarrow> (string \<Rightarrow> bool) \<Rightarrow> conn_options \<Rightarrow> ('w, pg_security) io" where
  "pg_security_of readFile isPEM o1 =
     (if co_SSLMode o1 \<noteq> ''verify-full'' then io_ret Insecure
      else if co_CACertPath o1 = [] then io_ret (VerifyTLS (co_Host o1) None)
      else io_bind (loadCertPool readFile isPEM (co_CACertPath o1)) (\<lambda>p. io_ret (VerifyTLS (co_Host o1) p)))"

definition db_NewClient :: "(string \<Rightarrow> ('w, string) io) \<Rightarrow> (string \<Rightarrow> bool) \<Rightarrow> conn_options \<Rightarrow> ('w, pg_client) io" where
  "db_NewClient readFile isPEM o1 =
     io_bind (pg_security_of readFile isPEM o1) (\<lambda>s.
     io_ret \<lparr>pc_Addr = co_Host o1 @ '':'' @ fmt_d (co_Port o1), pc_UserPassword = (co_User o1, co_Password o1),
       pc_DBName = co_Database o1, pc_Security = s\<rparr>)"

section \<open>The commands\<close>

text \<open>
  What a command works with: the environment, the first line of the standard input, bcrypt, and the
  statements it runs on the database.  Leaving with status 1 is an error.
\<close>

record 'w account_ops =
  ao_Getenv :: "string \<Rightarrow> string"
  ao_ReadFile :: "string \<Rightarrow> ('w, string) io"
  ao_isPEM :: "string \<Rightarrow> bool"
  ao_ReadLine :: "('w, string) io"
  ao_bcrypt :: "'w bcrypt"
  ao_Insert :: "pg_client \<Rightarrow> user \<Rightarrow> ('w, unit) io"
  ao_UpdatePassword :: "pg_client \<Rightarrow> string \<Rightarrow> string \<Rightarrow> ('w, unit) io"
  ao_Rename :: "pg_client \<Rightarrow> string \<Rightarrow> string \<Rightarrow> ('w, unit) io"

definition exit_1 :: "('w, 'a) io" where
  "exit_1 = io_err (Msg ''exit status 1'')"

definition createClient :: "'w account_ops \<Rightarrow> ('w, pg_client) io" where
  "createClient A =
     (let host = ao_Getenv A ''PREMISES_POSTGRES_HOST''; portStr = ao_Getenv A ''PREMISES_POSTGRES_PORT'';
          user = ao_Getenv A ''PREMISES_POSTGRES_USER''; database = ao_Getenv A ''PREMISES_POSTGRES_DB'' in
      if host = [] \<or> portStr = [] \<or> user = [] \<or> database = [] then exit_1
      else
        (case go_atoi portStr of
           Ok port \<Rightarrow>
             io_bind (io_try (db_NewClient (ao_ReadFile A) (ao_isPEM A)
               \<lparr>co_Host = host, co_Port = port, co_User = user, co_Password = ao_Getenv A ''PREMISES_POSTGRES_PASSWORD'',
                co_Database = database, co_SSLMode = ao_Getenv A ''PREMISES_POSTGRES_SSL_MODE'',
                co_CACertPath = ao_Getenv A ''PREMISES_POSTGRES_CA_CERT_PATH''\<rparr>)) (\<lambda>r.
             case r of Ok c \<Rightarrow> io_ret c | _ \<Rightarrow> exit_1)
         | _ \<Rightarrow> exit_1))"

definition readPasswordStdin :: "'w account_ops \<Rightarrow> ('w, string) io" where
  "readPasswordStdin A = ao_ReadLine A"

definition password_of :: "'w account_ops \<Rightarrow> bool \<Rightarrow> string \<Rightarrow> ('w, string) io" where
  "password_of A passwordStdin password = (if passwordStdin then readPasswordStdin A else io_ret password)"

record account_options =
  op_Name :: string
  op_NewName :: string
  op_Password :: string
  op_PasswordStdin :: bool
  op_Initialized :: bool

definition RunAddUser :: "'w account_ops \<Rightarrow> account_options \<Rightarrow> ('w, unit) io" where
  "RunAddUser A x =
     io_bind (password_of A (op_PasswordStdin x) (op_Password x)) (\<lambda>password.
     io_bind (createClient A) (\<lambda>db.
     io_bind (bc_Generate (ao_bcrypt A) password) (\<lambda>hash.
     ao_Insert A db \<lparr>us_ID = 0, us_Name = op_Name x, us_Password = hash, us_AddedByUserID = None,
       us_Initialized = op_Initialized x, us_Deleted = False\<rparr>)))"

definition RunResetPassword :: "'w account_ops \<Rightarrow> account_options \<Rightarrow> ('w, unit) io" where
  "RunResetPassword A x =
     io_bind (password_of A (op_PasswordStdin x) (op_Password x)) (\<lambda>password.
     io_bind (createClient A) (\<lambda>db.
     io_bind (bc_Generate (ao_bcrypt A) password) (\<lambda>hash.
     ao_UpdatePassword A db (op_Name x) hash)))"

definition RunRename :: "'w account_ops \<Rightarrow> account_options \<Rightarrow> ('w, unit) io" where
  "RunRename A x = io_bind (createClient A) (\<lambda>db. ao_Rename A db (op_Name x) (op_NewName x))"

section \<open>What the statements do\<close>

definition reset_password :: "string \<Rightarrow> string \<Rightarrow> user list \<Rightarrow> user list" where
  "reset_password n h us =
     map (\<lambda>u. if us_Name u = n \<and> \<not> us_Deleted u then u\<lparr>us_Password := h, us_Initialized := False\<rparr> else u) us"

definition accounts_honest :: "'w account_ops \<Rightarrow> ('w \<Rightarrow> user list) \<Rightarrow> bool" where
  "accounts_honest A rows =
     (bcrypt_honest (ao_bcrypt A)
    \<and> (\<forall>p w. rows (snd (bc_Generate (ao_bcrypt A) p w)) = rows w)
    \<and> (\<forall>w. rows (snd (ao_ReadLine A w)) = rows w) \<and> (\<forall>p w. rows (snd (ao_ReadFile A p w)) = rows w)
    \<and> (\<forall>c n h w. \<exists>w'. ao_UpdatePassword A c n h w = (Ok (), w') \<and> rows w' = reset_password n h (rows w)))"

lemma keeps_createClient:
  assumes "accounts_honest A rows"
  shows "keeps rows (createClient A)"
proof -
  have "keeps rows (ao_ReadFile A p)" for p using assms by (simp add: accounts_honest_def keeps_def)
  then show ?thesis
    by (auto simp: createClient_def db_NewClient_def pg_security_of_def loadCertPool_def exit_1_def Let_def
        intro!: keeps_intros split: res.split)
qed

text \<open>What a reset that reports no error has done.\<close>

lemma RunResetPassword_Ok:
  assumes "accounts_honest A rows" and run: "RunResetPassword A x w = (Ok (), w')" and "\<not> op_PasswordStdin x"
  shows "\<exists>hash. bc_Compare (ao_bcrypt A) hash (op_Password x) \<and> rows w' = reset_password (op_Name x) hash (rows w)"
proof -
  have "io_bind (createClient A) (\<lambda>db. io_bind (bc_Generate (ao_bcrypt A) (op_Password x)) (\<lambda>hash.
     ao_UpdatePassword A db (op_Name x) hash)) w = (Ok (), w')"
    using run assms(3) by (simp add: RunResetPassword_def password_of_def io_bind_def io_ret_def)
  then obtain db w1 where w1: "createClient A w = (Ok db, w1)"
    "io_bind (bc_Generate (ao_bcrypt A) (op_Password x)) (\<lambda>hash. ao_UpdatePassword A db (op_Name x) hash) w1 = (Ok (), w')"
    by (rule io_bind_OkE)
  from w1(2) obtain hash w2 where w2: "bc_Generate (ao_bcrypt A) (op_Password x) w1 = (Ok hash, w2)"
    "ao_UpdatePassword A db (op_Name x) hash w2 = (Ok (), w')" by (rule io_bind_OkE)
  have "rows w1 = rows w" using keepsD [OF keeps_createClient [OF assms(1)] w1(1)] .
  moreover have "rows w2 = rows w1" using assms(1) w2(1) unfolding accounts_honest_def by (metis snd_conv)
  moreover have "\<exists>w3. ao_UpdatePassword A db (op_Name x) hash w2 = (Ok (), w3) \<and> rows w3 = reset_password (op_Name x) hash (rows w2)"
    using assms(1) unfolding accounts_honest_def by blast
  moreover have "bc_Compare (ao_bcrypt A) hash (op_Password x)"
    using assms(1) w2(1) unfolding accounts_honest_def bcrypt_honest_def by blast
  ultimately show ?thesis using w2(2) by auto
qed

lemma active_reset:
  "active_user (\<lambda>u. us_Name u = n) us = Some u \<Longrightarrow>
    active_user (\<lambda>u. us_Name u = n) (reset_password n h us) = Some (u\<lparr>us_Password := h, us_Initialized := False\<rparr>)"
  by (induction us) (auto simp: active_user_def reset_password_def split: if_splits)

text \<open>
  Property C26: a password the operator sets lets the user in only to change it.  When the reset command
  reports no error, a web login with the new password is accepted, asks for a change of the password and
  notes who may change it; it gives no access token, and whatever was in the session stays.
\<close>

theorem operator_reset_forces_change:
  assumes "accounts_honest A rows" and "db_honest (hd_db H) rows" and "hd_bcrypt H = ao_bcrypt A"
    and "active_user (\<lambda>u. us_Name u = op_Name x) (rows w) = Some u"
    and "RunResetPassword A x w = (Ok (), w1)" and "\<not> op_PasswordStdin x"
  shows "\<exists>w2. handleLogin H (Ok vals) key now (Ok (op_Name x, op_Password x)) w1
    = (Ok (\<lparr>rp_Status = 200, rp_Body = RJson (success_response (enc_SessionState True))\<rparr>,
        Some (vals(''change_password_user_id'' \<mapsto> SessUint (us_ID u)))), w2)"
proof -
  obtain hash where h: "bc_Compare (ao_bcrypt A) hash (op_Password x)" "rows w1 = reset_password (op_Name x) hash (rows w)"
    using RunResetPassword_Ok [OF assms(1,5,6)] by blast
  have act: "active_user (\<lambda>u. us_Name u = op_Name x) (rows w1) = Some (u\<lparr>us_Password := hash, us_Initialized := False\<rparr>)"
    using active_reset [OF assms(4)] h(2) by simp
  obtain w2 where "ud_SelectByName (hd_db H) (op_Name x) w1 = (Ok (us_ID u, hash, False), w2)"
    by (rule db_select [OF assms(2), of "op_Name x" w1]) (simp add: act)
  then show ?thesis using h(1) assms(3) by (simp add: handleLogin_def on_ok_def answer_def io_run)
qed

definition demo_accounts :: "(redis_view \<times> user list) account_ops" where
  "demo_accounts =
     \<lparr>ao_Getenv = \<lambda>k. if k = ''PREMISES_POSTGRES_PORT'' then ''5432'' else ''x'', ao_ReadFile = \<lambda>p. io_err NotExist, ao_isPEM = \<lambda>t. True,
      ao_ReadLine = io_err EOF, ao_bcrypt = hd_bcrypt rows_handler, ao_Insert = \<lambda>c u. io_ret (),
      ao_UpdatePassword = \<lambda>c n h (r, us). (Ok (), (r, reset_password n h us)), ao_Rename = \<lambda>c n m. io_ret ()\<rparr>"

definition demo_reset :: account_options where
  "demo_reset = \<lparr>op_Name = ''alice'', op_NewName = [], op_Password = ''temp1234'', op_PasswordStdin = False, op_Initialized = False\<rparr>"

lemma demo_reset_run:
  "RunResetPassword demo_accounts demo_reset (empty_view, [demo_user]) = (Ok (), (empty_view, reset_password ''alice'' ''#temp1234'' [demo_user]))"
proof -
  have "go_atoi ''5432'' = Ok 5432" by code_simp
  then show ?thesis
    by (simp add: RunResetPassword_def demo_accounts_def demo_reset_def password_of_def createClient_def db_NewClient_def
        pg_security_of_def rows_handler_def io_bind_def io_ret_def io_try_def Let_def)
qed

lemma operator_reset_forces_change_witness:
  "\<exists>w1 w2. RunResetPassword demo_accounts demo_reset (empty_view, [demo_user]) = (Ok (), w1)
    \<and> handleLogin rows_handler (Ok Map.empty) [1] ''t'' (Ok (op_Name demo_reset, op_Password demo_reset)) w1
    = (Ok (\<lparr>rp_Status = 200, rp_Body = RJson (success_response (enc_SessionState True))\<rparr>,
        Some (Map.empty(''change_password_user_id'' \<mapsto> SessUint (us_ID demo_user)))), w2)"
proof -
  have h: "accounts_honest demo_accounts snd" "db_honest (hd_db rows_handler) snd" "hd_bcrypt rows_handler = ao_bcrypt demo_accounts"
    "active_user (\<lambda>u. us_Name u = op_Name demo_reset) (snd (empty_view, [demo_user])) = Some demo_user" "\<not> op_PasswordStdin demo_reset"
    using rows_db_honest
    by (auto simp: accounts_honest_def demo_accounts_def bcrypt_honest_def rows_handler_def io_run active_user_def demo_reset_def demo_user_def)
  show ?thesis using operator_reset_forces_change [OF h(1-4) demo_reset_run h(5)] demo_reset_run by blast
qed

end
