(* ===== verification/Spec2Isabelle.thy ===== *)
theory Spec2Isabelle
  imports NbtSpec Cron Connector McLauncher Host Meter Setup Accounts
begin

text \<open>
  A model of the back end of Premises (\<open>src/backend\<close>, in Go): a control plane that lends a Minecraft
  server on a cloud for as long as it is played on, and the runner, the program on that machine.

  \<^bold>\<open>The program.\<close>  The control plane (\<open>ctrlplane\<close>) answers users and API clients over HTTP, keeps what it
  knows in Redis (keys, queues, messages) and PostgreSQL (users), the worlds in an object store, and starts
  and stops the machine through the cloud's API.  A launch locks the instance, writes the
  configuration into a startup script, creates the machine and hands it the script.  On the machine the
  daemon \<open>exteriord\<close> (\<open>runner/commands/exteriord\<close>) starts the other processes of the runner in the order of
  their dependencies: setup, launcher, meter, connector, update, snapshot helper, clean-up.  They
  talk to the daemon over JSON-RPC on Unix sockets; the daemon posts their events to the control plane and
  polls it for actions.  The launcher downloads the world, prepares the server program, runs it, and
  uploads the world when it ends.  Players connect to the proxy of the control plane, which asks the runner
  to open a connection back and joins the two.

  \<^bold>\<open>How the code is modelled.\<close>  Theory \<open>Prelude\<close> holds the vocabulary: an error is a value of \<open>go_error\<close>, what a Go
  call ends with is \<open>Ok\<close>, \<open>Err\<close> or \<open>Panic\<close>, and a call that may change the state \<open>'w\<close> is a function from the state to a
  result and a state (\<open>('w, 'a) io\<close>), sequenced by \<open>io_bind\<close> as \<open>if err != nil { return err }\<close> does.  A Go struct is a
  record, an enumeration a datatype, a machine integer a word or an \<open>int\<close> with its wrap-around written
  out.  A loop that may not end is a \<open>partial_function (option)\<close>, \<open>None\<close> being that it does not; interleavings are
  inductive step relations.  Code outside the repository is a parameter: the drivers of Redis, SQL, S3 and
  the cloud are records of functions on an arbitrary state, and what is relied on of them is a
  named hypothesis or a locale, such as \<open>redis_honest\<close> (Redis answers what was stored), \<open>redis_timed\<close> (and forgets a
  key when its time is up), \<open>s3_pages\<close> (a listing is a chain of pages) or \<open>s3_honest\<close> (what the object store may do, its failures,
  its limit of 1000 keys and the errors of single keys included).  Definitions have the names of the code.

  \<^bold>\<open>Foundations.\<close>
  \<^item> \<open>Prelude\<close>: results and calls, \<open>strings\<close>, \<open>strconv\<close>, \<open>bytes\<close>; the collections \<open>io_simps\<close>, \<open>str_simps\<close> and \<open>keeps_intros\<close>
    (what a call leaves unchanged) that the proofs share.  \<open>GoTime\<close>: \<open>time.Parse\<close> and \<open>path\<close>.
  \<^item> \<open>Json\<close>, \<open>JsonText\<close>: \<open>encoding/json\<close>, first as values with decoders of structs, then as text.  Every text that is
    written is parsed back (\<open>json_parse_text\<close>), and holds no control character (\<open>printable_text\<close>); the
    parser's fuel is twice the length of the text and two, one for each value and each separator.
  \<^item> \<open>Entities\<close>: the messages and configurations of \<open>common/entity\<close>, each with its codec and a lemma that
    decoding inverts encoding.
  \<^item> \<open>ByteSource\<close>: the interface of a reader, as the locale \<open>byte_source\<close>; \<open>Disk\<close>: paths, files and directories, and
    \<open>runner/fs\<close> on top of them.

  \<^bold>\<open>Formats.\<close>
  \<^item> \<open>Nbt\<close> (\<open>common/mc/nbt\<close>): the decoder, every tag and every Go destination it fills; \<open>NbtSpec\<close>: documents as
    trees, the refinement of decoding to filling from a tree, and the depth limit.
  \<^item> \<open>Protocol\<close> (\<open>common/mc/protocol\<close>): handshake and status packets; what a handler consumed is replayed whatever
    was read (both through interpretations of \<open>byte_source\<close>), variable-length integers, round trips.
  \<^item> \<open>Rpc\<close> (\<open>runner/rpc\<close>): packets, server and client; a call over the socket is a call of the method, and a method that
    panics closes the connection (the end of its process is not part of the call).  The length of a packet is bounded by \<open>2 ^ 48\<close>, above which Go's \<open>make\<close> panics.

  \<^bold>\<open>The control plane.\<close>
  \<^item> \<open>Store\<close> (\<open>kvs\<close>, \<open>auth\<close>): keys with expiry, tokens and their life of 30 days; \<open>Messaging\<close> (\<open>streaming\<close>, \<open>longpoll\<close>): published events
    and the action queue.
  \<^item> \<open>World\<close> (\<open>s3wrap\<close>, \<open>world\<close>): listing, presigned URLs, pruning under every failure of the store; \<open>Versions\<close> (\<open>launchermeta\<close>, \<open>mcversions\<close>): the cache of versions.
  \<^item> \<open>GameConfig\<close>: validation, and the conversion to what a runner gets: a configuration called valid is
    converted.  \<open>Launcher\<close>: the life of a launch, with the lock as an invariant of a step relation.
  \<^item> \<open>Retry\<close>: the retry loop ends, within its bounds.  \<open>Conoha\<close>, \<open>ConohaServer\<close>: the cloud's API, and the server on it;
    the locale \<open>server_beside_store\<close> says that the server leaves Redis alone, and is interpreted on it.  \<open>Cron\<close>: the jobs.
  \<^item> \<open>Monitor\<close>, \<open>WebBase\<close>, \<open>ApiHandlers\<close>, \<open>RootHandlers\<close>, \<open>RunnerHandlers\<close>: the HTTP handlers, each whole: guards, answers,
    jobs started in the background.  \<open>ApiProps\<close>: who may call what.  \<open>Accounts\<close> (\<open>pmctl user\<close>, \<open>db\<close>): the operator's side.
  \<^item> \<open>Proxy\<close> (\<open>proxy\<close>): connections, connectors, the pool and the mutex as a step relation; how a
    late connector stops it.

  \<^bold>\<open>The runner.\<close>
  \<^item> \<open>RunnerApi\<close>, \<open>Outbound\<close>: its HTTP client and the loop of events and polling; an action reaches the runner,
    events are posted in order and handled, and what is lost when nobody polls.
  \<^item> \<open>Exteriord\<close>: the state store behind the daemon's methods; locale \<open>state_backend\<close> is what is
    promised of a backend, \<open>honest_disk\<close> what the file backend needs, and a sublocale says the one gives the other.
  \<^item> \<open>Scheduler\<close>: tasks and processes of the daemon; it returns exactly if the dependencies can be ordered.  A round
    completes at least one task, so the number of tasks bounds the rounds (\<open>sched_rounds\<close>).
  \<^item> \<open>McCore\<close>, \<open>McMiddleware\<close>, \<open>Archive\<close>, \<open>WorldFiles\<close>, \<open>ServerProps\<close>, \<open>Rcon\<close>, \<open>Watchdog\<close>, \<open>McApis\<close>, \<open>McLauncher\<close>: the launcher,
    from its core through each middleware to its composition; locales \<open>state_repo\<close> and \<open>runner_state\<close> connect it to
    the daemon's store.  A world survives its archives, and a clean exit uploads it.
  \<^item> \<open>Connector\<close>, \<open>Meter\<close>, \<open>Setup\<close>, \<open>RunnerMain\<close>, \<open>Host\<close>: the remaining processes, the choice of a command, and the machine: the
    startup script, directories, files, logs and command-line tools.

  \<^bold>\<open>What the lemmas show.\<close>  Each theory states, after its definitions, how every operation behaves on its
  branches, errors included; then what its component promises.  The properties \<open>C1\<close> to \<open>C40\<close>, each
  under a text that names it, are about safety of data and of launches (\<open>C1\<close>, \<open>C2\<close>, \<open>C4\<close>, \<open>C12\<close>), access (\<open>C5\<close>, \<open>C13\<close>), agreement of the
  two programs on what passes between them (\<open>C8\<close>, \<open>C11\<close>, \<open>C19\<close>), ends of loops and of launches, and,
  where the code does not do what it means to, the behaviour it has.

  \<^bold>\<open>Not modelled.\<close>  Telemetry (\<open>otel\<close>), logging and tracing spans; the construction of clients and services
  (\<open>monolith\<close>, \<open>handler.go\<close>, the entry points), migrations, listening on sockets, TLS and its certificates; the fetcher of
  resources, generated mocks and the test doubles under \<open>tools\<close>.  These only call libraries, or are not part
  of the product.  The web front end and the end-to-end tests are in other languages.  Time is what a
  clock or a sleep of the state answers; goroutines that only meet at one point are ordered there,
  and the others are step relations.
\<close>

end
